(* ===== verification/RP_Prelude.thy ===== *)
theory RP_Prelude
  imports Main "HOL-Library.Word" "HOL-Library.Monad_Syntax"
begin

text \<open>
  Shared vocabulary of the development: the machine types of the C sources, the
  fragment of GLib's ASCII and list primitives that several components call, and the
  generic list facts their proofs rest on.
  \<^item> \<open>guint16\<close>, \<open>guint32\<close>, \<open>guint64\<close> are words, so arithmetic wraps as in C.
  \<^item> A C string is a HOL \<open>string\<close>; it holds no NUL byte, and the terminating NUL is
    the end of the list.
  \<^item> An operation that can abort (a failing \<open>g_assert\<close>), dereference a null pointer
    or run forever has an \<open>option\<close> result whose \<open>None\<close> is that outcome.
\<close>

type_synonym guint16 = "16 word"
type_synonym guint32 = "32 word"
type_synonym guint64 = "64 word"

named_theorems rp_defs "definitions of the small accessors, unfolded together"

section \<open>ASCII primitives of GLib\<close>

abbreviation code :: "char \<Rightarrow> nat" where
  "code c \<equiv> of_char c"

definition g_ascii_tolower :: "char \<Rightarrow> char" where
  "g_ascii_tolower c = (if 65 \<le> code c \<and> code c \<le> 90 then char_of (code c + 32) else c)"

definition g_ascii_strcaseeq :: "string \<Rightarrow> string \<Rightarrow> bool" where
  "g_ascii_strcaseeq a b \<longleftrightarrow> map g_ascii_tolower a = map g_ascii_tolower b"

definition g_ascii_isspace :: "char \<Rightarrow> bool" where
  "g_ascii_isspace c \<longleftrightarrow> code c \<in> {9, 10, 12, 13, 32}"

definition g_ascii_isdigit :: "char \<Rightarrow> bool" where
  "g_ascii_isdigit c \<longleftrightarrow> 48 \<le> code c \<and> code c \<le> 57"

definition digit_value :: "char \<Rightarrow> nat" where
  "digit_value c = code c - 48"

definition g_str_has_prefix :: "string \<Rightarrow> string \<Rightarrow> bool" where
  "g_str_has_prefix s p \<longleftrightarrow> take (length p) s = p"

definition g_str_has_suffix :: "string \<Rightarrow> string \<Rightarrow> bool" where
  "g_str_has_suffix s p \<longleftrightarrow> length p \<le> length s \<and> drop (length s - length p) s = p"

lemma g_ascii_strcaseeq_refl [simp]: "g_ascii_strcaseeq a a"
  by (simp add: g_ascii_strcaseeq_def)

lemma g_ascii_strcaseeq_sym: "g_ascii_strcaseeq a b \<Longrightarrow> g_ascii_strcaseeq b a"
  by (simp add: g_ascii_strcaseeq_def)

lemma g_ascii_strcaseeq_trans:
  "g_ascii_strcaseeq a b \<Longrightarrow> g_ascii_strcaseeq b c \<Longrightarrow> g_ascii_strcaseeq a c"
  by (simp add: g_ascii_strcaseeq_def)

lemma g_ascii_strcaseeq_length: "g_ascii_strcaseeq a b \<Longrightarrow> length a = length b"
  unfolding g_ascii_strcaseeq_def by (metis length_map)

section \<open>List facts\<close>

lemma nth_drop_Cons: "i < length xs \<Longrightarrow> drop i xs = xs ! i # drop (Suc i) xs"
  by (simp add: Cons_nth_drop_Suc)

lemma dropWhile_le_length [simp]: "length (dropWhile P xs) \<le> length xs"
  by (induction xs) auto

lemma takeWhile_nonempty: "xs \<noteq> [] \<Longrightarrow> P (hd xs) \<Longrightarrow> takeWhile P xs \<noteq> []"
  by (cases xs) auto

lemma dropWhile_hd_not: "dropWhile P xs = y # ys \<Longrightarrow> \<not> P y"
  by (induction xs) (auto split: if_splits)

lemma set_dropWhile_subset: "set (dropWhile P xs) \<subseteq> set xs"
  by (induction xs) auto

lemma count_list_distinct: "distinct xs \<Longrightarrow> count_list xs x = (if x \<in> set xs then 1 else 0)"
  by (induction xs) auto

section \<open>Reachable states\<close>

inductive reach :: "('s \<Rightarrow> bool) \<Rightarrow> ('s \<Rightarrow> 's \<Rightarrow> bool) \<Rightarrow> 's \<Rightarrow> bool"
  for init step where
  start: "init s \<Longrightarrow> reach init step s"
| next_step: "reach init step s \<Longrightarrow> step s t \<Longrightarrow> reach init step t"

text \<open>Sequences of calls: their execution, which fails where a call fails, and that each call is one
  the component accepts in the state it is made in.\<close>

fun run_calls :: "('c \<Rightarrow> 's \<Rightarrow> 's option) \<Rightarrow> 'c list \<Rightarrow> 's \<Rightarrow> 's option" where
  "run_calls exec [] s = Some s"
| "run_calls exec (c # cs) s = Option.bind (exec c s) (run_calls exec cs)"

lemma run_calls_Nil [simp]: "run_calls exec [] = Some"
  by (rule ext) simp

fun accepted :: "('c \<Rightarrow> 's \<Rightarrow> bool) \<Rightarrow> ('c \<Rightarrow> 's \<Rightarrow> 's option) \<Rightarrow> 'c list \<Rightarrow> 's \<Rightarrow> bool" where
  "accepted accepts exec [] s = True"
| "accepted accepts exec (c # cs) s =
     (accepts c s \<and> (case exec c s of None \<Rightarrow> True | Some t \<Rightarrow> accepted accepts exec cs t))"

text \<open>A component as a transition system with an invariant: what holds of the start and is kept by
  every step holds of every reachable state, and a reachable state is never stuck for a call that
  the component accepts.\<close>

locale invariant_system =
  fixes init :: "'s \<Rightarrow> bool" and accepts :: "'c \<Rightarrow> 's \<Rightarrow> bool" and exec :: "'c \<Rightarrow> 's \<Rightarrow> 's option"
    and inv :: "'s \<Rightarrow> bool"
  assumes init_inv: "init s \<Longrightarrow> inv s"
    and exec_inv: "inv s \<Longrightarrow> accepts c s \<Longrightarrow> \<exists>t. exec c s = Some t \<and> inv t"
begin

abbreviation reachable :: "'s \<Rightarrow> bool" where
  "reachable \<equiv> reach init (\<lambda>s t. \<exists>c. accepts c s \<and> exec c s = Some t)"

lemma reachable_inv: "reachable s \<Longrightarrow> inv s"
proof (induction rule: reach.induct)
  case (next_step s t)
  then show ?case using exec_inv by fastforce
qed (rule init_inv)

lemma run_inv: "inv s \<Longrightarrow> accepted accepts exec cs s \<Longrightarrow> \<exists>t. run_calls exec cs s = Some t \<and> inv t"
proof (induction cs arbitrary: s)
  case (Cons c cs)
  then show ?case using exec_inv [of s c] by fastforce
qed simp

lemma run_reachable:
  "reachable s \<Longrightarrow> accepted accepts exec cs s \<Longrightarrow> run_calls exec cs s = Some t \<Longrightarrow> reachable t"
proof (induction cs arbitrary: s)
  case (Cons c cs)
  then obtain y where y: "exec c s = Some y" "run_calls exec cs y = Some t" by (auto simp: bind_eq_Some_conv)
  then have "reachable y" using Cons.prems by (intro reach.next_step [of init _ s y]) auto
  with Cons y show ?case by simp
qed simp

lemma reachable_progress: "reachable s \<Longrightarrow> accepts c s \<Longrightarrow> \<exists>t. exec c s = Some t \<and> reachable t"
  using exec_inv [OF reachable_inv] reach.next_step by fast

end

end
