(* ===== verification/Active_Client.thy ===== *)
theory Active_Client
  imports RP_Prelude
begin

text \<open>
  One upstream connection of a pool, \<^verbatim>\<open>src/src/common/conn_pool/rp-conn-pool-base-active-client.c\<close>
  together with its HTTP/1 subclass in \<^verbatim>\<open>src/src/http1/rp-http1-conn-pool.c\<close>. The operations
  that reach into the pool (draining, changing the state) are in the theory of the pool.
\<close>

datatype client_state = Connecting | ReadyForEarlyData | Ready | Busy | Draining | Closed

text \<open>\<open>m_stream_wrapper\<close> is the stream in flight, of which an HTTP/1 connection has at most
  one; here whether there is one.\<close>

record active_client =
  m_state :: client_state
  m_remaining_streams :: guint32
  m_configured_stream_limit :: guint32
  m_concurrent_stream_limit :: guint32
  m_stream_wrapper :: bool
  m_resources_released :: bool
  m_timed_out :: bool
  m_has_handshake_completed :: bool

definition translate_zero_to_unlimited :: "guint32 \<Rightarrow> guint32" where
  "translate_zero_to_unlimited lim = (if lim \<noteq> 0 then lim else - 1)"

text \<open>\<open>rp_connection_pool_active_client_init\<close> followed by \<open>constructed\<close>.\<close>

definition active_client_new :: "guint32 \<Rightarrow> guint32 \<Rightarrow> guint32 \<Rightarrow> active_client" where
  "active_client_new lifetime_stream_limit effective_concurrent_streams concurrent_stream_limit =
     \<lparr> m_state = Connecting,
       m_remaining_streams = translate_zero_to_unlimited lifetime_stream_limit,
       m_configured_stream_limit = translate_zero_to_unlimited effective_concurrent_streams,
       m_concurrent_stream_limit = translate_zero_to_unlimited concurrent_stream_limit,
       m_stream_wrapper = False, m_resources_released = False, m_timed_out = False,
       m_has_handshake_completed = False \<rparr>"

definition rp_http1_cp_active_client_new :: "guint32 \<Rightarrow> active_client" where
  "rp_http1_cp_active_client_new max_requests_per_connection =
     active_client_new max_requests_per_connection 1 1"

definition num_active_streams :: "active_client \<Rightarrow> guint32" where
  "num_active_streams c = (if m_stream_wrapper c then 1 else 0)"

definition effective_concurrent_stream_limit :: "active_client \<Rightarrow> guint32" where
  "effective_concurrent_stream_limit c = min (m_remaining_streams c) (m_concurrent_stream_limit c)"

text \<open>The result is a \<open>gint64\<close>, and both operands of the minimum are converted to it.\<close>

definition current_unused_capacity :: "active_client \<Rightarrow> int" where
  "current_unused_capacity c =
     (let remaining_concurrent_streams = uint (m_concurrent_stream_limit c) - uint (num_active_streams c)
      in min (uint (m_remaining_streams c)) remaining_concurrent_streams)"

definition ready_for_stream :: "active_client \<Rightarrow> bool" where
  "ready_for_stream c = (m_state c = Ready)"

definition has_handshake_completed :: "active_client \<Rightarrow> bool" where
  "has_handshake_completed c = (m_state c \<noteq> Connecting)"

definition supports_early_data :: "active_client \<Rightarrow> bool" where
  "supports_early_data c = False"

definition release_resources_base :: "active_client \<Rightarrow> active_client" where
  "release_resources_base c = (if \<not> m_resources_released c then c\<lparr> m_resources_released := True \<rparr> else c)"

definition decr_remaining_streams :: "active_client \<Rightarrow> active_client \<times> guint32" where
  "decr_remaining_streams c =
     (let c' = c\<lparr> m_remaining_streams := m_remaining_streams c - 1 \<rparr> in (c', m_remaining_streams c'))"

definition set_remaining_streams :: "guint32 \<Rightarrow> active_client \<Rightarrow> active_client" where
  "set_remaining_streams n c = c\<lparr> m_remaining_streams := n \<rparr>"

definition set_has_handshake_completed :: "bool \<Rightarrow> active_client \<Rightarrow> active_client" where
  "set_has_handshake_completed v c = c\<lparr> m_has_handshake_completed := v \<rparr>"

definition set_timed_out :: "active_client \<Rightarrow> active_client" where
  "set_timed_out c = c\<lparr> m_timed_out := True \<rparr>"

text \<open>\<open>new_stream_encoder\<close> asserts that no stream is in flight.\<close>

definition new_stream_encoder :: "active_client \<Rightarrow> active_client option" where
  "new_stream_encoder c = (if m_stream_wrapper c then None else Some (c\<lparr> m_stream_wrapper := True \<rparr>))"

section \<open>Lemmas\<close>

text \<open>A connection that takes one stream at a time: it has capacity exactly when it may still carry
  a stream and carries none.\<close>

lemma http1_capacity:
  assumes "m_concurrent_stream_limit c = 1"
  shows "current_unused_capacity c = (if m_stream_wrapper c \<or> m_remaining_streams c = 0 then 0 else 1)"
proof -
  have "m_remaining_streams c \<noteq> 0 \<Longrightarrow> 1 \<le> uint (m_remaining_streams c)"
    by (metis Suc_n_not_le_n int_one_le_iff_zero_less uint_nonnegative order_le_less unsigned_eq_0_iff)
  with assms show ?thesis
    by (auto simp: current_unused_capacity_def num_active_streams_def Let_def)
qed

lemma http1_new_limit: "m_concurrent_stream_limit (rp_http1_cp_active_client_new n) = 1"
  by (simp add: rp_http1_cp_active_client_new_def active_client_new_def translate_zero_to_unlimited_def)

lemma http1_new_remaining: "m_remaining_streams (rp_http1_cp_active_client_new n) \<noteq> 0"
  by (simp add: rp_http1_cp_active_client_new_def active_client_new_def translate_zero_to_unlimited_def)

end
