(* ===== verification/Resources.thy ===== *)
theory Resources
  imports RP_Prelude
begin

text \<open>
  Circuit breakers: \<^verbatim>\<open>src/src/common/common/rp-basic-resource-impl.c\<close> (a counter with a
  maximum), \<^verbatim>\<open>src/src/upstream/rp-managed-resource-impl.c\<close> and
  \<^verbatim>\<open>src/src/upstream/rp-resource-manager-impl.c\<close> (the counters of one cluster and priority).
\<close>

section \<open>A resource limit\<close>

record resource_limit =
  m_runtime_key :: string
  m_max :: guint64
  m_current :: guint64

definition can_create_i :: "resource_limit \<Rightarrow> bool" where
  "can_create_i me = (m_current me < m_max me)"

definition inc_i :: "resource_limit \<Rightarrow> resource_limit" where
  "inc_i me = me\<lparr> m_current := m_current me + 1 \<rparr>"

definition dec_by_i :: "guint64 \<Rightarrow> resource_limit \<Rightarrow> resource_limit" where
  "dec_by_i amount me = me\<lparr> m_current := m_current me - amount \<rparr>"

definition dec_i :: "resource_limit \<Rightarrow> resource_limit" where
  "dec_i me = dec_by_i 1 me"

definition max_i :: "resource_limit \<Rightarrow> guint64" where
  "max_i me = m_max me"

definition count_i :: "resource_limit \<Rightarrow> guint64" where
  "count_i me = m_current me"

definition rp_manage_resource_impl_new :: "guint64 \<Rightarrow> string \<Rightarrow> resource_limit" where
  "rp_manage_resource_impl_new mx runtime_key =
     \<lparr> m_runtime_key = runtime_key, m_max = mx, m_current = 0 \<rparr>"

section \<open>The resource manager\<close>

record resource_manager =
  m_connections :: resource_limit
  m_pending_requests :: resource_limit
  m_requests :: resource_limit
  m_connection_pools :: resource_limit
  m_max_connections_per_host :: guint64

definition managed_resource_new :: "guint64 \<Rightarrow> string \<Rightarrow> string \<Rightarrow> resource_limit" where
  "managed_resource_new mx runtime_key suffix = rp_manage_resource_impl_new mx (runtime_key @ suffix)"

definition rp_resource_manager_impl_new ::
  "string \<Rightarrow> guint64 \<Rightarrow> guint64 \<Rightarrow> guint64 \<Rightarrow> guint64 \<Rightarrow> guint64 \<Rightarrow> resource_manager" where
  "rp_resource_manager_impl_new runtime_key max_connections max_pending_requests max_requests
     max_connection_pools max_connections_per_host =
     \<lparr> m_connections = managed_resource_new max_connections runtime_key ''max_connections'',
       m_pending_requests = managed_resource_new max_pending_requests runtime_key ''max_pending_requests'',
       m_requests = managed_resource_new max_requests runtime_key ''max_requests'',
       m_connection_pools = managed_resource_new max_connection_pools runtime_key ''max_connection_pools'',
       m_max_connections_per_host = max_connections_per_host \<rparr>"

text \<open>
  The four accessors return a pointer to a counter of the manager, here the name of the field
  they point to. All four name the same field.
\<close>

datatype resource_ref = Ref_connections | Ref_pending_requests | Ref_requests | Ref_connection_pools

definition connection_pools_i :: resource_ref where "connection_pools_i = Ref_connection_pools"
definition connections_i :: resource_ref where "connections_i = Ref_connection_pools"
definition pending_requests_i :: resource_ref where "pending_requests_i = Ref_connection_pools"
definition requests_i :: resource_ref where "requests_i = Ref_connection_pools"

definition max_connections_pre_host_i :: "resource_manager \<Rightarrow> guint64" where
  "max_connections_pre_host_i rm = m_max_connections_per_host rm"

primrec deref :: "resource_ref \<Rightarrow> resource_manager \<Rightarrow> resource_limit" where
  "deref Ref_connections rm = m_connections rm"
| "deref Ref_pending_requests rm = m_pending_requests rm"
| "deref Ref_requests rm = m_requests rm"
| "deref Ref_connection_pools rm = m_connection_pools rm"

primrec modify :: "resource_ref \<Rightarrow> (resource_limit \<Rightarrow> resource_limit) \<Rightarrow> resource_manager \<Rightarrow> resource_manager" where
  "modify Ref_connections f rm = rm\<lparr> m_connections := f (m_connections rm) \<rparr>"
| "modify Ref_pending_requests f rm = rm\<lparr> m_pending_requests := f (m_pending_requests rm) \<rparr>"
| "modify Ref_requests f rm = rm\<lparr> m_requests := f (m_requests rm) \<rparr>"
| "modify Ref_connection_pools f rm = rm\<lparr> m_connection_pools := f (m_connection_pools rm) \<rparr>"

text \<open>\<open>can_create_connection_i\<close> of \<^verbatim>\<open>rp-host-description-impl-base.c\<close>; \<open>cx_active\<close> is the number
  of connections the host counts as active.\<close>

definition can_create_connection_i :: "guint64 \<Rightarrow> resource_manager \<Rightarrow> bool" where
  "can_create_connection_i cx_active rm =
     (if cx_active > max_connections_pre_host_i rm then False
      else can_create_i (deref connections_i rm))"

section \<open>The contract of a limit\<close>

text \<open>A run of requests to take (\<open>True\<close>) or release (\<open>False\<close>) a slot; a take is skipped when it is
  not admitted, and \<open>held\<close> counts the slots held. \<open>None\<close> is a release of a slot not held.\<close>

fun take_release ::
  "('l \<Rightarrow> bool) \<Rightarrow> ('l \<Rightarrow> 'l) \<Rightarrow> ('l \<Rightarrow> 'l) \<Rightarrow> bool list \<Rightarrow> nat \<Rightarrow> 'l \<Rightarrow> (nat \<times> 'l) option" where
  "take_release can inc dec [] held l = Some (held, l)"
| "take_release can inc dec (True # ops) held l =
     (if can l then take_release can inc dec ops (held + 1) (inc l)
      else take_release can inc dec ops held l)"
| "take_release can inc dec (False # ops) held l =
     (if held = 0 then None else take_release can inc dec ops (held - 1) (dec l))"

lemma word64_of_nat_le_iff:
  "n < 2 ^ 64 \<Longrightarrow> (of_nat n :: guint64) \<le> m \<longleftrightarrow> n \<le> unat m"
  "n < 2 ^ 64 \<Longrightarrow> (of_nat n :: guint64) < m \<longleftrightarrow> n < unat m"
  by (simp_all add: word_le_nat_alt word_less_nat_alt unsigned_of_nat take_bit_nat_eq_self)

text \<open>What the clients of a limit rely on: a counter that admits below the maximum and is raised
  and lowered by one.\<close>

locale limit =
  fixes can_create :: "'l \<Rightarrow> bool" and inc :: "'l \<Rightarrow> 'l" and dec :: "'l \<Rightarrow> 'l"
    and count :: "'l \<Rightarrow> guint64" and maximum :: "'l \<Rightarrow> guint64"
  assumes admits: "can_create l \<longleftrightarrow> count l < maximum l"
    and inc_count: "count (inc l) = count l + 1" and inc_max: "maximum (inc l) = maximum l"
    and dec_count: "count (dec l) = count l - 1" and dec_max: "maximum (dec l) = maximum l"
begin

definition holds :: "nat \<Rightarrow> 'l \<Rightarrow> bool" where
  "holds held l = (held < 2 ^ 64 \<and> count l = of_nat held \<and> held \<le> unat (maximum l))"

lemma holds_inc: "holds held l \<Longrightarrow> can_create l \<Longrightarrow> holds (held + 1) (inc l)"
  using unsigned_less [of "maximum l", where ?'a = nat]
  by (auto simp: holds_def admits inc_count inc_max word64_of_nat_le_iff)

lemma holds_dec: "holds held l \<Longrightarrow> held \<noteq> 0 \<Longrightarrow> holds (held - 1) (dec l)"
  by (auto simp: holds_def dec_count dec_max of_nat_diff)

lemma run_holds:
  "take_release can_create inc dec ops held l = Some (held', l') \<Longrightarrow> holds held l \<Longrightarrow>
   holds held' l' \<and> maximum l' = maximum l"
proof (induction ops arbitrary: held l)
  case (Cons op ops)
  show ?case
  proof (cases op)
    case True
    with Cons holds_inc show ?thesis by (fastforce simp: inc_max split: if_splits)
  next
    case False
    with Cons holds_dec show ?thesis by (fastforce simp: dec_max split: if_splits)
  qed
qed simp

end

interpretation basic: limit can_create_i inc_i dec_i count_i max_i
  by unfold_locales
    (simp_all add: can_create_i_def count_i_def max_i_def inc_i_def dec_i_def dec_by_i_def)

section \<open>Properties\<close>

text \<open>C24. Taking slots of a fresh limit only when they are admitted, and releasing only slots that
  are held, the counter is always the number of slots held and never exceeds the maximum.\<close>

theorem resource_limit_never_exceeded:
  assumes "take_release can_create_i inc_i dec_i ops 0 (rp_manage_resource_impl_new mx key) = Some (held, l)"
  shows "unat (count_i l) = held \<and> count_i l \<le> mx"
proof -
  have "basic.holds 0 (rp_manage_resource_impl_new mx key)" "max_i (rp_manage_resource_impl_new mx key) = mx"
    by (simp_all add: basic.holds_def rp_manage_resource_impl_new_def count_i_def max_i_def)
  with basic.run_holds [OF assms] have "basic.holds held l" "max_i l = mx" by auto
  then show ?thesis
    by (auto simp: basic.holds_def word64_of_nat_le_iff unsigned_of_nat take_bit_nat_eq_self)
qed

theorem resource_limit_never_exceeded_witness:
  "\<exists>l. take_release can_create_i inc_i dec_i [True, True, False, True] 0 (rp_manage_resource_impl_new 2 ''k'') = Some (2, l) \<and>
     unat (count_i l) = 2 \<and> count_i l \<le> 2"
proof -
  have "take_release can_create_i inc_i dec_i [True, True, False, True] 0 (rp_manage_resource_impl_new 2 ''k'') =
      Some (2, \<lparr> m_runtime_key = ''k'', m_max = 2, m_current = 2 \<rparr>)"
    by (simp add: rp_manage_resource_impl_new_def can_create_i_def inc_i_def dec_i_def dec_by_i_def)
  with resource_limit_never_exceeded [OF this] show ?thesis by blast
qed

text \<open>The limits of a manager are not separate: a request in flight uses up a slot of the
  connections, of the pending requests and of the connection pools, and the configured maxima of
  connections, requests and pending requests bound nothing.\<close>

theorem resource_limits_aliased:
  "deref connections_i (modify requests_i f rm) = f (deref connections_i rm) \<and>
   deref pending_requests_i (modify requests_i f rm) = f (deref pending_requests_i rm) \<and>
   deref connection_pools_i (modify requests_i f rm) = f (deref connection_pools_i rm) \<and>
   deref connections_i (rp_resource_manager_impl_new key mc mp mr mcp mh) =
     deref connections_i (rp_resource_manager_impl_new key mc' mp' mr' mcp mh)"
  by (simp add: connections_i_def pending_requests_i_def connection_pools_i_def requests_i_def
      rp_resource_manager_impl_new_def)

end
