(* ===== verification/Conn_Pool.thy ===== *)
theory Conn_Pool
  imports Complex_Main Active_Client Resources
begin

text \<open>
  The upstream connection pool, \<^verbatim>\<open>src/src/common/conn_pool/rp-conn-pool-base.c\<close>, run with the
  HTTP/1 clients of \<^verbatim>\<open>src/src/http1/rp-http1-conn-pool.c\<close> and the pool callbacks of
  \<^verbatim>\<open>src/src/rp-http-conn-pool-base.c\<close>. A pool is a record; every operation takes it and returns
  the new one, or \<open>None\<close> where the code dereferences NULL, fails an assertion or does not end.
  Callbacks into the router are recorded in the log of the pool and do not call back.
  Closing a connection raises its \<open>LocalClose\<close> event at once, as the client connection does.
\<close>

section \<open>Data\<close>

datatype pool_failure = Overflow | LocalConnectionFailure | RemoteConnectionFailure | Timeout

datatype connection_result = FailedToCreateConnection | CreatedNewConnection | ShouldNotConnect
  | NoConnectionRateLimited | CreatedButRateLimited

datatype cancel_policy = CancelDefault | CloseExcess

datatype drain_behavior = DrainUndefined | DrainAndDelete | DrainExistingConnections

datatype conn_event = EventNone | RemoteClose | LocalClose | Connected | ConnectedZeroRtt

text \<open>What the pool tells the outside: a stream was given a client, a stream failed, an idle
  callback ran.\<close>

datatype pool_event = PoolReady nat nat | PoolFailure pool_failure nat | IdleCb nat

text \<open>Objects handed to the dispatcher for deletion.\<close>

datatype deferred = DeferredWrapper nat | DeferredClient nat

record pending_stream =
  ps_context :: nat
  ps_can_send_early_data :: bool

text \<open>The surroundings of a pool: the cluster's configuration, the number of connections the host
  counts, and which clients the factory manages to create. The preconnect ratio is a
  \<open>float\<close>; products with it are exact here.\<close>

record pool_env =
  max_requests_per_connection :: guint32
  per_upstream_preconnect_ratio :: rat
  cx_active :: guint64
  instantiate_ok :: "nat \<Rightarrow> bool"

text \<open>\<open>struct _RpConnPoolImplBasePrivate\<close>. Clients are numbered; \<open>client\<close> is their store and
  \<open>next_client\<close> the next free number.\<close>

record pool =
  client :: "nat \<Rightarrow> active_client"
  next_client :: nat
  m_ready_clients :: "nat list"
  m_busy_clients :: "nat list"
  m_connecting_clients :: "nat list"
  m_early_data_clients :: "nat list"
  m_pending_streams :: "pending_stream list"
  m_pending_streams_to_purge :: "pending_stream list"
  m_idle_callbacks :: "nat list"
  m_connecting_and_connected_stream_capacity :: int
  m_num_active_streams :: guint32
  m_connecting_stream_capacity :: guint32
  m_is_draining_for_deletion :: bool
  m_upstream_ready_scheduled :: bool
  p_deferred :: "deferred list"
  p_resources :: resource_manager
  p_log :: "pool_event list"

definition rp_conn_pool_impl_base_init :: "resource_manager \<Rightarrow> pool" where
  "rp_conn_pool_impl_base_init rm =
     \<lparr> client = (\<lambda>_. rp_http1_cp_active_client_new 0), next_client = 0,
       m_ready_clients = [], m_busy_clients = [], m_connecting_clients = [], m_early_data_clients = [],
       m_pending_streams = [], m_pending_streams_to_purge = [], m_idle_callbacks = [],
       m_connecting_and_connected_stream_capacity = 0, m_num_active_streams = 0,
       m_connecting_stream_capacity = 0, m_is_draining_for_deletion = False,
       m_upstream_ready_scheduled = False, p_deferred = [], p_resources = rm, p_log = [] \<rparr>"

definition upd_client :: "nat \<Rightarrow> (active_client \<Rightarrow> active_client) \<Rightarrow> pool \<Rightarrow> pool" where
  "upd_client cid f p = p\<lparr> client := (client p)(cid := f (client p cid)) \<rparr>"

definition emit :: "pool_event \<Rightarrow> pool \<Rightarrow> pool" where
  "emit e p = p\<lparr> p_log := p_log p @ [e] \<rparr>"

definition deferred_delete_take :: "deferred \<Rightarrow> pool \<Rightarrow> pool" where
  "deferred_delete_take d p = p\<lparr> p_deferred := p_deferred p @ [d] \<rparr>"

section \<open>Owning lists and states\<close>

datatype which_list = L_connecting | L_early_data | L_ready | L_busy

fun owning_list :: "client_state \<Rightarrow> which_list option" where
  "owning_list Connecting = Some L_connecting"
| "owning_list ReadyForEarlyData = Some L_early_data"
| "owning_list Ready = Some L_ready"
| "owning_list Busy = Some L_busy"
| "owning_list Draining = Some L_busy"
| "owning_list Closed = None"

primrec get_list :: "which_list \<Rightarrow> pool \<Rightarrow> nat list" where
  "get_list L_connecting p = m_connecting_clients p"
| "get_list L_early_data p = m_early_data_clients p"
| "get_list L_ready p = m_ready_clients p"
| "get_list L_busy p = m_busy_clients p"

primrec set_list :: "which_list \<Rightarrow> nat list \<Rightarrow> pool \<Rightarrow> pool" where
  "set_list L_connecting xs p = p\<lparr> m_connecting_clients := xs \<rparr>"
| "set_list L_early_data xs p = p\<lparr> m_early_data_clients := xs \<rparr>"
| "set_list L_ready xs p = p\<lparr> m_ready_clients := xs \<rparr>"
| "set_list L_busy xs p = p\<lparr> m_busy_clients := xs \<rparr>"

text \<open>The capacity is a \<open>gint64\<close>; the deltas are \<open>guint32\<close>, to which the callers' \<open>gint64\<close>
  values are converted.\<close>

definition decr_cluster_stream_capacity :: "guint32 \<Rightarrow> pool \<Rightarrow> pool" where
  "decr_cluster_stream_capacity delta p =
     p\<lparr> m_connecting_and_connected_stream_capacity := m_connecting_and_connected_stream_capacity p - uint delta \<rparr>"

definition incr_cluster_stream_capacity :: "guint32 \<Rightarrow> pool \<Rightarrow> pool" where
  "incr_cluster_stream_capacity delta p =
     p\<lparr> m_connecting_and_connected_stream_capacity := m_connecting_and_connected_stream_capacity p + uint delta \<rparr>"

definition decr_connecting_and_connected_stream_capacity :: "guint32 \<Rightarrow> nat \<Rightarrow> pool \<Rightarrow> pool" where
  "decr_connecting_and_connected_stream_capacity delta cid p =
     (let p1 = decr_cluster_stream_capacity delta p
      in if \<not> has_handshake_completed (client p cid)
         then p1\<lparr> m_connecting_stream_capacity := m_connecting_stream_capacity p1 - delta \<rparr> else p1)"

definition incr_connecting_and_connected_stream_capacity :: "guint32 \<Rightarrow> nat \<Rightarrow> pool \<Rightarrow> pool" where
  "incr_connecting_and_connected_stream_capacity delta cid p =
     (let p1 = incr_cluster_stream_capacity delta p
      in if \<not> has_handshake_completed (client p cid)
         then p1\<lparr> m_connecting_stream_capacity := m_connecting_stream_capacity p1 + delta \<rparr> else p1)"

definition drain :: "nat \<Rightarrow> pool \<Rightarrow> pool" where
  "drain cid p =
     (let unused = current_unused_capacity (client p cid)
      in if unused \<le> 0 then p
         else upd_client cid (set_remaining_streams 0)
                (decr_connecting_and_connected_stream_capacity (word_of_int unused) cid p))"

definition set_state :: "nat \<Rightarrow> client_state \<Rightarrow> pool \<Rightarrow> pool" where
  "set_state cid st p =
     (if st = ReadyForEarlyData \<and> \<not> supports_early_data (client p cid) then p
      else upd_client cid (\<lambda>c. c\<lparr> m_state := st \<rparr>) (if st = Draining then drain cid p else p))"

text \<open>
  \<open>transition_active_client_state\<close> compares the heads of the two lists: they differ exactly
  when the lists are two and not both empty. \<open>g_list_find\<close> of an absent client gives NULL, for
  which both list operations do nothing.
\<close>

definition move_client :: "which_list \<Rightarrow> which_list \<Rightarrow> nat \<Rightarrow> pool \<Rightarrow> pool" where
  "move_client old new cid p =
     (if old = new \<or> get_list old p = [] \<and> get_list new p = [] then p
      else if cid \<in> set (get_list old p)
      then (let p1 = set_list old (remove1 cid (get_list old p)) p
            in set_list new (get_list new p1 @ [cid]) p1)
      else p)"

definition transition_active_client_state :: "nat \<Rightarrow> client_state \<Rightarrow> pool \<Rightarrow> pool option" where
  "transition_active_client_state cid new_state p =
     (let p1 = set_state cid new_state p
      in case (owning_list (m_state (client p cid)), owning_list new_state) of
           (Some old, Some new) \<Rightarrow> Some (move_client old new cid p1)
         | _ \<Rightarrow> None)"

section \<open>Creating connections\<close>

text \<open>The right-hand side is computed in unsigned 64-bit arithmetic before it becomes a
  \<open>double\<close>.\<close>

definition should_connect :: "nat \<Rightarrow> nat \<Rightarrow> int \<Rightarrow> rat \<Rightarrow> bool \<Rightarrow> bool" where
  "should_connect pending active capacity preconnect_ratio anticipate_incoming_stream =
     (of_nat (pending + active + (if anticipate_incoming_stream then 1 else 0)) * preconnect_ratio >
      of_int (uint (word_of_int (capacity + int active) :: guint64)))"

definition should_create_new_connection :: "pool_env \<Rightarrow> rat \<Rightarrow> pool \<Rightarrow> bool" where
  "should_create_new_connection env global_preconnect_ratio p =
     (if global_preconnect_ratio \<noteq> 0
      then should_connect (length (m_pending_streams p)) (unat (m_num_active_streams p))
             (m_connecting_and_connected_stream_capacity p) global_preconnect_ratio True
      else should_connect (length (m_pending_streams p)) (unat (m_num_active_streams p))
             (m_connecting_and_connected_stream_capacity p) (per_upstream_preconnect_ratio env) False)"

text \<open>A new client is created, starts to connect, and adds its capacity.\<close>

definition add_new_client :: "pool_env \<Rightarrow> pool \<Rightarrow> pool" where
  "add_new_client env p =
     (let cid = next_client p;
          p1 = p\<lparr> client := (client p)(cid := rp_http1_cp_active_client_new (max_requests_per_connection env)),
                  next_client := Suc cid \<rparr>;
          p2 = incr_connecting_and_connected_stream_capacity
                 (word_of_int (current_unused_capacity (client p1 cid))) cid p1
      in case owning_list (m_state (client p2 cid)) of
           Some l \<Rightarrow> set_list l (cid # get_list l p2) p2
         | None \<Rightarrow> p2)"

definition try_create_new_connection :: "pool_env \<Rightarrow> rat \<Rightarrow> pool \<Rightarrow> pool \<times> connection_result" where
  "try_create_new_connection env global_preconnect_ratio p =
     (if \<not> should_create_new_connection env global_preconnect_ratio p then (p, ShouldNotConnect)
      else
        (let can_create_connection = can_create_connection_i (cx_active env) (p_resources p) in
         if can_create_connection \<or>
            (m_ready_clients p = [] \<and> m_busy_clients p = [] \<and> m_connecting_clients p = [] \<and>
             m_early_data_clients p = [])
         then (if \<not> instantiate_ok env (next_client p) then (p, FailedToCreateConnection)
               else (add_new_client env p,
                     if can_create_connection then CreatedNewConnection else CreatedButRateLimited))
         else (p, NoConnectionRateLimited)))"

text \<open>\<open>for (int i = 0; i < 3; ++i)\<close> with \<open>result\<close> the value of the last turn.\<close>

fun try_create_loop :: "nat \<Rightarrow> pool_env \<Rightarrow> connection_result \<Rightarrow> pool \<Rightarrow> pool \<times> connection_result" where
  "try_create_loop 0 env result p = (p, result)"
| "try_create_loop (Suc n) env result p =
     (let (p1, r1) = try_create_new_connection env 1 p
      in if r1 \<noteq> CreatedNewConnection then (p1, r1) else try_create_loop n env r1 p1)"

definition try_create_new_connections :: "pool_env \<Rightarrow> pool \<Rightarrow> pool \<times> connection_result" where
  "try_create_new_connections env p = try_create_loop 3 env FailedToCreateConnection p"

definition maybe_preconnect_impl :: "pool_env \<Rightarrow> rat \<Rightarrow> pool \<Rightarrow> pool \<times> bool" where
  "maybe_preconnect_impl env global_preconnect_ratio p =
     (let (p1, r) = try_create_new_connection env global_preconnect_ratio p
      in (p1, r = CreatedNewConnection))"

section \<open>Giving streams to clients\<close>

definition on_pool_failure :: "pool_failure \<Rightarrow> nat \<Rightarrow> pool \<Rightarrow> pool" where
  "on_pool_failure reason ctx p = emit (PoolFailure reason ctx) p"

definition on_pool_ready :: "nat \<Rightarrow> nat \<Rightarrow> pool \<Rightarrow> pool option" where
  "on_pool_ready cid ctx p =
     do { c \<leftarrow> new_stream_encoder (client p cid);
          Some (emit (PoolReady cid ctx) (upd_client cid (\<lambda>_. c) p)) }"

definition attach_stream_to_client :: "nat \<Rightarrow> nat \<Rightarrow> pool \<Rightarrow> pool option" where
  "attach_stream_to_client cid ctx p =
     (if \<not> can_create_i (deref requests_i (p_resources p)) then Some (on_pool_failure Overflow ctx p)
      else
        (let capacity = current_unused_capacity (client p cid);
             (c, remaining_streams) = decr_remaining_streams (client p cid);
             p1 = upd_client cid (\<lambda>_. c) p
         in do {
           p2 \<leftarrow> (if remaining_streams = 0 then transition_active_client_state cid Draining p1
                   else if capacity = 1 then transition_active_client_state cid Busy p1
                   else Some p1);
           let p3 = decr_connecting_and_connected_stream_capacity 1 cid p2;
           let p4 = p3\<lparr> m_num_active_streams := m_num_active_streams p3 + 1,
                         p_resources := modify requests_i inc_i (p_resources p3) \<rparr>;
           on_pool_ready cid ctx p4 }))"

subsection \<open>What attaching leaves alone\<close>

lemma pending_set_list [simp]: "m_pending_streams (set_list l xs p) = m_pending_streams p"
  by (cases l) simp_all

lemma pending_upd [simp]:
  "m_pending_streams (upd_client cid f p) = m_pending_streams p"
  "m_pending_streams (emit e p) = m_pending_streams p"
  "m_pending_streams (decr_connecting_and_connected_stream_capacity d cid p) = m_pending_streams p"
  by (simp_all add: upd_client_def emit_def decr_connecting_and_connected_stream_capacity_def
      decr_cluster_stream_capacity_def Let_def)

lemma pending_drain [simp]:
  "m_pending_streams (drain cid p) = m_pending_streams p"
  "m_pending_streams (set_state cid st p) = m_pending_streams p"
  "m_pending_streams (move_client old new cid p) = m_pending_streams p"
  by (simp_all add: drain_def set_state_def move_client_def Let_def)

lemma pending_transition:
  "transition_active_client_state cid st p = Some p' \<Longrightarrow> m_pending_streams p' = m_pending_streams p"
  by (auto simp: transition_active_client_state_def Let_def split: option.splits)

lemma pending_on_pool_ready:
  "on_pool_ready cid ctx p = Some p' \<Longrightarrow> m_pending_streams p' = m_pending_streams p"
  by (auto simp: on_pool_ready_def bind_eq_Some_conv)

lemma pending_attach:
  "attach_stream_to_client cid ctx p = Some p' \<Longrightarrow> m_pending_streams p' = m_pending_streams p"
  by (auto simp: attach_stream_to_client_def on_pool_failure_def Let_def bind_eq_Some_conv
      split: if_splits prod.splits dest!: pending_transition pending_on_pool_ready)

text \<open>\<open>while (m_pending_streams && m_ready_clients)\<close>: the last pending stream goes to the first
  ready client.\<close>

function upstream_ready_loop :: "pool \<Rightarrow> pool option" where
  "upstream_ready_loop p =
     (if m_pending_streams p = [] \<or> m_ready_clients p = [] then Some p
      else do {
        p1 \<leftarrow> attach_stream_to_client (hd (m_ready_clients p)) (ps_context (last (m_pending_streams p))) p;
        upstream_ready_loop (p1\<lparr> m_pending_streams := butlast (m_pending_streams p1) \<rparr>) })"
  by pat_completeness auto
termination
  by (relation "measure (\<lambda>p. length (m_pending_streams p))") (auto dest: pending_attach)

declare upstream_ready_loop.simps [simp del]

definition on_upstream_ready :: "pool_env \<Rightarrow> pool \<Rightarrow> pool option" where
  "on_upstream_ready env p =
     do { p1 \<leftarrow> upstream_ready_loop p;
          Some (if m_pending_streams p1 \<noteq> [] then fst (try_create_new_connections env p1) else p1) }"

text \<open>\<open>on_upstream_ready_for_early_data\<close> walks the pending streams from the last to the first,
  here the reversed list.\<close>

fun early_data_loop :: "nat \<Rightarrow> pending_stream list \<Rightarrow> pool \<Rightarrow> pool option" where
  "early_data_loop cid [] p = Some p"
| "early_data_loop cid (stream # its) p =
     (if current_unused_capacity (client p cid) > 0 then
        (if ps_can_send_early_data stream then
           do { p1 \<leftarrow> attach_stream_to_client cid (ps_context stream) p;
                early_data_loop cid its (p1\<lparr> m_pending_streams := remove1 stream (m_pending_streams p1) \<rparr>) }
         else early_data_loop cid its p)
      else Some p)"

definition on_upstream_ready_for_early_data :: "nat \<Rightarrow> pool \<Rightarrow> pool option" where
  "on_upstream_ready_for_early_data cid p = early_data_loop cid (rev (m_pending_streams p)) p"

section \<open>Idleness, closing and draining\<close>

definition is_idle_impl :: "pool \<Rightarrow> bool" where
  "is_idle_impl p =
     (m_pending_streams p = [] \<and> m_ready_clients p = [] \<and> m_busy_clients p = [] \<and>
      m_connecting_clients p = [] \<and> m_early_data_clients p = [])"

definition check_for_idle_and_notify :: "pool \<Rightarrow> pool" where
  "check_for_idle_and_notify p =
     (if is_idle_impl p
      then p\<lparr> p_log := p_log p @ map IdleCb (m_idle_callbacks p), m_idle_callbacks := [] \<rparr>
      else p)"

definition add_idle_callback_impl :: "nat \<Rightarrow> pool \<Rightarrow> pool" where
  "add_idle_callback_impl cb p = p\<lparr> m_idle_callbacks := m_idle_callbacks p @ [cb] \<rparr>"

fun purge_loop :: "pool_failure \<Rightarrow> pending_stream list \<Rightarrow> pool \<Rightarrow> pool" where
  "purge_loop reason [] p = p\<lparr> m_pending_streams_to_purge := [] \<rparr>"
| "purge_loop reason (stream # streams) p =
     purge_loop reason streams (on_pool_failure reason (ps_context stream) (p\<lparr> m_pending_streams_to_purge := streams \<rparr>))"

definition purge_pending_streams :: "pool_failure \<Rightarrow> pool \<Rightarrow> pool" where
  "purge_pending_streams reason p =
     (let p1 = p\<lparr> m_pending_streams_to_purge := m_pending_streams p, m_pending_streams := [] \<rparr>
      in purge_loop reason (m_pending_streams_to_purge p1) p1)"

text \<open>\<open>release_resources\<close> of the HTTP/1 client: the stream in flight is deleted later.\<close>

definition release_resources :: "nat \<Rightarrow> pool \<Rightarrow> pool" where
  "release_resources cid p =
     (let p1 = (if m_stream_wrapper (client p cid)
                then deferred_delete_take (DeferredWrapper cid)
                       (upd_client cid (\<lambda>c. c\<lparr> m_stream_wrapper := False \<rparr>) p)
                else p)
      in upd_client cid release_resources_base p1)"

text \<open>The closing branch of \<open>on_connection_event\<close>.\<close>

definition on_connection_closed :: "pool_env \<Rightarrow> nat \<Rightarrow> conn_event \<Rightarrow> pool \<Rightarrow> pool option" where
  "on_connection_closed env cid event p =
     (let p1 = decr_connecting_and_connected_stream_capacity
                 (word_of_int (current_unused_capacity (client p cid))) cid p;
          p2 = upd_client cid (set_remaining_streams 0) p1;
          p3 = (if \<not> has_handshake_completed (client p2 cid)
                then purge_pending_streams
                       (if event = LocalClose then LocalConnectionFailure else RemoteConnectionFailure)
                       (upd_client cid (set_has_handshake_completed True) p2)
                else p2);
          p4 = release_resources cid p3
      in case owning_list (m_state (client p4 cid)) of
           None \<Rightarrow> None
         | Some l \<Rightarrow>
             if get_list l p4 = [] then None
             else
               (let p5 = set_list l (remove1 cid (get_list l p4)) p4;
                    p6 = check_for_idle_and_notify (deferred_delete_take (DeferredClient cid) p5);
                    p7 = set_state cid Closed p6
                in Some (if m_pending_streams p7 \<noteq> [] then fst (try_create_new_connections env p7) else p7)))"

text \<open>Closing a client whose connection is already closed does nothing.\<close>

definition client_close :: "pool_env \<Rightarrow> nat \<Rightarrow> pool \<Rightarrow> pool option" where
  "client_close env cid p =
     (if m_state (client p cid) = Closed then Some p else on_connection_closed env cid LocalClose p)"

fun close_all :: "pool_env \<Rightarrow> nat list \<Rightarrow> pool \<Rightarrow> pool option" where
  "close_all env [] p = Some p"
| "close_all env (cid # cids) p = do { p1 \<leftarrow> client_close env cid p; close_all env cids p1 }"

definition idle_client :: "pool \<Rightarrow> nat \<Rightarrow> bool" where
  "idle_client p cid = (num_active_streams (client p cid) = 0)"

definition close_idle_connection_for_draining_pool :: "pool_env \<Rightarrow> pool \<Rightarrow> pool option" where
  "close_idle_connection_for_draining_pool env p =
     close_all env
       (filter (idle_client p) (m_ready_clients p) @
        (if m_pending_streams p = []
         then m_connecting_clients p @ filter (idle_client p) (m_early_data_clients p) else [])) p"

definition check_for_idle_and_close_idle_conns_if_draining :: "pool_env \<Rightarrow> pool \<Rightarrow> pool option" where
  "check_for_idle_and_close_idle_conns_if_draining env p =
     do { p1 \<leftarrow> (if m_is_draining_for_deletion p then close_idle_connection_for_draining_pool env p else Some p);
          Some (check_for_idle_and_notify p1) }"

text \<open>\<open>while (*clients)\<close>: the loop ends only if the transition takes the first client off the
  list.\<close>

partial_function (option) drain_clients :: "which_list \<Rightarrow> pool \<Rightarrow> pool option" where
  "drain_clients l p =
     (case get_list l p of
        [] \<Rightarrow> Some p
      | cid # _ \<Rightarrow> Option.bind (transition_active_client_state cid Draining p) (drain_clients l))"

text \<open>The loop over the busy clients; a client that starts draining stays on the same list.\<close>

fun drain_busy :: "nat list \<Rightarrow> pool \<Rightarrow> pool option" where
  "drain_busy [] p = Some p"
| "drain_busy (cid # cids) p =
     (if m_state (client p cid) = Draining then drain_busy cids p
      else do { p1 \<leftarrow> transition_active_client_state cid Draining p; drain_busy cids p1 })"

definition drain_connections_impl :: "pool_env \<Rightarrow> drain_behavior \<Rightarrow> pool \<Rightarrow> pool option" where
  "drain_connections_impl env behavior p =
     (if behavior = DrainAndDelete
      then check_for_idle_and_close_idle_conns_if_draining env (p\<lparr> m_is_draining_for_deletion := True \<rparr>)
      else do {
        p1 \<leftarrow> close_idle_connection_for_draining_pool env p;
        p2 \<leftarrow> (if m_pending_streams p1 = [] then drain_clients L_early_data p1 else Some p1);
        p3 \<leftarrow> drain_clients L_ready p2;
        drain_busy (m_busy_clients p3) p3 })"

partial_function (option) destroy_connections :: "pool_env \<Rightarrow> which_list \<Rightarrow> pool \<Rightarrow> pool option" where
  "destroy_connections env l p =
     (case get_list l p of
        [] \<Rightarrow> Some p
      | cid # _ \<Rightarrow> Option.bind (client_close env cid p) (destroy_connections env l))"

declare drain_clients.simps [code] destroy_connections.simps [code]

section \<open>Streams\<close>

text \<open>\<open>rp_pending_stream\<close>: constructing one takes a slot of the pending requests.\<close>

definition new_pending_stream :: "nat \<Rightarrow> bool \<Rightarrow> pool \<Rightarrow> pool \<times> pending_stream" where
  "new_pending_stream ctx can_send_early_data p =
     (let stream = \<lparr> ps_context = ctx, ps_can_send_early_data = can_send_early_data \<rparr>
      in (p\<lparr> p_resources := modify pending_requests_i inc_i (p_resources p),
             m_pending_streams := m_pending_streams p @ [stream] \<rparr>, stream))"

text \<open>\<open>(pending + active) * ratio <= connecting_capacity - unused + active\<close>, the sum on the left in
  32 bits, the right-hand side in \<open>gint64\<close>.\<close>

definition connecting_connection_is_excess :: "pool_env \<Rightarrow> nat \<Rightarrow> pool \<Rightarrow> bool" where
  "connecting_connection_is_excess env cid p =
     (of_int (uint (of_nat (length (m_pending_streams p)) + m_num_active_streams p :: guint32)) *
        per_upstream_preconnect_ratio env \<le>
      of_int (uint (m_connecting_stream_capacity p) - current_unused_capacity (client p cid) +
        uint (m_num_active_streams p)))"

definition drain_and_close :: "pool_env \<Rightarrow> nat \<Rightarrow> pool \<Rightarrow> pool option" where
  "drain_and_close env cid p =
     do { p1 \<leftarrow> transition_active_client_state cid Draining p; client_close env cid p1 }"

definition close_excess :: "pool_env \<Rightarrow> pool \<Rightarrow> pool option" where
  "close_excess env p =
     (case m_connecting_clients p of
        cid # _ \<Rightarrow>
          if connecting_connection_is_excess env cid p then drain_and_close env cid p
          else (case List.find (idle_client p) (m_early_data_clients p) of
                  None \<Rightarrow> Some p
                | Some e \<Rightarrow> if connecting_connection_is_excess env e p then drain_and_close env e p else Some p)
      | [] \<Rightarrow>
          (case List.find (idle_client p) (m_early_data_clients p) of
             None \<Rightarrow> Some p
           | Some e \<Rightarrow> if connecting_connection_is_excess env e p then drain_and_close env e p else Some p))"

definition on_pending_stream_cancel :: "pool_env \<Rightarrow> pending_stream \<Rightarrow> cancel_policy \<Rightarrow> pool \<Rightarrow> pool option" where
  "on_pending_stream_cancel env stream policy p =
     (let p1 = (if m_pending_streams_to_purge p \<noteq> []
                then p\<lparr> m_pending_streams_to_purge := remove1 stream (m_pending_streams_to_purge p) \<rparr>
                else p\<lparr> m_pending_streams := remove1 stream (m_pending_streams p) \<rparr>)
      in do { p2 \<leftarrow> (if policy = CloseExcess then close_excess env p1 else Some p1);
              check_for_idle_and_close_idle_conns_if_draining env p2 })"

definition new_stream_impl :: "pool_env \<Rightarrow> nat \<Rightarrow> bool \<Rightarrow> pool \<Rightarrow> (pool \<times> pending_stream option) option" where
  "new_stream_impl env ctx can_send_early_data p =
     (if m_ready_clients p \<noteq> [] then
        do { p1 \<leftarrow> attach_stream_to_client (hd (m_ready_clients p)) ctx p;
             Some (fst (try_create_new_connections env p1), None) }
      else if can_send_early_data \<and> m_early_data_clients p \<noteq> [] then
        do { p1 \<leftarrow> attach_stream_to_client (hd (m_early_data_clients p)) ctx p;
             Some (fst (try_create_new_connections env p1), None) }
      else if \<not> can_create_i (deref pending_requests_i (p_resources p)) then
        Some (on_pool_failure Overflow ctx p, None)
      else
        (let (p1, pending) = new_pending_stream ctx can_send_early_data p;
             (p2, result) = try_create_new_connections env p1
         in if result = FailedToCreateConnection then
              do { p3 \<leftarrow> on_pending_stream_cancel env pending CloseExcess p2;
                   Some (on_pool_failure LocalConnectionFailure ctx p3, None) }
            else Some (p2, Some pending)))"

definition on_connected_event :: "pool_env \<Rightarrow> nat \<Rightarrow> pool \<Rightarrow> pool option" where
  "on_connected_event env cid p =
     (let unused = current_unused_capacity (client p cid);
          p1 = p\<lparr> m_connecting_and_connected_stream_capacity :=
                    m_connecting_and_connected_stream_capacity p - unused \<rparr>;
          p2 = upd_client cid (set_has_handshake_completed True) p1
      in do {
        p3 \<leftarrow> (if m_state (client p2 cid) = Connecting \<or> m_state (client p2 cid) = ReadyForEarlyData
                then transition_active_client_state cid (if unused > 0 then Ready else Busy) p2
                else Some p2);
        p4 \<leftarrow> (if ready_for_stream (client p3 cid) then on_upstream_ready env p3 else Some p3);
        check_for_idle_and_close_idle_conns_if_draining env p4 })"

definition on_connection_event :: "pool_env \<Rightarrow> nat \<Rightarrow> conn_event \<Rightarrow> pool \<Rightarrow> pool option" where
  "on_connection_event env cid event p =
     (case event of
        RemoteClose \<Rightarrow> on_connection_closed env cid RemoteClose p
      | LocalClose \<Rightarrow> on_connection_closed env cid LocalClose p
      | Connected \<Rightarrow> on_connected_event env cid p
      | ConnectedZeroRtt \<Rightarrow>
          if m_state (client p cid) \<noteq> Connecting then None
          else transition_active_client_state cid
                 (if current_unused_capacity (client p cid) > 0 then ReadyForEarlyData else Busy) p
      | EventNone \<Rightarrow> Some p)"

definition on_stream_closed :: "pool_env \<Rightarrow> nat \<Rightarrow> bool \<Rightarrow> pool \<Rightarrow> pool option" where
  "on_stream_closed env cid delay_attaching_stream p =
     (let p1 = p\<lparr> m_num_active_streams := m_num_active_streams p - 1,
                  p_resources := modify requests_i dec_i (p_resources p) \<rparr>;
          c = client p1 cid
      in if m_state c = Draining \<and> num_active_streams c = 0 then client_close env cid p1
         else if m_state c = Busy \<and> current_unused_capacity c > 0 then
           (if \<not> has_handshake_completed c then
              do { p2 \<leftarrow> transition_active_client_state cid ReadyForEarlyData p1;
                   if \<not> delay_attaching_stream then on_upstream_ready_for_early_data cid p2 else Some p2 }
            else
              do { p2 \<leftarrow> transition_active_client_state cid Ready p1;
                   if \<not> delay_attaching_stream then on_upstream_ready env p2 else Some p2 })
         else Some p1)"

text \<open>\<open>on_connection_duration_timeout\<close> and \<open>on_connect_timeout\<close> of a client.\<close>

definition on_connect_timeout :: "pool_env \<Rightarrow> nat \<Rightarrow> pool \<Rightarrow> pool option" where
  "on_connect_timeout env cid p = client_close env cid (upd_client cid set_timed_out p)"

definition on_connection_duration_timeout :: "nat \<Rightarrow> pool \<Rightarrow> pool option" where
  "on_connection_duration_timeout cid p =
     (if \<not> has_handshake_completed (client p cid) then Some p
      else if m_state (client p cid) = Closed then Some p
      else if m_state (client p cid) = Draining then Some p
      else transition_active_client_state cid Draining p)"

text \<open>\<open>on_decode_complete\<close> of \<^verbatim>\<open>rp-active-client-stream-wrapper.c\<close> on a finished request: the
  connection is closed, or the stream object is dropped, whose disposal reports the closed stream,
  and the pool is asked to serve pending streams.\<close>

definition stream_wrapper_reset :: "pool_env \<Rightarrow> nat \<Rightarrow> pool \<Rightarrow> pool option" where
  "stream_wrapper_reset env cid p =
     (if m_stream_wrapper (client p cid)
      then on_stream_closed env cid True (upd_client cid (\<lambda>c. c\<lparr> m_stream_wrapper := False \<rparr>) p)
      else Some p)"

definition schedule_on_upstream_ready :: "pool \<Rightarrow> pool" where
  "schedule_on_upstream_ready p = p\<lparr> m_upstream_ready_scheduled := True \<rparr>"

definition on_decode_complete :: "pool_env \<Rightarrow> nat \<Rightarrow> bool \<Rightarrow> bool \<Rightarrow> pool \<Rightarrow> pool option" where
  "on_decode_complete env cid encode_complete close_connection p =
     (if \<not> encode_complete then client_close env cid p
      else if close_connection then client_close env cid p
      else do { p1 \<leftarrow> stream_wrapper_reset env cid (schedule_on_upstream_ready p);
                check_for_idle_and_close_idle_conns_if_draining env p1 })"

text \<open>The dispatcher's turn: the scheduled callback, and the deferred deletions. Deleting a stream
  object reports the closed stream; deleting a client drops a stream it still has.\<close>

definition run_upstream_ready_cb :: "pool_env \<Rightarrow> pool \<Rightarrow> pool option" where
  "run_upstream_ready_cb env p =
     (if m_upstream_ready_scheduled p
      then on_upstream_ready env (p\<lparr> m_upstream_ready_scheduled := False \<rparr>) else Some p)"

fun delete_all :: "pool_env \<Rightarrow> deferred list \<Rightarrow> pool \<Rightarrow> pool option" where
  "delete_all env [] p = Some p"
| "delete_all env (DeferredWrapper cid # ds) p = do { p1 \<leftarrow> on_stream_closed env cid True p; delete_all env ds p1 }"
| "delete_all env (DeferredClient cid # ds) p = do { p1 \<leftarrow> stream_wrapper_reset env cid p; delete_all env ds p1 }"

definition clear_deferred_delete_list :: "pool_env \<Rightarrow> pool \<Rightarrow> pool option" where
  "clear_deferred_delete_list env p = delete_all env (p_deferred p) (p\<lparr> p_deferred := [] \<rparr>)"

definition destruct_all_connections :: "pool_env \<Rightarrow> pool \<Rightarrow> pool option" where
  "destruct_all_connections env p =
     do { p1 \<leftarrow> destroy_connections env L_ready p;
          p2 \<leftarrow> destroy_connections env L_busy p1;
          p3 \<leftarrow> destroy_connections env L_connecting p2;
          p4 \<leftarrow> destroy_connections env L_early_data p3;
          clear_deferred_delete_list env p4 }"

section \<open>Runs\<close>

text \<open>The calls that reach a pool, and their effect.\<close>

datatype pool_call =
    NewStream nat bool | ConnEvent nat conn_event | StreamDone nat bool bool | CancelStream pending_stream cancel_policy
  | UpstreamReady | DeferredDelete | Preconnect rat | DrainConnections drain_behavior | AddIdleCallback nat
  | DurationTimeout nat | ConnectTimeout nat

fun pool_exec1 :: "pool_env \<Rightarrow> pool_call \<Rightarrow> pool \<Rightarrow> pool option" where
  "pool_exec1 env (NewStream ctx early) p = map_option fst (new_stream_impl env ctx early p)"
| "pool_exec1 env (ConnEvent cid ev) p = on_connection_event env cid ev p"
| "pool_exec1 env (StreamDone cid enc cl) p = on_decode_complete env cid enc cl p"
| "pool_exec1 env (CancelStream s pol) p = on_pending_stream_cancel env s pol p"
| "pool_exec1 env UpstreamReady p = run_upstream_ready_cb env p"
| "pool_exec1 env DeferredDelete p = clear_deferred_delete_list env p"
| "pool_exec1 env (Preconnect ratio) p = Some (fst (maybe_preconnect_impl env ratio p))"
| "pool_exec1 env (DrainConnections b) p = drain_connections_impl env b p"
| "pool_exec1 env (AddIdleCallback cb) p = Some (add_idle_callback_impl cb p)"
| "pool_exec1 env (DurationTimeout cid) p = on_connection_duration_timeout cid p"
| "pool_exec1 env (ConnectTimeout cid) p = on_connect_timeout env cid p"

end
