(* ===== verification/Conn_Pool_Inv.thy ===== *)
theory Conn_Pool_Inv
  imports Conn_Pool
begin

text \<open>
  The invariant of the connection pool and its preservation by every call: each live client is on
  exactly the list of its state, and a client that is ready or connecting has no stream and may
  still take one. With it no call crashes or runs forever.
\<close>

section \<open>The invariant\<close>

definition lists_ok :: "pool \<Rightarrow> bool" where
  "lists_ok p =
     ((\<forall>l. distinct (get_list l p)) \<and>
      (\<forall>l cid. cid \<in> set (get_list l p) \<longleftrightarrow>
         cid < next_client p \<and> owning_list (m_state (client p cid)) = Some l))"

definition client_ok :: "active_client \<Rightarrow> bool" where
  "client_ok c =
     (m_concurrent_stream_limit c = 1 \<and> m_state c \<noteq> ReadyForEarlyData \<and>
      (m_state c = Ready \<or> m_state c = Connecting \<longrightarrow> \<not> m_stream_wrapper c \<and> m_remaining_streams c \<noteq> 0))"

fun deferred_cid :: "deferred \<Rightarrow> nat" where
  "deferred_cid (DeferredWrapper cid) = cid"
| "deferred_cid (DeferredClient cid) = cid"

definition pool_ok :: "pool \<Rightarrow> bool" where
  "pool_ok p =
     (lists_ok p \<and> (\<forall>cid < next_client p. client_ok (client p cid)) \<and>
      (\<forall>d \<in> set (p_deferred p). deferred_cid d < next_client p))"

section \<open>Frames\<close>

lemma get_list_set_list [simp]: "get_list l (set_list l' xs p) = (if l = l' then xs else get_list l p)"
  by (cases l; cases l') simp_all

lemma set_list_frame [simp]:
  "client (set_list l xs p) = client p" "next_client (set_list l xs p) = next_client p"
  "p_deferred (set_list l xs p) = p_deferred p" "m_num_active_streams (set_list l xs p) = m_num_active_streams p"
  "p_resources (set_list l xs p) = p_resources p" "p_log (set_list l xs p) = p_log p"
  "m_connecting_and_connected_stream_capacity (set_list l xs p) = m_connecting_and_connected_stream_capacity p"
  by (cases l; simp)+

text \<open>Changes that leave clients, lists and deferred deletions alone keep the invariant.\<close>

definition core :: "pool \<Rightarrow> (nat \<Rightarrow> active_client) \<times> nat \<times> (which_list \<Rightarrow> nat list) \<times> deferred list" where
  "core p = (client p, next_client p, \<lambda>l. get_list l p, p_deferred p)"

lemma core_eqD:
  assumes "core p = core q"
  shows "client p = client q" "next_client p = next_client q" "get_list l p = get_list l q"
    "p_deferred p = p_deferred q"
  using assms by (auto simp: core_def fun_eq_iff)

lemma pool_ok_core: "core p = core q \<Longrightarrow> pool_ok p = pool_ok q"
  by (simp add: pool_ok_def lists_ok_def core_def fun_eq_iff)

lemma get_list_upd [simp]:
  "get_list l (p\<lparr> client := v1 \<rparr>) = get_list l p"
  "get_list l (p\<lparr> next_client := v2 \<rparr>) = get_list l p"
  "get_list l (p\<lparr> m_pending_streams := v3 \<rparr>) = get_list l p"
  "get_list l (p\<lparr> m_pending_streams_to_purge := v3 \<rparr>) = get_list l p"
  "get_list l (p\<lparr> m_idle_callbacks := v4 \<rparr>) = get_list l p"
  "get_list l (p\<lparr> m_connecting_and_connected_stream_capacity := v5 \<rparr>) = get_list l p"
  "get_list l (p\<lparr> m_num_active_streams := v6 \<rparr>) = get_list l p"
  "get_list l (p\<lparr> m_connecting_stream_capacity := v6 \<rparr>) = get_list l p"
  "get_list l (p\<lparr> m_is_draining_for_deletion := v7 \<rparr>) = get_list l p"
  "get_list l (p\<lparr> m_upstream_ready_scheduled := v7 \<rparr>) = get_list l p"
  "get_list l (p\<lparr> p_deferred := v8 \<rparr>) = get_list l p"
  "get_list l (p\<lparr> p_resources := v9 \<rparr>) = get_list l p"
  "get_list l (p\<lparr> p_log := v10 \<rparr>) = get_list l p"
  by (cases l; simp)+

lemma core_frame [simp]:
  "core (p\<lparr> m_pending_streams := v3 \<rparr>) = core p"
  "core (p\<lparr> m_pending_streams_to_purge := v3 \<rparr>) = core p"
  "core (p\<lparr> m_idle_callbacks := v4 \<rparr>) = core p"
  "core (p\<lparr> m_connecting_and_connected_stream_capacity := v5 \<rparr>) = core p"
  "core (p\<lparr> m_num_active_streams := v6 \<rparr>) = core p"
  "core (p\<lparr> m_connecting_stream_capacity := v6 \<rparr>) = core p"
  "core (p\<lparr> m_is_draining_for_deletion := v7 \<rparr>) = core p"
  "core (p\<lparr> m_upstream_ready_scheduled := v7 \<rparr>) = core p"
  "core (p\<lparr> p_resources := v9 \<rparr>) = core p"
  "core (p\<lparr> p_log := v10 \<rparr>) = core p"
  by (simp_all add: core_def)

lemma core_ops [simp]:
  "core (emit e p) = core p"
  "core (on_pool_failure r ctx p) = core p"
  "core (decr_connecting_and_connected_stream_capacity d cid p) = core p"
  "core (incr_connecting_and_connected_stream_capacity d cid p) = core p"
  "core (check_for_idle_and_notify p) = core p"
  "core (add_idle_callback_impl cb p) = core p"
  "core (schedule_on_upstream_ready p) = core p"
  by (simp_all add: emit_def on_pool_failure_def decr_connecting_and_connected_stream_capacity_def
      incr_connecting_and_connected_stream_capacity_def decr_cluster_stream_capacity_def
      incr_cluster_stream_capacity_def check_for_idle_and_notify_def add_idle_callback_impl_def
      schedule_on_upstream_ready_def Let_def)

lemma core_purge [simp]: "core (purge_loop r ss p) = core p" "core (purge_pending_streams r p) = core p"
proof -
  show "core (purge_loop r ss p) = core p" for ss p
    by (induction ss arbitrary: p) simp_all
  then show "core (purge_pending_streams r p) = core p"
    by (simp add: purge_pending_streams_def Let_def)
qed

lemma core_new_pending [simp]: "core (fst (new_pending_stream ctx e p)) = core p"
  by (simp add: new_pending_stream_def Let_def)

lemmas core_client = core_eqD(1) and core_next = core_eqD(2) and core_list = core_eqD(3)

section \<open>Transitions\<close>

lemma set_state_client:
  assumes "st \<noteq> ReadyForEarlyData"
  shows "client (set_state cid st p) = (client p)(cid := (client p cid)
     \<lparr> m_state := st, m_remaining_streams :=
         if st = Draining \<and> current_unused_capacity (client p cid) > 0 then 0
         else m_remaining_streams (client p cid) \<rparr>)"
  using assms core_client [OF core_ops(3)]
  by (auto simp: set_state_def drain_def upd_client_def set_remaining_streams_def Let_def fun_eq_iff)

lemma set_state_frame [simp]:
  "get_list l (set_state cid st p) = get_list l p" "next_client (set_state cid st p) = next_client p"
  "p_deferred (set_state cid st p) = p_deferred p"
  using core_eqD [OF core_ops(3)]
  by (simp_all add: set_state_def drain_def upd_client_def Let_def)

lemma move_client_frame [simp]:
  "client (move_client a b cid p) = client p" "next_client (move_client a b cid p) = next_client p"
  "p_deferred (move_client a b cid p) = p_deferred p"
  by (simp_all add: move_client_def Let_def)

lemma get_list_move:
  assumes "cid \<in> set (get_list old p)"
  shows "get_list l (move_client old new cid p) =
     (if old = new then get_list l p
      else if l = old then remove1 cid (get_list l p)
      else if l = new then get_list l p @ [cid] else get_list l p)"
  using assms by (auto simp: move_client_def Let_def)

lemma transition_Some:
  assumes "m_state (client p cid) \<noteq> Closed" "st \<noteq> Closed"
  obtains old new where "owning_list (m_state (client p cid)) = Some old" "owning_list st = Some new"
    "transition_active_client_state cid st p = Some (move_client old new cid (set_state cid st p))"
  using assms
  by (cases "m_state (client p cid)"; cases st) (auto simp: transition_active_client_state_def Let_def)

lemma lists_ok_move:
  assumes ok: "lists_ok p" and cid: "cid < next_client p"
    and old: "owning_list (m_state (client p cid)) = Some old" and new: "owning_list st = Some new"
    and st: "st \<noteq> ReadyForEarlyData"
  shows "lists_ok (move_client old new cid (set_state cid st p))"
proof -
  have mem: "c \<in> set (get_list l p) \<longleftrightarrow> c < next_client p \<and> owning_list (m_state (client p c)) = Some l"
    and dist: "distinct (get_list l p)" for l c
    using ok by (auto simp: lists_ok_def)
  have in_old: "cid \<in> set (get_list old (set_state cid st p))" using mem cid old by simp
  have own: "owning_list (m_state (client (set_state cid st p) c)) =
      (if c = cid then Some new else owning_list (m_state (client p c)))" for c
    using new by (simp add: set_state_client [OF st])
  show ?thesis
    unfolding lists_ok_def get_list_move [OF in_old] move_client_frame set_state_frame own
    using mem dist cid old by auto
qed

text \<open>\<open>safe p r\<close>: the call made in \<open>p\<close> returned a pool with the invariant and no fewer clients.\<close>

definition safe :: "pool \<Rightarrow> pool option \<Rightarrow> bool" where
  "safe p r = (\<exists>p'. r = Some p' \<and> pool_ok p' \<and> next_client p \<le> next_client p')"

lemma safe_Some: "safe p (Some q) \<longleftrightarrow> pool_ok q \<and> next_client p \<le> next_client q"
  by (simp add: safe_def)

lemma safe_bind:
  assumes "safe p r" "\<And>q. r = Some q \<Longrightarrow> pool_ok q \<Longrightarrow> next_client p \<le> next_client q \<Longrightarrow> safe q (f q)"
  shows "safe p (Option.bind r f)"
proof -
  obtain q where q: "r = Some q" "pool_ok q" "next_client p \<le> next_client q"
    using assms(1) unfolding safe_def by blast
  with assms(2) [of q] show ?thesis by (fastforce simp: safe_def)
qed

lemma safe_core: "core p = core q \<Longrightarrow> safe q r \<Longrightarrow> safe p r"
  using core_eqD(2) [of p q] by (simp add: safe_def)

lemma pool_ok_transition:
  assumes ok: "pool_ok p" and cid: "cid < next_client p" "m_state (client p cid) \<noteq> Closed"
    and st: "st = Busy \<or> st = Draining \<or> st = Ready \<and> current_unused_capacity (client p cid) > 0"
  shows "\<exists>p'. transition_active_client_state cid st p = Some p' \<and> pool_ok p' \<and>
     next_client p' = next_client p \<and> m_state (client p' cid) = st \<and>
     m_stream_wrapper (client p' cid) = m_stream_wrapper (client p cid) \<and>
     (\<forall>c. c \<noteq> cid \<longrightarrow> client p' c = client p c)"
proof -
  have st': "st \<noteq> Closed" "st \<noteq> ReadyForEarlyData" "st \<noteq> Connecting" using st by auto
  obtain old new where t: "owning_list (m_state (client p cid)) = Some old" "owning_list st = Some new"
    "transition_active_client_state cid st p = Some (move_client old new cid (set_state cid st p))"
    by (rule transition_Some [OF cid(2) st'(1)])
  let ?q = "move_client old new cid (set_state cid st p)"
  have "lists_ok ?q" using ok lists_ok_move [OF _ cid(1) t(1,2) st'(2)] by (simp add: pool_ok_def)
  moreover have "client_ok (client ?q c)" if "c < next_client p" for c
  proof -
    have "client_ok (client p c)" "client_ok (client p cid)" using ok that cid by (auto simp: pool_ok_def)
    then show ?thesis
      using st st' http1_capacity [of "client p cid"]
      by (auto simp: client_ok_def set_state_client [OF st'(2)] split: if_splits)
  qed
  ultimately have "pool_ok ?q" using ok by (auto simp: pool_ok_def)
  with t(3) show ?thesis by (auto simp: set_state_client [OF st'(2)])
qed

section \<open>Attaching streams\<close>

text \<open>Changing a client without its state, limit, and with a stream only when it is busy or
  draining.\<close>

lemma pool_ok_upd_client:
  assumes ok: "pool_ok p" and "m_state (f (client p cid)) = m_state (client p cid)"
    and "cid < next_client p \<Longrightarrow> client_ok (f (client p cid))"
  shows "pool_ok (upd_client cid f p)"
  using assms by (simp add: pool_ok_def lists_ok_def upd_client_def)

lemma ready_client:
  assumes "pool_ok p" "cid \<in> set (m_ready_clients p)"
  shows "cid < next_client p" "m_state (client p cid) = Ready" "\<not> m_stream_wrapper (client p cid)"
    "m_remaining_streams (client p cid) \<noteq> 0" "m_concurrent_stream_limit (client p cid) = 1"
    "current_unused_capacity (client p cid) = 1"
proof -
  have "cid \<in> set (get_list L_ready p)" using assms by simp
  then have *: "cid < next_client p" "owning_list (m_state (client p cid)) = Some L_ready"
    using assms by (auto simp: pool_ok_def lists_ok_def simp del: get_list.simps)
  then show **: "cid < next_client p" "m_state (client p cid) = Ready"
    by (cases "m_state (client p cid)"; simp)+
  with assms(1) have "client_ok (client p cid)" by (auto simp: pool_ok_def)
  with ** show "\<not> m_stream_wrapper (client p cid)" "m_remaining_streams (client p cid) \<noteq> 0"
    "m_concurrent_stream_limit (client p cid) = 1" "current_unused_capacity (client p cid) = 1"
    using http1_capacity [of "client p cid"] by (auto simp: client_ok_def)
qed

lemma on_pool_ready_ok:
  assumes "pool_ok p" "cid < next_client p" "\<not> m_stream_wrapper (client p cid)"
    "m_state (client p cid) = Busy \<or> m_state (client p cid) = Draining"
  shows "\<exists>p'. on_pool_ready cid ctx p = Some p' \<and> pool_ok p' \<and> next_client p' = next_client p"
proof -
  let ?c = "(client p cid)\<lparr> m_stream_wrapper := True \<rparr>"
  have "pool_ok (upd_client cid (\<lambda>_. ?c) p)"
    using assms by (intro pool_ok_upd_client) (auto simp: client_ok_def pool_ok_def)
  moreover have "pool_ok (emit (PoolReady cid ctx) q) = pool_ok q" for q
    by (rule pool_ok_core) simp
  ultimately show ?thesis
    using assms(3) core_next [OF core_ops(1)]
    by (simp add: on_pool_ready_def new_stream_encoder_def upd_client_def)
qed

text \<open>Inside \<open>attach_stream_to_client\<close> the ready client is between two states: it has spent a
  stream and is not yet busy. The lemma takes it through the transition.\<close>

lemma attach_transition:
  assumes ok: "pool_ok p" and cid: "cid \<in> set (m_ready_clients p)"
    and c: "c = (client p cid)\<lparr> m_remaining_streams := m_remaining_streams (client p cid) - 1 \<rparr>"
    and st: "st = Busy \<or> st = Draining"
  shows "\<exists>p'. transition_active_client_state cid st (upd_client cid (\<lambda>_. c) p) = Some p' \<and> pool_ok p' \<and>
     next_client p' = next_client p \<and> m_state (client p' cid) = st \<and> \<not> m_stream_wrapper (client p' cid)"
proof -
  note r = ready_client [OF ok cid]
  let ?p = "upd_client cid (\<lambda>_. c) p"
  have l: "lists_ok ?p" and n: "next_client ?p = next_client p" and cl: "client ?p cid = c"
    using ok c by (auto simp: pool_ok_def lists_ok_def upd_client_def)
  have st': "st \<noteq> Closed" "st \<noteq> ReadyForEarlyData" using st by auto
  have "m_state (client ?p cid) \<noteq> Closed" using r(2) c cl by simp
  then obtain old new where t: "owning_list (m_state (client ?p cid)) = Some old" "owning_list st = Some new"
    "transition_active_client_state cid st ?p = Some (move_client old new cid (set_state cid st ?p))"
    by (rule transition_Some [OF _ st'(1)])
  let ?q = "move_client old new cid (set_state cid st ?p)"
  have "lists_ok ?q" using lists_ok_move [OF l _ t(1,2) st'(2)] r(1) n by simp
  moreover have "client_ok (client ?q x)" if "x < next_client p" for x
    using ok that r c cl st
    by (auto simp: pool_ok_def client_ok_def set_state_client [OF st'(2)] upd_client_def)
  ultimately have "pool_ok ?q" using ok n by (auto simp: pool_ok_def upd_client_def)
  with t(3) show ?thesis using r c cl n by (auto simp: set_state_client [OF st'(2)])
qed

lemma attach_ok:
  assumes ok: "pool_ok p" and cid: "cid \<in> set (m_ready_clients p)"
  shows "\<exists>p'. attach_stream_to_client cid ctx p = Some p' \<and> pool_ok p' \<and> next_client p' = next_client p"
proof (cases "can_create_i (deref requests_i (p_resources p))")
  case False
  have "pool_ok (on_pool_failure Overflow ctx p)" using ok pool_ok_core [OF core_ops(2)] by simp
  with False show ?thesis
    using core_next [OF core_ops(2)] by (simp add: attach_stream_to_client_def)
next
  case True
  note r = ready_client [OF ok cid]
  define c where "c = (client p cid)\<lparr> m_remaining_streams := m_remaining_streams (client p cid) - 1 \<rparr>"
  define st where "st = (if m_remaining_streams c = 0 then Draining else Busy)"
  have st: "st = Busy \<or> st = Draining" by (simp add: st_def)
  obtain p2 where p2: "transition_active_client_state cid st (upd_client cid (\<lambda>_. c) p) = Some p2"
    "pool_ok p2" "next_client p2 = next_client p" "m_state (client p2 cid) = st"
    "\<not> m_stream_wrapper (client p2 cid)"
    using attach_transition [OF ok cid c_def st] by blast
  define p3 where "p3 = decr_connecting_and_connected_stream_capacity 1 cid p2"
  define p4 where "p4 = p3\<lparr> m_num_active_streams := m_num_active_streams p3 + 1,
                  p_resources := modify requests_i inc_i (p_resources p3) \<rparr>"
  have core4: "core p4 = core p2" by (simp add: p4_def p3_def)
  obtain p5 where p5: "on_pool_ready cid ctx p4 = Some p5" "pool_ok p5" "next_client p5 = next_client p4"
    using on_pool_ready_ok [of p4 cid ctx] p2(2-5) r(1) st core_eqD(1,2) [OF core4] pool_ok_core [OF core4]
    by auto
  have "attach_stream_to_client cid ctx p = Some p5"
    using True p2(1) p5(1) r(6)
    by (simp add: attach_stream_to_client_def decr_remaining_streams_def c_def st_def p3_def p4_def Let_def
        split: if_splits)
  then show ?thesis using p5 p2(3) core_next [OF core4] by simp
qed

lemma upstream_ready_loop_ok:
  "pool_ok p \<Longrightarrow> \<exists>p'. upstream_ready_loop p = Some p' \<and> pool_ok p' \<and> next_client p' = next_client p \<and>
     (m_pending_streams p' = [] \<or> m_ready_clients p' = [])"
proof (induction p rule: upstream_ready_loop.induct)
  case (1 p)
  show ?case
  proof (cases "m_pending_streams p = [] \<or> m_ready_clients p = []")
    case True
    with 1 show ?thesis by (simp add: upstream_ready_loop.simps [of p])
  next
    case False
    let ?cid = "hd (m_ready_clients p)" and ?ctx = "ps_context (last (m_pending_streams p))"
    have "?cid \<in> set (m_ready_clients p)" using False by simp
    then obtain p1 where p1: "attach_stream_to_client ?cid ?ctx p = Some p1" "pool_ok p1"
      "next_client p1 = next_client p"
      using attach_ok [OF 1(2)] by blast
    let ?q = "p1\<lparr> m_pending_streams := butlast (m_pending_streams p1) \<rparr>"
    have "pool_ok ?q" using p1(2) pool_ok_core [OF core_frame(1)] by simp
    from 1(1) [OF False p1(1) this] p1 False show ?thesis
      by (auto simp: upstream_ready_loop.simps [of p])
  qed
qed

section \<open>Creating connections\<close>

lemma add_new_client_ok:
  assumes ok: "pool_ok p"
  shows "pool_ok (add_new_client env p)" "next_client (add_new_client env p) = Suc (next_client p)"
proof -
  let ?n = "next_client p" and ?c = "rp_http1_cp_active_client_new (max_requests_per_connection env)"
  define p1 where "p1 = p\<lparr> client := (client p)(?n := ?c), next_client := Suc ?n \<rparr>"
  define p2 where "p2 = incr_connecting_and_connected_stream_capacity
     (word_of_int (current_unused_capacity (client p1 ?n))) ?n p1"
  have core: "core p2 = core p1" by (simp add: p2_def)
  note e = core_eqD [OF core]
  have st: "m_state ?c = Connecting" "\<not> m_stream_wrapper ?c"
    by (simp_all add: rp_http1_cp_active_client_new_def active_client_new_def)
  have new: "add_new_client env p = set_list L_connecting (?n # get_list L_connecting p2) p2"
    using st e(1) by (simp add: add_new_client_def p1_def p2_def Let_def)
  have mem: "c \<in> set (get_list l p) \<longleftrightarrow> c < ?n \<and> owning_list (m_state (client p c)) = Some l"
    and dist: "distinct (get_list l p)" for l c
    using ok by (auto simp: pool_ok_def lists_ok_def)
  have lists: "get_list l p2 = get_list l p" for l using e(3) [of l] by (simp add: p1_def)
  have cl: "client p2 = (client p)(?n := ?c)" and nx: "next_client p2 = Suc ?n" and d: "p_deferred p2 = p_deferred p"
    using e by (simp_all add: p1_def)
  have "lists_ok (add_new_client env p)"
    unfolding new lists_ok_def get_list_set_list set_list_frame cl nx lists
    using mem dist st by (auto simp: less_Suc_eq simp del: get_list.simps)
  moreover have "client_ok ?c"
    using st http1_new_limit http1_new_remaining by (simp add: client_ok_def)
  ultimately show "pool_ok (add_new_client env p)"
    using ok unfolding pool_ok_def new set_list_frame cl nx d by (auto simp: less_Suc_eq)
  show "next_client (add_new_client env p) = Suc ?n" by (simp add: new nx)
qed

lemma try_create_ok:
  assumes "pool_ok p"
  shows "pool_ok (fst (try_create_new_connection env r p)) \<and>
     next_client p \<le> next_client (fst (try_create_new_connection env r p))"
  using assms add_new_client_ok [OF assms, of env] by (simp add: try_create_new_connection_def Let_def)

lemma try_create_loop_ok:
  "pool_ok p \<Longrightarrow> pool_ok (fst (try_create_loop n env r p)) \<and> next_client p \<le> next_client (fst (try_create_loop n env r p))"
proof (induction n arbitrary: p r)
  case (Suc n)
  obtain p1 r1 where t: "try_create_new_connection env 1 p = (p1, r1)" by fastforce
  then have "pool_ok p1" "next_client p \<le> next_client p1"
    using try_create_ok [OF Suc.prems, of env 1] by auto
  with Suc.IH [of p1 r1] t show ?case by (auto intro: order_trans)
qed simp

lemma try_creates_ok:
  "pool_ok p \<Longrightarrow> pool_ok (fst (try_create_new_connections env p)) \<and>
     next_client p \<le> next_client (fst (try_create_new_connections env p))"
  unfolding try_create_new_connections_def by (rule try_create_loop_ok)

lemma on_upstream_ready_safe: "pool_ok p \<Longrightarrow> safe p (on_upstream_ready env p)"
  using upstream_ready_loop_ok [of p] try_creates_ok
  by (fastforce simp: on_upstream_ready_def safe_def)

section \<open>Closing\<close>

lemma lists_ok_close:
  assumes ok: "lists_ok p" and own: "owning_list (m_state (client p cid)) = Some l"
    and q: "\<And>l'. get_list l' q = (if l' = l then remove1 cid (get_list l p) else get_list l' p)"
    and cl: "\<And>c. m_state (client q c) = (if c = cid then Closed else m_state (client p c))"
    and nx: "next_client q = next_client p"
  shows "lists_ok q"
  using ok own unfolding lists_ok_def q cl nx by auto

lemma release_resources_frame:
  "client (release_resources cid p) = (client p)(cid := (client p cid)\<lparr> m_stream_wrapper := False, m_resources_released := True \<rparr>)"
  "get_list l (release_resources cid p) = get_list l p" "next_client (release_resources cid p) = next_client p"
  "p_deferred (release_resources cid p) =
     p_deferred p @ (if m_stream_wrapper (client p cid) then [DeferredWrapper cid] else [])"
  by (auto simp: release_resources_def upd_client_def deferred_delete_take_def release_resources_base_def
      Let_def fun_eq_iff)

lemma purge_frame [simp]:
  "client (purge_pending_streams r p) = client p" "next_client (purge_pending_streams r p) = next_client p"
  "get_list l (purge_pending_streams r p) = get_list l p" "p_deferred (purge_pending_streams r p) = p_deferred p"
  using core_eqD [OF core_purge(2)] by simp_all

lemma pending_purge [simp]: "m_pending_streams (purge_pending_streams r p) = []"
proof -
  have "m_pending_streams (purge_loop r ss q) = m_pending_streams q" for ss q
    by (induction ss arbitrary: q) (simp_all add: on_pool_failure_def)
  then show ?thesis by (simp add: purge_pending_streams_def Let_def)
qed

lemma pending_close_frame [simp]:
  "m_pending_streams (release_resources cid p) = m_pending_streams p"
  "m_pending_streams (check_for_idle_and_notify p) = m_pending_streams p"
  "m_pending_streams (deferred_delete_take d p) = m_pending_streams p"
  by (simp_all add: release_resources_def check_for_idle_and_notify_def deferred_delete_take_def Let_def)

lemma num_active_frame [simp]:
  "m_num_active_streams (emit e p) = m_num_active_streams p"
  "m_num_active_streams (upd_client cid f p) = m_num_active_streams p"
  "m_num_active_streams (decr_connecting_and_connected_stream_capacity d cid p) = m_num_active_streams p"
  "m_num_active_streams (incr_connecting_and_connected_stream_capacity d cid p) = m_num_active_streams p"
  "m_num_active_streams (check_for_idle_and_notify p) = m_num_active_streams p"
  "m_num_active_streams (deferred_delete_take x p) = m_num_active_streams p"
  by (simp_all add: emit_def upd_client_def decr_connecting_and_connected_stream_capacity_def
      incr_connecting_and_connected_stream_capacity_def decr_cluster_stream_capacity_def
      incr_cluster_stream_capacity_def check_for_idle_and_notify_def deferred_delete_take_def Let_def)

lemma num_active_state [simp]:
  "m_num_active_streams (set_state cid st p) = m_num_active_streams p"
  "m_num_active_streams (move_client a b cid p) = m_num_active_streams p"
  "m_num_active_streams (release_resources cid p) = m_num_active_streams p"
  by (simp_all add: set_state_def drain_def move_client_def release_resources_def Let_def)

lemma num_active_purge [simp]: "m_num_active_streams (purge_pending_streams r p) = m_num_active_streams p"
proof -
  have "m_num_active_streams (purge_loop r ss q) = m_num_active_streams q" for ss q
    by (induction ss arbitrary: q) (simp_all add: on_pool_failure_def)
  then show ?thesis by (simp add: purge_pending_streams_def Let_def)
qed

text \<open>The closing branch up to its last step: the client leaves its list and is closed, and a
  client that was still connecting takes the pending streams with it.\<close>

lemma on_connection_closed_cases:
  assumes ok: "pool_ok p" and cid: "cid < next_client p" "m_state (client p cid) \<noteq> Closed"
  shows "\<exists>p7 l. owning_list (m_state (client p cid)) = Some l \<and> pool_ok p7 \<and> next_client p7 = next_client p \<and>
     (\<forall>l'. get_list l' p7 = (if l' = l then remove1 cid (get_list l p) else get_list l' p)) \<and>
     (m_state (client p cid) = Connecting \<longrightarrow> m_pending_streams p7 = []) \<and>
     m_num_active_streams p7 = m_num_active_streams p \<and>
     (\<forall>c. m_stream_wrapper (client p7 c) = (c \<noteq> cid \<and> m_stream_wrapper (client p c))) \<and>
     p_deferred p7 = p_deferred p @ (if m_stream_wrapper (client p cid) then [DeferredWrapper cid] else []) @
       [DeferredClient cid] \<and>
     on_connection_closed env cid ev p =
       Some (if m_pending_streams p7 \<noteq> [] then fst (try_create_new_connections env p7) else p7)"
proof -
  define p1 where "p1 = decr_connecting_and_connected_stream_capacity
                 (word_of_int (current_unused_capacity (client p cid))) cid p"
  define p2 where "p2 = upd_client cid (set_remaining_streams 0) p1"
  define p3 where "p3 = (if \<not> has_handshake_completed (client p2 cid)
                then purge_pending_streams
                       (if ev = LocalClose then LocalConnectionFailure else RemoteConnectionFailure)
                       (upd_client cid (set_has_handshake_completed True) p2)
                else p2)"
  define p4 where "p4 = release_resources cid p3"
  have c1: "core p1 = core p" by (simp add: p1_def)
  note e1 = core_eqD(1,2,4) [OF c1] and e1l = core_eqD(3) [OF c1]
  have f3: "get_list l p3 = get_list l p" "next_client p3 = next_client p" "p_deferred p3 = p_deferred p"
    "m_state (client p3 c) = m_state (client p c)"
    "m_concurrent_stream_limit (client p3 c) = m_concurrent_stream_limit (client p c)"
    "c \<noteq> cid \<Longrightarrow> client p3 c = client p c"
    "m_stream_wrapper (client p3 c) = m_stream_wrapper (client p c)" for l c
    by (simp_all add: p3_def p2_def upd_client_def set_remaining_streams_def
        set_has_handshake_completed_def e1 e1l)
  note f4 = release_resources_frame [where cid = cid and p = p3, folded p4_def]
  obtain l where l: "owning_list (m_state (client p cid)) = Some l"
    using cid(2) by (cases "m_state (client p cid)") auto
  then have mem: "cid \<in> set (get_list l p)" using ok cid by (simp add: pool_ok_def lists_ok_def)
  have own4: "owning_list (m_state (client p4 cid)) = Some l" and ne4: "get_list l p4 \<noteq> []"
    using l mem f3(1,4) f4(1,2) by auto
  define p5 where "p5 = set_list l (remove1 cid (get_list l p4)) p4"
  define p6 where "p6 = check_for_idle_and_notify (deferred_delete_take (DeferredClient cid) p5)"
  define p7 where "p7 = set_state cid Closed p6"
  have c6: "core p6 = core (deferred_delete_take (DeferredClient cid) p5)" by (simp add: p6_def)
  have e6: "client p6 = client p4" "next_client p6 = next_client p4"
    "get_list l' p6 = (if l' = l then remove1 cid (get_list l p4) else get_list l' p4)"
    "p_deferred p6 = p_deferred p4 @ [DeferredClient cid]" for l'
    using core_eqD(1,2,4) [OF c6] core_eqD(3) [OF c6, of l']
    by (auto simp: deferred_delete_take_def p5_def)
  have "lists_ok p7"
  proof (rule lists_ok_close [OF _ l])
    show "lists_ok p" using ok by (simp add: pool_ok_def)
  qed (simp_all add: p7_def set_state_client e6(1-3) f4(1-3) f3(1,2,4))
  moreover have "client_ok (client p7 c)" if "c < next_client p" for c
    using ok that f3 f4 e6 by (auto simp: p7_def set_state_client pool_ok_def client_ok_def)
  ultimately have ok7: "pool_ok p7" "next_client p7 = next_client p"
    using ok cid f3 f4 e6 by (auto simp: p7_def pool_ok_def)
  have lists7: "get_list l' p7 = (if l' = l then remove1 cid (get_list l p) else get_list l' p)" for l'
    by (simp add: p7_def e6(3) f4(2) f3(1))
  have st2: "m_state (client p2 cid) = m_state (client p cid)"
    by (simp add: p2_def upd_client_def set_remaining_streams_def e1)
  have pend7: "m_pending_streams p7 = []" if "m_state (client p cid) = Connecting"
    using that st2 by (simp add: p7_def p6_def p5_def p4_def p3_def has_handshake_completed_def)
  have "on_connection_closed env cid ev p =
      Some (if m_pending_streams p7 \<noteq> [] then fst (try_create_new_connections env p7) else p7)"
    using own4 ne4
    by (simp only: on_connection_closed_def Let_def p1_def [symmetric] p2_def [symmetric]
        p3_def [symmetric] p4_def [symmetric] option.case if_False
        p5_def [symmetric] p6_def [symmetric] p7_def [symmetric])
  moreover have "m_num_active_streams p7 = m_num_active_streams p"
    by (simp add: p7_def p6_def p5_def p4_def p3_def p2_def p1_def)
  moreover have "m_stream_wrapper (client p7 c) = (c \<noteq> cid \<and> m_stream_wrapper (client p c))" for c
    by (simp add: p7_def set_state_client e6(1) f4(1) f3(7))
  moreover have "p_deferred p7 = p_deferred p @ (if m_stream_wrapper (client p cid) then [DeferredWrapper cid] else []) @
       [DeferredClient cid]"
    by (simp add: p7_def e6(4) f4(4) f3(3,7))
  ultimately show ?thesis using l ok7 lists7 pend7 by blast
qed

lemma on_connection_closed_safe:
  assumes "pool_ok p" "cid < next_client p" "m_state (client p cid) \<noteq> Closed"
  shows "safe p (on_connection_closed env cid ev p)"
proof -
  obtain p7 where p7: "pool_ok p7" "next_client p7 = next_client p"
    "on_connection_closed env cid ev p =
       Some (if m_pending_streams p7 \<noteq> [] then fst (try_create_new_connections env p7) else p7)"
    using on_connection_closed_cases [OF assms, of env ev] by blast
  with try_creates_ok [OF p7(1), of env] show ?thesis by (auto simp: safe_def)
qed

lemma client_close_safe:
  assumes "pool_ok p" "cid < next_client p"
  shows "safe p (client_close env cid p)"
  using assms on_connection_closed_safe [of p cid env LocalClose]
  by (auto simp: client_close_def safe_Some)

lemma close_all_safe:
  "pool_ok p \<Longrightarrow> \<forall>cid \<in> set cids. cid < next_client p \<Longrightarrow> safe p (close_all env cids p)"
proof (induction cids arbitrary: p)
  case (Cons cid cids)
  show ?case
    using Cons.prems by (auto intro!: safe_bind client_close_safe Cons.IH)
qed (simp add: safe_Some)

section \<open>Draining\<close>

lemma listed:
  assumes "pool_ok p" "cid \<in> set (get_list l p)"
  shows "cid < next_client p" "m_state (client p cid) \<noteq> Closed"
  using assms by (auto simp: pool_ok_def lists_ok_def)

lemma listed_fields:
  assumes "pool_ok p"
  shows "cid \<in> set (m_ready_clients p) \<Longrightarrow> cid < next_client p"
    and "cid \<in> set (m_connecting_clients p) \<Longrightarrow> cid < next_client p"
    and "cid \<in> set (m_busy_clients p) \<Longrightarrow> cid < next_client p \<and> m_state (client p cid) \<noteq> Closed"
  using listed [OF assms, of cid L_ready] listed [OF assms, of cid L_connecting]
    listed [OF assms, of cid L_busy] by simp_all

lemma no_early_data:
  assumes "pool_ok p"
  shows "m_early_data_clients p = []"
proof (rule ccontr)
  assume "m_early_data_clients p \<noteq> []"
  then obtain cid where "cid \<in> set (get_list L_early_data p)" by (cases "m_early_data_clients p") auto
  then have "cid < next_client p" "owning_list (m_state (client p cid)) = Some L_early_data"
    using assms by (auto simp: pool_ok_def lists_ok_def simp del: get_list.simps)
  then show False
    using assms by (cases "m_state (client p cid)") (auto simp: pool_ok_def client_ok_def)
qed

lemma close_idle_safe:
  assumes "pool_ok p"
  shows "safe p (close_idle_connection_for_draining_pool env p)"
  using listed_fields [OF assms] no_early_data [OF assms] assms
  by (auto simp: close_idle_connection_for_draining_pool_def intro!: close_all_safe)

lemma check_for_idle_safe:
  assumes "pool_ok p"
  shows "safe p (check_for_idle_and_close_idle_conns_if_draining env p)"
  unfolding check_for_idle_and_close_idle_conns_if_draining_def
  using assms close_idle_safe [OF assms, of env] pool_ok_core [OF core_ops(5)] core_next [OF core_ops(5)]
  by (auto intro!: safe_bind simp: safe_Some)

lemma drain_ready_step:
  assumes ok: "pool_ok p" and r: "m_ready_clients p = cid # cids"
  shows "\<exists>p'. transition_active_client_state cid Draining p = Some p' \<and> pool_ok p' \<and>
     next_client p' = next_client p \<and> m_ready_clients p' = cids"
proof -
  have cid: "cid \<in> set (m_ready_clients p)" using r by simp
  note rc = ready_client [OF ok cid]
  obtain p' where p': "transition_active_client_state cid Draining p = Some p'" "pool_ok p'"
    "next_client p' = next_client p"
    using pool_ok_transition [OF ok rc(1), of Draining] rc(2) by auto
  have "p' = move_client L_ready L_busy cid (set_state cid Draining p)"
    using p'(1) rc(2) by (simp add: transition_active_client_state_def Let_def)
  moreover have "cid \<in> set (get_list L_ready (set_state cid Draining p))"
    unfolding set_state_frame using cid by simp
  ultimately have "get_list L_ready p' = remove1 cid (get_list L_ready p)"
    using get_list_move [of cid L_ready "set_state cid Draining p" L_ready L_busy] by simp
  then have "m_ready_clients p' = cids" using r by simp
  with p' show ?thesis by blast
qed

lemma drain_clients_ready_safe: "pool_ok p \<Longrightarrow> safe p (drain_clients L_ready p)"
proof (induction "m_ready_clients p" arbitrary: p)
  case Nil
  then show ?case by (simp add: drain_clients.simps safe_Some)
next
  case (Cons cid cids)
  obtain p' where p': "transition_active_client_state cid Draining p = Some p'" "pool_ok p'"
    "next_client p' = next_client p" "m_ready_clients p' = cids"
    using drain_ready_step [OF Cons.prems Cons.hyps(2) [symmetric]] by blast
  with Cons.hyps(1) [of p'] Cons.hyps(2) show ?case
    by (simp add: drain_clients.simps [of _ p] safe_def flip: Cons.hyps(2))
qed

lemma drain_clients_early_safe: "pool_ok p \<Longrightarrow> safe p (drain_clients L_early_data p)"
  by (simp add: drain_clients.simps no_early_data safe_Some)

lemma drain_busy_safe:
  "pool_ok p \<Longrightarrow> \<forall>cid \<in> set cids. cid < next_client p \<and> m_state (client p cid) \<noteq> Closed \<Longrightarrow>
   safe p (drain_busy cids p)"
proof (induction cids arbitrary: p)
  case (Cons cid cids)
  show ?case
  proof (cases "m_state (client p cid) = Draining")
    case True
    with Cons show ?thesis by simp
  next
    case False
    obtain p1 where p1: "transition_active_client_state cid Draining p = Some p1" "pool_ok p1"
      "next_client p1 = next_client p" "m_state (client p1 cid) = Draining"
      "\<forall>c. c \<noteq> cid \<longrightarrow> client p1 c = client p c"
      using pool_ok_transition [OF Cons.prems(1), of cid Draining] Cons.prems(2) by auto
    then have "\<forall>c \<in> set cids. c < next_client p1 \<and> m_state (client p1 c) \<noteq> Closed"
      using Cons.prems(2) by (metis client_state.distinct(29) list.set_intros(2))
    with Cons.IH [OF p1(2)] p1 False show ?thesis by (simp add: safe_def)
  qed
qed (simp add: safe_Some)

lemma drain_connections_safe:
  assumes "pool_ok p"
  shows "safe p (drain_connections_impl env b p)"
proof (cases "b = DrainAndDelete")
  case True
  let ?q = "p\<lparr> m_is_draining_for_deletion := True \<rparr>"
  have "pool_ok ?q" using assms pool_ok_core [OF core_frame(7)] by simp
  with check_for_idle_safe [OF this, of env] True show ?thesis
    using safe_core [of p ?q] by (simp add: drain_connections_impl_def)
next
  case False
  have early: "safe q (if m_pending_streams q = [] then drain_clients L_early_data q else Some q)" if "pool_ok q" for q
    using that drain_clients_early_safe by (simp add: safe_Some)
  show ?thesis
    using False assms listed_fields(3)
    by (auto simp: drain_connections_impl_def
        intro!: safe_bind close_idle_safe early drain_clients_ready_safe drain_busy_safe)
qed

section \<open>Streams\<close>

lemma drain_and_close_safe:
  assumes "pool_ok p" "cid < next_client p" "m_state (client p cid) \<noteq> Closed"
  shows "safe p (drain_and_close env cid p)"
proof -
  have "safe p (transition_active_client_state cid Draining p)"
    using pool_ok_transition [OF assms, of Draining] by (auto simp: safe_def)
  then show ?thesis
    using assms(2) by (auto simp: drain_and_close_def intro!: safe_bind client_close_safe)
qed

lemma close_excess_safe:
  assumes "pool_ok p"
  shows "safe p (close_excess env p)"
proof (cases "m_connecting_clients p")
  case Nil
  then show ?thesis using assms no_early_data [OF assms] by (simp add: close_excess_def safe_Some)
next
  case (Cons cid cids)
  then have "cid < next_client p" "m_state (client p cid) \<noteq> Closed"
    using listed [OF assms, of cid L_connecting] by simp_all
  with Cons show ?thesis
    using assms no_early_data [OF assms] drain_and_close_safe by (simp add: close_excess_def safe_Some)
qed

lemma on_pending_stream_cancel_safe:
  assumes "pool_ok p"
  shows "safe p (on_pending_stream_cancel env stream policy p)"
proof -
  let ?q = "if m_pending_streams_to_purge p \<noteq> []
            then p\<lparr> m_pending_streams_to_purge := remove1 stream (m_pending_streams_to_purge p) \<rparr>
            else p\<lparr> m_pending_streams := remove1 stream (m_pending_streams p) \<rparr>"
  have core: "core ?q = core p" by simp
  then have "pool_ok ?q" using assms pool_ok_core by blast
  then have "safe ?q (Option.bind (if policy = CloseExcess then close_excess env ?q else Some ?q)
      (check_for_idle_and_close_idle_conns_if_draining env))"
    by (intro safe_bind check_for_idle_safe) (auto intro: close_excess_safe simp: safe_Some)
  then show ?thesis
    using safe_core [OF core [symmetric]] by (simp only: on_pending_stream_cancel_def Let_def)
qed

lemma attach_safe:
  assumes "pool_ok p" "m_ready_clients p \<noteq> []"
  shows "safe p (attach_stream_to_client (hd (m_ready_clients p)) ctx p)"
  using attach_ok [OF assms(1), of "hd (m_ready_clients p)" ctx] assms(2) by (auto simp: safe_def)

lemma map_fst_bind:
  "map_option fst (Option.bind r (\<lambda>q. Some (f q, x))) = Option.bind r (\<lambda>q. Some (f q))"
  by (cases r) simp_all

lemma new_stream_impl_safe:
  assumes ok: "pool_ok p"
  shows "safe p (map_option fst (new_stream_impl env ctx early p))"
proof -
  have create: "safe q (Some (fst (try_create_new_connections env q)))" if "pool_ok q" for q
    using try_creates_ok [OF that] by (simp add: safe_Some)
  have fail: "safe q (Some (on_pool_failure r ctx q))" if "pool_ok q" for q r
    using that pool_ok_core [OF core_ops(2)] core_next [OF core_ops(2)] by (simp add: safe_Some)
  obtain p1 s where p1: "new_pending_stream ctx early p = (p1, s)" by fastforce
  then have core: "core p1 = core p" using core_new_pending [of ctx early p] by simp
  then have ok1: "pool_ok p1" using ok pool_ok_core by blast
  obtain p2 r where p2: "try_create_new_connections env p1 = (p2, r)" by fastforce
  then have ok2: "pool_ok p2" "next_client p \<le> next_client p2"
    using try_creates_ok [OF ok1, of env] core_next [OF core] by auto
  have "safe p2 (Option.bind (on_pending_stream_cancel env s CloseExcess p2)
      (\<lambda>q. Some (on_pool_failure LocalConnectionFailure ctx q)))"
    by (intro safe_bind on_pending_stream_cancel_safe ok2 fail)
  then have cancel: "safe p (Option.bind (on_pending_stream_cancel env s CloseExcess p2)
      (\<lambda>q. Some (on_pool_failure LocalConnectionFailure ctx q)))"
    using ok2(2) unfolding safe_def by auto
  show ?thesis
    using ok ok2 p1 p2 cancel no_early_data [OF ok] fail [OF ok]
    by (auto simp: new_stream_impl_def map_fst_bind safe_Some intro!: safe_bind attach_safe create)
qed

lemma on_connected_transition_safe:
  assumes ok: "pool_ok p" and cid: "cid < next_client p" "m_state (client p cid) \<noteq> Closed"
  defines "unused \<equiv> current_unused_capacity (client p cid)"
  defines "p2 \<equiv> upd_client cid (set_has_handshake_completed True)
     (p\<lparr> m_connecting_and_connected_stream_capacity := m_connecting_and_connected_stream_capacity p - unused \<rparr>)"
  shows "safe p2 (if m_state (client p2 cid) = Connecting \<or> m_state (client p2 cid) = ReadyForEarlyData
                then transition_active_client_state cid (if unused > 0 then Ready else Busy) p2
                else Some p2)"
proof -
  define p1 where "p1 = p\<lparr> m_connecting_and_connected_stream_capacity :=
                    m_connecting_and_connected_stream_capacity p - unused \<rparr>"
  have p2: "p2 = upd_client cid (set_has_handshake_completed True) p1" by (simp add: p2_def p1_def)
  have c1: "core p1 = core p" by (simp add: p1_def)
  have "pool_ok p1" using ok pool_ok_core [OF c1] by simp
  moreover from this have "client_ok (client p1 cid)" using cid core_eqD(2) [OF c1] by (simp add: pool_ok_def)
  ultimately have ok2: "pool_ok p2"
    unfolding p2
    by (intro pool_ok_upd_client) (auto simp: set_has_handshake_completed_def client_ok_def)
  have nx: "next_client p2 = next_client p" and st: "m_state (client p2 cid) = m_state (client p cid)"
    and cap: "current_unused_capacity (client p2 cid) = unused"
    using core_eqD(1,2) [OF c1]
    by (simp_all add: p2 upd_client_def set_has_handshake_completed_def unused_def
        current_unused_capacity_def num_active_streams_def)
  show ?thesis
    using pool_ok_transition [OF ok2, of cid "if unused > 0 then Ready else Busy"] cid nx st cap ok2
    by (auto simp: safe_def split: if_splits)
qed

lemma on_connected_safe:
  assumes ok: "pool_ok p" and cid: "cid < next_client p" "m_state (client p cid) \<noteq> Closed"
  shows "safe p (on_connected_event env cid p)"
proof -
  define p2 where "p2 = upd_client cid (set_has_handshake_completed True)
     (p\<lparr> m_connecting_and_connected_stream_capacity :=
        m_connecting_and_connected_stream_capacity p - current_unused_capacity (client p cid) \<rparr>)"
  have nx: "next_client p2 = next_client p" by (simp add: p2_def upd_client_def)
  have "safe p2 (on_connected_event env cid p)"
    unfolding on_connected_event_def Let_def p2_def [symmetric]
    by (intro safe_bind check_for_idle_safe on_connected_transition_safe [OF assms, folded p2_def])
       (auto intro: on_upstream_ready_safe simp: safe_Some)
  then show ?thesis by (simp add: safe_def nx)
qed

lemma on_stream_closed_safe:
  assumes ok: "pool_ok p" and cid: "cid < next_client p"
  shows "safe p (on_stream_closed env cid delay p)"
proof -
  define p1 where "p1 = p\<lparr> m_num_active_streams := m_num_active_streams p - 1,
                  p_resources := modify requests_i dec_i (p_resources p) \<rparr>"
  have c1: "core p1 = core p" by (simp add: p1_def)
  then have ok1: "pool_ok p1" and nx: "next_client p1 = next_client p"
    using ok pool_ok_core core_next by blast+
  have busy: "safe p1 (Option.bind (transition_active_client_state cid Ready p1)
      (\<lambda>p2. if \<not> delay then on_upstream_ready env p2 else Some p2))"
    if "m_state (client p1 cid) = Busy" "current_unused_capacity (client p1 cid) > 0"
  proof (rule safe_bind)
    show "safe p1 (transition_active_client_state cid Ready p1)"
      using pool_ok_transition [OF ok1, of cid Ready] that cid nx by (auto simp: safe_def)
  qed (simp add: on_upstream_ready_safe safe_Some)
  have "safe p1 (on_stream_closed env cid delay p)"
    using busy client_close_safe [OF ok1, of cid env] cid nx ok1
    unfolding on_stream_closed_def p1_def [symmetric] Let_def
    by (auto simp: has_handshake_completed_def safe_Some)
  then show ?thesis by (simp add: safe_def nx)
qed

lemma stream_wrapper_reset_safe:
  assumes ok: "pool_ok p" and cid: "cid < next_client p"
  shows "safe p (stream_wrapper_reset env cid p)"
proof -
  let ?q = "upd_client cid (\<lambda>c. c\<lparr> m_stream_wrapper := False \<rparr>) p"
  have "client_ok (client p cid)" using assms by (auto simp: pool_ok_def)
  then have "pool_ok ?q" by (intro pool_ok_upd_client [OF ok]) (simp_all add: client_ok_def)
  moreover have "next_client ?q = next_client p" by (simp add: upd_client_def)
  ultimately show ?thesis using on_stream_closed_safe [of ?q cid env True] cid ok
    by (simp add: stream_wrapper_reset_def safe_def)
qed

lemma on_decode_complete_safe:
  assumes ok: "pool_ok p" and cid: "cid < next_client p"
  shows "safe p (on_decode_complete env cid enc cl p)"
proof -
  let ?q = "schedule_on_upstream_ready p"
  have "pool_ok ?q" "next_client ?q = next_client p"
    using ok pool_ok_core [OF core_ops(7)] core_next [OF core_ops(7)] by simp_all
  then have "safe ?q (Option.bind (stream_wrapper_reset env cid ?q) (check_for_idle_and_close_idle_conns_if_draining env))"
    using cid by (intro safe_bind stream_wrapper_reset_safe check_for_idle_safe) simp_all
  then have "safe p (Option.bind (stream_wrapper_reset env cid ?q) (check_for_idle_and_close_idle_conns_if_draining env))"
    using safe_core [of p ?q] by simp
  then show ?thesis using client_close_safe [OF assms] by (simp add: on_decode_complete_def)
qed

lemma delete_all_safe:
  "pool_ok p \<Longrightarrow> \<forall>d \<in> set ds. deferred_cid d < next_client p \<Longrightarrow> safe p (delete_all env ds p)"
proof (induction env ds p rule: delete_all.induct)
  case (2 env cid ds p)
  then show ?case by (auto intro!: safe_bind on_stream_closed_safe 2(1) intro: order_less_le_trans)
next
  case (3 env cid ds p)
  then show ?case by (auto intro!: safe_bind stream_wrapper_reset_safe 3(1) intro: order_less_le_trans)
qed (simp add: safe_Some)

lemma clear_deferred_safe:
  assumes "pool_ok p"
  shows "safe p (clear_deferred_delete_list env p)"
proof -
  let ?q = "p\<lparr> p_deferred := [] \<rparr>"
  have "pool_ok ?q" "next_client ?q = next_client p"
    using assms by (simp_all add: pool_ok_def lists_ok_def)
  with delete_all_safe [of ?q "p_deferred p" env] assms show ?thesis
    by (auto simp: clear_deferred_delete_list_def safe_def pool_ok_def)
qed

lemma run_upstream_ready_safe:
  assumes "pool_ok p"
  shows "safe p (run_upstream_ready_cb env p)"
proof -
  let ?q = "p\<lparr> m_upstream_ready_scheduled := False \<rparr>"
  have "pool_ok ?q" using assms pool_ok_core [OF core_frame(8)] by simp
  with on_upstream_ready_safe [OF this, of env] assms show ?thesis
    using safe_core [of p ?q] by (simp add: run_upstream_ready_cb_def safe_Some)
qed

lemma on_connect_timeout_safe:
  assumes ok: "pool_ok p" and cid: "cid < next_client p"
  shows "safe p (on_connect_timeout env cid p)"
proof -
  let ?q = "upd_client cid set_timed_out p"
  have "client_ok (client p cid)" using assms by (auto simp: pool_ok_def)
  then have "pool_ok ?q"
    by (intro pool_ok_upd_client [OF ok]) (simp_all add: client_ok_def set_timed_out_def)
  moreover have "next_client ?q = next_client p" by (simp add: upd_client_def)
  ultimately show ?thesis
    using client_close_safe [of ?q cid env] cid by (simp add: on_connect_timeout_def safe_def)
qed

lemma on_connection_duration_timeout_safe:
  assumes ok: "pool_ok p" and cid: "cid < next_client p"
  shows "safe p (on_connection_duration_timeout cid p)"
  using pool_ok_transition [OF assms, of Draining] ok
  by (auto simp: on_connection_duration_timeout_def safe_def)

section \<open>Destruction\<close>

lemma get_list_try_create:
  "l \<noteq> L_connecting \<Longrightarrow> get_list l (fst (try_create_new_connections env p)) = get_list l p"
proof -
  assume l: "l \<noteq> L_connecting"
  have add: "get_list l (add_new_client env q) = get_list l q" for q
    using l core_eqD(1) [OF core_ops(4)] core_eqD(3) [OF core_ops(4)]
    by (simp add: add_new_client_def Let_def rp_http1_cp_active_client_new_def active_client_new_def
        del: set_list.simps get_list.simps)
  have one: "get_list l (fst (try_create_new_connection env r q)) = get_list l q" for r q
    by (simp add: try_create_new_connection_def Let_def add)
  have "get_list l (fst (try_create_loop n env res q)) = get_list l q" for n res q
    by (induction n arbitrary: res q) (simp_all add: Let_def split_def one)
  then show ?thesis by (simp add: try_create_new_connections_def)
qed

lemma client_close_head:
  assumes ok: "pool_ok p" and l: "get_list l p = cid # cids"
  shows "\<exists>p'. client_close env cid p = Some p' \<and> pool_ok p' \<and> next_client p \<le> next_client p' \<and>
     get_list l p' = cids \<and> (\<forall>l'. l' \<noteq> l \<and> l' \<noteq> L_connecting \<longrightarrow> get_list l' p' = get_list l' p)"
proof -
  have mem: "cid \<in> set (get_list l p)" using l by simp
  note live = listed [OF ok mem]
  have own: "owning_list (m_state (client p cid)) = Some l"
    using ok mem by (auto simp: pool_ok_def lists_ok_def)
  obtain p7 where p7: "pool_ok p7" "next_client p7 = next_client p"
    "\<And>l'. get_list l' p7 = (if l' = l then remove1 cid (get_list l p) else get_list l' p)"
    "m_state (client p cid) = Connecting \<Longrightarrow> m_pending_streams p7 = []"
    "on_connection_closed env cid LocalClose p =
       Some (if m_pending_streams p7 \<noteq> [] then fst (try_create_new_connections env p7) else p7)"
    using on_connection_closed_cases [OF ok live, of env LocalClose] own by auto
  have conn: "l = L_connecting \<Longrightarrow> m_pending_streams p7 = []"
    using p7(4) own by (cases "m_state (client p cid)") auto
  let ?p' = "if m_pending_streams p7 \<noteq> [] then fst (try_create_new_connections env p7) else p7"
  have "client_close env cid p = Some ?p'" using live(2) p7(5) by (simp add: client_close_def)
  moreover have "pool_ok ?p' \<and> next_client p \<le> next_client ?p'"
    using p7(1,2) try_creates_ok [OF p7(1), of env] by auto
  moreover have "get_list l ?p' = cids"
    using conn p7(3) [of l] l get_list_try_create [of l env p7] by auto
  moreover have "\<forall>l'. l' \<noteq> l \<and> l' \<noteq> L_connecting \<longrightarrow> get_list l' ?p' = get_list l' p"
    using p7(3) get_list_try_create by auto
  ultimately show ?thesis by blast
qed

lemma destroy_connections_ok:
  "pool_ok p \<Longrightarrow> \<exists>p'. destroy_connections env l p = Some p' \<and> pool_ok p' \<and> next_client p \<le> next_client p' \<and>
     get_list l p' = [] \<and> (\<forall>l'. l' \<noteq> l \<and> l' \<noteq> L_connecting \<longrightarrow> get_list l' p' = get_list l' p)"
proof (induction "get_list l p" arbitrary: p)
  case Nil
  then show ?case by (simp add: destroy_connections.simps flip: Nil.hyps)
next
  case (Cons cid cids)
  obtain p1 where p1: "client_close env cid p = Some p1" "pool_ok p1" "next_client p \<le> next_client p1"
    "get_list l p1 = cids" "\<forall>l'. l' \<noteq> l \<and> l' \<noteq> L_connecting \<longrightarrow> get_list l' p1 = get_list l' p"
    using client_close_head [OF Cons.prems Cons.hyps(2) [symmetric]] by blast
  obtain p2 where p2: "destroy_connections env l p1 = Some p2" "pool_ok p2" "next_client p1 \<le> next_client p2"
    "get_list l p2 = []" "\<forall>l'. l' \<noteq> l \<and> l' \<noteq> L_connecting \<longrightarrow> get_list l' p2 = get_list l' p1"
    using Cons.hyps(1) [OF p1(4) [symmetric] p1(2)] by blast
  have "destroy_connections env l p = Some p2"
    using p1(1) p2(1) by (simp add: destroy_connections.simps [of env l p] flip: Cons.hyps(2))
  with p1 p2 show ?case by auto
qed

lemma delete_all_closed:
  "\<forall>d \<in> set ds. m_state (client p (deferred_cid d)) = Closed \<Longrightarrow>
   \<exists>p'. delete_all env ds p = Some p' \<and> (\<forall>l. get_list l p' = get_list l p)"
proof (induction ds arbitrary: p)
  case (Cons d ds)
  let ?p1 = "p\<lparr> m_num_active_streams := m_num_active_streams p - 1,
               p_resources := modify requests_i dec_i (p_resources p) \<rparr>"
  let ?f = "\<lambda>c. c\<lparr> m_stream_wrapper := False \<rparr>"
  have closed: "on_stream_closed env cid True q =
      Some (q\<lparr> m_num_active_streams := m_num_active_streams q - 1,
               p_resources := modify requests_i dec_i (p_resources q) \<rparr>)"
    if "m_state (client q cid) = Closed" for cid q
    using that by (simp add: on_stream_closed_def Let_def)
  show ?case
  proof (cases d)
    case (DeferredWrapper cid)
    with Cons.prems Cons.IH [of ?p1] show ?thesis by (simp add: closed)
  next
    case (DeferredClient cid)
    show ?thesis
    proof (cases "m_stream_wrapper (client p cid)")
      case True
      let ?q = "upd_client cid ?f p"
      have st: "m_state (client ?q c) = m_state (client p c)" for c by (simp add: upd_client_def)
      have l: "get_list l ?q = get_list l p" for l by (simp add: upd_client_def)
      with True DeferredClient Cons.prems st
        Cons.IH [of "?q\<lparr> m_num_active_streams := m_num_active_streams ?q - 1,
          p_resources := modify requests_i dec_i (p_resources ?q) \<rparr>"]
      show ?thesis by (simp add: stream_wrapper_reset_def closed)
    next
      case False
      with DeferredClient Cons.prems Cons.IH [of p] show ?thesis by (simp add: stream_wrapper_reset_def)
    qed
  qed
qed simp

lemma all_lists_empty_closed:
  assumes "pool_ok p" "\<And>l. get_list l p = []" "cid < next_client p"
  shows "m_state (client p cid) = Closed"
proof (rule ccontr)
  assume "m_state (client p cid) \<noteq> Closed"
  then obtain l where "owning_list (m_state (client p cid)) = Some l"
    by (cases "m_state (client p cid)") auto
  with assms show False by (auto simp: pool_ok_def lists_ok_def)
qed

lemma destruct_all_ok:
  assumes "pool_ok p"
  shows "\<exists>p'. destruct_all_connections env p = Some p' \<and> (\<forall>l. get_list l p' = [])"
proof -
  obtain p1 where p1: "destroy_connections env L_ready p = Some p1" "pool_ok p1" "get_list L_ready p1 = []"
    using destroy_connections_ok [OF assms, of env L_ready] by blast
  obtain p2 where p2: "destroy_connections env L_busy p1 = Some p2" "pool_ok p2" "get_list L_busy p2 = []"
    "get_list L_ready p2 = []"
    using destroy_connections_ok [OF p1(2), of env L_busy] p1(3) by fastforce
  obtain p3 where p3: "destroy_connections env L_connecting p2 = Some p3" "pool_ok p3"
    "get_list L_connecting p3 = []" "get_list L_ready p3 = []" "get_list L_busy p3 = []"
    using destroy_connections_ok [OF p2(2), of env L_connecting] p2(3,4) by fastforce
  have early: "get_list L_early_data p3 = []" using no_early_data [OF p3(2)] by simp
  have p4: "destroy_connections env L_early_data p3 = Some p3"
    using early by (simp add: destroy_connections.simps)
  have empty: "get_list l p3 = []" for l using p3(3-5) early by (cases l) auto
  let ?q = "p3\<lparr> p_deferred := [] \<rparr>"
  have "\<forall>d \<in> set (p_deferred p3). m_state (client ?q (deferred_cid d)) = Closed"
    using all_lists_empty_closed [OF p3(2) empty] p3(2) by (auto simp: pool_ok_def)
  from delete_all_closed [OF this, of env] obtain p5 where
    "delete_all env (p_deferred p3) ?q = Some p5" "\<forall>l. get_list l p5 = []"
    using empty by auto
  with p1(1) p2(1) p3(1) p4 show ?thesis
    by (simp add: destruct_all_connections_def clear_deferred_delete_list_def)
qed

section \<open>Every call keeps the invariant\<close>

text \<open>The calls a pool gets: events of connections it has and that are not closed yet, none of them
  a zero round-trip handshake, which HTTP/1 connections do not have.\<close>

fun valid_call :: "pool_call \<Rightarrow> pool \<Rightarrow> bool" where
  "valid_call (ConnEvent cid ev) p =
     (cid < next_client p \<and> m_state (client p cid) \<noteq> Closed \<and> ev \<noteq> ConnectedZeroRtt)"
| "valid_call (StreamDone cid enc cl) p = (cid < next_client p)"
| "valid_call (DurationTimeout cid) p = (cid < next_client p)"
| "valid_call (ConnectTimeout cid) p = (cid < next_client p)"
| "valid_call c p = True"

lemma on_connection_event_safe:
  assumes "pool_ok p" "valid_call (ConnEvent cid ev) p"
  shows "safe p (on_connection_event env cid ev p)"
  using assms on_connection_closed_safe [of p cid env ev] on_connected_safe [of p cid env]
  by (cases ev) (simp_all add: on_connection_event_def safe_Some)

lemma pool_exec1_safe:
  assumes ok: "pool_ok p" and v: "valid_call c p"
  shows "safe p (pool_exec1 env c p)"
proof (cases c)
  case (ConnEvent cid ev)
  with assms on_connection_event_safe show ?thesis by simp
next
  case (Preconnect r)
  then show ?thesis
    using try_create_ok [OF ok, of env r]
    by (auto simp: maybe_preconnect_impl_def safe_Some split: prod.splits)
next
  case (AddIdleCallback cb)
  then show ?thesis
    using ok pool_ok_core [OF core_ops(6)] core_next [OF core_ops(6)] by (simp add: safe_Some)
qed (use assms in \<open>simp_all add: new_stream_impl_safe on_decode_complete_safe
      on_pending_stream_cancel_safe run_upstream_ready_safe clear_deferred_safe drain_connections_safe
      on_connection_duration_timeout_safe on_connect_timeout_safe\<close>)

lemma pool_ok_init: "pool_ok (rp_conn_pool_impl_base_init rm)"
proof -
  have "get_list l (rp_conn_pool_impl_base_init rm) = []" for l
    by (cases l) (simp_all add: rp_conn_pool_impl_base_init_def)
  then show ?thesis
    by (simp add: pool_ok_def lists_ok_def) (simp add: rp_conn_pool_impl_base_init_def)
qed

interpretation pool: invariant_system
  "\<lambda>p. \<exists>rm. p = rp_conn_pool_impl_base_init rm" valid_call "pool_exec1 env" pool_ok
  for env
proof
  show "pool_ok p" if "\<exists>rm. p = rp_conn_pool_impl_base_init rm" for p
    using that pool_ok_init by blast
  show "\<exists>t. pool_exec1 env c s = Some t \<and> pool_ok t" if "pool_ok s" "valid_call c s" for s c
    using pool_exec1_safe [OF that, of env] by (auto simp: safe_def)
qed

end
