(* ===== verification/Conn_Pool_Count.thy ===== *)
theory Conn_Pool_Count
  imports Conn_Pool_Inv
begin

text \<open>
  The count of active streams of a pool: \<open>m_num_active_streams\<close> is always the number of streams in
  flight on its clients plus those of closed clients whose deletion is pending. The proof follows
  the balance between the counter and the streams through every operation.
\<close>

section \<open>The balance\<close>

definition wrappers :: "pool \<Rightarrow> nat set" where
  "wrappers p = {cid. cid < next_client p \<and> m_stream_wrapper (client p cid)}"

fun is_wrapper :: "deferred \<Rightarrow> bool" where
  "is_wrapper (DeferredWrapper _) = True"
| "is_wrapper (DeferredClient _) = False"

definition streams :: "pool \<Rightarrow> nat" where
  "streams p = card (wrappers p) + length (filter is_wrapper (p_deferred p))"

definition balance :: "pool \<Rightarrow> guint32" where
  "balance p = m_num_active_streams p - of_nat (streams p)"

lemma finite_wrappers [simp]: "finite (wrappers p)"
  by (simp add: wrappers_def)

lemma balance_cong:
  assumes "m_num_active_streams q = m_num_active_streams p" "next_client q = next_client p"
    "\<And>c. m_stream_wrapper (client q c) = m_stream_wrapper (client p c)" "p_deferred q = p_deferred p"
  shows "balance q = balance p"
  using assms by (simp add: balance_def streams_def wrappers_def)

lemma balance_core:
  "core q = core p \<Longrightarrow> m_num_active_streams q = m_num_active_streams p \<Longrightarrow> balance q = balance p"
  using core_eqD [of q p] by (intro balance_cong) simp_all

lemma wrapper_set_state [simp]:
  "m_stream_wrapper (client (set_state cid st p) c) = m_stream_wrapper (client p c)"
proof (cases "st = ReadyForEarlyData")
  case True
  then show ?thesis by (simp add: set_state_def supports_early_data_def)
qed (simp add: set_state_client)

lemma balance_transition:
  "transition_active_client_state cid st p = Some p' \<Longrightarrow> balance p' = balance p"
  by (auto simp: transition_active_client_state_def Let_def split: option.splits intro!: balance_cong)

section \<open>Streams that begin and end\<close>

lemma balance_gain:
  assumes "cid < next_client p" "\<not> m_stream_wrapper (client p cid)"
    and "next_client q = next_client p" "p_deferred q = p_deferred p"
    and "\<And>c. m_stream_wrapper (client q c) = (c = cid \<or> m_stream_wrapper (client p c))"
    and "m_num_active_streams q = m_num_active_streams p + 1"
  shows "balance q = balance p"
proof -
  have "wrappers q = insert cid (wrappers p)" "cid \<notin> wrappers p"
    using assms by (auto simp: wrappers_def)
  then show ?thesis using assms by (simp add: balance_def streams_def)
qed

lemma balance_attach:
  assumes ok: "pool_ok p" and cid: "cid \<in> set (m_ready_clients p)"
    and a: "attach_stream_to_client cid ctx p = Some p'"
  shows "balance p' = balance p"
proof (cases "can_create_i (deref requests_i (p_resources p))")
  case False
  with a show ?thesis
    by (auto simp: attach_stream_to_client_def on_pool_failure_def intro!: balance_core)
next
  case True
  note r = ready_client [OF ok cid]
  define c where "c = (client p cid)\<lparr> m_remaining_streams := m_remaining_streams (client p cid) - 1 \<rparr>"
  define st where "st = (if m_remaining_streams c = 0 then Draining else Busy)"
  have st: "st = Busy \<or> st = Draining" by (simp add: st_def)
  obtain p2 where p2: "transition_active_client_state cid st (upd_client cid (\<lambda>_. c) p) = Some p2"
    "next_client p2 = next_client p" "\<not> m_stream_wrapper (client p2 cid)"
    using attach_transition [OF ok cid c_def st] by blast
  define p3 where "p3 = decr_connecting_and_connected_stream_capacity 1 cid p2"
  define p4 where "p4 = p3\<lparr> m_num_active_streams := m_num_active_streams p3 + 1,
                  p_resources := modify requests_i inc_i (p_resources p3) \<rparr>"
  have "on_pool_ready cid ctx p4 = Some p'"
    using True p2(1) r(6) a
    by (simp add: attach_stream_to_client_def decr_remaining_streams_def c_def st_def p3_def p4_def Let_def
        split: if_splits)
  then have p': "p' = emit (PoolReady cid ctx) (upd_client cid (\<lambda>_. (client p4 cid)\<lparr> m_stream_wrapper := True \<rparr>) p4)"
    by (auto simp: on_pool_ready_def new_stream_encoder_def split: if_splits)
  have core4: "core p4 = core p2" by (simp add: p4_def p3_def)
  have "balance p' = balance p2"
  proof (rule balance_gain [of cid])
    show "cid < next_client p2" "\<not> m_stream_wrapper (client p2 cid)" using r(1) p2 by simp_all
    show "m_num_active_streams p' = m_num_active_streams p2 + 1"
      by (simp add: p' p4_def p3_def)
  qed (use core_eqD(1,2,4) [OF core4] in \<open>auto simp: p' emit_def upd_client_def\<close>)
  also have "\<dots> = balance (upd_client cid (\<lambda>_. c) p)" by (rule balance_transition [OF p2(1)])
  also have "\<dots> = balance p" by (rule balance_cong) (auto simp: upd_client_def c_def)
  finally show ?thesis .
qed

lemma balance_upstream_ready_loop:
  "pool_ok p \<Longrightarrow> upstream_ready_loop p = Some p' \<Longrightarrow> balance p' = balance p"
proof (induction p arbitrary: p' rule: upstream_ready_loop.induct)
  case (1 p)
  show ?case
  proof (cases "m_pending_streams p = [] \<or> m_ready_clients p = []")
    case True
    with 1 show ?thesis by (simp add: upstream_ready_loop.simps [of p])
  next
    case False
    let ?cid = "hd (m_ready_clients p)" and ?ctx = "ps_context (last (m_pending_streams p))"
    have m: "?cid \<in> set (m_ready_clients p)" using False by simp
    then obtain p1 where p1: "attach_stream_to_client ?cid ?ctx p = Some p1" "pool_ok p1"
      using attach_ok [OF 1(2)] by blast
    let ?q = "p1\<lparr> m_pending_streams := butlast (m_pending_streams p1) \<rparr>"
    have "pool_ok ?q" using p1(2) pool_ok_core [OF core_frame(1)] by simp
    moreover have "balance ?q = balance p1" by (rule balance_core) simp_all
    ultimately show ?thesis
      using 1(1) [OF False p1(1)] 1(3) p1(1) False balance_attach [OF 1(2) m p1(1)]
      by (simp add: upstream_ready_loop.simps [of p])
  qed
qed

lemma balance_add_new_client: "pool_ok p \<Longrightarrow> balance (add_new_client env p) = balance p"
proof -
  let ?n = "next_client p" and ?c = "rp_http1_cp_active_client_new (max_requests_per_connection env)"
  define p1 where "p1 = p\<lparr> client := (client p)(?n := ?c), next_client := Suc ?n \<rparr>"
  define p2 where "p2 = incr_connecting_and_connected_stream_capacity
     (word_of_int (current_unused_capacity (client p1 ?n))) ?n p1"
  have core: "core p2 = core p1" by (simp add: p2_def)
  note e = core_eqD [OF core]
  have st: "m_state ?c = Connecting" "\<not> m_stream_wrapper ?c"
    by (simp_all add: rp_http1_cp_active_client_new_def active_client_new_def)
  have new: "add_new_client env p = set_list L_connecting (?n # get_list L_connecting p2) p2"
    using st e(1) by (simp add: add_new_client_def p1_def p2_def Let_def)
  have "wrappers (add_new_client env p) = wrappers p"
    using e(1,2) st by (auto simp: new wrappers_def p1_def less_Suc_eq simp del: set_list.simps)
  then show ?thesis
    using e(4) by (simp add: balance_def streams_def new p1_def p2_def del: set_list.simps)
qed

lemma balance_try_create:
  assumes "pool_ok p"
  shows "balance (fst (try_create_new_connections env p)) = balance p"
proof -
  have one: "balance (fst (try_create_new_connection env r q)) = balance q" if "pool_ok q" for r q
    using that by (simp add: try_create_new_connection_def Let_def balance_add_new_client)
  have "balance (fst (try_create_loop n env res q)) = balance q" if "pool_ok q" for n res q
    using that
  proof (induction n arbitrary: res q)
    case (Suc n)
    with one [OF Suc.prems, of 1] try_create_ok [OF Suc.prems, of env 1] show ?case
      by (simp add: Let_def split_def)
  qed simp
  with assms show ?thesis by (simp add: try_create_new_connections_def)
qed

section \<open>Every operation keeps the balance\<close>

text \<open>\<open>bal p r\<close>: what the call made in \<open>p\<close> returned has the balance of \<open>p\<close>.\<close>

definition bal :: "pool \<Rightarrow> pool option \<Rightarrow> bool" where
  "bal p r = (\<forall>p'. r = Some p' \<longrightarrow> balance p' = balance p)"

lemma bal_Some [simp]: "bal p (Some q) \<longleftrightarrow> balance q = balance p"
  by (simp add: bal_def)

lemma bal_bind:
  assumes "safe p r" "bal p r"
    and "\<And>q. r = Some q \<Longrightarrow> pool_ok q \<Longrightarrow> next_client p \<le> next_client q \<Longrightarrow> bal q (f q)"
  shows "bal p (Option.bind r f)"
  using assms by (auto simp: safe_def bal_def)

lemma bal_eq: "balance q = balance p \<Longrightarrow> bal q r \<Longrightarrow> bal p r"
  by (simp add: bal_def)

lemma bal_transition: "bal p (transition_active_client_state cid st p)"
  using balance_transition by (simp add: bal_def)

lemma balance_core_ops [simp]:
  "balance (emit e p) = balance p"
  "balance (on_pool_failure r ctx p) = balance p"
  "balance (check_for_idle_and_notify p) = balance p"
  "balance (add_idle_callback_impl cb p) = balance p"
  "balance (schedule_on_upstream_ready p) = balance p"
  "balance (fst (new_pending_stream ctx early p)) = balance p"
  by (rule balance_core; simp add: on_pool_failure_def add_idle_callback_impl_def schedule_on_upstream_ready_def
      new_pending_stream_def Let_def)+

lemma balance_frame [simp]:
  "balance (p\<lparr> m_pending_streams := v3 \<rparr>) = balance p"
  "balance (p\<lparr> m_pending_streams_to_purge := v3 \<rparr>) = balance p"
  "balance (p\<lparr> m_is_draining_for_deletion := v7 \<rparr>) = balance p"
  "balance (p\<lparr> m_upstream_ready_scheduled := v7 \<rparr>) = balance p"
  "balance (p\<lparr> m_connecting_and_connected_stream_capacity := v5 \<rparr>) = balance p"
  by (rule balance_core; simp)+

lemma bal_on_upstream_ready: "pool_ok p \<Longrightarrow> bal p (on_upstream_ready env p)"
  using upstream_ready_loop_ok [of p] balance_upstream_ready_loop [of p] balance_try_create
  by (auto simp: on_upstream_ready_def bal_def)

lemma bal_on_connection_closed:
  assumes "pool_ok p" "cid < next_client p" "m_state (client p cid) \<noteq> Closed"
  shows "bal p (on_connection_closed env cid ev p)"
proof -
  obtain p7 where p7: "pool_ok p7" "next_client p7 = next_client p"
    "m_num_active_streams p7 = m_num_active_streams p"
    "\<And>c. m_stream_wrapper (client p7 c) = (c \<noteq> cid \<and> m_stream_wrapper (client p c))"
    "p_deferred p7 = p_deferred p @ (if m_stream_wrapper (client p cid) then [DeferredWrapper cid] else []) @
       [DeferredClient cid]"
    "on_connection_closed env cid ev p =
       Some (if m_pending_streams p7 \<noteq> [] then fst (try_create_new_connections env p7) else p7)"
    using on_connection_closed_cases [OF assms, of env ev] by blast
  have w: "wrappers p7 = wrappers p - {cid}" using p7(2,4) by (auto simp: wrappers_def)
  have "cid \<in> wrappers p \<longleftrightarrow> m_stream_wrapper (client p cid)" using assms(2) by (simp add: wrappers_def)
  then have "streams p7 = streams p"
    using p7(5) card_Suc_Diff1 [of "wrappers p" cid] by (auto simp: streams_def w)
  then have "balance p7 = balance p" using p7(3) by (simp add: balance_def)
  with p7(6) balance_try_create [OF p7(1), of env] show ?thesis by simp
qed

lemma bal_client_close:
  assumes "pool_ok p" "cid < next_client p"
  shows "bal p (client_close env cid p)"
  using bal_on_connection_closed [OF assms] by (simp add: client_close_def)

lemma bal_close_all:
  "pool_ok p \<Longrightarrow> \<forall>cid \<in> set cids. cid < next_client p \<Longrightarrow> bal p (close_all env cids p)"
proof (induction cids arbitrary: p)
  case (Cons cid cids)
  show ?case
    using Cons.prems by (auto intro!: bal_bind client_close_safe bal_client_close Cons.IH)
qed simp

lemma bal_close_idle:
  assumes "pool_ok p"
  shows "bal p (close_idle_connection_for_draining_pool env p)"
  using listed_fields [OF assms] no_early_data [OF assms] assms
  by (auto simp: close_idle_connection_for_draining_pool_def intro!: bal_close_all)

lemma bal_check_for_idle:
  assumes "pool_ok p"
  shows "bal p (check_for_idle_and_close_idle_conns_if_draining env p)"
  using assms close_idle_safe [OF assms, of env]
  by (auto simp: check_for_idle_and_close_idle_conns_if_draining_def safe_Some
      intro!: bal_bind bal_close_idle)

lemma bal_drain_clients: "bal p (drain_clients l p)"
proof -
  have "balance p' = balance p" if "drain_clients l p = Some p'" for p'
    by (rule drain_clients.raw_induct [OF _ that, where P = "\<lambda>_ p p'. balance p' = balance p"])
       (auto split: list.splits simp: bind_eq_Some_conv balance_transition)
  then show ?thesis by (simp add: bal_def)
qed

lemma bal_drain_busy: "bal p (drain_busy cids p)"
proof (induction cids arbitrary: p)
  case (Cons cid cids)
  then show ?case by (auto simp: bal_def bind_eq_Some_conv balance_transition)
qed simp

lemma bal_drain_connections:
  assumes "pool_ok p"
  shows "bal p (drain_connections_impl env b p)"
proof -
  let ?q = "p\<lparr> m_is_draining_for_deletion := True \<rparr>"
  have "pool_ok ?q" using assms pool_ok_core [OF core_frame(7)] by simp
  then have "bal p (check_for_idle_and_close_idle_conns_if_draining env ?q)"
    using bal_check_for_idle [of ?q env] bal_eq [of ?q p] by simp
  then show ?thesis
    using assms drain_clients_early_safe drain_clients_ready_safe
    by (auto simp: drain_connections_impl_def safe_Some
        intro!: bal_bind close_idle_safe bal_close_idle bal_drain_clients bal_drain_busy)
qed

lemma bal_drain_and_close:
  assumes "pool_ok p" "cid < next_client p" "m_state (client p cid) \<noteq> Closed"
  shows "bal p (drain_and_close env cid p)"
proof -
  have "safe p (transition_active_client_state cid Draining p)"
    using pool_ok_transition [OF assms, of Draining] by (auto simp: safe_def)
  then show ?thesis
    using assms(2) by (auto simp: drain_and_close_def intro!: bal_bind bal_transition bal_client_close)
qed

lemma bal_close_excess:
  assumes "pool_ok p"
  shows "bal p (close_excess env p)"
proof (cases "m_connecting_clients p")
  case Nil
  then show ?thesis using no_early_data [OF assms] by (simp add: close_excess_def)
next
  case (Cons cid cids)
  then have "cid < next_client p" "m_state (client p cid) \<noteq> Closed"
    using listed [OF assms, of cid L_connecting] by simp_all
  with Cons show ?thesis
    using assms no_early_data [OF assms] bal_drain_and_close by (simp add: close_excess_def)
qed

lemma bal_on_pending_stream_cancel:
  assumes "pool_ok p"
  shows "bal p (on_pending_stream_cancel env stream policy p)"
proof -
  let ?q = "if m_pending_streams_to_purge p \<noteq> []
            then p\<lparr> m_pending_streams_to_purge := remove1 stream (m_pending_streams_to_purge p) \<rparr>
            else p\<lparr> m_pending_streams := remove1 stream (m_pending_streams p) \<rparr>"
  have "core ?q = core p" by simp
  then have "pool_ok ?q" using assms pool_ok_core by blast
  then have "bal ?q (Option.bind (if policy = CloseExcess then close_excess env ?q else Some ?q)
      (check_for_idle_and_close_idle_conns_if_draining env))"
    by (intro bal_bind bal_check_for_idle) (auto intro: close_excess_safe bal_close_excess simp: safe_Some)
  moreover have "balance ?q = balance p" by simp
  ultimately show ?thesis
    unfolding on_pending_stream_cancel_def Let_def by (rule bal_eq [rotated])
qed

lemma bal_new_stream_impl:
  assumes ok: "pool_ok p"
  shows "bal p (map_option fst (new_stream_impl env ctx early p))"
proof -
  obtain p1 s where p1: "new_pending_stream ctx early p = (p1, s)" by fastforce
  then have b1: "balance p1 = balance p" and core: "core p1 = core p"
    using balance_core_ops(6) [of ctx early p] core_new_pending [of ctx early p] by simp_all
  then have ok1: "pool_ok p1" using ok pool_ok_core by blast
  obtain p2 r where p2: "try_create_new_connections env p1 = (p2, r)" by fastforce
  then have ok2: "pool_ok p2" and b2: "balance p2 = balance p"
    using try_creates_ok [OF ok1, of env] balance_try_create [OF ok1, of env] b1 by auto
  have "bal p2 (Option.bind (on_pending_stream_cancel env s CloseExcess p2)
      (\<lambda>q. Some (on_pool_failure LocalConnectionFailure ctx q)))"
    by (intro bal_bind on_pending_stream_cancel_safe bal_on_pending_stream_cancel ok2) simp
  then have cancel: "bal p (Option.bind (on_pending_stream_cancel env s CloseExcess p2)
      (\<lambda>q. Some (on_pool_failure LocalConnectionFailure ctx q)))"
    using bal_eq b2 by blast
  have attach: "bal p (attach_stream_to_client (hd (m_ready_clients p)) ctx p)" if "m_ready_clients p \<noteq> []"
    using balance_attach [OF ok, of "hd (m_ready_clients p)"] that by (simp add: bal_def)
  show ?thesis
    using ok b2 p1 p2 cancel no_early_data [OF ok] attach
    by (auto simp: new_stream_impl_def map_fst_bind balance_try_create intro!: bal_bind attach_safe)
qed

lemma bal_on_connected:
  assumes ok: "pool_ok p" and cid: "cid < next_client p" "m_state (client p cid) \<noteq> Closed"
  shows "bal p (on_connected_event env cid p)"
proof -
  define p2 where "p2 = upd_client cid (set_has_handshake_completed True)
     (p\<lparr> m_connecting_and_connected_stream_capacity :=
        m_connecting_and_connected_stream_capacity p - current_unused_capacity (client p cid) \<rparr>)"
  have b2: "balance p2 = balance p"
    by (rule balance_cong) (auto simp: p2_def upd_client_def set_has_handshake_completed_def)
  define r3 where "r3 = (if m_state (client p2 cid) = Connecting \<or> m_state (client p2 cid) = ReadyForEarlyData
      then transition_active_client_state cid (if current_unused_capacity (client p cid) > 0 then Ready else Busy) p2
      else Some p2)"
  have b3: "bal p2 r3" by (simp add: r3_def bal_transition)
  have s3: "safe p2 r3"
    using on_connected_transition_safe [OF assms] unfolding p2_def r3_def .
  have "bal p2 (Option.bind r3
      (\<lambda>p3. Option.bind (if ready_for_stream (client p3 cid) then on_upstream_ready env p3 else Some p3)
        (check_for_idle_and_close_idle_conns_if_draining env)))"
    using s3 b3
    by (intro bal_bind bal_check_for_idle)
       (auto intro: on_upstream_ready_safe bal_on_upstream_ready simp: safe_Some)
  then have "bal p2 (on_connected_event env cid p)"
    by (simp only: on_connected_event_def Let_def p2_def [symmetric] r3_def [symmetric])
  then show ?thesis using bal_eq b2 by blast
qed

section \<open>Streams that end\<close>

lemma balance_on_stream_closed:
  assumes ok: "pool_ok p" and cid: "cid < next_client p" and r: "on_stream_closed env cid delay p = Some p'"
  shows "balance p' = balance p - 1"
proof -
  define p1 where "p1 = p\<lparr> m_num_active_streams := m_num_active_streams p - 1,
                  p_resources := modify requests_i dec_i (p_resources p) \<rparr>"
  have c1: "core p1 = core p" by (simp add: p1_def)
  then have ok1: "pool_ok p1" and nx: "next_client p1 = next_client p"
    using ok pool_ok_core core_next by blast+
  have b1: "balance p1 = balance p - 1"
    by (simp add: p1_def balance_def streams_def wrappers_def)
  have busy: "bal p1 (Option.bind (transition_active_client_state cid Ready p1)
      (\<lambda>p2. if \<not> delay then on_upstream_ready env p2 else Some p2))"
    if "m_state (client p1 cid) = Busy" "current_unused_capacity (client p1 cid) > 0"
  proof (intro bal_bind bal_transition)
    show "safe p1 (transition_active_client_state cid Ready p1)"
      using pool_ok_transition [OF ok1, of cid Ready] that cid nx by (auto simp: safe_def)
  qed (simp add: bal_on_upstream_ready)
  have "bal p1 (on_stream_closed env cid delay p)"
    using busy bal_client_close [OF ok1, of cid env] cid nx
    unfolding on_stream_closed_def p1_def [symmetric] Let_def
    by (auto simp: has_handshake_completed_def)
  with r b1 show ?thesis by (simp add: bal_def)
qed

lemma bal_stream_wrapper_reset:
  assumes ok: "pool_ok p" and cid: "cid < next_client p"
  shows "bal p (stream_wrapper_reset env cid p)"
proof (cases "m_stream_wrapper (client p cid)")
  case True
  define q where "q = upd_client cid (\<lambda>c. c\<lparr> m_stream_wrapper := False \<rparr>) p"
  have "client_ok (client p cid)" using assms by (auto simp: pool_ok_def)
  then have "pool_ok q" unfolding q_def by (intro pool_ok_upd_client [OF ok]) (simp_all add: client_ok_def)
  moreover have "next_client q = next_client p" by (simp add: q_def upd_client_def)
  moreover have "wrappers q = wrappers p - {cid}" "cid \<in> wrappers p"
    using True cid by (auto simp: wrappers_def q_def upd_client_def)
  then have "balance q = balance p + 1"
    using card_Suc_Diff1 [of "wrappers p" cid]
    by (auto simp: balance_def streams_def q_def upd_client_def)
  ultimately show ?thesis
    using balance_on_stream_closed [of q cid env True] cid True
    by (simp add: stream_wrapper_reset_def bal_def q_def)
qed (simp add: stream_wrapper_reset_def)

lemma bal_on_decode_complete:
  assumes ok: "pool_ok p" and cid: "cid < next_client p"
  shows "bal p (on_decode_complete env cid enc cl p)"
proof -
  let ?q = "schedule_on_upstream_ready p"
  have "pool_ok ?q" "next_client ?q = next_client p"
    using ok pool_ok_core [OF core_ops(7)] core_next [OF core_ops(7)] by simp_all
  then have "bal ?q (Option.bind (stream_wrapper_reset env cid ?q) (check_for_idle_and_close_idle_conns_if_draining env))"
    using cid by (intro bal_bind stream_wrapper_reset_safe bal_stream_wrapper_reset bal_check_for_idle) simp_all
  then have "bal p (Option.bind (stream_wrapper_reset env cid ?q) (check_for_idle_and_close_idle_conns_if_draining env))"
    by (rule bal_eq [rotated]) simp
  then show ?thesis using bal_client_close [OF assms] by (simp add: on_decode_complete_def)
qed

lemma balance_delete_all:
  "pool_ok p \<Longrightarrow> \<forall>d \<in> set ds. deferred_cid d < next_client p \<Longrightarrow> delete_all env ds p = Some p' \<Longrightarrow>
   balance p' = balance p - of_nat (length (filter is_wrapper ds))"
proof (induction env ds p rule: delete_all.induct)
  case (2 env cid ds p)
  have cid: "cid < next_client p" using 2(3) by simp
  obtain p1 where p1: "on_stream_closed env cid True p = Some p1" "pool_ok p1" "next_client p \<le> next_client p1"
    using on_stream_closed_safe [OF 2(2) cid, of env True] by (auto simp: safe_def)
  have "balance p' = balance p1 - of_nat (length (filter is_wrapper ds))"
    using 2(1) [OF p1(1,2)] 2(3,4) p1 by fastforce
  with balance_on_stream_closed [OF 2(2) cid p1(1)] show ?case by simp
next
  case (3 env cid ds p)
  have cid: "cid < next_client p" using 3(3) by simp
  obtain p1 where p1: "stream_wrapper_reset env cid p = Some p1" "pool_ok p1" "next_client p \<le> next_client p1"
    using stream_wrapper_reset_safe [OF 3(2) cid, of env] by (auto simp: safe_def)
  have "balance p' = balance p1 - of_nat (length (filter is_wrapper ds))"
    using 3(1) [OF p1(1,2)] 3(3,4) p1 by fastforce
  with bal_stream_wrapper_reset [OF 3(2) cid, of env] p1(1) show ?case by (simp add: bal_def)
qed simp

lemma bal_clear_deferred:
  assumes "pool_ok p"
  shows "bal p (clear_deferred_delete_list env p)"
proof -
  let ?q = "p\<lparr> p_deferred := [] \<rparr>"
  have "pool_ok ?q" "next_client ?q = next_client p"
    using assms by (simp_all add: pool_ok_def lists_ok_def)
  moreover have "balance ?q = balance p + of_nat (length (filter is_wrapper (p_deferred p)))"
    by (simp add: balance_def streams_def wrappers_def)
  ultimately show ?thesis
    using balance_delete_all [of ?q "p_deferred p" env] assms
    by (auto simp: clear_deferred_delete_list_def bal_def pool_ok_def)
qed

section \<open>Every call\<close>

lemma pool_exec1_bal:
  assumes ok: "pool_ok p" and v: "valid_call c p"
  shows "bal p (pool_exec1 env c p)"
proof (cases c)
  case (ConnEvent cid ev)
  with assms bal_on_connection_closed [of p cid env] bal_on_connected [of p cid env] show ?thesis
    by (cases ev) (simp_all add: on_connection_event_def)
next
  case UpstreamReady
  let ?q = "p\<lparr> m_upstream_ready_scheduled := False \<rparr>"
  have "pool_ok ?q" using ok pool_ok_core [OF core_frame(8)] by simp
  with UpstreamReady bal_on_upstream_ready [of ?q env] show ?thesis
    by (simp add: run_upstream_ready_cb_def bal_def)
next
  case (Preconnect r)
  then show ?thesis
    using ok by (simp add: maybe_preconnect_impl_def try_create_new_connection_def balance_add_new_client split_def Let_def)
next
  case (DurationTimeout cid)
  then show ?thesis by (simp add: on_connection_duration_timeout_def bal_transition)
next
  case (ConnectTimeout cid)
  let ?q = "upd_client cid set_timed_out p"
  have "client_ok (client p cid)" using ConnectTimeout assms by (auto simp: pool_ok_def)
  then have "pool_ok ?q"
    by (intro pool_ok_upd_client [OF ok]) (simp_all add: client_ok_def set_timed_out_def)
  moreover have "next_client ?q = next_client p" by (simp add: upd_client_def)
  moreover have "balance ?q = balance p"
    by (rule balance_cong) (auto simp: upd_client_def set_timed_out_def)
  ultimately show ?thesis
    using bal_client_close [of ?q cid env] v ConnectTimeout by (simp add: on_connect_timeout_def bal_def)
qed (use assms in \<open>simp_all add: bal_new_stream_impl bal_on_decode_complete
      bal_on_pending_stream_cancel bal_clear_deferred bal_drain_connections\<close>)

interpretation counted_pool: invariant_system
  "\<lambda>p. \<exists>rm. p = rp_conn_pool_impl_base_init rm" valid_call "pool_exec1 env"
  "\<lambda>p. pool_ok p \<and> m_num_active_streams p = of_nat (streams p)"
  for env
proof
  have "m_num_active_streams (rp_conn_pool_impl_base_init rm) = of_nat (streams (rp_conn_pool_impl_base_init rm))" for rm
    by (simp add: streams_def wrappers_def rp_conn_pool_impl_base_init_def)
  then show "pool_ok p \<and> m_num_active_streams p = of_nat (streams p)" if "\<exists>rm. p = rp_conn_pool_impl_base_init rm" for p
    using that pool_ok_init by blast
  show "\<exists>t. pool_exec1 env c s = Some t \<and> pool_ok t \<and> m_num_active_streams t = of_nat (streams t)"
    if "pool_ok s \<and> m_num_active_streams s = of_nat (streams s)" "valid_call c s" for s c
    using pool_exec1_safe [of s c env] pool_exec1_bal [of s c env] that
    by (auto simp: safe_def bal_def balance_def)
qed

end
