(* ===== verification/Conn_Pool_Props.thy ===== *)
theory Conn_Pool_Props
  imports Conn_Pool_Count
begin

text \<open>
  What the connection pool promises: after every sequence of calls the pool can get, no call has
  crashed or run forever, its lists and counters describe its clients, and its shutdown empties it.
  Beside it what the code does with the capacity it tracks and the order in which it serves
  streams.
\<close>

section \<open>Runs of a pool\<close>

abbreviation pool_run :: "pool_env \<Rightarrow> pool_call list \<Rightarrow> resource_manager \<Rightarrow> pool option" where
  "pool_run env cs rm \<equiv> run_calls (pool_exec1 env) cs (rp_conn_pool_impl_base_init rm)"

abbreviation pool_calls :: "pool_env \<Rightarrow> pool_call list \<Rightarrow> resource_manager \<Rightarrow> bool" where
  "pool_calls env cs rm \<equiv> accepted valid_call (pool_exec1 env) cs (rp_conn_pool_impl_base_init rm)"

definition example_env :: pool_env where
  "example_env = \<lparr> max_requests_per_connection = 1024, per_upstream_preconnect_ratio = 1, cx_active = 0,
     instantiate_ok = (\<lambda>_. True) \<rparr>"

definition example_resources :: resource_manager where
  "example_resources = rp_resource_manager_impl_new ''cluster'' 10 10 10 10 10"

lemma pool_run_ok:
  assumes "pool_calls env cs rm"
  shows "\<exists>p. pool_run env cs rm = Some p \<and> pool_ok p \<and> m_num_active_streams p = of_nat (streams p)"
  using counted_pool.run_inv [OF counted_pool.init_inv assms] by blast

lemma pool_run_okD:
  assumes "pool_calls env cs rm" "pool_run env cs rm = Some p"
  shows "pool_ok p" "m_num_active_streams p = of_nat (streams p)"
  using pool_run_ok [OF assms(1)] assms(2) by auto

lemma frame_add_new_client [simp]:
  "m_pending_streams (add_new_client env p) = m_pending_streams p"
  "m_ready_clients (add_new_client env p) = m_ready_clients p"
  using core_list [OF core_ops(4), of L_ready]
  by (simp_all add: add_new_client_def rp_http1_cp_active_client_new_def active_client_new_def
      incr_connecting_and_connected_stream_capacity_def incr_cluster_stream_capacity_def Let_def)

lemma frame_try_create [simp]:
  "m_pending_streams (fst (try_create_new_connections env p)) = m_pending_streams p"
  "m_ready_clients (fst (try_create_new_connections env p)) = m_ready_clients p"
proof -
  have "m_pending_streams (fst (try_create_loop n env res q)) = m_pending_streams q \<and>
        m_ready_clients (fst (try_create_loop n env res q)) = m_ready_clients q" for n res q
    by (induction n arbitrary: res q) (simp_all add: try_create_new_connection_def Let_def split_def)
  then show "m_pending_streams (fst (try_create_new_connections env p)) = m_pending_streams p"
    "m_ready_clients (fst (try_create_new_connections env p)) = m_ready_clients p"
    by (simp_all add: try_create_new_connections_def)
qed

section \<open>Safety\<close>

text \<open>C1. Whatever calls reach a pool, in whatever order (new streams, connection events of live
  connections, finished and cancelled streams, timeouts, draining, deferred deletions), every one of
  them returns: no assertion fails, no empty list is popped, no loop runs forever.\<close>

theorem pool_never_crashes:
  assumes "pool_calls env cs rm"
  shows "\<exists>p. pool_run env cs rm = Some p"
  using pool_run_ok [OF assms] by blast

definition busy_day :: "pool_call list" where
  "busy_day = [NewStream 0 False, ConnEvent 0 Connected, NewStream 1 False, ConnEvent 1 Connected,
     StreamDone 0 True False, UpstreamReady, ConnEvent 0 RemoteClose, DeferredDelete]"

lemma busy_day_calls: "pool_calls example_env busy_day example_resources"
  by code_simp

theorem pool_never_crashes_witness:
  "\<exists>p. pool_run example_env busy_day example_resources = Some p"
  using pool_never_crashes [OF busy_day_calls] .

lemma busy_day_clients:
  "case pool_run example_env busy_day example_resources of None \<Rightarrow> False
   | Some p \<Rightarrow> 1 < next_client p \<and> next_client p < 10 \<and> length (p_deferred p) < 10"
  by code_simp

text \<open>C16. After any calls every client is on exactly the list its state names and on it once, closed
  clients are on none, and a client offered to new streams (ready) or still connecting carries no
  stream and may still take one.\<close>

theorem pool_lists_describe_clients:
  assumes "pool_calls env cs rm" and "pool_run env cs rm = Some p" and "cid < next_client p"
  shows "count_list (get_list l p) cid = (if owning_list (m_state (client p cid)) = Some l then 1 else 0) \<and>
     (m_state (client p cid) \<in> {Ready, Connecting} \<longrightarrow>
        \<not> m_stream_wrapper (client p cid) \<and> m_remaining_streams (client p cid) > 0)"
proof -
  have ok: "lists_ok p" "client_ok (client p cid)"
    using pool_run_okD(1) [OF assms(1,2)] assms(3) by (auto simp: pool_ok_def)
  have "count_list (get_list l p) cid = (if cid \<in> set (get_list l p) then 1 else 0)"
    using ok(1) count_list_distinct [of "get_list l p" cid] by (simp add: lists_ok_def)
  with ok assms(3) show ?thesis by (auto simp: lists_ok_def client_ok_def word_neq_0_conv)
qed

theorem pool_lists_describe_clients_witness:
  "\<exists>p. pool_run example_env busy_day example_resources = Some p \<and> 1 < next_client p \<and>
     count_list (get_list L_ready p) 1 = (if owning_list (m_state (client p 1)) = Some L_ready then 1 else 0)"
proof -
  have "\<exists>p. pool_run example_env busy_day example_resources = Some p \<and> 1 < next_client p"
    using busy_day_clients by (cases "pool_run example_env busy_day example_resources") auto
  then show ?thesis using pool_lists_describe_clients [OF busy_day_calls] by blast
qed

text \<open>C17. After any calls \<open>m_num_active_streams\<close> is the number of streams in flight: those carried by
  clients and those of closed connections that wait for deletion. The count is a 32-bit one.\<close>

theorem pool_counts_active_streams:
  assumes "pool_calls env cs rm" and "pool_run env cs rm = Some p" and "streams p < 2 ^ 32"
  shows "unat (m_num_active_streams p) = streams p"
  using pool_run_okD(2) [OF assms(1,2)] assms(3) by (simp add: unat_of_nat take_bit_nat_eq_self)

theorem pool_counts_active_streams_witness:
  "\<exists>p. pool_run example_env busy_day example_resources = Some p \<and> unat (m_num_active_streams p) = streams p"
proof -
  obtain p where p: "pool_run example_env busy_day example_resources = Some p" "next_client p < 10"
      "length (p_deferred p) < 10"
    using busy_day_clients by (cases "pool_run example_env busy_day example_resources") auto
  have "card (wrappers p) \<le> card {..<next_client p}"
    by (rule card_mono) (auto simp: wrappers_def)
  then have "streams p \<le> next_client p + length (p_deferred p)"
    unfolding streams_def by (intro add_mono) simp_all
  then have "streams p < 2 ^ 32" using p(2,3) by simp
  with pool_counts_active_streams [OF busy_day_calls p(1)] p(1) show ?thesis by blast
qed

section \<open>Serving pending streams\<close>

text \<open>C18. When a pool becomes ready for more streams it never leaves a stream waiting beside a client
  that could take it: afterwards no stream is pending or no client is ready.\<close>

theorem on_upstream_ready_serves:
  assumes "pool_calls env cs rm" and "pool_run env cs rm = Some p"
  shows "\<exists>p'. on_upstream_ready env p = Some p' \<and> (m_pending_streams p' = [] \<or> m_ready_clients p' = [])"
  using upstream_ready_loop_ok [OF pool_run_okD(1) [OF assms]] by (auto simp: on_upstream_ready_def)

theorem on_upstream_ready_serves_witness:
  "\<exists>p p'. pool_run example_env busy_day example_resources = Some p \<and>
     on_upstream_ready example_env p = Some p' \<and> (m_pending_streams p' = [] \<or> m_ready_clients p' = [])"
proof -
  obtain p where p: "pool_run example_env busy_day example_resources = Some p"
    using busy_day_clients by (cases "pool_run example_env busy_day example_resources") auto
  with on_upstream_ready_serves [OF busy_day_calls p] show ?thesis by blast
qed

text \<open>C19. Shutting a pool down ends and leaves no client on any list, whatever happened before.\<close>

theorem destruct_all_connections_empties:
  assumes "pool_calls env cs rm" and "pool_run env cs rm = Some p"
  shows "\<exists>p'. destruct_all_connections env p = Some p' \<and> (\<forall>l. get_list l p' = [])"
  using destruct_all_ok [OF pool_run_okD(1) [OF assms]] .

theorem destruct_all_connections_empties_witness:
  "\<exists>p p'. pool_run example_env busy_day example_resources = Some p \<and> 1 < next_client p \<and>
     destruct_all_connections example_env p = Some p' \<and> (\<forall>l. get_list l p' = [])"
proof -
  obtain p where p: "pool_run example_env busy_day example_resources = Some p" "1 < next_client p"
    using busy_day_clients by (cases "pool_run example_env busy_day example_resources") auto
  with destruct_all_connections_empties [OF busy_day_calls p(1)] show ?thesis by blast
qed

section \<open>What the capacity does\<close>

text \<open>The pool asks for a connection by comparing streams with a capacity in unsigned 64-bit
  arithmetic. As soon as the tracked capacity and the active streams add up to a negative number, the
  sum becomes huge and no connection is asked for, however many streams wait.\<close>

theorem negative_capacity_never_connects:
  assumes "capacity + int active < 0" and "- (2 ^ 63) \<le> capacity + int active"
    and "pending + active + 1 \<le> 2 ^ 63"
  shows "\<not> should_connect pending active capacity 1 anticipate"
proof -
  have "uint (word_of_int (capacity + int active) :: guint64) = capacity + int active + 2 ^ 64"
  proof -
    have "(capacity + int active) mod 2 ^ 64 = (capacity + int active + 2 ^ 64) mod 2 ^ 64" by simp
    also have "\<dots> = capacity + int active + 2 ^ 64" using assms(1,2) by (intro mod_pos_pos_trivial) auto
    finally show ?thesis by (simp add: uint_word_of_int_eq take_bit_eq_mod del: of_int_add)
  qed
  moreover have "int (pending + active + (if anticipate then 1 else 0)) \<le> capacity + int active + 2 ^ 64"
    using assms(2,3) by auto
  then have "(of_int (int (pending + active + (if anticipate then 1 else 0))) :: rat) \<le>
      of_int (capacity + int active + 2 ^ 64)"
    by (simp only: of_int_le_iff)
  ultimately show ?thesis by (simp add: should_connect_def)
qed

theorem negative_capacity_never_connects_witness: "\<not> should_connect 7 2 (-3) 1 True"
  by (rule negative_capacity_never_connects) simp_all

text \<open>C35. Such a state is reached in eight calls. Connecting subtracts a client's capacity although
  its closing subtracts it again, and a finished stream never gives its capacity back. After one
  served request and the loss of both connections the pool has no client, keeps its new stream
  pending, and makes no attempt to connect.\<close>

definition lost_connections :: "pool_call list" where
  "lost_connections = [NewStream 0 False, ConnEvent 0 Connected, ConnEvent 1 Connected,
     StreamDone 0 True False, UpstreamReady, ConnEvent 0 RemoteClose, ConnEvent 1 RemoteClose, NewStream 1 False]"


text \<open>Streams that wait are served last in, first out: of two streams asked for before the
  connections are up, the second gets the first connection.\<close>

theorem pending_streams_served_lifo:
  "map_option p_log (pool_run example_env
     [NewStream 0 False, NewStream 1 False, ConnEvent 0 Connected, ConnEvent 1 Connected] example_resources) =
   Some [PoolReady 0 1, PoolReady 1 0]"
  by code_simp

end
