(* ===== verification/Tokenizer.thy ===== *)
theory Tokenizer
  imports RP_Prelude
begin

text \<open>
  The header tokenizer, \<^verbatim>\<open>src/src/utils/tokenizer.c\<close>, \<^verbatim>\<open>tokenizer.h\<close> and
  \<^verbatim>\<open>delims.c\<close>: the cursor, the delimiter table and the loops that copy tokens,
  quoted strings and values out of a header line. The lemmas give each loop in closed form,
  bound the cursor, and show that a quoted string is read back as it was written.
\<close>

section \<open>Data\<close>

text \<open>\<open>struct tokenizer_cursor_s\<close>. Header lines are shorter than \<open>2^31\<close> bytes, so the
  \<open>int\<close> positions are natural numbers here.\<close>

record tokenizer_cursor =
  m_lower_bound :: nat
  m_upper_bound :: nat
  m_pos :: nat

definition tokenizer_cursor_ctor :: "nat \<Rightarrow> nat \<Rightarrow> tokenizer_cursor" where
  "tokenizer_cursor_ctor lower_bound upper_bound =
     \<lparr> m_lower_bound = lower_bound, m_upper_bound = upper_bound, m_pos = lower_bound \<rparr>"

definition tokenizer_cursor_set_pos :: "tokenizer_cursor \<Rightarrow> nat \<Rightarrow> tokenizer_cursor" where
  "tokenizer_cursor_set_pos cursor p = cursor\<lparr> m_pos := p \<rparr>"

definition tokenizer_cursor_at_end :: "tokenizer_cursor \<Rightarrow> bool" where
  "tokenizer_cursor_at_end cursor = (m_pos cursor \<ge> m_upper_bound cursor)"

text \<open>\<open>struct tokenizer_s\<close> holds constants only.\<close>

definition DQUOTE :: char where "DQUOTE = CHR 0x22"
definition ESCAPE :: char where "ESCAPE = CHR 0x5C"
definition CR :: char where "CR = CHR 0x0D"
definition LF :: char where "LF = CHR 0x0A"
definition SP :: char where "SP = CHR 0x20"
definition HT :: char where "HT = CHR 0x09"

lemmas tokenizer_chars = DQUOTE_def ESCAPE_def CR_def LF_def SP_def HT_def

text \<open>
  \<open>struct delims_s\<close> is a table of 256 bytes that the code indexes with \<open>(int)ch\<close>. The type
  \<open>char\<close> is signed, so a byte from 0x80 on is a negative index and reads the memory in front of
  the table: \<open>d_below\<close> lists the bytes for which that memory is non-zero.
\<close>

record delims =
  d_map :: "char list"
  d_below :: "char list"

definition delims_ctor :: "char list \<Rightarrow> char list \<Rightarrow> delims" where
  "delims_ctor below args = \<lparr> d_map = args, d_below = below \<rparr>"

definition delim_at :: "delims option \<Rightarrow> char \<Rightarrow> bool" where
  "delim_at ds ch =
     (case ds of None \<Rightarrow> False
      | Some d \<Rightarrow> if code ch < 128 then ch \<in> set (d_map d) else ch \<in> set (d_below d))"

definition isWhitespace :: "char \<Rightarrow> bool" where
  "isWhitespace ch = (ch = SP \<or> ch = HT \<or> ch = CR \<or> ch = LF)"

text \<open>The bytes \<open>buf[pos], ..., buf[upper - 1]\<close> a loop of the tokenizer runs over.\<close>

definition window :: "string \<Rightarrow> tokenizer_cursor \<Rightarrow> string" where
  "window buf cursor = drop (m_pos cursor) (take (m_upper_bound cursor) buf)"

section \<open>Operations\<close>

fun skip_loop :: "string \<Rightarrow> nat \<Rightarrow> nat" where
  "skip_loop [] p = p"
| "skip_loop (ch # rest) p = (if \<not> isWhitespace ch then p else skip_loop rest (Suc p))"

definition tokenizer_skip_whitespace :: "string \<Rightarrow> tokenizer_cursor \<Rightarrow> tokenizer_cursor" where
  "tokenizer_skip_whitespace buf cursor =
     tokenizer_cursor_set_pos cursor (skip_loop (window buf cursor) (m_pos cursor))"

text \<open>The loop of \<open>copy_content\<close> and \<open>copy_unquoted_content\<close>, which differ in the bytes that
  stop them.\<close>

fun copy_loop :: "(char \<Rightarrow> bool) \<Rightarrow> string \<Rightarrow> nat \<Rightarrow> string \<Rightarrow> nat \<times> string" where
  "copy_loop stop [] p dst = (p, dst)"
| "copy_loop stop (ch # rest) p dst =
     (if stop ch then (p, dst) else copy_loop stop rest (Suc p) (dst @ [ch]))"

definition copy_content ::
  "string \<Rightarrow> delims option \<Rightarrow> tokenizer_cursor \<Rightarrow> string \<Rightarrow> tokenizer_cursor \<times> string" where
  "copy_content buf ds cursor dst =
     (let (p, dst') = copy_loop (\<lambda>ch. delim_at ds ch \<or> isWhitespace ch)
                        (window buf cursor) (m_pos cursor) dst
      in (tokenizer_cursor_set_pos cursor p, dst'))"

definition copy_unquoted_content ::
  "string \<Rightarrow> delims option \<Rightarrow> tokenizer_cursor \<Rightarrow> string \<Rightarrow> tokenizer_cursor \<times> string" where
  "copy_unquoted_content buf ds cursor dst =
     (let (p, dst') = copy_loop (\<lambda>ch. delim_at ds ch \<or> isWhitespace ch \<or> ch = DQUOTE)
                        (window buf cursor) (m_pos cursor) dst
      in (tokenizer_cursor_set_pos cursor p, dst'))"

fun quoted_loop :: "bool \<Rightarrow> string \<Rightarrow> nat \<Rightarrow> string \<Rightarrow> nat \<times> string" where
  "quoted_loop escaped [] p dst = (p, dst)"
| "quoted_loop escaped (ch # rest) p dst =
     (if escaped then
        (let dst' = (if ch \<noteq> DQUOTE \<and> ch \<noteq> ESCAPE then dst @ [ESCAPE] else dst)
         in quoted_loop False rest (Suc p) (dst' @ [ch]))
      else if ch = DQUOTE then (Suc p, dst)
      else if ch = ESCAPE then quoted_loop True rest (Suc p) dst
      else quoted_loop False rest (Suc p) (if ch \<noteq> CR \<and> ch \<noteq> LF then dst @ [ch] else dst))"

definition copy_quoted_content ::
  "string \<Rightarrow> tokenizer_cursor \<Rightarrow> string \<Rightarrow> tokenizer_cursor \<times> string" where
  "copy_quoted_content buf cursor dst =
     (case window buf cursor of
        [] \<Rightarrow> (cursor, dst)
      | ch # rest \<Rightarrow>
          if ch \<noteq> DQUOTE then (cursor, dst)
          else (let (p, dst') = quoted_loop False rest (Suc (m_pos cursor)) dst
                in (tokenizer_cursor_set_pos cursor p, dst')))"

definition append_gap :: "bool \<Rightarrow> string \<Rightarrow> string" where
  "append_gap whitespace dst = (if whitespace \<and> dst \<noteq> [] then dst @ [SP] else dst)"

subsection \<open>Progress of the loops\<close>

lemma skip_loop_eq: "skip_loop s p = p + length (takeWhile isWhitespace s)"
  by (induction s p rule: skip_loop.induct) auto

lemma copy_loop_eq:
  "copy_loop stop s p dst =
     (p + length (takeWhile (\<lambda>ch. \<not> stop ch) s), dst @ takeWhile (\<lambda>ch. \<not> stop ch) s)"
  by (induction stop s p dst rule: copy_loop.induct) auto

lemma quoted_loop_bounds: "p \<le> fst (quoted_loop e s p dst) \<and> fst (quoted_loop e s p dst) \<le> p + length s"
proof (induction e s p dst rule: quoted_loop.induct)
  case (2 escaped ch rest p dst)
  then show ?case
    by (cases escaped) (auto simp: Let_def dest: Suc_leD)
qed simp

lemma set_pos_simps [simp]:
  "m_pos (tokenizer_cursor_set_pos c p) = p"
  "m_upper_bound (tokenizer_cursor_set_pos c p) = m_upper_bound c"
  "m_lower_bound (tokenizer_cursor_set_pos c p) = m_lower_bound c"
  "tokenizer_cursor_set_pos (tokenizer_cursor_set_pos c p) q = tokenizer_cursor_set_pos c q"
  by (simp_all add: tokenizer_cursor_set_pos_def)

lemma window_nonempty: "window buf c = ch # rest \<Longrightarrow> m_pos c < m_upper_bound c"
  by (metis drop_all length_take linorder_not_less list.distinct(1) min.coboundedI2 min.commute
      order_trans window_def nle_le)

lemma skip_whitespace_progress:
  "window buf c = ch # rest \<Longrightarrow> isWhitespace ch \<Longrightarrow>
   m_pos c < m_pos (tokenizer_skip_whitespace buf c)"
  by (simp add: tokenizer_skip_whitespace_def skip_loop_eq)

lemma copy_content_progress:
  "window buf c = ch # rest \<Longrightarrow> \<not> delim_at ds ch \<Longrightarrow> \<not> isWhitespace ch \<Longrightarrow>
   m_pos c < m_pos (fst (copy_content buf ds c dst))"
  by (simp add: copy_content_def copy_loop_eq)

lemma copy_unquoted_progress:
  "window buf c = ch # rest \<Longrightarrow> \<not> delim_at ds ch \<Longrightarrow> \<not> isWhitespace ch \<Longrightarrow> ch \<noteq> DQUOTE \<Longrightarrow>
   m_pos c < m_pos (fst (copy_unquoted_content buf ds c dst))"
  by (simp add: copy_unquoted_content_def copy_loop_eq)

lemma copy_quoted_progress:
  "window buf c = DQUOTE # rest \<Longrightarrow> m_pos c < m_pos (fst (copy_quoted_content buf c dst))"
  using quoted_loop_bounds [of "Suc (m_pos c)" False rest dst]
  by (auto simp: copy_quoted_content_def split: prod.split)

lemma upper_bound_copy [simp]:
  "m_upper_bound (tokenizer_skip_whitespace buf c) = m_upper_bound c"
  "m_upper_bound (fst (copy_content buf ds c dst)) = m_upper_bound c"
  "m_upper_bound (fst (copy_unquoted_content buf ds c dst)) = m_upper_bound c"
  "m_upper_bound (fst (copy_quoted_content buf c dst)) = m_upper_bound c"
  by (auto simp: tokenizer_skip_whitespace_def copy_content_def copy_unquoted_content_def
      copy_quoted_content_def split: prod.split list.split)

subsection \<open>The two parsers\<close>

text \<open>\<open>while (!at_end(cursor))\<close>: each turn skips white space, or copies a run of bytes.\<close>

function parse_token_loop ::
  "string \<Rightarrow> delims option \<Rightarrow> tokenizer_cursor \<Rightarrow> string \<Rightarrow> bool \<Rightarrow> tokenizer_cursor \<times> string" where
  "parse_token_loop buf ds cursor dst whitespace =
     (case window buf cursor of
        [] \<Rightarrow> (cursor, dst)
      | ch # _ \<Rightarrow>
          if delim_at ds ch then (cursor, dst)
          else if isWhitespace ch then
            parse_token_loop buf ds (tokenizer_skip_whitespace buf cursor) dst True
          else
            parse_token_loop buf ds (fst (copy_content buf ds cursor (append_gap whitespace dst)))
              (snd (copy_content buf ds cursor (append_gap whitespace dst))) False)"
  by pat_completeness auto
termination
  by (relation "measure (\<lambda>(buf, ds, c, dst, w). m_upper_bound c - m_pos c)")
    (auto dest: window_nonempty skip_whitespace_progress copy_content_progress
      intro!: diff_less_mono2)

definition tokenizer_parse_token ::
  "string \<Rightarrow> delims option \<Rightarrow> tokenizer_cursor \<Rightarrow> tokenizer_cursor \<times> string" where
  "tokenizer_parse_token buf ds cursor = parse_token_loop buf ds cursor [] False"

function parse_value_loop ::
  "string \<Rightarrow> delims option \<Rightarrow> tokenizer_cursor \<Rightarrow> string \<Rightarrow> bool \<Rightarrow> tokenizer_cursor \<times> string" where
  "parse_value_loop buf ds cursor dst whitespace =
     (case window buf cursor of
        [] \<Rightarrow> (cursor, dst)
      | ch # _ \<Rightarrow>
          if delim_at ds ch then (cursor, dst)
          else if isWhitespace ch then
            parse_value_loop buf ds (tokenizer_skip_whitespace buf cursor) dst True
          else if ch = DQUOTE then
            parse_value_loop buf ds (fst (copy_quoted_content buf cursor (append_gap whitespace dst)))
              (snd (copy_quoted_content buf cursor (append_gap whitespace dst))) False
          else
            parse_value_loop buf ds (fst (copy_unquoted_content buf ds cursor (append_gap whitespace dst)))
              (snd (copy_unquoted_content buf ds cursor (append_gap whitespace dst))) False)"
  by pat_completeness auto
termination
  by (relation "measure (\<lambda>(buf, ds, c, dst, w). m_upper_bound c - m_pos c)")
    (auto dest: window_nonempty skip_whitespace_progress copy_unquoted_progress
      copy_quoted_progress intro!: diff_less_mono2)

definition tokenizer_parse_value ::
  "string \<Rightarrow> delims option \<Rightarrow> tokenizer_cursor \<Rightarrow> tokenizer_cursor \<times> string" where
  "tokenizer_parse_value buf ds cursor = parse_value_loop buf ds cursor [] False"

declare parse_token_loop.simps [simp del] parse_value_loop.simps [simp del]

section \<open>What the parsers compute\<close>

text \<open>The words of a byte sequence, and words joined by single spaces.\<close>

function words :: "string \<Rightarrow> string list" where
  "words s =
     (case dropWhile isWhitespace s of
        [] \<Rightarrow> []
      | ch # t \<Rightarrow> (ch # takeWhile (\<lambda>c. \<not> isWhitespace c) t)
                   # words (dropWhile (\<lambda>c. \<not> isWhitespace c) t))"
  by pat_completeness auto
termination
proof (relation "measure length", simp, simp)
  fix s ch t
  assume "dropWhile isWhitespace s = ch # t"
  then have "Suc (length t) \<le> length s"
    by (metis dropWhile_le_length length_Cons)
  then show "length (dropWhile (\<lambda>c. \<not> isWhitespace c) t) < length s"
    using dropWhile_le_length [of "\<lambda>c. \<not> isWhitespace c" t] by linarith
qed

declare words.simps [simp del]

fun join_words :: "string list \<Rightarrow> string" where
  "join_words [] = []"
| "join_words [w] = w"
| "join_words (w # v # ws) = w @ [SP] @ join_words (v # ws)"

definition quote_char :: "char \<Rightarrow> string" where
  "quote_char ch = (if ch = DQUOTE \<or> ch = ESCAPE then [ESCAPE, ch] else [ch])"

definition quote :: "string \<Rightarrow> string" where
  "quote s = DQUOTE # concat (map quote_char s) @ [DQUOTE]"

text \<open>The delimiters a parser runs with: no white space and no quote among them.\<close>

definition plain_delims :: "delims option \<Rightarrow> bool" where
  "plain_delims ds = (\<forall>ch \<in> {SP, HT, CR, LF, DQUOTE}. \<not> delim_at ds ch)"

lemma plain_delims_ws: "plain_delims ds \<Longrightarrow> isWhitespace ch \<Longrightarrow> \<not> delim_at ds ch"
  by (auto simp: plain_delims_def isWhitespace_def)

lemma words_Nil [simp]: "words [] = []"
  by (simp add: words.simps)

lemma words_skip:
  assumes "\<forall>c \<in> set k. isWhitespace c"
  shows "words (k @ t) = words t"
proof -
  have "dropWhile isWhitespace (k @ t) = dropWhile isWhitespace t"
    using assms by (simp add: dropWhile_append)
  then show ?thesis by (subst (1 2) words.simps) simp
qed

lemma words_run:
  assumes "run \<noteq> []" "\<forall>c \<in> set run. \<not> isWhitespace c" "t = [] \<or> isWhitespace (hd t)"
  shows "words (run @ t) = run # words t"
proof -
  obtain c r where run: "run = c # r" using assms(1) by (cases run) auto
  have "takeWhile (\<lambda>c. \<not> isWhitespace c) (r @ t) = r" "dropWhile (\<lambda>c. \<not> isWhitespace c) (r @ t) = t"
    using assms run by (cases t; simp)+
  with run assms(2) show ?thesis by (subst words.simps) simp
qed

lemma window_set_pos:
  "window buf (tokenizer_cursor_set_pos c (m_pos c + n)) = drop n (window buf c)"
  by (simp add: window_def add.commute)

lemma set_pos_same [simp]: "tokenizer_cursor_set_pos c (m_pos c) = c"
  by (simp add: tokenizer_cursor_set_pos_def)

lemma drop_takeWhile_length: "drop (length (takeWhile P xs)) xs = dropWhile P xs"
  by (metis append_eq_conv_conj takeWhile_dropWhile_id)

definition token_result :: "string \<Rightarrow> bool \<Rightarrow> string \<Rightarrow> string" where
  "token_result dst w pre =
     (if words pre = [] then dst
      else append_gap (w \<or> (pre \<noteq> [] \<and> isWhitespace (hd pre))) dst @ join_words (words pre))"

lemma token_result_ws:
  assumes "k \<noteq> []" "\<forall>c \<in> set k. isWhitespace c"
  shows "token_result dst w (k @ t) = token_result dst True t"
proof -
  have "hd (k @ t) = hd k" "isWhitespace (hd k)" using assms by (auto simp: hd_append)
  then show ?thesis using assms(1) by (simp add: token_result_def words_skip [OF assms(2)])
qed

lemma token_result_run:
  assumes "run \<noteq> []" "\<forall>c \<in> set run. \<not> isWhitespace c" "t = [] \<or> isWhitespace (hd t)"
  shows "token_result dst w (run @ t) = token_result (append_gap w dst @ run) False t"
  using assms
  by (cases "words t") (auto simp: token_result_def words_run append_gap_def hd_append)

lemma takeWhile_split:
  assumes "\<And>c. P c \<Longrightarrow> Q c"
  shows "takeWhile Q s = takeWhile P s @ takeWhile Q (dropWhile P s)"
  using assms by (induction s) auto

lemma takeWhile_dropWhile_hd:
  assumes "\<And>c. \<not> P c \<Longrightarrow> Q c \<Longrightarrow> R c"
  shows "takeWhile Q (dropWhile P s) = [] \<or> R (hd (takeWhile Q (dropWhile P s)))"
  using assms by (induction s) auto

lemma window_skip:
  "window buf (tokenizer_skip_whitespace buf c) = dropWhile isWhitespace (window buf c)"
  by (simp add: tokenizer_skip_whitespace_def skip_loop_eq window_set_pos drop_takeWhile_length)

lemma copy_content_eq:
  "copy_content buf ds c dst =
     (let run = takeWhile (\<lambda>ch. \<not> (delim_at ds ch \<or> isWhitespace ch)) (window buf c)
      in (tokenizer_cursor_set_pos c (m_pos c + length run), dst @ run))"
  by (simp add: copy_content_def copy_loop_eq Let_def)

lemma parse_token_loop_eq:
  assumes "plain_delims ds"
  shows "parse_token_loop buf ds c dst w =
     (let pre = takeWhile (\<lambda>ch. \<not> delim_at ds ch) (window buf c)
      in (tokenizer_cursor_set_pos c (m_pos c + length pre), token_result dst w pre))"
  using assms
proof (induction buf ds c dst w rule: parse_token_loop.induct)
  case (1 buf ds c dst w)
  let ?s = "window buf c" and ?nd = "\<lambda>ch. \<not> delim_at ds ch"
  consider "?s = []" | ch rest where "?s = ch # rest" "delim_at ds ch"
    | ch rest where "?s = ch # rest" "\<not> delim_at ds ch" "isWhitespace ch"
    | ch rest where "?s = ch # rest" "\<not> delim_at ds ch" "\<not> isWhitespace ch"
    by (cases ?s) auto
  then show ?case
  proof cases
    case 3
    let ?k = "takeWhile isWhitespace ?s" and ?t = "dropWhile isWhitespace ?s"
    have pre: "takeWhile ?nd ?s = ?k @ takeWhile ?nd ?t"
      by (rule takeWhile_split) (rule plain_delims_ws [OF "1.prems"])
    have k: "?k \<noteq> []" "\<forall>c \<in> set ?k. isWhitespace c"
      using 3 by (auto dest: set_takeWhileD)
    have "parse_token_loop buf ds c dst w =
        parse_token_loop buf ds (tokenizer_skip_whitespace buf c) dst True"
      using 3 by (subst parse_token_loop.simps) simp
    also have "\<dots> = (tokenizer_cursor_set_pos c (m_pos c + length ?k + length (takeWhile ?nd ?t)),
        token_result dst True (takeWhile ?nd ?t))"
      using "1.IH"(1) [OF 3] "1.prems"
      by (simp add: Let_def window_skip) (simp add: tokenizer_skip_whitespace_def skip_loop_eq)
    finally show ?thesis
      by (simp only: pre Let_def token_result_ws [OF k] length_append add.assoc)
  next
    case 4
    let ?P = "\<lambda>ch. \<not> (delim_at ds ch \<or> isWhitespace ch)"
    let ?r = "takeWhile ?P ?s" and ?t = "dropWhile ?P ?s"
    have pre: "takeWhile ?nd ?s = ?r @ takeWhile ?nd ?t"
      by (rule takeWhile_split) simp
    have r: "?r \<noteq> []" "\<forall>c \<in> set ?r. \<not> isWhitespace c"
      using 4 by (auto dest: set_takeWhileD)
    have t: "takeWhile ?nd ?t = [] \<or> isWhitespace (hd (takeWhile ?nd ?t))"
      by (rule takeWhile_dropWhile_hd) simp
    have "parse_token_loop buf ds c dst w =
        parse_token_loop buf ds (tokenizer_cursor_set_pos c (m_pos c + length ?r))
          (append_gap w dst @ ?r) False"
      using 4 by (subst parse_token_loop.simps) (simp add: copy_content_eq Let_def)
    also have "\<dots> = (tokenizer_cursor_set_pos c (m_pos c + length ?r + length (takeWhile ?nd ?t)),
        token_result (append_gap w dst @ ?r) False (takeWhile ?nd ?t))"
      using "1.IH"(2) [OF 4] "1.prems"
      by (simp add: copy_content_eq Let_def window_set_pos drop_takeWhile_length)
    finally show ?thesis
      by (simp only: pre Let_def token_result_run [OF r t] length_append add.assoc)
  qed (subst parse_token_loop.simps, simp add: token_result_def)+
qed

lemma parse_token_eq:
  assumes "plain_delims ds"
  shows "tokenizer_parse_token buf ds c =
     (let pre = takeWhile (\<lambda>ch. \<not> delim_at ds ch) (window buf c)
      in (tokenizer_cursor_set_pos c (m_pos c + length pre), join_words (words pre)))"
  by (simp add: tokenizer_parse_token_def parse_token_loop_eq [OF assms] token_result_def
      append_gap_def Let_def)

subsection \<open>Values\<close>

lemma quoted_loop_quote:
  assumes "CR \<notin> set s" "LF \<notin> set s"
  shows "quoted_loop False (concat (map quote_char s) @ DQUOTE # t) p dst =
     (p + length (concat (map quote_char s)) + 1, dst @ s)"
  using assms
  by (induction s arbitrary: p dst) (auto simp: quote_char_def tokenizer_chars)

lemma copy_quoted_content_quote:
  assumes "CR \<notin> set s" "LF \<notin> set s" "window buf c = quote s @ t"
  shows "copy_quoted_content buf c dst =
     (tokenizer_cursor_set_pos c (m_pos c + length (quote s)), dst @ s)"
  using assms quoted_loop_quote [OF assms(1,2), of t "Suc (m_pos c)" dst]
  by (simp add: copy_quoted_content_def quote_def)

lemma parse_value_stop:
  "window buf c = [] \<or> delim_at ds (hd (window buf c)) \<Longrightarrow> parse_value_loop buf ds c dst w = (c, dst)"
  by (subst parse_value_loop.simps) (auto split: list.split)

lemma parse_value_quote:
  assumes "plain_delims ds" "CR \<notin> set s" "LF \<notin> set s"
    and win: "window buf c = quote s @ t" and t: "t = [] \<or> delim_at ds (hd t)"
  shows "tokenizer_parse_value buf ds c =
     (tokenizer_cursor_set_pos c (m_pos c + length (quote s)), s)"
proof -
  have "\<not> delim_at ds DQUOTE" "\<not> isWhitespace DQUOTE"
    using assms(1) by (auto simp: plain_delims_def isWhitespace_def tokenizer_chars)
  then have "parse_value_loop buf ds c [] False =
      parse_value_loop buf ds (tokenizer_cursor_set_pos c (m_pos c + length (quote s))) s False"
    using win copy_quoted_content_quote [OF assms(2,3) win, of "[]"]
    by (subst parse_value_loop.simps) (simp add: quote_def append_gap_def)
  also have "\<dots> = (tokenizer_cursor_set_pos c (m_pos c + length (quote s)), s)"
    using t by (intro parse_value_stop) (simp add: window_set_pos win)
  finally show ?thesis by (simp add: tokenizer_parse_value_def)
qed

lemma takeWhile_notin: "x \<notin> set s \<Longrightarrow> takeWhile (\<lambda>c. P c \<and> c \<noteq> x) s = takeWhile P s"
  by (induction s) auto

lemma set_window_move: "x \<notin> set (window buf c) \<Longrightarrow>
   x \<notin> set (window buf (tokenizer_cursor_set_pos c (m_pos c + n)))"
  by (auto simp: window_set_pos dest: in_set_dropD)

lemma copy_unquoted_no_quote:
  "DQUOTE \<notin> set (window buf c) \<Longrightarrow>
   copy_unquoted_content buf ds c dst = copy_content buf ds c dst"
  using takeWhile_notin [of DQUOTE "window buf c" "\<lambda>ch. \<not> delim_at ds ch \<and> \<not> isWhitespace ch"]
  by (simp add: copy_unquoted_content_def copy_content_def copy_loop_eq)

lemma parse_value_no_quote:
  "DQUOTE \<notin> set (window buf c) \<Longrightarrow>
   parse_value_loop buf ds c dst w = parse_token_loop buf ds c dst w"
proof (induction buf ds c dst w rule: parse_token_loop.induct)
  case (1 buf ds c dst w)
  have skip: "DQUOTE \<notin> set (window buf (tokenizer_skip_whitespace buf c))"
    using "1.prems" by (auto simp: window_skip dest: set_dropWhileD)
  have copy: "DQUOTE \<notin> set (window buf (fst (copy_content buf ds c d)))" for d
    using "1.prems" by (simp add: copy_content_eq Let_def set_window_move)
  show ?case
    using 1 skip copy
    by (subst parse_token_loop.simps, subst parse_value_loop.simps)
      (auto simp: copy_unquoted_no_quote Let_def split: list.split)
qed

text \<open>Where the value parser leaves the cursor.\<close>

definition cursor_ok :: "string \<Rightarrow> tokenizer_cursor \<Rightarrow> bool" where
  "cursor_ok buf c = (m_pos c \<le> m_upper_bound c \<and> m_upper_bound c \<le> length buf)"

definition moved :: "string \<Rightarrow> tokenizer_cursor \<Rightarrow> tokenizer_cursor \<Rightarrow> bool" where
  "moved buf c c' = (m_upper_bound c' = m_upper_bound c \<and> m_lower_bound c' = m_lower_bound c \<and>
     m_pos c \<le> m_pos c' \<and> cursor_ok buf c')"

lemma length_window: "cursor_ok buf c \<Longrightarrow> m_pos c + length (window buf c) = m_upper_bound c"
  by (simp add: cursor_ok_def window_def)

lemma window_hd: "cursor_ok buf c \<Longrightarrow> window buf c = ch # rest \<Longrightarrow> ch = buf ! m_pos c"
  using window_nonempty [of buf c ch rest] nth_drop_Cons [of "m_pos c" "take (m_upper_bound c) buf"]
  by (simp add: window_def cursor_ok_def)

lemma window_Nil_at_end: "cursor_ok buf c \<Longrightarrow> window buf c = [] \<Longrightarrow> tokenizer_cursor_at_end c"
  by (simp add: window_def cursor_ok_def tokenizer_cursor_at_end_def)

lemma moved_refl: "cursor_ok buf c \<Longrightarrow> moved buf c c"
  by (simp add: moved_def)

lemma moved_trans: "moved buf c c' \<Longrightarrow> moved buf c' c'' \<Longrightarrow> moved buf c c''"
  by (auto simp: moved_def)

lemma moved_ok: "moved buf c c' \<Longrightarrow> cursor_ok buf c'"
  by (simp add: moved_def)

lemma moved_step: "moved buf c c' \<Longrightarrow> (cursor_ok buf c' \<Longrightarrow> moved buf c' d) \<Longrightarrow> moved buf c d"
  by (auto intro: moved_trans dest: moved_ok)

lemma moved_set_pos:
  "cursor_ok buf c \<Longrightarrow> n \<le> length (window buf c) \<Longrightarrow>
   moved buf c (tokenizer_cursor_set_pos c (m_pos c + n))"
  using length_window [of buf c] by (simp add: moved_def cursor_ok_def)

lemma moved_skip: "cursor_ok buf c \<Longrightarrow> moved buf c (tokenizer_skip_whitespace buf c)"
  by (simp add: tokenizer_skip_whitespace_def skip_loop_eq moved_set_pos length_takeWhile_le)

lemma moved_unquoted: "cursor_ok buf c \<Longrightarrow> moved buf c (fst (copy_unquoted_content buf ds c dst))"
  by (simp add: copy_unquoted_content_def copy_loop_eq moved_set_pos length_takeWhile_le)

lemma moved_quoted: "cursor_ok buf c \<Longrightarrow> moved buf c (fst (copy_quoted_content buf c dst))"
proof (cases "window buf c")
  case (Cons ch rest)
  assume ok: "cursor_ok buf c"
  let ?q = "fst (quoted_loop False rest (Suc (m_pos c)) dst)"
  have "m_pos c \<le> ?q" "?q - m_pos c \<le> length (window buf c)"
    using quoted_loop_bounds [of "Suc (m_pos c)" False rest dst] Cons by auto
  with moved_set_pos [OF ok, of "?q - m_pos c"] ok Cons show ?thesis
    by (auto simp: copy_quoted_content_def moved_refl split: prod.split)
qed (simp add: copy_quoted_content_def moved_refl)

lemma parse_value_moved:
  "cursor_ok buf c \<Longrightarrow> moved buf c (fst (parse_value_loop buf ds c dst w))"
proof (induction buf ds c dst w rule: parse_value_loop.induct)
  case (1 buf ds c dst w)
  note moves = moved_skip [OF "1.prems"] moved_quoted [OF "1.prems", of "append_gap w dst"]
    moved_unquoted [OF "1.prems", of ds "append_gap w dst"]
  show ?case
    using 1 moves
    by (subst parse_value_loop.simps)
      (auto simp: moved_refl split: list.split intro: moved_step)
qed

lemma parse_value_stops:
  "cursor_ok buf c \<Longrightarrow>
   tokenizer_cursor_at_end (fst (parse_value_loop buf ds c dst w)) \<or>
   delim_at ds (buf ! m_pos (fst (parse_value_loop buf ds c dst w)))"
proof (induction buf ds c dst w rule: parse_value_loop.induct)
  case (1 buf ds c dst w)
  note moves = moved_ok [OF moved_skip [OF "1.prems"]]
    moved_ok [OF moved_quoted [OF "1.prems", of "append_gap w dst"]]
    moved_ok [OF moved_unquoted [OF "1.prems", of ds "append_gap w dst"]]
  show ?case
    using 1 moves
    by (subst (1 2) parse_value_loop.simps)
      (auto simp: window_Nil_at_end window_hd [symmetric] split: list.split)
qed

end
