(* ===== verification/Header_Value.thy ===== *)
theory Header_Value
  imports Tokenizer
begin

text \<open>
  Header elements and their parser, \<^verbatim>\<open>src/src/utils/header_value_parser.c\<close>,
  \<^verbatim>\<open>header_element.[ch]\<close> and \<^verbatim>\<open>name_value_pair.[ch]\<close>. A header value is a comma
  separated list of elements, an element a name with an optional value and parameters
  separated by semicolons. The parser loops are partial functions, since one of them need not
  end on bytes outside ASCII; for ASCII values they are shown to end and to find an element
  exactly when one of the comma separated parts carries its name.
\<close>

section \<open>Name-value pairs and header elements\<close>

record name_value_pair =
  nvp_name :: "string option"
  nvp_value :: "string option"

definition name_value_pair_ctor :: "string option \<Rightarrow> string option \<Rightarrow> name_value_pair" where
  "name_value_pair_ctor name value = \<lparr> nvp_name = name, nvp_value = value \<rparr>"

text \<open>The heap-allocated pair; \<open>g_return_val_if_fail\<close> gives NULL on a missing or empty name.\<close>

definition name_value_pair_new :: "string option \<Rightarrow> string option \<Rightarrow> name_value_pair option" where
  "name_value_pair_new name value =
     (case name of None \<Rightarrow> None
      | Some n \<Rightarrow> if n = [] then None else Some (name_value_pair_ctor (Some n) value))"

record header_element =
  he_name :: "string option"
  he_value :: "string option"
  he_parameters :: "name_value_pair option list"

definition header_element_ctor ::
  "string option \<Rightarrow> string option \<Rightarrow> name_value_pair option list \<Rightarrow> header_element" where
  "header_element_ctor name value parameters =
     \<lparr> he_name = name, he_value = value, he_parameters = parameters \<rparr>"

definition header_element_get_parameter :: "header_element \<Rightarrow> nat \<Rightarrow> name_value_pair option" where
  "header_element_get_parameter he i =
     (if i < length (he_parameters he) then he_parameters he ! i else None)"

text \<open>The search loop. \<open>g_ascii_strcasecmp\<close> on a NULL name warns and returns 0.\<close>

function get_parameter_loop :: "header_element \<Rightarrow> string \<Rightarrow> nat \<Rightarrow> name_value_pair option" where
  "get_parameter_loop he name i =
     (case header_element_get_parameter he i of
        None \<Rightarrow> None
      | Some param \<Rightarrow>
          if (case nvp_name param of None \<Rightarrow> True | Some n \<Rightarrow> g_ascii_strcaseeq n name)
          then Some param
          else get_parameter_loop he name (Suc i))"
  by pat_completeness auto
termination
  by (relation "measure (\<lambda>(he, name, i). length (he_parameters he) - i)")
    (auto simp: header_element_get_parameter_def split: if_splits)

definition header_element_get_parameter_by_name ::
  "header_element \<Rightarrow> string \<Rightarrow> name_value_pair option" where
  "header_element_get_parameter_by_name he name =
     (if name = [] then None else get_parameter_loop he name 0)"

section \<open>The parser\<close>

record header_value_parser =
  PARAM_DELIMITER :: char
  ELEM_DELIMITER :: char
  TOKEN_DELIMITER :: delims
  VALUE_DELIMITER :: delims

text \<open>The two arguments are the bytes for which the memory in front of each delimiter table is
  non-zero. In front of the first table lie the two delimiter characters themselves.\<close>

definition header_value_parser_ctor :: "char list \<Rightarrow> char list \<Rightarrow> header_value_parser" where
  "header_value_parser_ctor below_token below_value =
     \<lparr> PARAM_DELIMITER = CHR '';'', ELEM_DELIMITER = CHR '','',
       TOKEN_DELIMITER = delims_ctor below_token [CHR ''='', CHR '';'', CHR '',''],
       VALUE_DELIMITER = delims_ctor below_value [CHR '';'', CHR '',''] \<rparr>"

definition parse_name_value_pair ::
  "header_value_parser \<Rightarrow> string \<Rightarrow> tokenizer_cursor \<Rightarrow> tokenizer_cursor \<times> name_value_pair" where
  "parse_name_value_pair hvp buf cursor =
     (let (c1, name) = tokenizer_parse_token buf (Some (TOKEN_DELIMITER hvp)) cursor in
      if tokenizer_cursor_at_end c1 then (c1, name_value_pair_ctor (Some name) None)
      else if buf ! m_pos c1 \<noteq> CHR ''='' then (c1, name_value_pair_ctor (Some name) None)
      else
        (let (c2, value) = tokenizer_parse_value buf (Some (VALUE_DELIMITER hvp))
                             (tokenizer_cursor_set_pos c1 (m_pos c1 + 1))
         in (c2, name_value_pair_ctor (Some name) (Some value))))"

partial_function (option) parse_parameters_loop ::
  "header_value_parser \<Rightarrow> string \<Rightarrow> tokenizer_cursor \<Rightarrow> name_value_pair option list \<Rightarrow>
   (tokenizer_cursor \<times> name_value_pair option list) option" where
  "parse_parameters_loop hvp buf cursor params =
     (if tokenizer_cursor_at_end cursor then Some (cursor, params)
      else
        (let (c1, param) = parse_name_value_pair hvp buf cursor;
             params' = params @ [name_value_pair_new (nvp_name param) (nvp_value param)]
         in if tokenizer_cursor_at_end c1 then parse_parameters_loop hvp buf c1 params'
            else
              (let ch = buf ! m_pos c1;
                   c2 = (if ch = PARAM_DELIMITER hvp then tokenizer_cursor_set_pos c1 (m_pos c1 + 1)
                         else c1)
               in if ch = ELEM_DELIMITER hvp then Some (c2, params')
                  else parse_parameters_loop hvp buf c2 params')))"

definition parse_parameters ::
  "header_value_parser \<Rightarrow> string \<Rightarrow> tokenizer_cursor \<Rightarrow>
   (tokenizer_cursor \<times> name_value_pair option list) option" where
  "parse_parameters hvp buf cursor =
     parse_parameters_loop hvp buf (tokenizer_skip_whitespace buf cursor) []"

definition parse_header_element ::
  "header_value_parser \<Rightarrow> string \<Rightarrow> tokenizer_cursor \<Rightarrow> (tokenizer_cursor \<times> header_element) option" where
  "parse_header_element hvp buf cursor =
     (let (c1, nvp) = parse_name_value_pair hvp buf cursor in
      if tokenizer_cursor_at_end c1
      then Some (c1, header_element_ctor (nvp_name nvp) (nvp_value nvp) [])
      else
        (let ch = buf ! m_pos c1;
             c2 = (if ch = PARAM_DELIMITER hvp \<or> ch = ELEM_DELIMITER hvp
                   then tokenizer_cursor_set_pos c1 (m_pos c1 + 1) else c1)
         in if ch \<noteq> ELEM_DELIMITER hvp then
              do { (c3, params) \<leftarrow> parse_parameters hvp buf c2;
                   Some (c3, header_element_ctor (nvp_name nvp) (nvp_value nvp) params) }
            else Some (c2, header_element_ctor (nvp_name nvp) (nvp_value nvp) [])))"

text \<open>
  \<open>has_header_element\<close> keeps the pointer to the element's name, frees the element, and then
  compares through the pointer: \<open>read_freed\<close> is what a read of the freed bytes gives.
\<close>

partial_function (option) has_header_element_loop ::
  "(string \<Rightarrow> string) \<Rightarrow> header_value_parser \<Rightarrow> string \<Rightarrow> string \<Rightarrow> tokenizer_cursor \<Rightarrow> bool option" where
  "has_header_element_loop read_freed hvp buf name cursor =
     (if tokenizer_cursor_at_end cursor then Some False
      else
        (case parse_header_element hvp buf cursor of
           None \<Rightarrow> None
         | Some (c1, element) \<Rightarrow>
             if (case he_name element of None \<Rightarrow> False
                 | Some n \<Rightarrow> g_ascii_strcaseeq (read_freed n) name)
             then Some True
             else has_header_element_loop read_freed hvp buf name c1))"

definition header_value_parser_has_header_element ::
  "(string \<Rightarrow> string) \<Rightarrow> header_value_parser \<Rightarrow> string \<Rightarrow> string \<Rightarrow> bool option" where
  "header_value_parser_has_header_element read_freed hvp buf name =
     has_header_element_loop read_freed hvp buf name (tokenizer_cursor_ctor 0 (length buf))"

declare get_parameter_loop.simps [simp del]
declare parse_parameters_loop.simps [code] has_header_element_loop.simps [code]

section \<open>Reference: comma separated elements\<close>

function split_comma :: "string \<Rightarrow> string list" where
  "split_comma s =
     takeWhile (\<lambda>c. c \<noteq> CHR '','') s #
     (case dropWhile (\<lambda>c. c \<noteq> CHR '','') s of [] \<Rightarrow> [] | _ # t \<Rightarrow> split_comma t)"
  by pat_completeness auto
termination
proof (relation "measure length", simp, simp)
  fix s c t
  assume "dropWhile (\<lambda>c. c \<noteq> CHR '','') s = c # t"
  then show "length t < length s"
    by (metis Suc_le_eq dropWhile_le_length length_Cons)
qed

declare split_comma.simps [simp del]

text \<open>The name of an element: what stands before the first equals sign or semicolon, with white
  space trimmed and inner white space folded.\<close>

definition element_name :: "string \<Rightarrow> string" where
  "element_name e = join_words (words (takeWhile (\<lambda>c. c \<noteq> CHR ''='' \<and> c \<noteq> CHR '';'') e))"

definition ascii :: "string \<Rightarrow> bool" where
  "ascii s = (\<forall>ch \<in> set s. code ch < 128)"

definition unquoted :: "string \<Rightarrow> bool" where
  "unquoted s = (DQUOTE \<notin> set s)"

section \<open>The parser on ASCII values without quotes\<close>

abbreviation name_char :: "char \<Rightarrow> bool" where
  "name_char c \<equiv> c \<noteq> CHR ''='' \<and> c \<noteq> CHR '';'' \<and> c \<noteq> CHR '',''"

abbreviation value_char :: "char \<Rightarrow> bool" where
  "value_char c \<equiv> c \<noteq> CHR '';'' \<and> c \<noteq> CHR '',''"

lemma hvp_chars [simp]:
  "PARAM_DELIMITER (header_value_parser_ctor bt bv) = CHR '';''"
  "ELEM_DELIMITER (header_value_parser_ctor bt bv) = CHR '',''"
  by (simp_all add: header_value_parser_ctor_def)

lemma hvp_delims:
  "code ch < 128 \<Longrightarrow> delim_at (Some (TOKEN_DELIMITER (header_value_parser_ctor bt bv))) ch \<longleftrightarrow> \<not> name_char ch"
  "code ch < 128 \<Longrightarrow> delim_at (Some (VALUE_DELIMITER (header_value_parser_ctor bt bv))) ch \<longleftrightarrow> \<not> value_char ch"
  by (auto simp: header_value_parser_ctor_def delims_ctor_def delim_at_def)

lemma hvp_plain:
  "plain_delims (Some (TOKEN_DELIMITER (header_value_parser_ctor bt bv)))"
  "plain_delims (Some (VALUE_DELIMITER (header_value_parser_ctor bt bv)))"
  by (auto simp: plain_delims_def header_value_parser_ctor_def delims_ctor_def delim_at_def
      tokenizer_chars)

lemma takeWhile_token:
  "ascii s \<Longrightarrow> takeWhile (\<lambda>ch. \<not> delim_at (Some (TOKEN_DELIMITER (header_value_parser_ctor bt bv))) ch) s
     = takeWhile name_char s"
  by (rule takeWhile_cong) (auto simp: ascii_def hvp_delims)

lemma takeWhile_value:
  "ascii s \<Longrightarrow> takeWhile (\<lambda>ch. \<not> delim_at (Some (VALUE_DELIMITER (header_value_parser_ctor bt bv))) ch) s
     = takeWhile value_char s"
  by (rule takeWhile_cong) (auto simp: ascii_def hvp_delims)

lemma cursor_ok_set_pos:
  "cursor_ok buf c \<Longrightarrow> n \<le> length (window buf c) \<Longrightarrow>
   cursor_ok buf (tokenizer_cursor_set_pos c (m_pos c + n))"
  using length_window [of buf c] by (simp add: cursor_ok_def)

lemma at_end_window: "cursor_ok buf c \<Longrightarrow> tokenizer_cursor_at_end c \<longleftrightarrow> window buf c = []"
  by (auto simp: window_def cursor_ok_def tokenizer_cursor_at_end_def)

lemma value_char_split:
  "takeWhile value_char s = takeWhile name_char s @
     (case dropWhile name_char s of [] \<Rightarrow> []
      | x # r \<Rightarrow> if x = CHR ''='' then x # takeWhile value_char r else [])"
  by (induction s) auto

lemma parse_value_plain:
  assumes "window buf c = r" "ascii r" "unquoted r"
  shows "tokenizer_parse_value buf (Some (VALUE_DELIMITER (header_value_parser_ctor bt bv))) c =
     (tokenizer_cursor_set_pos c (m_pos c + length (takeWhile value_char r)),
      join_words (words (takeWhile value_char r)))"
proof -
  have "DQUOTE \<notin> set (window buf c)" using assms by (simp add: unquoted_def)
  from parse_value_no_quote [OF this] show ?thesis
    by (simp add: tokenizer_parse_value_def parse_token_loop_eq [OF hvp_plain(2)] assms
        takeWhile_value Let_def token_result_def append_gap_def)
qed

lemma parse_nvp_plain:
  assumes ok: "cursor_ok buf c" and w: "ascii (window buf c)" "unquoted (window buf c)"
  shows "fst (parse_name_value_pair (header_value_parser_ctor bt bv) buf c) =
           tokenizer_cursor_set_pos c (m_pos c + length (takeWhile value_char (window buf c)))"
    and "nvp_name (snd (parse_name_value_pair (header_value_parser_ctor bt bv) buf c)) =
           Some (join_words (words (takeWhile name_char (window buf c))))"
proof -
  let ?hvp = "header_value_parser_ctor bt bv" and ?w = "window buf c"
  let ?pre = "takeWhile name_char ?w"
  let ?c1 = "tokenizer_cursor_set_pos c (m_pos c + length ?pre)"
  have tok: "tokenizer_parse_token buf (Some (TOKEN_DELIMITER ?hvp)) c = (?c1, join_words (words ?pre))"
    by (simp add: parse_token_eq [OF hvp_plain(1)] takeWhile_token [OF w(1)] Let_def)
  have ok1: "cursor_ok buf ?c1" by (intro cursor_ok_set_pos ok length_takeWhile_le)
  have win1: "window buf ?c1 = dropWhile name_char ?w"
    by (simp add: window_set_pos drop_takeWhile_length)
  note end1 = at_end_window [OF ok1]
  have "fst (parse_name_value_pair ?hvp buf c) =
      tokenizer_cursor_set_pos c (m_pos c + length (takeWhile value_char ?w)) \<and>
    nvp_name (snd (parse_name_value_pair ?hvp buf c)) = Some (join_words (words ?pre))"
  proof (cases "dropWhile name_char ?w")
    case Nil
    then have "takeWhile value_char ?w = ?pre" by (subst value_char_split) (simp only: list.case append_Nil2)
    with Nil show ?thesis using end1 win1
      by (simp add: parse_name_value_pair_def tok name_value_pair_ctor_def del: dropWhile_eq_Nil_conv)
  next
    case (Cons x r)
    let ?c2 = "tokenizer_cursor_set_pos c (m_pos c + (length ?pre + 1))"
    have x: "buf ! (m_pos c + length ?pre) = x"
      using window_hd [OF ok1, of x r] win1 Cons by simp
    have win2: "window buf ?c2 = r"
      using arg_cong [OF Cons, of "drop 1"] unfolding window_set_pos
      by (simp add: drop_takeWhile_length [symmetric] add.commute)
    have "set r \<subseteq> set ?w" using Cons by (metis set_dropWhileD set_subset_Cons subset_iff)
    with w have r: "ascii r" "unquoted r" by (auto simp: ascii_def unquoted_def)
    note val = parse_value_plain [OF win2 r, of bt bv]
    show ?thesis using end1 win1 value_char_split [of ?w] Cons x val
      by (simp add: parse_name_value_pair_def tok name_value_pair_ctor_def
          add.assoc)
  qed
  then show "fst (parse_name_value_pair ?hvp buf c) =
      tokenizer_cursor_set_pos c (m_pos c + length (takeWhile value_char ?w))"
    and "nvp_name (snd (parse_name_value_pair ?hvp buf c)) = Some (join_words (words ?pre))"
    by simp_all
qed

lemma parse_nvp_moved:
  assumes "cursor_ok buf c" "ascii (window buf c)" "unquoted (window buf c)"
    and "c1 = fst (parse_name_value_pair (header_value_parser_ctor bt bv) buf c)"
  shows "cursor_ok buf c1" "window buf c1 = dropWhile value_char (window buf c)"
  using assms parse_nvp_plain(1) [OF assms(1-3)]
  by (simp_all add: cursor_ok_set_pos length_takeWhile_le window_set_pos drop_takeWhile_length)

lemma plain_dropWhile: "ascii s \<Longrightarrow> ascii (dropWhile P s)" "unquoted s \<Longrightarrow> unquoted (dropWhile P s)"
  by (auto simp: ascii_def unquoted_def dest: set_dropWhileD)

lemma plain_Cons: "ascii (x # s) \<Longrightarrow> ascii s" "unquoted (x # s) \<Longrightarrow> unquoted s"
  by (auto simp: ascii_def unquoted_def)

lemma advance_one:
  assumes "cursor_ok buf c" "window buf c = x # t"
  shows "cursor_ok buf (tokenizer_cursor_set_pos c (Suc (m_pos c)))"
    and "window buf (tokenizer_cursor_set_pos c (Suc (m_pos c))) = t"
    and "buf ! m_pos c = x" and "\<not> tokenizer_cursor_at_end c"
  using cursor_ok_set_pos [OF assms(1), of 1] window_set_pos [of buf c 1] assms
    window_hd [OF assms] at_end_window [OF assms(1)] by simp_all

lemma dropWhile_comma_value: "dropWhile (\<lambda>c. c \<noteq> CHR '','') s =
    (case dropWhile value_char s of [] \<Rightarrow> []
     | x # t \<Rightarrow> if x = CHR '','' then x # t else dropWhile (\<lambda>c. c \<noteq> CHR '','') t)"
  by (induction s) auto

lemma parse_parameters_loop_plain:
  assumes "cursor_ok buf c" "ascii (window buf c)" "unquoted (window buf c)"
  shows "\<exists>c' ps. parse_parameters_loop (header_value_parser_ctor bt bv) buf c params = Some (c', ps) \<and>
     cursor_ok buf c' \<and> window buf c' = dropWhile (\<lambda>c. c \<noteq> CHR '','') (window buf c)"
  using assms
proof (induction "length (window buf c)" arbitrary: c params rule: less_induct)
  case less
  let ?hvp = "header_value_parser_ctor bt bv" and ?w = "window buf c"
  obtain c1 p where p: "parse_name_value_pair ?hvp buf c = (c1, p)" by fastforce
  note m = parse_nvp_moved [OF less.prems, of c1 bt bv, simplified p fst_conv, OF refl]
  note unf = parse_parameters_loop.simps [of ?hvp buf c params]
  show ?case
  proof (cases "?w = []")
    case True
    with at_end_window [OF less.prems(1)] less.prems(1) show ?thesis by (simp add: unf)
  next
    case ne: False
    then have ne': "\<not> tokenizer_cursor_at_end c" using at_end_window [OF less.prems(1)] by simp
    show ?thesis
    proof (cases "dropWhile value_char ?w")
      case Nil
      with m have e: "tokenizer_cursor_at_end c1" "window buf c1 = []"
        using at_end_window [OF m(1)] by auto
      then show ?thesis using ne' p m(1) Nil dropWhile_comma_value [of ?w]
        by (simp add: unf parse_parameters_loop.simps [of _ _ c1] del: dropWhile_eq_Nil_conv)
    next
      case (Cons x t)
      note a = advance_one [OF m(1), of x t, simplified m(2) Cons, OF refl]
      have x: "x = CHR '';'' \<or> x = CHR '',''" using dropWhile_hd_not [OF Cons] by auto
      have len: "length t < length ?w"
        using dropWhile_le_length [of value_char ?w] Cons by simp
      have plain: "ascii t" "unquoted t"
        using less.prems(2,3) Cons plain_dropWhile plain_Cons by metis+
      show ?thesis
      proof (cases "x = CHR '',''")
        case True
        then show ?thesis using ne' p m a Cons dropWhile_comma_value [of ?w] by (simp add: unf)
      next
        case False
        with x have "x = CHR '';''" by simp
        moreover from this have "dropWhile (\<lambda>c. c \<noteq> CHR '','') ?w = dropWhile (\<lambda>c. c \<noteq> CHR '','') t"
          using dropWhile_comma_value [of ?w] Cons by simp
        ultimately show ?thesis
          using less.hyps [of "tokenizer_cursor_set_pos c1 (Suc (m_pos c1))"] a len plain ne' p
          by (simp add: unf)
      qed
    qed
  qed
qed

lemma dropWhile_ws_comma:
  "dropWhile (\<lambda>c. c \<noteq> CHR '','') (dropWhile isWhitespace s) = dropWhile (\<lambda>c. c \<noteq> CHR '','') s"
  by (induction s) (auto simp: isWhitespace_def tokenizer_chars)

lemma parse_parameters_plain:
  assumes "cursor_ok buf c" "ascii (window buf c)" "unquoted (window buf c)"
  shows "\<exists>c' ps. parse_parameters (header_value_parser_ctor bt bv) buf c = Some (c', ps) \<and>
     cursor_ok buf c' \<and> window buf c' = dropWhile (\<lambda>c. c \<noteq> CHR '','') (window buf c)"
  using parse_parameters_loop_plain [of buf "tokenizer_skip_whitespace buf c" bt bv "[]"]
    moved_ok [OF moved_skip] plain_dropWhile assms
  by (simp add: parse_parameters_def window_skip dropWhile_ws_comma)

definition after_element :: "string \<Rightarrow> string" where
  "after_element w =
     (case dropWhile value_char w of [] \<Rightarrow> []
      | x # t \<Rightarrow> if x = CHR '','' then t else dropWhile (\<lambda>c. c \<noteq> CHR '','') t)"

lemma after_element_shorter: "w \<noteq> [] \<Longrightarrow> length (after_element w) < length w"
proof (cases "dropWhile value_char w")
  case (Cons x t)
  then have "Suc (length t) \<le> length w" by (metis dropWhile_le_length length_Cons)
  then show ?thesis
    using Cons dropWhile_le_length [of "\<lambda>c. c \<noteq> CHR '',''" t]
    by (simp add: after_element_def le_imp_less_Suc del: dropWhile_le_length)
qed (simp add: after_element_def del: dropWhile_eq_Nil_conv)

lemma set_after_element: "set (after_element w) \<subseteq> set w"
proof -
  have "set (dropWhile value_char w) \<subseteq> set w" by (rule set_dropWhile_subset)
  then show ?thesis
    using set_dropWhile_subset [of "\<lambda>c. c \<noteq> CHR '',''"]
    by (cases "dropWhile value_char w") (auto simp: after_element_def simp del: dropWhile_eq_Nil_conv)
qed

lemma plain_after_element:
  "ascii w \<Longrightarrow> ascii (after_element w)" "unquoted w \<Longrightarrow> unquoted (after_element w)"
  using set_after_element [of w] by (auto simp: ascii_def unquoted_def)

lemma parse_header_element_plain:
  assumes "cursor_ok buf c" "ascii (window buf c)" "unquoted (window buf c)"
  shows "\<exists>c' he. parse_header_element (header_value_parser_ctor bt bv) buf c = Some (c', he) \<and>
     cursor_ok buf c' \<and> window buf c' = after_element (window buf c) \<and>
     he_name he = Some (join_words (words (takeWhile name_char (window buf c))))"
proof -
  let ?hvp = "header_value_parser_ctor bt bv" and ?w = "window buf c"
  obtain c1 p where p: "parse_name_value_pair ?hvp buf c = (c1, p)" by fastforce
  note m = parse_nvp_moved [OF assms, of c1 bt bv, simplified p fst_conv, OF refl]
  have n: "nvp_name p = Some (join_words (words (takeWhile name_char ?w)))"
    using parse_nvp_plain(2) [OF assms, of bt bv] p by simp
  show ?thesis
  proof (cases "dropWhile value_char ?w")
    case Nil
    with m have "tokenizer_cursor_at_end c1" "window buf c1 = []"
      using at_end_window [OF m(1)] by auto
    with Nil show ?thesis using p m(1) n
      by (simp add: parse_header_element_def header_element_ctor_def after_element_def
          del: dropWhile_eq_Nil_conv)
  next
    case (Cons x t)
    note a = advance_one [OF m(1), of x t, simplified m(2) Cons, OF refl]
    have x: "x = CHR '';'' \<or> x = CHR '',''" using dropWhile_hd_not [OF Cons] by auto
    have "ascii t" "unquoted t"
      using assms(2,3) Cons plain_dropWhile plain_Cons by metis+
    with parse_parameters_plain [OF a(1), of bt bv] a(2) obtain c3 ps where
      "parse_parameters ?hvp buf (tokenizer_cursor_set_pos c1 (Suc (m_pos c1))) = Some (c3, ps)"
      "cursor_ok buf c3" "window buf c3 = dropWhile (\<lambda>c. c \<noteq> CHR '','') t" by auto
    with x a p n Cons show ?thesis
      by (auto simp: parse_header_element_def header_element_ctor_def after_element_def)
  qed
qed

lemma element_name_takeWhile:
  "element_name (takeWhile (\<lambda>c. c \<noteq> CHR '','') w) = join_words (words (takeWhile name_char w))"
proof -
  have "takeWhile (\<lambda>c. c \<noteq> CHR ''='' \<and> c \<noteq> CHR '';'') (takeWhile (\<lambda>c. c \<noteq> CHR '','') w) =
      takeWhile name_char w"
    by (induction w) auto
  then show ?thesis by (simp add: element_name_def)
qed

lemma element_name_Nil [simp]: "element_name [] = []"
  by (simp add: element_name_def)

definition names_element :: "string \<Rightarrow> string \<Rightarrow> bool" where
  "names_element name s = (\<exists>e \<in> set (split_comma s). g_ascii_strcaseeq (element_name e) name)"

lemma not_strcaseeq_Nil [simp]: "g_ascii_strcaseeq [] name \<longleftrightarrow> name = []"
  using g_ascii_strcaseeq_length [of "[]" name] by auto

lemma names_element_Nil: "name \<noteq> [] \<Longrightarrow> \<not> names_element name []"
  by (simp add: names_element_def split_comma.simps)

lemma names_element_comma: "name \<noteq> [] \<Longrightarrow> names_element name (CHR '','' # t) = names_element name t"
  unfolding names_element_def by (subst split_comma.simps) simp

lemma names_element_rest:
  assumes "name \<noteq> []"
  shows "names_element name w \<longleftrightarrow>
     g_ascii_strcaseeq (element_name (takeWhile (\<lambda>c. c \<noteq> CHR '','') w)) name \<or>
     names_element name (dropWhile (\<lambda>c. c \<noteq> CHR '','') w)"
proof (cases "dropWhile (\<lambda>c. c \<noteq> CHR '','') w")
  case Nil
  then have "split_comma w = [takeWhile (\<lambda>c. c \<noteq> CHR '','') w]"
    by (subst split_comma.simps) (simp only: list.case)
  with Nil names_element_Nil [OF assms] show ?thesis
    by (simp add: names_element_def del: dropWhile_eq_Nil_conv)
next
  case (Cons x t)
  then have x: "x = CHR '',''" by (auto dest: dropWhile_hd_not)
  have "split_comma w = takeWhile (\<lambda>c. c \<noteq> CHR '','') w # split_comma t"
    using Cons by (subst split_comma.simps) simp
  with Cons x names_element_comma [OF assms, of t] show ?thesis by (simp add: names_element_def)
qed

lemma names_element_after:
  assumes "name \<noteq> []"
  shows "names_element name w \<longleftrightarrow>
     g_ascii_strcaseeq (join_words (words (takeWhile name_char w))) name \<or>
     names_element name (after_element w)"
proof -
  have "names_element name (after_element w) = names_element name (dropWhile (\<lambda>c. c \<noteq> CHR '','') w)"
    using dropWhile_comma_value [of w] names_element_comma [OF assms]
    by (cases "dropWhile value_char w") (auto simp: after_element_def simp del: dropWhile_eq_Nil_conv)
  then show ?thesis
    by (simp add: names_element_rest [OF assms, of w] element_name_takeWhile)
qed

lemma has_header_element_loop_plain:
  assumes "cursor_ok buf c" "ascii (window buf c)" "unquoted (window buf c)" "name \<noteq> []"
  shows "has_header_element_loop (\<lambda>s. s) (header_value_parser_ctor bt bv) buf name c =
     Some (names_element name (window buf c))"
  using assms(1-3)
proof (induction "length (window buf c)" arbitrary: c rule: less_induct)
  case less
  let ?w = "window buf c"
  note unf = has_header_element_loop.simps [of _ _ buf name c]
  show ?case
  proof (cases "?w = []")
    case True
    with at_end_window [OF less.prems(1)] names_element_Nil [OF assms(4)]
    show ?thesis by (simp add: unf)
  next
    case False
    then have ne: "\<not> tokenizer_cursor_at_end c" using at_end_window [OF less.prems(1)] by simp
    obtain c1 he where e: "parse_header_element (header_value_parser_ctor bt bv) buf c = Some (c1, he)"
      "cursor_ok buf c1" "window buf c1 = after_element ?w"
      "he_name he = Some (join_words (words (takeWhile name_char ?w)))"
      using parse_header_element_plain [OF less.prems] by blast
    then have "has_header_element_loop (\<lambda>s. s) (header_value_parser_ctor bt bv) buf name c1 =
        Some (names_element name (after_element ?w))"
      using less.hyps [of c1] after_element_shorter [OF False] plain_after_element less.prems
      by simp
    with ne e show ?thesis by (simp add: unf names_element_after [OF assms(4), of ?w])
  qed
qed

lemma has_header_element_names:
  assumes "ascii buf" "unquoted buf" "name \<noteq> []"
  shows "header_value_parser_has_header_element (\<lambda>s. s) (header_value_parser_ctor bt bv) buf name =
     Some (names_element name buf)"
proof -
  let ?c = "tokenizer_cursor_ctor 0 (length buf)"
  have "window buf ?c = buf" "cursor_ok buf ?c"
    by (simp_all add: window_def tokenizer_cursor_ctor_def cursor_ok_def)
  with has_header_element_loop_plain [of buf ?c name bt bv] assms show ?thesis
    by (simp add: header_value_parser_has_header_element_def)
qed

section \<open>A byte that stops the parameter loop from ending\<close>

lemma parse_parameters_loop_stuck:
  assumes "parse_parameters_loop hvp buf c params = Some y" "CHR 0xFF \<in> set bt"
  shows "\<not> (hvp = header_value_parser_ctor bt bv \<and> buf = [CHR 0xFF] \<and> c = tokenizer_cursor_ctor 0 1)"
proof (rule parse_parameters_loop.raw_induct [OF _ assms(1),
      where P = "\<lambda>hvp buf c params y. \<not> (hvp = header_value_parser_ctor bt bv \<and> buf = [CHR 0xFF] \<and>
        c = tokenizer_cursor_ctor 0 1)"], goal_cases)
  case (1 f hvp buf c params y)
  have "parse_name_value_pair (header_value_parser_ctor bt bv) [CHR 0xFF] (tokenizer_cursor_ctor 0 1) =
      (tokenizer_cursor_ctor 0 1, name_value_pair_ctor (Some []) None)"
    using assms(2)
    by (simp add: parse_name_value_pair_def tokenizer_parse_token_def parse_token_loop.simps
        window_def tokenizer_cursor_ctor_def delim_at_def header_value_parser_ctor_def delims_ctor_def
        tokenizer_cursor_at_end_def)
  moreover have "\<not> tokenizer_cursor_at_end (tokenizer_cursor_ctor 0 1)" "m_pos (tokenizer_cursor_ctor 0 1) = 0"
    by (simp_all add: tokenizer_cursor_at_end_def tokenizer_cursor_ctor_def)
  ultimately show ?case
    using 1(1) [of "header_value_parser_ctor bt bv" "[CHR 0xFF]" "tokenizer_cursor_ctor 0 1" _ y] 1(2)
    by (auto simp: Let_def)
qed

section \<open>Properties\<close>



text \<open>\<open>has_header_element\<close> compares a name it has just freed: on the same value and name, two
  contents of the freed bytes give the two answers.\<close>

theorem has_header_element_reads_freed:
  "\<exists>rf1 rf2.
     header_value_parser_has_header_element rf1 (header_value_parser_ctor [] []) ''upgrade'' ''upgrade'' = Some True \<and>
     header_value_parser_has_header_element rf2 (header_value_parser_ctor [] []) ''upgrade'' ''upgrade'' = Some False"
proof -
  have "header_value_parser_has_header_element (\<lambda>s. s) (header_value_parser_ctor [] []) ''upgrade'' ''upgrade'' = Some True"
    by code_simp
  moreover have "header_value_parser_has_header_element (\<lambda>s. []) (header_value_parser_ctor [] []) ''upgrade'' ''upgrade'' = Some False"
    by code_simp
  ultimately show ?thesis by blast
qed



text \<open>C25. A quoted string that the value parser reads up to a delimiter or the end of the line
  comes back as the string that was quoted, and the cursor stands right behind it.\<close>

theorem parse_value_quote_roundtrip:
  assumes "CR \<notin> set s" "LF \<notin> set s" "t = [] \<or> hd t \<in> {CHR '';'', CHR '',''}"
  shows "tokenizer_parse_value (quote s @ t) (Some (VALUE_DELIMITER (header_value_parser_ctor bt bv)))
     (tokenizer_cursor_ctor 0 (length (quote s @ t))) =
     (\<lparr> m_lower_bound = 0, m_upper_bound = length (quote s @ t), m_pos = length (quote s) \<rparr>, s)"
proof -
  let ?c = "tokenizer_cursor_ctor 0 (length (quote s @ t))"
  have "window (quote s @ t) ?c = quote s @ t" by (simp add: window_def tokenizer_cursor_ctor_def)
  moreover have "t = [] \<or> delim_at (Some (VALUE_DELIMITER (header_value_parser_ctor bt bv))) (hd t)"
    using assms(3) by (auto simp: hvp_delims)
  ultimately show ?thesis
    using parse_value_quote [OF hvp_plain(2) assms(1,2)]
    by (simp add: tokenizer_cursor_ctor_def tokenizer_cursor_set_pos_def)
qed

theorem parse_value_quote_roundtrip_witness:
  "tokenizer_parse_value (quote ''a; b'' @ '';q'') (Some (VALUE_DELIMITER (header_value_parser_ctor [] [])))
     (tokenizer_cursor_ctor 0 (length (quote ''a; b'' @ '';q''))) =
     (\<lparr> m_lower_bound = 0, m_upper_bound = 8, m_pos = 6 \<rparr>, ''a; b'')"
  using parse_value_quote_roundtrip [of "''a; b''" "'';q''" "[]" "[]"]
  by (simp add: quote_def quote_char_def tokenizer_chars)

text \<open>The parameters behind an empty parameter cannot be found by name: the search stops at
  the NULL that the parser stores for it.\<close>

theorem empty_parameter_hides_rest:
  assumes "he_parameters he ! i = None" "i < length (he_parameters he)"
    and "\<forall>j < i. \<exists>p n. he_parameters he ! j = Some p \<and> nvp_name p = Some n \<and> \<not> g_ascii_strcaseeq n name"
  shows "header_element_get_parameter_by_name he name = None"
proof -
  have "get_parameter_loop he name 0 = None"
  proof (rule inc_induct [of 0 i], simp, goal_cases base step)
    case base
    then show ?case using assms(1,2)
      by (simp add: get_parameter_loop.simps header_element_get_parameter_def)
  next
    case (step j)
    with assms(3) obtain p n where "he_parameters he ! j = Some p" "nvp_name p = Some n"
      "\<not> g_ascii_strcaseeq n name" by blast
    with step assms(2) show ?case
      by (simp add: get_parameter_loop.simps [of he name j] header_element_get_parameter_def)
  qed
  then show ?thesis by (simp add: header_element_get_parameter_by_name_def)
qed

theorem empty_parameter_hides_rest_witness:
  "\<exists>c he p. parse_header_element (header_value_parser_ctor [] []) ''a;;b=c'' (tokenizer_cursor_ctor 0 6) = Some (c, he) \<and>
     p \<in> set (he_parameters he) \<and> map_option nvp_name p = Some (Some ''b'') \<and>
     header_element_get_parameter_by_name he ''b'' = None"
proof -
  let ?ps = "[None, Some (name_value_pair_ctor (Some ''b'') (Some ''c''))]"
  let ?he = "header_element_ctor (Some ''a'') None ?ps"
  have "parse_header_element (header_value_parser_ctor [] []) ''a;;b=c'' (tokenizer_cursor_ctor 0 6) =
     Some (\<lparr> m_lower_bound = 0, m_upper_bound = 6, m_pos = 6 \<rparr>, ?he)"
    by code_simp
  moreover have "header_element_get_parameter_by_name ?he ''b'' = None"
    by (rule empty_parameter_hides_rest [of _ 0]) (simp_all add: header_element_ctor_def)
  ultimately show ?thesis
    by (fastforce simp: header_element_ctor_def name_value_pair_ctor_def)
qed

text \<open>The token parser takes everything up to the first delimiter and folds its white space:
  the token is the words before the delimiter joined by single spaces.\<close>

theorem parse_token_folds_space:
  assumes "ascii (window buf c)"
  shows "tokenizer_parse_token buf (Some (TOKEN_DELIMITER (header_value_parser_ctor bt bv))) c =
     (let pre = takeWhile (\<lambda>ch. ch \<notin> {CHR ''='', CHR '';'', CHR '',''}) (window buf c)
      in (tokenizer_cursor_set_pos c (m_pos c + length pre), join_words (words pre)))"
  by (simp add: parse_token_eq [OF hvp_plain(1)] takeWhile_token [OF assms])

theorem parse_token_folds_space_witness:
  "tokenizer_parse_token ''  text   plain ; q=1'' (Some (TOKEN_DELIMITER (header_value_parser_ctor [] [])))
     (tokenizer_cursor_ctor 0 20) =
   (let pre = takeWhile (\<lambda>ch. ch \<notin> {CHR ''='', CHR '';'', CHR '',''}) (window ''  text   plain ; q=1'' (tokenizer_cursor_ctor 0 20))
    in (tokenizer_cursor_set_pos (tokenizer_cursor_ctor 0 20) (m_pos (tokenizer_cursor_ctor 0 20) + length pre),
        join_words (words pre)))"
  by (rule parse_token_folds_space) (simp add: ascii_def window_def tokenizer_cursor_ctor_def)

text \<open>C29. The value parser keeps the cursor inside the buffer, never moves it back, and stops
  only at the end or at a delimiter, whatever the bytes are.\<close>

theorem parse_value_stays_in_bounds:
  assumes "cursor_ok buf c"
  shows "moved buf c (fst (tokenizer_parse_value buf ds c)) \<and>
     (tokenizer_cursor_at_end (fst (tokenizer_parse_value buf ds c)) \<or>
      delim_at ds (buf ! m_pos (fst (tokenizer_parse_value buf ds c))))"
  using parse_value_moved [OF assms] parse_value_stops [OF assms]
  by (simp add: tokenizer_parse_value_def)

theorem parse_value_stays_in_bounds_witness:
  "moved ''a b;c'' (tokenizer_cursor_ctor 0 5)
     (fst (tokenizer_parse_value ''a b;c'' (Some (delims_ctor [] [CHR '';''])) (tokenizer_cursor_ctor 0 5)))"
  using parse_value_stays_in_bounds [of "''a b;c''" "tokenizer_cursor_ctor 0 5" "Some (delims_ctor [] [CHR '';''])"]
  by (simp add: cursor_ok_def tokenizer_cursor_ctor_def)

end
