(* ===== verification/Header_Utility.thy ===== *)
theory Header_Utility
  imports Header_Value
begin

text \<open>
  Decisions taken from header fields, \<^verbatim>\<open>src/src/rp-header-utility.c\<close> and
  \<^verbatim>\<open>src/src/rp-http-utility.c\<close>: connection reuse, methods without a body, upgrades, the
  port of a host and the parts of an authority. A header table is the lookup that
  \<open>evhtp_header_find\<close> performs on it; the recognisers of numeric addresses are parameters.
\<close>

type_synonym headers = "string \<Rightarrow> string option"

text \<open>\<open>evhtp_proto\<close>, in the order of its values.\<close>

datatype evhtp_proto = EVHTP_PROTO_INVALID | EVHTP_PROTO_10 | EVHTP_PROTO_11

primrec proto_value :: "evhtp_proto \<Rightarrow> nat" where
  "proto_value EVHTP_PROTO_INVALID = 0"
| "proto_value EVHTP_PROTO_10 = 1"
| "proto_value EVHTP_PROTO_11 = 2"

section \<open>Header names and values\<close>

record RpMethodValues =
  Connect :: string
  Delete :: string
  Get :: string
  Head :: string
  Trace :: string

definition MethodValues :: RpMethodValues where
  "MethodValues = \<lparr> Connect = ''CONNECT'', Delete = ''DELETE'', Get = ''GET'', Head = ''HEAD'',
     Trace = ''TRACE'' \<rparr>"

record RpConnectionValues =
  Close :: string
  KeepAlive :: string
  Upgrade :: string

definition ConnectionValues :: RpConnectionValues where
  "ConnectionValues = \<lparr> Close = ''close'', KeepAlive = ''keep-alive'', Upgrade = ''upgrade'' \<rparr>"

record RpHeaderNames =
  Connection_name :: string
  HostLegacy_name :: string
  Method_name :: string
  Path_name :: string
  ProxyConnection_name :: string
  Scheme_name :: string
  Status_name :: string
  Upgrade_name :: string

definition RpHeaderValues :: RpHeaderNames where
  "RpHeaderValues = \<lparr> Connection_name = ''connection'', HostLegacy_name = ''host'',
     Method_name = '':method'', Path_name = '':path'', ProxyConnection_name = ''proxy-connection'',
     Scheme_name = '':scheme'', Status_name = '':status'', Upgrade_name = ''upgrade'' \<rparr>"

lemmas header_value_defs = MethodValues_def ConnectionValues_def RpHeaderValues_def

section \<open>Connection reuse\<close>

text \<open>The name of the first element of a header, \<open>Some None\<close> when the header is absent.\<close>

definition get_header_value :: "header_value_parser \<Rightarrow> headers \<Rightarrow> string \<Rightarrow> string option option" where
  "get_header_value parser headers name =
     (case headers name of
        None \<Rightarrow> Some None
      | Some value \<Rightarrow>
          do { (c, element) \<leftarrow> parse_header_element parser value
                                (tokenizer_cursor_ctor 0 (length value));
               Some (he_name element) })"

definition get_connection_header_value where
  "get_connection_header_value parser headers =
     get_header_value parser headers (Connection_name RpHeaderValues)"

definition get_proxy_connection_header_value where
  "get_proxy_connection_header_value parser headers =
     get_header_value parser headers (ProxyConnection_name RpHeaderValues)"

definition get_status_code where
  "get_status_code parser headers = get_header_value parser headers (Status_name RpHeaderValues)"

definition present_and :: "(string \<Rightarrow> bool) \<Rightarrow> string option \<Rightarrow> bool" where
  "present_and P v = (case v of None \<Rightarrow> False | Some s \<Rightarrow> P s)"

definition should_close_connection ::
  "header_value_parser \<Rightarrow> evhtp_proto \<Rightarrow> headers \<Rightarrow> bool option" where
  "should_close_connection parser protocol headers =
     do { first \<leftarrow>
            (if protocol = EVHTP_PROTO_10 then
               do { connection \<leftarrow> get_connection_header_value parser headers;
                    Some (present_and (\<lambda>s. \<not> g_ascii_strcaseeq s (KeepAlive ConnectionValues)) connection) }
             else if protocol = EVHTP_PROTO_11 then
               do { connection \<leftarrow> get_connection_header_value parser headers;
                    Some (present_and (\<lambda>s. g_ascii_strcaseeq s (Close ConnectionValues)) connection) }
             else Some False);
          if first then Some True
          else if proto_value protocol \<le> proto_value EVHTP_PROTO_11 then
            do { connection \<leftarrow> get_proxy_connection_header_value parser headers;
                 Some (present_and (\<lambda>s. g_ascii_strcaseeq s (Close ConnectionValues)) connection) }
          else Some False }"

section \<open>Methods\<close>

definition is_get_method :: "string \<Rightarrow> bool" where
  "is_get_method method =
     (if length method \<noteq> 3 then False
      else g_ascii_tolower (method ! 0) = CHR ''g'' \<and> g_ascii_tolower (method ! 1) = CHR ''e'' \<and>
           g_ascii_tolower (method ! 2) = CHR ''t'')"

definition is_head_method :: "string \<Rightarrow> bool" where
  "is_head_method method =
     (if length method \<noteq> 4 then False
      else g_ascii_tolower (method ! 0) = CHR ''h'' \<and> g_ascii_tolower (method ! 1) = CHR ''e'' \<and>
           g_ascii_tolower (method ! 2) = CHR ''a'' \<and> g_ascii_tolower (method ! 3) = CHR ''d'')"

definition is_connect_method :: "string \<Rightarrow> bool" where
  "is_connect_method method =
     (if length method \<noteq> 7 then False
      else g_ascii_tolower (method ! 0) = CHR ''c'' \<and> g_ascii_tolower (method ! 1) = CHR ''o'' \<and>
           g_ascii_tolower (method ! 2) = CHR ''n'' \<and> g_ascii_tolower (method ! 3) = CHR ''n'' \<and>
           g_ascii_tolower (method ! 4) = CHR ''e'' \<and> g_ascii_tolower (method ! 5) = CHR ''c'' \<and>
           g_ascii_tolower (method ! 6) = CHR ''t'')"

definition is_delete_method :: "string \<Rightarrow> bool" where
  "is_delete_method method =
     (if length method \<noteq> 6 then False
      else g_ascii_tolower (method ! 0) = CHR ''d'' \<and> g_ascii_tolower (method ! 1) = CHR ''e'' \<and>
           g_ascii_tolower (method ! 2) = CHR ''l'' \<and> g_ascii_tolower (method ! 3) = CHR ''e'' \<and>
           g_ascii_tolower (method ! 4) = CHR ''t'' \<and> g_ascii_tolower (method ! 5) = CHR ''e'')"

definition is_trace_method :: "string \<Rightarrow> bool" where
  "is_trace_method method =
     (if length method \<noteq> 5 then False
      else g_ascii_tolower (method ! 0) = CHR ''t'' \<and> g_ascii_tolower (method ! 1) = CHR ''r'' \<and>
           g_ascii_tolower (method ! 2) = CHR ''a'' \<and> g_ascii_tolower (method ! 3) = CHR ''c'' \<and>
           g_ascii_tolower (method ! 4) = CHR ''e'')"

text \<open>\<open>method_value\<close> returns a pointer: one of the constants, or the bytes of the header itself.
  The caller compares the pointers, so the two are kept apart.\<close>

datatype method_ptr = MethodConst string | HeaderPtr string

definition method_value :: "headers \<Rightarrow> method_ptr option" where
  "method_value headers =
     (case headers (Method_name RpHeaderValues) of
        None \<Rightarrow> None
      | Some method \<Rightarrow> Some
          (if is_get_method method then MethodConst (Get MethodValues)
           else if is_head_method method then MethodConst (Head MethodValues)
           else if is_connect_method method then MethodConst (Connect MethodValues)
           else if is_delete_method method then MethodConst (Delete MethodValues)
           else if is_trace_method method then MethodConst (Trace MethodValues)
           else HeaderPtr method))"

definition request_should_have_no_body :: "headers \<Rightarrow> bool" where
  "request_should_have_no_body headers =
     (case method_value headers of
        None \<Rightarrow> False
      | Some method \<Rightarrow>
          method = MethodConst (Get MethodValues) \<or> method = MethodConst (Head MethodValues) \<or>
          method = MethodConst (Delete MethodValues) \<or> method = MethodConst (Trace MethodValues) \<or>
          method = MethodConst (Connect MethodValues))"

definition is_connect :: "headers \<Rightarrow> bool" where
  "is_connect request_headers =
     (case request_headers (Method_name RpHeaderValues) of
        None \<Rightarrow> False
      | Some m \<Rightarrow> g_ascii_strcaseeq m (Connect MethodValues))"

definition is_special_1xx :: "header_value_parser \<Rightarrow> headers \<Rightarrow> bool option" where
  "is_special_1xx parser response_headers =
     do { status_code \<leftarrow> get_status_code parser response_headers;
          Some (present_and (\<lambda>s. g_ascii_strcaseeq s ''100'' \<or> g_ascii_strcaseeq s ''102'' \<or>
                                  g_ascii_strcaseeq s ''103'') status_code) }"

definition is_upgrade :: "(string \<Rightarrow> string) \<Rightarrow> header_value_parser \<Rightarrow> headers \<Rightarrow> bool option" where
  "is_upgrade read_freed parser headers =
     (case headers (Connection_name RpHeaderValues) of
        None \<Rightarrow> Some False
      | Some value \<Rightarrow>
          header_value_parser_has_header_element read_freed parser value (Upgrade ConnectionValues))"

definition http_utility_is_upgrade ::
  "(string \<Rightarrow> string) \<Rightarrow> header_value_parser \<Rightarrow> headers \<Rightarrow> bool option" where
  "http_utility_is_upgrade read_freed parser headers =
     (if headers (Upgrade_name RpHeaderValues) = None then Some False
      else is_upgrade read_freed parser headers)"

section \<open>Ports and authorities\<close>

fun last_index :: "char \<Rightarrow> string \<Rightarrow> nat option" where
  "last_index c [] = None"
| "last_index c (x # xs) =
     (case last_index c xs of Some i \<Rightarrow> Some (Suc i) | None \<Rightarrow> if x = c then Some 0 else None)"

text \<open>Pointers into the host are offsets from its start.\<close>

definition get_port_start :: "string \<Rightarrow> nat option" where
  "get_port_start host =
     (case last_index (CHR '':'') host of
        None \<Rightarrow> None
      | Some port_start \<Rightarrow>
          if (case last_index (CHR '']'') host of None \<Rightarrow> True | Some v6_end \<Rightarrow> v6_end < port_start)
          then (if port_start + 1 > length host then None else Some port_start)
          else None)"

text \<open>\<open>simple_atoi\<close>; a signed overflow of \<open>result\<close> is undefined in C and is \<open>None\<close> here.\<close>

fun atoi_loop :: "int \<Rightarrow> string \<Rightarrow> (int \<times> string) option" where
  "atoi_loop result [] = Some (result, [])"
| "atoi_loop result (ch # str) =
     (if g_ascii_isdigit ch then
        (let result' = result * 10 + int (digit_value ch)
         in if result' > 2147483647 then None else atoi_loop result' str)
      else Some (result, ch # str))"

definition split_sign :: "string \<Rightarrow> int \<times> string" where
  "split_sign str =
     (case str of [] \<Rightarrow> (1, [])
      | ch # rest \<Rightarrow> if ch = CHR ''-'' then (-1, rest) else if ch = CHR ''+'' then (1, rest) else (1, str))"

definition simple_atoi :: "string \<Rightarrow> int option" where
  "simple_atoi str =
     (let (sign, digits) = split_sign (dropWhile g_ascii_isspace str) in
      do { (result, rest) \<leftarrow> atoi_loop 0 digits;
           Some (if rest = [] then sign * result else 0) })"

definition host_has_port :: "string \<Rightarrow> bool option" where
  "host_has_port original_host =
     (case get_port_start original_host of
        None \<Rightarrow> Some False
      | Some port_start \<Rightarrow>
          do { r \<leftarrow> simple_atoi (drop (port_start + 1) original_host);
               Some ((word_of_int r :: guint32) \<noteq> 0) })"

fun dec_value :: "nat \<Rightarrow> string \<Rightarrow> nat" where
  "dec_value acc [] = acc"
| "dec_value acc (ch # str) = dec_value (acc * 10 + digit_value ch) str"

text \<open>\<open>g_ascii_strtoull\<close> in base 10: white space, a sign, digits; it saturates.\<close>

definition g_ascii_strtoull :: "string \<Rightarrow> guint64" where
  "g_ascii_strtoull str =
     (let (sign, digits) = split_sign (dropWhile g_ascii_isspace str);
          v = dec_value 0 (takeWhile g_ascii_isdigit digits);
          w = (if v \<ge> 2 ^ 64 then - 1 else of_nat v)
      in if sign = -1 then - w else w)"

text \<open>\<open>atoi\<close> of the C library: \<open>strtol\<close>, which saturates at 64 bits, cut down to an \<open>int\<close>.\<close>

definition c_atoi :: "string \<Rightarrow> int" where
  "c_atoi str =
     (let (sign, digits) = split_sign (dropWhile g_ascii_isspace str);
          v = sign * int (dec_value 0 (takeWhile g_ascii_isdigit digits));
          l = max (- (2 ^ 63)) (min v (2 ^ 63 - 1))
      in sint (word_of_int l :: guint32))"

definition http_utility_get_response_status :: "headers \<Rightarrow> int" where
  "http_utility_get_response_status headers =
     (case headers (Status_name RpHeaderValues) of None \<Rightarrow> 0 | Some status \<Rightarrow> c_atoi status)"

definition is_connect_response :: "headers option \<Rightarrow> headers \<Rightarrow> bool" where
  "is_connect_response request_headers response_headers =
     (case request_headers of None \<Rightarrow> False
      | Some rh \<Rightarrow> is_connect rh \<and> http_utility_get_response_status response_headers = 200)"

definition http_utility_get_protocol_string :: "evhtp_proto \<Rightarrow> string" where
  "http_utility_get_protocol_string protocol =
     (case protocol of EVHTP_PROTO_10 \<Rightarrow> ''HTTP/1.0'' | EVHTP_PROTO_11 \<Rightarrow> ''HTTP/1.1''
      | _ \<Rightarrow> ''Unsupported'')"

definition printf_s :: "string option \<Rightarrow> string" where
  "printf_s s = (case s of None \<Rightarrow> ''(null)'' | Some t \<Rightarrow> t)"

definition http_utility_build_original_uri :: "headers \<Rightarrow> string" where
  "http_utility_build_original_uri request_headers =
     (case request_headers (Path_name RpHeaderValues) of
        None \<Rightarrow> []
      | Some path \<Rightarrow>
          printf_s (request_headers (Scheme_name RpHeaderValues)) @ ''://'' @
          printf_s (request_headers (HostLegacy_name RpHeaderValues)) @ path)"

text \<open>The recognisers of numeric addresses are libevent's: \<open>is_v4\<close> for \<open>evutil_inet_pton\<close> on
  \<open>AF_INET\<close>, \<open>is_v6\<close> for \<open>evutil_getaddrinfo\<close> with numeric IPv6 hints.\<close>

definition parse_address :: "(string \<Rightarrow> bool) \<Rightarrow> (string \<Rightarrow> bool) \<Rightarrow> string \<Rightarrow> bool" where
  "parse_address is_v4 is_v6 ip_address = (if is_v4 ip_address then True else is_v6 ip_address)"

record RpAuthorityAttributes =
  m_is_ip_address :: bool
  m_host :: string
  m_port :: guint16

definition http_utility_parse_authority ::
  "(string \<Rightarrow> bool) \<Rightarrow> (string \<Rightarrow> bool) \<Rightarrow> string \<Rightarrow> RpAuthorityAttributes" where
  "http_utility_parse_authority is_v4 is_v6 host =
     (let (host_to_resolve, port) =
            (case last_index (CHR '':'') host of
               None \<Rightarrow> (host, 0 :: guint16)
             | Some colon_pos \<Rightarrow>
                 if last host \<noteq> CHR '']''
                 then (take colon_pos host, ucast (g_ascii_strtoull (drop (colon_pos + 1) host)))
                 else (host, 0));
          potential_ip_address =
            (if host_to_resolve \<noteq> [] \<and> hd host_to_resolve = CHR ''['' \<and> last host_to_resolve = CHR '']''
             then take (length host_to_resolve - 2) (tl host_to_resolve) else host_to_resolve)
      in if parse_address is_v4 is_v6 potential_ip_address
         then \<lparr> m_is_ip_address = True, m_host = potential_ip_address, m_port = port \<rparr>
         else \<lparr> m_is_ip_address = False, m_host = host_to_resolve, m_port = port \<rparr>)"

section \<open>Lemmas\<close>

lemma last_index_None: "last_index c s = None \<longleftrightarrow> c \<notin> set s"
  by (induction s) (auto split: option.split)

lemma last_index_append: "c \<notin> set p \<Longrightarrow> last_index c (a @ c # p) = Some (length a)"
  by (induction a) (auto simp: last_index_None split: option.split)

lemma last_index_Some: "last_index c s = Some i \<longleftrightarrow> (\<exists>a p. s = a @ c # p \<and> length a = i \<and> c \<notin> set p)"
proof
  show "last_index c s = Some i \<Longrightarrow> \<exists>a p. s = a @ c # p \<and> length a = i \<and> c \<notin> set p"
  proof (induction s arbitrary: i)
    case (Cons x s)
    then show ?case
    proof (cases "last_index c s")
      case None
      with Cons.prems show ?thesis
        by (intro exI [of _ "[]"] exI [of _ s]) (auto simp: last_index_None split: if_splits)
    next
      case (Some j)
      with Cons obtain a p where "s = a @ c # p" "length a = j" "c \<notin> set p" "i = Suc j" by auto
      then show ?thesis by (intro exI [of _ "x # a"] exI [of _ p]) auto
    qed
  qed simp
qed (auto simp: last_index_append)

lemma strcaseeq_nth:
  "g_ascii_strcaseeq m k \<longleftrightarrow>
     length m = length k \<and> (\<forall>i < length k. g_ascii_tolower (m ! i) = g_ascii_tolower (k ! i))"
  by (auto simp: g_ascii_strcaseeq_def list_eq_iff_nth_eq)

lemma method_tests:
  "is_get_method m = g_ascii_strcaseeq m ''GET''"
  "is_head_method m = g_ascii_strcaseeq m ''HEAD''"
  "is_connect_method m = g_ascii_strcaseeq m ''CONNECT''"
  "is_delete_method m = g_ascii_strcaseeq m ''DELETE''"
  "is_trace_method m = g_ascii_strcaseeq m ''TRACE''"
proof -
  have low: "map g_ascii_tolower ''GETHADCONLR'' = ''gethadconlr''" by code_simp
  show "is_get_method m = g_ascii_strcaseeq m ''GET''"
  "is_head_method m = g_ascii_strcaseeq m ''HEAD''"
  "is_connect_method m = g_ascii_strcaseeq m ''CONNECT''"
  "is_delete_method m = g_ascii_strcaseeq m ''DELETE''"
  "is_trace_method m = g_ascii_strcaseeq m ''TRACE''"
    using low
    by (auto simp: strcaseeq_nth All_less_Suc numeral_eq_Suc is_get_method_def is_head_method_def
        is_connect_method_def is_delete_method_def is_trace_method_def)
qed

lemma dec_value_mono: "acc \<le> dec_value acc s"
proof (induction s arbitrary: acc)
  case (Cons ch s)
  have "acc \<le> acc * 10 + digit_value ch" by simp
  with Cons [of "acc * 10 + digit_value ch"] show ?case by simp
qed simp

lemma atoi_loop_digits:
  "list_all g_ascii_isdigit s \<Longrightarrow> dec_value n s \<le> 2147483647 \<Longrightarrow>
   atoi_loop (int n) s = Some (int (dec_value n s), [])"
proof (induction s arbitrary: n)
  case (Cons ch s)
  have "n * 10 + digit_value ch \<le> 2147483647"
    using Cons.prems(2) dec_value_mono [of "n * 10 + digit_value ch" s] by simp
  then have "\<not> int n * 10 + int (digit_value ch) > 2147483647" by linarith
  with Cons.IH [of "n * 10 + digit_value ch"] Cons.prems show ?case by (simp add: Let_def)
qed simp

lemma digit_not_special:
  "g_ascii_isdigit c \<Longrightarrow> c \<noteq> CHR '':'' \<and> c \<noteq> CHR '']'' \<and> c \<noteq> CHR ''-'' \<and> c \<noteq> CHR ''+'' \<and> \<not> g_ascii_isspace c"
  by (auto simp: g_ascii_isdigit_def g_ascii_isspace_def)

lemma split_sign_digits:
  assumes "list_all g_ascii_isdigit s"
  shows "split_sign (dropWhile g_ascii_isspace s) = (1, s)"
  using assms digit_not_special by (cases s) (auto simp: split_sign_def)

lemma digits_no_colon:
  "list_all g_ascii_isdigit s \<Longrightarrow> CHR '':'' \<notin> set s \<and> CHR '']'' \<notin> set s"
  using digit_not_special by (auto simp: list_all_iff)

lemma get_port_start_Some:
  "get_port_start host = Some i \<longleftrightarrow>
     (\<exists>a p. host = a @ '':'' @ p \<and> length a = i \<and> CHR '':'' \<notin> set p \<and> CHR '']'' \<notin> set p)"
proof -
  have last: "(case last_index (CHR '']'') (a @ CHR '':'' # p) of None \<Rightarrow> True | Some e \<Rightarrow> e < length a) \<longleftrightarrow>
      CHR '']'' \<notin> set p" for a p
  proof (cases "CHR '']'' \<in> set p")
    case True
    then obtain q r where "p = q @ CHR '']'' # r" "CHR '']'' \<notin> set r"
      using split_list_last by metis
    then have "last_index (CHR '']'') (a @ CHR '':'' # p) = Some (length (a @ CHR '':'' # q))"
      using last_index_append [of _ r "a @ CHR '':'' # q"] by simp
    with True show ?thesis by simp
  next
    case False
    then show ?thesis
      by (auto split: option.split simp: last_index_Some append_eq_append_conv2 Cons_eq_append_conv)
  qed
  show ?thesis
  proof (cases "last_index (CHR '':'') host")
    case None
    then have "get_port_start host = None" by (simp add: get_port_start_def)
    with None show ?thesis by (auto simp: last_index_None)
  next
    case (Some j)
    then obtain a p where d: "host = a @ CHR '':'' # p" "length a = j" "CHR '':'' \<notin> set p"
      by (auto simp: last_index_Some)
    have gps: "get_port_start host = (if CHR '']'' \<notin> set p then Some (length a) else None)"
      using last [of a p] last_index_append [OF d(3), of a] by (simp add: get_port_start_def d(1))
    have uniq: "a' = a \<and> p' = p" if "host = a' @ '':'' @ p'" "CHR '':'' \<notin> set p'" for a' p'
    proof -
      have "length a' = length a"
        using last_index_append [OF that(2), of a'] Some d(2) that(1) by simp
      then show ?thesis using that(1) d(1) by simp
    qed
    show ?thesis
    proof
      assume "get_port_start host = Some i"
      then show "\<exists>a p. host = a @ '':'' @ p \<and> length a = i \<and> CHR '':'' \<notin> set p \<and> CHR '']'' \<notin> set p"
        using gps d by (intro exI [of _ a] exI [of _ p]) (simp split: if_splits)
    next
      assume "\<exists>a p. host = a @ '':'' @ p \<and> length a = i \<and> CHR '':'' \<notin> set p \<and> CHR '']'' \<notin> set p"
      then show "get_port_start host = Some i" using uniq gps d(2) by metis
    qed
  qed
qed

definition first_name :: "string \<Rightarrow> string" where
  "first_name v = element_name (takeWhile (\<lambda>c. c \<noteq> CHR '','') v)"

definition plain_headers :: "headers \<Rightarrow> bool" where
  "plain_headers headers = (\<forall>v \<in> ran headers. ascii v \<and> unquoted v)"

lemma get_header_value_plain:
  assumes "plain_headers headers"
  shows "get_header_value (header_value_parser_ctor bt bv) headers n =
     Some (map_option first_name (headers n))"
proof (cases "headers n")
  case (Some v)
  let ?c = "tokenizer_cursor_ctor 0 (length v)"
  have w: "window v ?c = v" "cursor_ok v ?c"
    by (simp_all add: window_def tokenizer_cursor_ctor_def cursor_ok_def)
  have "v \<in> ran headers" using Some by (rule ranI)
  with assms have "ascii v" "unquoted v" by (auto simp: plain_headers_def)
  with parse_header_element_plain [of v ?c bt bv] w Some show ?thesis
    by (auto simp: get_header_value_def first_name_def element_name_takeWhile)
qed (simp add: get_header_value_def)

section \<open>Properties\<close>

text \<open>A request is taken to have no body exactly when its method is, in any case, one of GET,
  HEAD, DELETE, TRACE and CONNECT.\<close>

theorem request_should_have_no_body_iff:
  "request_should_have_no_body headers \<longleftrightarrow>
     (\<exists>m k. headers '':method'' = Some m \<and>
        k \<in> {''GET'', ''HEAD'', ''DELETE'', ''TRACE'', ''CONNECT''} \<and> g_ascii_strcaseeq m k)"
  by (auto simp: request_should_have_no_body_def method_value_def method_tests header_value_defs
      split: option.split)

text \<open>The port of a host starts at its last colon, provided no closing bracket of an IPv6
  literal follows; otherwise the host has none.\<close>

theorem get_port_start_iff:
  "get_port_start host = Some i \<longleftrightarrow>
     (\<exists>a p. host = a @ '':'' @ p \<and> length a = i \<and> CHR '':'' \<notin> set p \<and> CHR '']'' \<notin> set p)"
  by (rule get_port_start_Some)

text \<open>A host followed by a colon and a decimal number that fits an \<open>int\<close> has a port exactly
  when the number is not zero.\<close>

theorem host_has_port_digits:
  assumes "list_all g_ascii_isdigit ps" "dec_value 0 ps < 2 ^ 31"
  shows "host_has_port (h @ '':'' @ ps) = Some (dec_value 0 ps \<noteq> 0)"
proof -
  have "get_port_start (h @ '':'' @ ps) = Some (length h)"
    using digits_no_colon [OF assms(1)] by (subst get_port_start_Some) blast
  moreover have "simple_atoi ps = Some (int (dec_value 0 ps))"
    using atoi_loop_digits [OF assms(1), of 0] assms(2)
    by (simp add: simple_atoi_def split_sign_digits [OF assms(1)])
  moreover have "(word_of_int (int (dec_value 0 ps)) :: guint32) \<noteq> 0 \<longleftrightarrow> dec_value 0 ps \<noteq> 0"
    using assms(2) by (cases "dec_value 0 ps = 0") (auto simp: word_of_nat_eq_0_iff dest: dvd_imp_le)
  ultimately show ?thesis by (simp add: host_has_port_def)
qed

theorem host_has_port_digits_witness:
  "host_has_port (''example.com'' @ '':'' @ ''8080'') = Some (dec_value 0 ''8080'' \<noteq> 0)"
  by (rule host_has_port_digits) (simp_all add: g_ascii_isdigit_def digit_value_def)

text \<open>Parsing an authority of a host, a colon and a decimal number below \<open>2^64\<close> gives that
  host, without its brackets if it is a numeric address, and the number cut down to 16
  bits.\<close>

theorem parse_authority_host_port:
  assumes "list_all g_ascii_isdigit ps" "ps \<noteq> []" "dec_value 0 ps < 2 ^ 64"
    and "a = http_utility_parse_authority is_v4 is_v6 (h @ '':'' @ ps)"
    and "h = [] \<or> hd h \<noteq> CHR ''[''"
  shows "m_host a = h \<and> m_is_ip_address a = (is_v4 h \<or> is_v6 h) \<and>
     unat (m_port a) = dec_value 0 ps mod 65536"
proof -
  have idx: "last_index (CHR '':'') (h @ '':'' @ ps) = Some (length h)"
    using digits_no_colon [OF assms(1)] last_index_append by simp
  have lst: "last (h @ '':'' @ ps) \<noteq> CHR '']''"
    using digits_no_colon [OF assms(1)] assms(2) last_in_set [of ps] by (auto simp del: last_in_set)
  have all: "takeWhile g_ascii_isdigit ps = ps" using assms(1) by (simp add: list_all_iff)
  have port: "g_ascii_strtoull ps = of_nat (dec_value 0 ps)"
    using assms(3) by (simp add: all g_ascii_strtoull_def split_sign_digits [OF assms(1)])
  have "unat (ucast (of_nat (dec_value 0 ps) :: guint64) :: guint16) = dec_value 0 ps mod 65536"
    using assms(3) by (simp add: unsigned_ucast_eq unsigned_of_nat take_bit_eq_mod)
  moreover have "a = (if is_v4 h \<or> is_v6 h
      then \<lparr> m_is_ip_address = True, m_host = h, m_port = ucast (g_ascii_strtoull ps) \<rparr>
      else \<lparr> m_is_ip_address = False, m_host = h, m_port = ucast (g_ascii_strtoull ps) \<rparr>)"
    using assms(4,5) idx lst by (auto simp: http_utility_parse_authority_def parse_address_def Let_def)
  ultimately show ?thesis by (simp add: port)
qed

theorem parse_authority_host_port_witness:
  "unat (m_port (http_utility_parse_authority (\<lambda>_. False) (\<lambda>_. False) (''h'' @ '':'' @ ''65616''))) = 65616 mod 65536"
  using parse_authority_host_port [of "''65616''" _ "\<lambda>_. False" "\<lambda>_. False" "''h''"]
  by (simp add: g_ascii_isdigit_def digit_value_def)

text \<open>C28. On headers of ASCII values without quotes the decision to close a connection always
  comes, from the first element of the two connection headers: close in Proxy-Connection for
  every protocol, close in Connection for HTTP/1.1, and for HTTP/1.0 a Connection header whose
  first element is not keep-alive. An HTTP/1.0 message without a Connection header leaves the
  connection open.\<close>

theorem should_close_connection_iff:
  assumes "plain_headers headers"
  shows "should_close_connection (header_value_parser_ctor bt bv) protocol headers = Some
     ((protocol = EVHTP_PROTO_10 \<and>
         (\<exists>v. headers ''connection'' = Some v \<and> \<not> g_ascii_strcaseeq (first_name v) ''keep-alive'')) \<or>
      (protocol = EVHTP_PROTO_11 \<and>
         (\<exists>v. headers ''connection'' = Some v \<and> g_ascii_strcaseeq (first_name v) ''close'')) \<or>
      (\<exists>v. headers ''proxy-connection'' = Some v \<and> g_ascii_strcaseeq (first_name v) ''close''))"
  by (cases protocol)
    (auto simp: should_close_connection_def get_connection_header_value_def present_and_def
      get_proxy_connection_header_value_def get_header_value_plain [OF assms] header_value_defs
      split: option.split)

theorem should_close_connection_iff_witness:
  "should_close_connection (header_value_parser_ctor [] []) EVHTP_PROTO_11
     [''connection'' \<mapsto> ''close''] = Some True"
  using should_close_connection_iff [of "[''connection'' \<mapsto> ''close'']" "[]" "[]" EVHTP_PROTO_11]
  by (simp add: plain_headers_def ascii_def unquoted_def DQUOTE_def first_name_def element_name_def
      words.simps isWhitespace_def SP_def HT_def CR_def LF_def)

text \<open>An upgrade is recognised exactly when an Upgrade header is present and upgrade is one
  of the comma separated elements of the Connection header (reads of the freed name giving
  the bytes it held).\<close>

theorem is_upgrade_iff:
  assumes "plain_headers headers"
  shows "http_utility_is_upgrade (\<lambda>s. s) (header_value_parser_ctor bt bv) headers = Some
     (headers ''upgrade'' \<noteq> None \<and>
      (\<exists>v e. headers ''connection'' = Some v \<and> e \<in> set (split_comma v) \<and>
         g_ascii_strcaseeq (element_name e) ''upgrade''))"
proof (cases "headers ''connection''")
  case (Some v)
  then have "v \<in> ran headers" by (rule ranI)
  with assms have "ascii v" "unquoted v" by (auto simp: plain_headers_def)
  with has_header_element_names [of v "''upgrade''" bt bv] Some show ?thesis
    by (auto simp: http_utility_is_upgrade_def is_upgrade_def header_value_defs names_element_def)
qed (simp add: http_utility_is_upgrade_def is_upgrade_def header_value_defs)

theorem is_upgrade_iff_witness:
  "http_utility_is_upgrade (\<lambda>s. s) (header_value_parser_ctor [] [])
     [''connection'' \<mapsto> ''keep-alive'', ''upgrade'' \<mapsto> ''websocket''] = Some
     ([''connection'' \<mapsto> ''keep-alive'', ''upgrade'' \<mapsto> ''websocket''] ''upgrade'' \<noteq> None \<and>
      (\<exists>v e. [''connection'' \<mapsto> ''keep-alive'', ''upgrade'' \<mapsto> ''websocket''] ''connection'' = Some v \<and>
         e \<in> set (split_comma v) \<and> g_ascii_strcaseeq (element_name e) ''upgrade''))"
  by (rule is_upgrade_iff) (simp add: plain_headers_def ascii_def unquoted_def DQUOTE_def)

end
