(* ===== verification/Filter_Manager.thy ===== *)
theory Filter_Manager
  imports Header_Utility
begin

text \<open>
  The HTTP filter chain, \<^verbatim>\<open>src/src/rp-filter-manager.c\<close>, with the wrappers it puts around the
  filters, \<^verbatim>\<open>rp-active-stream-filter-base.c\<close>, \<^verbatim>\<open>rp-active-stream-decoder-filter.c\<close> and
  \<^verbatim>\<open>rp-active-stream-encoder-filter.c\<close>. Filters are numbered by their place in the chain. The
  filters themselves and the manager's owner are parameters: each of their callbacks is a function
  on the manager's state, so it may do anything the manager's interface lets it do. Operations
  return \<open>None\<close> where an assertion fails, a function pointer is NULL or the fuel of the recursion
  between \<open>common_continue\<close> and the iterations is used up.
\<close>

unbundle bit_operations_syntax

section \<open>Data\<close>

datatype RpIterationState = IterContinue | StopSingleIteration | StopAllBuffer | StopAllWatermark

datatype RpFilterHeadersStatus = HeadersContinue | HeadersStopIteration | ContinueAndDontEndStream
  | StopAllIterationAndBuffer | StopAllIterationAndWatermark

datatype RpFilterDataStatus = DataContinue | StopIterationAndBuffer | StopIterationAndWatermark
  | StopIterationNoBuffer

datatype RpFilterTrailerStatus = TrailersContinue | TrailersStopIteration

datatype RpFilterIterationStartState = AlwaysStartFromNext | CanStartFromCurrent

definition DecodeHeaders :: guint32 where "DecodeHeaders = 0x01"
definition DecodeData :: guint32 where "DecodeData = 0x02"
definition DecodeTrailers :: guint32 where "DecodeTrailers = 0x08"
definition EncodeHeaders :: guint32 where "EncodeHeaders = 0x10"
definition EncodeData :: guint32 where "EncodeData = 0x20"
definition EncodeTrailers :: guint32 where "EncodeTrailers = 0x80"
definition EndOfStream :: guint32 where "EndOfStream = 0x200"
definition IsDecodingMask :: guint32 where "IsDecodingMask = 0x0F"
definition IsEncodingMask :: guint32 where "IsEncodingMask = 0xF0"

text \<open>\<open>struct _RpActiveStreamFilterBasePrivate\<close>, of a wrapper.\<close>

record filter_base =
  m_iteration_state :: RpIterationState
  m_iterate_from_current_filter :: bool
  m_headers_continued :: bool
  m_end_stream :: bool
  m_processed_headers :: bool

definition filter_base_init :: filter_base where
  "filter_base_init = \<lparr> m_iteration_state = IterContinue, m_iterate_from_current_filter = False,
     m_headers_continued = False, m_end_stream = False, m_processed_headers = False \<rparr>"

text \<open>The two chains; a wrapper is a decoder or an encoder filter.\<close>

datatype side = Decoding | Encoding

text \<open>Calls to the manager's owner, the interface \<open>RpFilterManagerCallbacks\<close>, and to the
  watermark callbacks.\<close>

datatype cb_call = ResetIdleTimer | DisarmRequestTimeout | CbEncodeHeaders bool | CbEncodeData nat bool
  | CbEncodeTrailers | CbEndStream | CbResetStream nat | CbSendGoAwayAndClose | CbHighWatermark nat
  | CbLowWatermark nat

text \<open>The calls the manager makes to its filters, in order.\<close>

datatype filter_call = CallHeaders side nat bool | CallData side nat bool | CallTrailers side nat
  | CallComplete side nat

text \<open>The manager: \<open>struct _RpFilterManagerPrivate\<close> with \<open>struct RpFilterManagerState\<close>. Buffers are
  addresses into a store; the message parts that its owner keeps are fields here.\<close>

record fm =
  m_decoder_filters :: "filter_base list"
  m_encoder_filters :: "filter_base list"
  m_buffered_request_data :: "nat option"
  m_buffered_response_data :: "nat option"
  m_filter_call_state :: guint32
  m_decoder_filter_chain_complete :: bool
  m_encoder_filter_chain_complete :: bool
  m_observed_decode_end_stream :: bool
  m_observed_encode_end_stream :: bool
  m_is_head_request :: bool
  m_non_100_response_headers_encoded :: bool
  m_under_on_local_reply :: bool
  m_decoder_filter_chain_aborted :: bool
  m_encoder_filter_chain_aborted :: bool
  m_saw_downstream_reset :: bool
  m_destroyed :: bool
  m_encoder_filters_streaming :: bool
  m_decoder_filters_streaming :: bool
  m_latest_data_decoding_filter :: "nat option"
  m_latest_data_encoding_filter :: "nat option"
  m_watermark_callbacks :: "nat list"
  m_high_watermark_count :: guint32
  bufs :: "nat \<Rightarrow> string"
  next_buf :: nat
  request_headers :: "headers option"
  response_headers :: "headers option"
  request_trailers :: bool
  response_trailers :: bool
  fm_calls :: "filter_call list"

record fm_env =
  is_half_close_enabled :: bool
  cb :: "cb_call \<Rightarrow> fm \<Rightarrow> fm"
  filter_headers :: "side \<Rightarrow> nat \<Rightarrow> bool \<Rightarrow> fm \<Rightarrow> RpFilterHeadersStatus \<times> fm"
  filter_data :: "side \<Rightarrow> nat \<Rightarrow> nat \<Rightarrow> bool \<Rightarrow> fm \<Rightarrow> RpFilterDataStatus \<times> fm"
  filter_trailers :: "side \<Rightarrow> nat \<Rightarrow> (fm \<Rightarrow> RpFilterTrailerStatus \<times> fm) option"
  filter_complete :: "side \<Rightarrow> nat \<Rightarrow> fm \<Rightarrow> fm"

text \<open>\<open>rp_filter_manager_init\<close> and \<open>rp_filter_manager_state_ctor\<close>, with a chain of \<open>n\<close> decoder and
  \<open>m\<close> encoder filters.\<close>

definition rp_filter_manager_init :: "nat \<Rightarrow> nat \<Rightarrow> fm" where
  "rp_filter_manager_init n m =
     \<lparr> m_decoder_filters = replicate n filter_base_init, m_encoder_filters = replicate m filter_base_init,
       m_buffered_request_data = None, m_buffered_response_data = None, m_filter_call_state = 0,
       m_decoder_filter_chain_complete = False, m_encoder_filter_chain_complete = False,
       m_observed_decode_end_stream = False, m_observed_encode_end_stream = False,
       m_is_head_request = False, m_non_100_response_headers_encoded = False, m_under_on_local_reply = False,
       m_decoder_filter_chain_aborted = False, m_encoder_filter_chain_aborted = False,
       m_saw_downstream_reset = False, m_destroyed = False,
       m_encoder_filters_streaming = True, m_decoder_filters_streaming = True,
       m_latest_data_decoding_filter = None, m_latest_data_encoding_filter = None,
       m_watermark_callbacks = [], m_high_watermark_count = 0, bufs = (\<lambda>_. []), next_buf = 0,
       request_headers = None, response_headers = None, request_trailers = False,
       response_trailers = False, fm_calls = [] \<rparr>"

section \<open>Wrappers\<close>

definition filters :: "side \<Rightarrow> fm \<Rightarrow> filter_base list" where
  "filters s m = (case s of Decoding \<Rightarrow> m_decoder_filters m | Encoding \<Rightarrow> m_encoder_filters m)"

definition upd_filter :: "side \<Rightarrow> nat \<Rightarrow> (filter_base \<Rightarrow> filter_base) \<Rightarrow> fm \<Rightarrow> fm" where
  "upd_filter s i f m =
     (case s of
        Decoding \<Rightarrow> m\<lparr> m_decoder_filters := (m_decoder_filters m)[i := f (m_decoder_filters m ! i)] \<rparr>
      | Encoding \<Rightarrow> m\<lparr> m_encoder_filters := (m_encoder_filters m)[i := f (m_encoder_filters m ! i)] \<rparr>)"

abbreviation set_iteration_state :: "side \<Rightarrow> nat \<Rightarrow> RpIterationState \<Rightarrow> fm \<Rightarrow> fm" where
  "set_iteration_state s i st \<equiv> upd_filter s i (\<lambda>f. f\<lparr> m_iteration_state := st \<rparr>)"

abbreviation set_end_stream :: "side \<Rightarrow> nat \<Rightarrow> bool \<Rightarrow> fm \<Rightarrow> fm" where
  "set_end_stream s i e \<equiv> upd_filter s i (\<lambda>f. f\<lparr> m_end_stream := e \<rparr>)"

definition set_call_state :: "guint32 \<Rightarrow> fm \<Rightarrow> fm" where
  "set_call_state flag m = m\<lparr> m_filter_call_state := m_filter_call_state m OR flag \<rparr>"

definition clear_call_state :: "guint32 \<Rightarrow> fm \<Rightarrow> fm" where
  "clear_call_state flag m = m\<lparr> m_filter_call_state := m_filter_call_state m AND NOT flag \<rparr>"

text \<open>What the decoder and the encoder wrapper implement differently.\<close>

definition buffered_data :: "side \<Rightarrow> fm \<Rightarrow> nat option" where
  "buffered_data s m =
     (case s of Decoding \<Rightarrow> m_buffered_request_data m | Encoding \<Rightarrow> m_buffered_response_data m)"

definition create_buffer :: "side \<Rightarrow> fm \<Rightarrow> nat \<times> fm" where
  "create_buffer s m =
     (let b = next_buf m; m1 = m\<lparr> bufs := (bufs m)(b := []), next_buf := Suc b \<rparr>
      in (b, case s of Decoding \<Rightarrow> m1\<lparr> m_buffered_request_data := Some b \<rparr>
                     | Encoding \<Rightarrow> m1\<lparr> m_buffered_response_data := Some b \<rparr>))"

definition observed_end_stream :: "side \<Rightarrow> fm \<Rightarrow> bool" where
  "observed_end_stream s m =
     (case s of Decoding \<Rightarrow> m_observed_decode_end_stream m | Encoding \<Rightarrow> m_observed_encode_end_stream m)"

text \<open>Both wrappers ask for the trailers of the request.\<close>

definition has_trailers :: "side \<Rightarrow> fm \<Rightarrow> bool" where
  "has_trailers s m = request_trailers m"

definition can_continue :: "side \<Rightarrow> fm \<Rightarrow> bool" where
  "can_continue s m =
     (case s of
        Decoding \<Rightarrow> \<not> m_decoder_filter_chain_aborted m
      | Encoding \<Rightarrow> \<not> m_encoder_filter_chain_complete m \<and> (\<not> False \<or> \<not> m_encoder_filter_chain_aborted m))"

definition set_streaming :: "side \<Rightarrow> bool \<Rightarrow> fm \<Rightarrow> fm" where
  "set_streaming s v m =
     (case s of Decoding \<Rightarrow> m\<lparr> m_decoder_filters_streaming := v \<rparr>
              | Encoding \<Rightarrow> m\<lparr> m_encoder_filters_streaming := v \<rparr>)"

definition can_iterate :: "filter_base \<Rightarrow> bool" where
  "can_iterate f = (m_iteration_state f = IterContinue)"

definition stopped_all :: "filter_base \<Rightarrow> bool" where
  "stopped_all f = (m_iteration_state f = StopAllBuffer \<or> m_iteration_state f = StopAllWatermark)"

text \<open>\<open>evbuffer_add_buffer\<close> moves the contents of one buffer to the end of the other.\<close>

definition evbuffer_add_buffer :: "nat \<Rightarrow> nat \<Rightarrow> fm \<Rightarrow> fm" where
  "evbuffer_add_buffer dst src m = m\<lparr> bufs := (bufs m)(dst := bufs m dst @ bufs m src, src := []) \<rparr>"

definition common_handle_buffer_data :: "side \<Rightarrow> nat \<Rightarrow> fm \<Rightarrow> fm" where
  "common_handle_buffer_data s provided_data m =
     (if buffered_data s m \<noteq> Some provided_data then
        (case buffered_data s m of
           None \<Rightarrow> (let (b, m1) = create_buffer s m in evbuffer_add_buffer b provided_data m1)
         | Some b \<Rightarrow> evbuffer_add_buffer b provided_data m)
      else m)"

definition allow_iteration :: "side \<Rightarrow> nat \<Rightarrow> fm \<Rightarrow> fm option" where
  "allow_iteration s i m =
     (if m_iteration_state (filters s m ! i) \<noteq> IterContinue then Some (set_iteration_state s i IterContinue m)
      else None)"

section \<open>After a filter was called\<close>

text \<open>The functions below take the function that continues a stopped filter, \<open>cont\<close>, as an
  argument; \<open>common_continue\<close> ties the knot.\<close>

type_synonym continue_fn = "side \<Rightarrow> nat \<Rightarrow> fm \<Rightarrow> fm option"

definition common_handle_after_headers_callback ::
  "side \<Rightarrow> nat \<Rightarrow> RpFilterHeadersStatus \<Rightarrow> bool \<Rightarrow> fm \<Rightarrow> bool \<times> bool \<times> fm" where
  "common_handle_after_headers_callback s i status end_stream m =
     (let (end_stream1, m1) =
        (case status of
           HeadersStopIteration \<Rightarrow> (end_stream, set_iteration_state s i StopSingleIteration m)
         | StopAllIterationAndBuffer \<Rightarrow> (end_stream, set_iteration_state s i StopAllBuffer m)
         | StopAllIterationAndWatermark \<Rightarrow> (end_stream, set_iteration_state s i StopAllWatermark m)
         | ContinueAndDontEndStream \<Rightarrow> (False, upd_filter s i (\<lambda>f. f\<lparr> m_headers_continued := True \<rparr>) m)
         | HeadersContinue \<Rightarrow> (end_stream, upd_filter s i (\<lambda>f. f\<lparr> m_headers_continued := True \<rparr>) m))
      in (\<not> (stopped_all (filters s m1 ! i) \<or> status = HeadersStopIteration), end_stream1, m1))"

definition common_handle_after_data_callback ::
  "continue_fn \<Rightarrow> side \<Rightarrow> nat \<Rightarrow> RpFilterDataStatus \<Rightarrow> nat \<Rightarrow> fm \<Rightarrow> (bool \<times> fm) option" where
  "common_handle_after_data_callback cont s i status provided_data m =
     (if status = DataContinue then
        (if m_iteration_state (filters s m ! i) = StopSingleIteration then
           do { m1 \<leftarrow> cont s i (common_handle_buffer_data s provided_data m); Some (False, m1) }
         else if m_headers_continued (filters s m ! i) then Some (True, m) else None)
      else
        (let m1 = set_iteration_state s i StopSingleIteration m in
         if status = StopIterationAndBuffer \<or> status = StopIterationAndWatermark then
           Some (False, common_handle_buffer_data s provided_data
                          (set_streaming s (status = StopIterationAndWatermark) m1))
         else if observed_end_stream s m1 \<and> \<not> has_trailers s m1 \<and> buffered_data s m1 = None \<and> \<not> m_destroyed m1 then
           (if m_end_stream (filters s m1 ! i) then Some (False, snd (create_buffer s m1)) else None)
         else Some (False, m1)))"

definition common_handle_after_trailers_callback ::
  "continue_fn \<Rightarrow> side \<Rightarrow> nat \<Rightarrow> RpFilterTrailerStatus \<Rightarrow> fm \<Rightarrow> (bool \<times> fm) option" where
  "common_handle_after_trailers_callback cont s i status m =
     (case status of
        TrailersContinue \<Rightarrow>
          (if m_iteration_state (filters s m ! i) = StopSingleIteration then
             do { m1 \<leftarrow> cont s i m; Some (False, m1) }
           else if m_headers_continued (filters s m ! i) then Some (True, m) else None)
      | TrailersStopIteration \<Rightarrow>
          Some (False, if can_iterate (filters s m ! i) then set_iteration_state s i StopSingleIteration m else m))"

section \<open>Iterating over the decoder filters\<close>

text \<open>Positions in the chain: where an iteration starts, as the list of the filters to visit.\<close>

definition entries_from :: "side \<Rightarrow> nat \<Rightarrow> fm \<Rightarrow> nat list" where
  "entries_from s i m = [i ..< length (filters s m)]"

definition start_entry :: "side \<Rightarrow> nat \<Rightarrow> RpFilterIterationStartState \<Rightarrow> fm \<Rightarrow> nat list" where
  "start_entry s i start m =
     (if start = CanStartFromCurrent \<and> m_iterate_from_current_filter (filters s m ! i)
      then entries_from s i m else entries_from s (Suc i) m)"

definition common_decode_prefix :: "nat option \<Rightarrow> RpFilterIterationStartState \<Rightarrow> fm \<Rightarrow> nat list" where
  "common_decode_prefix flt start m =
     (case flt of None \<Rightarrow> entries_from Decoding 0 m | Some i \<Rightarrow> start_entry Decoding i start m)"

definition common_encode_prefix ::
  "fm_env \<Rightarrow> nat option \<Rightarrow> bool \<Rightarrow> RpFilterIterationStartState \<Rightarrow> fm \<Rightarrow> nat list \<times> fm" where
  "common_encode_prefix env flt end_stream start m =
     (case flt of
        None \<Rightarrow>
          (entries_from Encoding 0 m,
           if end_stream then
             (let m1 = m\<lparr> m_observed_encode_end_stream := True \<rparr>
              in if \<not> is_half_close_enabled env then m1\<lparr> m_decoder_filter_chain_aborted := True \<rparr> else m1)
           else m)
      | Some i \<Rightarrow> (start_entry Encoding i start m, m))"

text \<open>\<open>handle_data_if_stop_all\<close>: the data is kept for a filter that stopped everything.\<close>

definition handle_data_if_stop_all :: "side \<Rightarrow> nat \<Rightarrow> nat \<Rightarrow> fm \<Rightarrow> bool \<times> fm" where
  "handle_data_if_stop_all s i data m =
     (if stopped_all (filters s m ! i) then
        (True, common_handle_buffer_data s data
                 (set_streaming s (m_iteration_state (filters s m ! i) = StopAllWatermark) m))
      else (False, m))"

definition record_latest_data_filter :: "nat \<Rightarrow> nat option \<Rightarrow> nat option" where
  "record_latest_data_filter current latest =
     (case latest of
        None \<Rightarrow> Some current
      | Some l \<Rightarrow> if current \<noteq> 0 \<and> l = current - 1 then Some current else Some l)"

definition disarm_request_timeout :: "fm_env \<Rightarrow> fm \<Rightarrow> fm" where
  "disarm_request_timeout env m = cb env DisarmRequestTimeout m"

definition maybe_continue_decoding :: "continue_fn \<Rightarrow> nat option \<Rightarrow> fm \<Rightarrow> fm option" where
  "maybe_continue_decoding cont continue_data_entry m =
     (case continue_data_entry of
        None \<Rightarrow> Some m
      | Some i \<Rightarrow> cont Decoding i (set_iteration_state Decoding i StopSingleIteration m))"

definition maybe_continue_encoding :: "continue_fn \<Rightarrow> nat option \<Rightarrow> fm \<Rightarrow> fm option" where
  "maybe_continue_encoding cont continue_data_entry m =
     (case continue_data_entry of
        None \<Rightarrow> Some m
      | Some i \<Rightarrow> cont Encoding i (set_iteration_state Encoding i StopSingleIteration m))"

definition http_code_utility_is1xx :: "int \<Rightarrow> bool" where
  "http_code_utility_is1xx res = (res \<ge> 100 \<and> res < 200)"

definition http_code_utility_is2xx :: "int \<Rightarrow> bool" where
  "http_code_utility_is2xx res = (res \<ge> 200 \<and> res < 300)"

definition check_and_close_stream_if_fully_closed :: "fm_env \<Rightarrow> fm \<Rightarrow> fm" where
  "check_and_close_stream_if_fully_closed env m =
     (let m1 =
        (case response_headers m of
           None \<Rightarrow> m
         | Some hs \<Rightarrow>
             (let response_status = http_utility_get_response_status hs;
                  error_response = \<not> (http_code_utility_is2xx response_status \<or> http_code_utility_is1xx response_status)
              in if error_response \<and> \<not> m_decoder_filter_chain_complete m
                 then m\<lparr> m_decoder_filter_chain_aborted := True \<rparr> else m));
          decoder_filter_chain_paused =
            (\<not> m_decoder_filter_chain_complete m1 \<and> \<not> m_decoder_filter_chain_aborted m1);
          m2 = (if m_encoder_filter_chain_complete m1 \<and> m_observed_decode_end_stream m1 \<and> decoder_filter_chain_paused
                then m1\<lparr> m_decoder_filter_chain_aborted := True \<rparr> else m1)
      in if m_encoder_filter_chain_complete m2 \<and>
            (m_decoder_filter_chain_complete m2 \<or> m_decoder_filter_chain_aborted m2)
         then cb env CbEndStream m2 else m2)"

definition maybe_end_decode :: "fm_env \<Rightarrow> bool \<Rightarrow> fm \<Rightarrow> fm" where
  "maybe_end_decode env terminal_filter_decoded_end_stream m =
     (if terminal_filter_decoded_end_stream then
        (let m1 = m\<lparr> m_decoder_filter_chain_complete := True \<rparr>
         in if is_half_close_enabled env \<and> \<not> m_decoder_filter_chain_aborted m1
            then check_and_close_stream_if_fully_closed env m1 else m1)
      else m)"

definition maybe_end_encode :: "fm_env \<Rightarrow> bool \<Rightarrow> fm \<Rightarrow> fm" where
  "maybe_end_encode env end_stream m =
     (if end_stream then
        (let m1 = m\<lparr> m_encoder_filter_chain_complete := True \<rparr>
         in if is_half_close_enabled env then check_and_close_stream_if_fully_closed env m1
            else cb env CbEndStream m1)
      else m)"

text \<open>Calling a filter; the call is recorded.\<close>

definition call_headers :: "fm_env \<Rightarrow> side \<Rightarrow> nat \<Rightarrow> bool \<Rightarrow> fm \<Rightarrow> RpFilterHeadersStatus \<times> fm" where
  "call_headers env s i e m = filter_headers env s i e (m\<lparr> fm_calls := fm_calls m @ [CallHeaders s i e] \<rparr>)"

definition call_data :: "fm_env \<Rightarrow> side \<Rightarrow> nat \<Rightarrow> nat \<Rightarrow> bool \<Rightarrow> fm \<Rightarrow> RpFilterDataStatus \<times> fm" where
  "call_data env s i data e m = filter_data env s i data e (m\<lparr> fm_calls := fm_calls m @ [CallData s i e] \<rparr>)"

definition call_trailers :: "fm_env \<Rightarrow> side \<Rightarrow> nat \<Rightarrow> fm \<Rightarrow> (RpFilterTrailerStatus \<times> fm) option" where
  "call_trailers env s i m =
     map_option (\<lambda>f. f (m\<lparr> fm_calls := fm_calls m @ [CallTrailers s i] \<rparr>)) (filter_trailers env s i)"

definition call_complete :: "fm_env \<Rightarrow> side \<Rightarrow> nat \<Rightarrow> fm \<Rightarrow> fm" where
  "call_complete env s i m = filter_complete env s i (m\<lparr> fm_calls := fm_calls m @ [CallComplete s i] \<rparr>)"

text \<open>\<open>decode_headers\<close>. A turn of the loop up to \<open>common_handle_after_headers_callback\<close> and the
  completion of the filter; then the loop with its two early returns.\<close>

definition decode_headers_turn :: "fm_env \<Rightarrow> nat \<Rightarrow> bool \<Rightarrow> nat option \<Rightarrow> fm \<Rightarrow> (bool \<times> bool \<times> fm) option" where
  "decode_headers_turn env i end_stream continue_data_entry m =
     (let m1 = set_call_state DecodeHeaders m;
          end_stream' = (end_stream \<and> continue_data_entry = None);
          m2 = set_end_stream Decoding i end_stream' m1;
          m3 = (if end_stream' then set_call_state EndOfStream m2 else m2);
          (status, m4) = call_headers env Decoding i end_stream' m3;
          m5 = clear_call_state DecodeHeaders m4;
          m6 = (if end_stream' then clear_call_state EndOfStream m5 else m5);
          status1 = (if m_decoder_filter_chain_aborted m6 then HeadersStopIteration else status)
      in if status1 = ContinueAndDontEndStream \<and> \<not> end_stream' then None
         else
           (let m7 = upd_filter Decoding i (\<lambda>f. f\<lparr> m_processed_headers := True \<rparr>) m6;
                (continue_iteration, end_stream1, m8) = common_handle_after_headers_callback Decoding i status1 end_stream m7;
                m9 = (if m_end_stream (filters Decoding m8 ! i) then call_complete env Decoding i m8 else m8)
            in Some (continue_iteration, end_stream1, m9)))"

fun decode_headers_loop ::
  "continue_fn \<Rightarrow> fm_env \<Rightarrow> nat list \<Rightarrow> bool \<Rightarrow> nat option \<Rightarrow> bool \<Rightarrow> fm \<Rightarrow> fm option" where
  "decode_headers_loop cont env [] end_stream continue_data_entry terminal_filter_decoded_end_stream m =
     do { m1 \<leftarrow> maybe_continue_decoding cont continue_data_entry m;
          let m2 = (if end_stream then disarm_request_timeout env m1 else m1);
          Some (maybe_end_decode env terminal_filter_decoded_end_stream m2) }"
| "decode_headers_loop cont env (i # next_entries) end_stream continue_data_entry terminal_filter_decoded_end_stream m =
     do { (continue_iteration, end_stream1, m1) \<leftarrow> decode_headers_turn env i end_stream continue_data_entry m;
          if m_decoder_filter_chain_aborted m1 \<and> next_entries \<noteq> [] then maybe_continue_decoding cont continue_data_entry m1
          else if \<not> continue_iteration \<and> next_entries \<noteq> [] then maybe_continue_decoding cont continue_data_entry m1
          else
            (let continue_data_entry1 =
               (if end_stream1 \<and> m_buffered_request_data m1 \<noteq> None \<and> continue_data_entry = None then Some i
                else continue_data_entry);
                 no_body_was_injected = (continue_data_entry1 = None);
                 terminal = (next_entries = [] \<and> m_end_stream (filters Decoding m1 ! i) \<and> no_body_was_injected)
             in decode_headers_loop cont env next_entries end_stream1 continue_data_entry1 terminal m1) }"

definition decode_headers :: "continue_fn \<Rightarrow> fm_env \<Rightarrow> nat option \<Rightarrow> bool \<Rightarrow> fm \<Rightarrow> fm option" where
  "decode_headers cont env flt end_stream m =
     (let entries = common_decode_prefix flt AlwaysStartFromNext m
      in if \<not> m_decoder_filter_chain_complete m \<or> entries = [] \<or> m_end_stream (filters Decoding m ! hd entries)
         then decode_headers_loop cont env entries end_stream None False m
         else None)"

text \<open>\<open>decode_data\<close>. A turn ends the iteration (\<open>Inl\<close>) or goes on with the flags of the loop. When
  trailers were added on the way the code calls \<open>decode_trailers\<close> on the manager, which is not a
  filter: nothing happens.\<close>

definition decode_data_turn :: "fm_env \<Rightarrow> nat \<Rightarrow> nat \<Rightarrow> bool \<Rightarrow> fm \<Rightarrow> RpFilterDataStatus \<times> fm" where
  "decode_data_turn env i data end_stream m =
     (let m1 = (if end_stream then set_call_state EndOfStream m else m);
          m2 = m1\<lparr> m_latest_data_decoding_filter := record_latest_data_filter i (m_latest_data_decoding_filter m1) \<rparr>;
          m3 = set_call_state DecodeData m2;
          end_stream' = (end_stream \<and> \<not> request_trailers m3);
          m4 = set_end_stream Decoding i end_stream' m3;
          (status, m5) = call_data env Decoding i data end_stream' m4;
          m6 = (if end_stream' then call_complete env Decoding i m5 else m5);
          m7 = clear_call_state DecodeData m6;
          m8 = (if end_stream then clear_call_state EndOfStream m7 else m7)
      in (status, m8))"

definition decode_data_end :: "fm_env \<Rightarrow> bool \<Rightarrow> bool \<Rightarrow> fm \<Rightarrow> fm" where
  "decode_data_end env end_stream terminal_filter_decoded_end_stream m =
     maybe_end_decode env terminal_filter_decoded_end_stream
       (if end_stream then disarm_request_timeout env m else m)"

fun decode_data_loop ::
  "continue_fn \<Rightarrow> fm_env \<Rightarrow> nat \<Rightarrow> bool \<Rightarrow> nat list \<Rightarrow> bool \<Rightarrow> nat option \<Rightarrow> bool \<Rightarrow> fm \<Rightarrow> fm option" where
  "decode_data_loop cont env data trailers_exists_at_start [] end_stream trailers_added_entry terminal m =
     Some (decode_data_end env end_stream terminal m)"
| "decode_data_loop cont env data trailers_exists_at_start (i # next_entries) end_stream trailers_added_entry terminal m =
     (let (stopped, m1) = handle_data_if_stop_all Decoding i data m in
      if stopped then Some m1
      else if m_end_stream (filters Decoding m1 ! i) then Some m1
      else
        (let (status, m2) = decode_data_turn env i data end_stream m1 in
         if m_decoder_filter_chain_aborted m2 then Some m2
         else
           (let added = (\<not> trailers_exists_at_start \<and> request_trailers m2 \<and> trailers_added_entry = None);
                end_stream1 = (if added then False else end_stream);
                trailers_added_entry1 = (if added then Some i else trailers_added_entry);
                terminal1 = (end_stream1 \<and> next_entries = [])
            in do { (go_on, m3) \<leftarrow> common_handle_after_data_callback cont Decoding i status data m2;
                    if \<not> go_on \<and> next_entries \<noteq> [] then Some (decode_data_end env end_stream1 terminal1 m3)
                    else decode_data_loop cont env data trailers_exists_at_start next_entries end_stream1
                           trailers_added_entry1 terminal1 m3 })))"

definition decode_data ::
  "continue_fn \<Rightarrow> fm_env \<Rightarrow> nat option \<Rightarrow> nat \<Rightarrow> bool \<Rightarrow> RpFilterIterationStartState \<Rightarrow> fm \<Rightarrow> fm option" where
  "decode_data cont env flt data end_stream start m =
     (let m1 = cb env ResetIdleTimer m in
      if m_decoder_filter_chain_aborted m1 then Some m1
      else decode_data_loop cont env data (request_trailers m1) (common_decode_prefix flt start m1)
             end_stream None False m1)"

text \<open>\<open>decode_trailers\<close>.\<close>

fun decode_trailers_loop :: "continue_fn \<Rightarrow> fm_env \<Rightarrow> nat list \<Rightarrow> bool \<Rightarrow> fm \<Rightarrow> fm option" where
  "decode_trailers_loop cont env [] terminal_filter_reached m =
     Some (maybe_end_decode env terminal_filter_reached (disarm_request_timeout env m))"
| "decode_trailers_loop cont env (i # next_entries) terminal_filter_reached m =
     (if stopped_all (filters Decoding m ! i) then Some m
      else do {
        (status, m1) \<leftarrow> call_trailers env Decoding i (set_call_state DecodeTrailers m);
        let m2 = clear_call_state DecodeTrailers (set_end_stream Decoding i True m1);
        let status1 = (if m_decoder_filter_chain_aborted m2 then TrailersStopIteration else status);
        (go_on, m3) \<leftarrow> common_handle_after_trailers_callback cont Decoding i status1 m2;
        if \<not> go_on then Some m3 else decode_trailers_loop cont env next_entries (next_entries = []) m3 })"

definition decode_trailers :: "continue_fn \<Rightarrow> fm_env \<Rightarrow> nat option \<Rightarrow> fm \<Rightarrow> fm option" where
  "decode_trailers cont env flt m =
     (if m_decoder_filter_chain_aborted m then Some m
      else decode_trailers_loop cont env (common_decode_prefix flt CanStartFromCurrent m) False m)"

section \<open>Iterating over the encoder filters\<close>

text \<open>\<open>encode_trailers\<close>.\<close>

fun encode_trailers_loop :: "continue_fn \<Rightarrow> fm_env \<Rightarrow> nat list \<Rightarrow> fm \<Rightarrow> fm option" where
  "encode_trailers_loop cont env [] m =
     (let m1 = cb env CbEncodeTrailers m
      in Some (if m_saw_downstream_reset m1 then m1 else maybe_end_encode env True m1))"
| "encode_trailers_loop cont env (i # next_entries) m =
     (if stopped_all (filters Encoding m ! i) then Some m
      else do {
        (status, m1) \<leftarrow> call_trailers env Encoding i (set_call_state EncodeTrailers m);
        let m2 = call_complete env Encoding i m1;
        let m3 = clear_call_state EncodeTrailers (set_end_stream Encoding i True m2);
        (go_on, m4) \<leftarrow> common_handle_after_trailers_callback cont Encoding i status m3;
        if \<not> go_on then Some m4 else encode_trailers_loop cont env next_entries m4 })"

definition encode_trailers :: "continue_fn \<Rightarrow> fm_env \<Rightarrow> nat option \<Rightarrow> fm \<Rightarrow> fm option" where
  "encode_trailers cont env flt m =
     (let m1 = cb env ResetIdleTimer m;
          (entries, m2) = common_encode_prefix env flt True CanStartFromCurrent m1
      in encode_trailers_loop cont env entries m2)"

text \<open>\<open>encode_headers\<close>.\<close>

definition encode_headers_turn :: "fm_env \<Rightarrow> nat \<Rightarrow> bool \<Rightarrow> nat option \<Rightarrow> fm \<Rightarrow> bool \<times> bool \<times> fm" where
  "encode_headers_turn env i end_stream continue_data_entry m =
     (let m1 = set_call_state EncodeHeaders m;
          end_stream' = (end_stream \<and> continue_data_entry = None);
          m2 = set_end_stream Encoding i end_stream' m1;
          m3 = (if end_stream' then set_call_state EndOfStream m2 else m2);
          (status, m4) = call_headers env Encoding i end_stream' m3;
          status1 = (if m_encoder_filter_chain_aborted m4 then HeadersStopIteration else status);
          m5 = clear_call_state EncodeHeaders m4;
          m6 = (if end_stream' then clear_call_state EndOfStream m5 else m5);
          m7 = upd_filter Encoding i (\<lambda>f. f\<lparr> m_processed_headers := True \<rparr>) m6;
          (continue_iteration, end_stream1, m8) = common_handle_after_headers_callback Encoding i status1 end_stream m7;
          m9 = (if end_stream' then call_complete env Encoding i m8 else m8)
      in (continue_iteration, end_stream1, m9))"

fun encode_headers_loop ::
  "continue_fn \<Rightarrow> fm_env \<Rightarrow> nat list \<Rightarrow> bool \<Rightarrow> nat option \<Rightarrow> fm \<Rightarrow> fm option" where
  "encode_headers_loop cont env [] end_stream continue_data_entry m =
     (let modified_end_stream = (end_stream \<and> continue_data_entry = None);
          m1 = cb env (CbEncodeHeaders modified_end_stream) (m\<lparr> m_non_100_response_headers_encoded := True \<rparr>)
      in if m_saw_downstream_reset m1 then Some m1
         else
           (let m2 = maybe_end_encode env modified_end_stream m1
            in if \<not> modified_end_stream then maybe_continue_encoding cont continue_data_entry m2 else Some m2))"
| "encode_headers_loop cont env (i # next_entries) end_stream continue_data_entry m =
     (let end_stream' = (end_stream \<and> continue_data_entry = None);
          (continue_iteration, end_stream1, m1) = encode_headers_turn env i end_stream continue_data_entry m
      in if \<not> continue_iteration then
           (if \<not> end_stream' then maybe_continue_encoding cont continue_data_entry m1 else Some m1)
         else
           encode_headers_loop cont env next_entries end_stream1
             (if end_stream1 \<and> m_buffered_response_data m1 \<noteq> None \<and> continue_data_entry = None then Some i
              else continue_data_entry) m1)"

definition encode_headers :: "continue_fn \<Rightarrow> fm_env \<Rightarrow> nat option \<Rightarrow> bool \<Rightarrow> fm \<Rightarrow> fm option" where
  "encode_headers cont env flt end_stream m =
     (let m1 = disarm_request_timeout env (cb env ResetIdleTimer m);
          (entries, m2) = common_encode_prefix env flt end_stream AlwaysStartFromNext m1
      in encode_headers_loop cont env entries end_stream None m2)"

text \<open>\<open>encode_data\<close>.\<close>

definition encode_data_turn :: "fm_env \<Rightarrow> nat \<Rightarrow> nat \<Rightarrow> bool \<Rightarrow> fm \<Rightarrow> RpFilterDataStatus \<times> fm" where
  "encode_data_turn env i data end_stream m =
     (let m1 = set_call_state EncodeData m;
          m2 = (if end_stream then set_call_state EndOfStream m1 else m1);
          m3 = m2\<lparr> m_latest_data_encoding_filter := record_latest_data_filter i (m_latest_data_encoding_filter m2) \<rparr>;
          end_stream' = (end_stream \<and> \<not> response_trailers m3);
          m4 = set_end_stream Encoding i end_stream' m3;
          (status, m5) = call_data env Encoding i data end_stream' m4;
          status1 = (if m_encoder_filter_chain_aborted m5 then StopIterationNoBuffer else status);
          m6 = (if end_stream' then call_complete env Encoding i m5 else m5);
          m7 = clear_call_state EncodeData m6;
          m8 = (if end_stream then clear_call_state EndOfStream m7 else m7)
      in (status1, m8))"

fun encode_data_loop ::
  "continue_fn \<Rightarrow> fm_env \<Rightarrow> nat \<Rightarrow> bool \<Rightarrow> nat list \<Rightarrow> bool \<Rightarrow> nat option \<Rightarrow> fm \<Rightarrow> fm option" where
  "encode_data_loop cont env data trailers_exists_at_start [] end_stream trailers_added_entry m =
     (let modified_end_stream = (end_stream \<and> trailers_added_entry = None);
          m1 = cb env (CbEncodeData data modified_end_stream) m
      in if m_saw_downstream_reset m1 then Some m1
         else
           (let m2 = maybe_end_encode env modified_end_stream m1
            in case trailers_added_entry of
                 None \<Rightarrow> Some m2
               | Some i \<Rightarrow> encode_trailers cont env (Some i) m2))"
| "encode_data_loop cont env data trailers_exists_at_start (i # next_entries) end_stream trailers_added_entry m =
     (let (stopped, m1) = handle_data_if_stop_all Encoding i data m in
      if stopped then Some m1
      else if m_end_stream (filters Encoding m1 ! i) then Some m1
      else
        (let (status, m2) = encode_data_turn env i data end_stream m1;
             trailers_added_entry1 =
               (if \<not> trailers_exists_at_start \<and> response_trailers m2 \<and> trailers_added_entry = None then Some i
                else trailers_added_entry)
         in do { (go_on, m3) \<leftarrow> common_handle_after_data_callback cont Encoding i status data m2;
                 if \<not> go_on then Some m3
                 else encode_data_loop cont env data trailers_exists_at_start next_entries end_stream
                        trailers_added_entry1 m3 }))"

definition encode_data ::
  "continue_fn \<Rightarrow> fm_env \<Rightarrow> nat option \<Rightarrow> nat \<Rightarrow> bool \<Rightarrow> RpFilterIterationStartState \<Rightarrow> fm \<Rightarrow> fm option" where
  "encode_data cont env flt data end_stream start m =
     (let m1 = cb env ResetIdleTimer m;
          (entries, m2) = common_encode_prefix env flt end_stream start m1
      in encode_data_loop cont env data (response_trailers m2) entries end_stream None m2)"

section \<open>Continuing a stopped filter\<close>

text \<open>\<open>do_headers\<close>, \<open>do_data\<close> and \<open>do_trailers\<close> of the wrappers. The encoder wrapper does not set its
  \<open>do_trailers\<close>.\<close>

definition do_headers :: "continue_fn \<Rightarrow> fm_env \<Rightarrow> side \<Rightarrow> nat \<Rightarrow> bool \<Rightarrow> fm \<Rightarrow> fm option" where
  "do_headers cont env s i end_stream m =
     (case s of
        Decoding \<Rightarrow> if request_headers m = None then Some m else decode_headers cont env (Some i) end_stream m
      | Encoding \<Rightarrow> if response_headers m = None then Some m else encode_headers cont env (Some i) end_stream m)"

definition do_data :: "continue_fn \<Rightarrow> fm_env \<Rightarrow> side \<Rightarrow> nat \<Rightarrow> nat \<Rightarrow> bool \<Rightarrow> fm \<Rightarrow> fm option" where
  "do_data cont env s i data end_stream m =
     (case s of
        Decoding \<Rightarrow> decode_data cont env (Some i) data end_stream CanStartFromCurrent m
      | Encoding \<Rightarrow> encode_data cont env (Some i) data end_stream CanStartFromCurrent m)"

definition do_trailers :: "continue_fn \<Rightarrow> fm_env \<Rightarrow> side \<Rightarrow> nat \<Rightarrow> fm \<Rightarrow> fm option" where
  "do_trailers cont env s i m =
     (case s of Decoding \<Rightarrow> decode_trailers cont env (Some i) m | Encoding \<Rightarrow> None)"

definition common_continue_step :: "continue_fn \<Rightarrow> fm_env \<Rightarrow> side \<Rightarrow> nat \<Rightarrow> fm \<Rightarrow> fm option" where
  "common_continue_step cont env s i m =
     (if \<not> can_continue s m then Some m
      else
        (let m1 = (if stopped_all (filters s m ! i)
                   then upd_filter s i (\<lambda>f. f\<lparr> m_iterate_from_current_filter := True \<rparr>) m else m)
         in do {
           m2 \<leftarrow> allow_iteration s i m1;
           m3 \<leftarrow> (if \<not> m_headers_continued (filters s m2 ! i) then
                    (let m3 = upd_filter s i (\<lambda>f. f\<lparr> m_headers_continued := True \<rparr>) m2
                     in do_headers cont env s i
                          (observed_end_stream s m3 \<and> buffered_data s m3 = None \<and> \<not> has_trailers s m3) m3)
                  else Some m2);
           let had_trailers_before_data = has_trailers s m3;
           m4 \<leftarrow> (case buffered_data s m3 of
                    None \<Rightarrow> Some m3
                  | Some data \<Rightarrow> do_data cont env s i data (observed_end_stream s m3 \<and> \<not> had_trailers_before_data) m3);
           m5 \<leftarrow> (if had_trailers_before_data then do_trailers cont env s i m4 else Some m4);
           Some (upd_filter s i (\<lambda>f. f\<lparr> m_iterate_from_current_filter := False \<rparr>) m5) }))"

fun common_continue :: "nat \<Rightarrow> fm_env \<Rightarrow> continue_fn" where
  "common_continue 0 env s i m = None"
| "common_continue (Suc fuel) env s i m = common_continue_step (common_continue fuel env) env s i m"

section \<open>The manager's interface\<close>

definition rp_filter_manager_decode_headers :: "nat \<Rightarrow> fm_env \<Rightarrow> bool \<Rightarrow> fm \<Rightarrow> fm option" where
  "rp_filter_manager_decode_headers fuel env end_stream m =
     (if request_headers m = None then Some m
      else decode_headers (common_continue fuel env) env None end_stream (m\<lparr> m_observed_decode_end_stream := end_stream \<rparr>))"

definition rp_filter_manager_decode_data :: "nat \<Rightarrow> fm_env \<Rightarrow> nat \<Rightarrow> bool \<Rightarrow> fm \<Rightarrow> fm option" where
  "rp_filter_manager_decode_data fuel env data end_stream m =
     decode_data (common_continue fuel env) env None data end_stream CanStartFromCurrent
       (m\<lparr> m_observed_decode_end_stream := end_stream \<rparr>)"

definition rp_filter_manager_decode_trailers :: "nat \<Rightarrow> fm_env \<Rightarrow> fm \<Rightarrow> fm option" where
  "rp_filter_manager_decode_trailers fuel env m = decode_trailers (common_continue fuel env) env None m"

definition rp_filter_manager_encode_headers :: "nat \<Rightarrow> fm_env \<Rightarrow> bool \<Rightarrow> fm \<Rightarrow> fm option" where
  "rp_filter_manager_encode_headers fuel env end_stream m =
     (if response_headers m = None then Some m
      else encode_headers (common_continue fuel env) env None end_stream (m\<lparr> m_observed_encode_end_stream := end_stream \<rparr>))"

definition rp_filter_manager_encode_data :: "nat \<Rightarrow> fm_env \<Rightarrow> nat \<Rightarrow> bool \<Rightarrow> fm \<Rightarrow> fm option" where
  "rp_filter_manager_encode_data fuel env data end_stream m =
     encode_data (common_continue fuel env) env None data end_stream CanStartFromCurrent
       (m\<lparr> m_observed_encode_end_stream := end_stream \<rparr>)"

definition is_terminal_decoder_filter :: "nat \<Rightarrow> fm \<Rightarrow> bool" where
  "is_terminal_decoder_filter i m = (m_decoder_filters m \<noteq> [] \<and> i = length (m_decoder_filters m) - 1)"

definition call_state_has :: "guint32 \<Rightarrow> fm \<Rightarrow> bool" where
  "call_state_has flag m = (m_filter_call_state m AND flag \<noteq> 0)"

definition rp_filter_manager_add_decoded_data :: "nat \<Rightarrow> fm_env \<Rightarrow> nat \<Rightarrow> nat \<Rightarrow> bool \<Rightarrow> fm \<Rightarrow> fm option" where
  "rp_filter_manager_add_decoded_data fuel env i data streaming m =
     (if m_filter_call_state m = 0 \<or> call_state_has DecodeHeaders m \<or> call_state_has DecodeData m \<or>
         (call_state_has DecodeTrailers m \<and> \<not> can_iterate (filters Decoding m ! i))
      then Some (common_handle_buffer_data Decoding data (m\<lparr> m_decoder_filters_streaming := streaming \<rparr>))
      else if call_state_has DecodeTrailers m
      then decode_data (common_continue fuel env) env (Some i) data False AlwaysStartFromNext m
      else Some m)"

definition rp_filter_manager_add_encoded_data :: "nat \<Rightarrow> fm_env \<Rightarrow> nat \<Rightarrow> nat \<Rightarrow> bool \<Rightarrow> fm \<Rightarrow> fm option" where
  "rp_filter_manager_add_encoded_data fuel env i data streaming m =
     (if m_filter_call_state m = 0 \<or> call_state_has EncodeHeaders m \<or> call_state_has EncodeData m \<or>
         (call_state_has EncodeTrailers m \<and> \<not> can_iterate (filters Encoding m ! i))
      then Some (common_handle_buffer_data Encoding data (m\<lparr> m_encoder_filters_streaming := streaming \<rparr>))
      else if call_state_has EncodeTrailers m
      then encode_data (common_continue fuel env) env (Some i) data False AlwaysStartFromNext m
      else Some m)"

definition request_headers_initialized :: "fm \<Rightarrow> fm option" where
  "request_headers_initialized m =
     (case request_headers m of
        None \<Rightarrow> None
      | Some hs \<Rightarrow>
          Some (case hs (Method_name RpHeaderValues) of
                  None \<Rightarrow> m
                | Some v \<Rightarrow> if g_ascii_strcaseeq v (Head MethodValues) then m\<lparr> m_is_head_request := True \<rparr> else m))"

definition set_local_complete :: "fm \<Rightarrow> fm" where
  "set_local_complete m = m\<lparr> m_observed_encode_end_stream := True, m_decoder_filter_chain_aborted := True \<rparr>"

definition on_downstream_reset :: "fm \<Rightarrow> fm" where
  "on_downstream_reset m = m\<lparr> m_saw_downstream_reset := True \<rparr>"

definition abort_current_chain :: "fm \<Rightarrow> fm" where
  "abort_current_chain m =
     (if call_state_has IsDecodingMask m then m\<lparr> m_decoder_filter_chain_aborted := True \<rparr>
      else if call_state_has IsEncodingMask m then m\<lparr> m_encoder_filter_chain_aborted := True \<rparr>
      else m)"

definition send_go_away_and_close :: "fm_env \<Rightarrow> fm \<Rightarrow> fm" where
  "send_go_away_and_close env m = cb env CbSendGoAwayAndClose (abort_current_chain m)"

definition reset_stream :: "fm_env \<Rightarrow> nat \<Rightarrow> fm \<Rightarrow> fm" where
  "reset_stream env reason m = cb env (CbResetStream reason) (abort_current_chain m)"

text \<open>\<open>rp_filter_manager_maybe_end_encode_\<close> calls \<open>maybe_end_decode\<close>.\<close>

definition maybe_end_encode_public :: "fm_env \<Rightarrow> bool \<Rightarrow> fm \<Rightarrow> fm" where
  "maybe_end_encode_public env end_stream m = maybe_end_decode env end_stream m"

fun each_callback :: "fm_env \<Rightarrow> (nat \<Rightarrow> cb_call) \<Rightarrow> nat list \<Rightarrow> fm \<Rightarrow> fm" where
  "each_callback env ev [] m = m"
| "each_callback env ev (c # cs) m = each_callback env ev cs (cb env (ev c) m)"

definition call_high_watermark_callbacks :: "fm_env \<Rightarrow> fm \<Rightarrow> fm" where
  "call_high_watermark_callbacks env m =
     each_callback env CbHighWatermark (m_watermark_callbacks m)
       (m\<lparr> m_high_watermark_count := m_high_watermark_count m + 1 \<rparr>)"

definition call_low_watermark_callbacks :: "fm_env \<Rightarrow> fm \<Rightarrow> fm" where
  "call_low_watermark_callbacks env m =
     each_callback env CbLowWatermark (m_watermark_callbacks m)
       (m\<lparr> m_high_watermark_count := m_high_watermark_count m - 1 \<rparr>)"

section \<open>What a filter may ask for\<close>

definition stop_decoding_if_non_terminal_filter_encoded_end_stream :: "nat \<Rightarrow> bool \<Rightarrow> fm \<Rightarrow> fm" where
  "stop_decoding_if_non_terminal_filter_encoded_end_stream i encoded_end_stream m =
     (if encoded_end_stream \<and> \<not> is_terminal_decoder_filter i m \<and> \<not> m_decoder_filter_chain_complete m
      then m\<lparr> m_decoder_filter_chain_aborted := True \<rparr> else m)"

definition encode_headers_i :: "nat \<Rightarrow> fm_env \<Rightarrow> nat \<Rightarrow> headers \<Rightarrow> bool \<Rightarrow> fm \<Rightarrow> fm option" where
  "encode_headers_i fuel env i hs end_stream m =
     encode_headers (common_continue fuel env) env None end_stream
       ((stop_decoding_if_non_terminal_filter_encoded_end_stream i end_stream m)\<lparr> response_headers := Some hs \<rparr>)"

definition encode_data_i :: "nat \<Rightarrow> fm_env \<Rightarrow> nat \<Rightarrow> nat \<Rightarrow> bool \<Rightarrow> fm \<Rightarrow> fm option" where
  "encode_data_i fuel env i data end_stream m =
     encode_data (common_continue fuel env) env None data end_stream CanStartFromCurrent
       (stop_decoding_if_non_terminal_filter_encoded_end_stream i end_stream m)"

definition encode_trailers_i :: "nat \<Rightarrow> fm_env \<Rightarrow> nat \<Rightarrow> fm \<Rightarrow> fm option" where
  "encode_trailers_i fuel env i m =
     encode_trailers (common_continue fuel env) env None
       ((stop_decoding_if_non_terminal_filter_encoded_end_stream i True m)\<lparr> response_trailers := True \<rparr>)"

definition continue_decoding_i :: "nat \<Rightarrow> fm_env \<Rightarrow> nat \<Rightarrow> fm \<Rightarrow> fm option" where
  "continue_decoding_i fuel env i m = common_continue fuel env Decoding i m"

definition continue_encoding_i :: "nat \<Rightarrow> fm_env \<Rightarrow> nat \<Rightarrow> fm \<Rightarrow> fm option" where
  "continue_encoding_i fuel env i m = common_continue fuel env Encoding i m"

definition inject_decoded_data_to_filter_chain_i :: "nat \<Rightarrow> fm_env \<Rightarrow> nat \<Rightarrow> nat \<Rightarrow> bool \<Rightarrow> fm \<Rightarrow> fm option" where
  "inject_decoded_data_to_filter_chain_i fuel env i data end_stream m =
     do { m1 \<leftarrow> (if \<not> m_headers_continued (filters Decoding m ! i)
                  then do_headers (common_continue fuel env) env Decoding i False
                         (upd_filter Decoding i (\<lambda>f. f\<lparr> m_headers_continued := True \<rparr>) m)
                  else Some m);
          decode_data (common_continue fuel env) env (Some i) data end_stream CanStartFromCurrent m1 }"

definition inject_encoded_data_to_filter_chain_i :: "nat \<Rightarrow> fm_env \<Rightarrow> nat \<Rightarrow> nat \<Rightarrow> bool \<Rightarrow> fm \<Rightarrow> fm option" where
  "inject_encoded_data_to_filter_chain_i fuel env i data end_stream m =
     do { m1 \<leftarrow> (if \<not> m_headers_continued (filters Encoding m ! i)
                  then do_headers (common_continue fuel env) env Encoding i False
                         (upd_filter Encoding i (\<lambda>f. f\<lparr> m_headers_continued := True \<rparr>) m)
                  else Some m);
          encode_data (common_continue fuel env) env (Some i) data end_stream CanStartFromCurrent m1 }"

text \<open>A watermark callback that is added late is told of every high watermark it missed.\<close>

definition add_downstream_watermark_callbacks_i :: "fm_env \<Rightarrow> nat \<Rightarrow> fm \<Rightarrow> fm" where
  "add_downstream_watermark_callbacks_i env c m =
     each_callback env CbHighWatermark (replicate (unat (m_high_watermark_count m)) c)
       (m\<lparr> m_watermark_callbacks := m_watermark_callbacks m @ [c] \<rparr>)"

definition remove_downstream_watermark_callbacks_i :: "nat \<Rightarrow> fm \<Rightarrow> fm" where
  "remove_downstream_watermark_callbacks_i c m = m\<lparr> m_watermark_callbacks := remove1 c (m_watermark_callbacks m) \<rparr>"

end
