(* ===== verification/Filter_Manager_Inv.thy ===== *)
theory Filter_Manager_Inv
  imports Filter_Manager
begin

text \<open>
  The request side of the filter chain for filters that keep to their interface: they decide by
  their status and may change the contents of buffers, and leave the manager alone while they are
  called. For them every filter gets the headers once and in the order of the chain, gets data and
  trailers only after the headers, no assertion of the iteration fails, and the recursion between
  the iterations and \<open>common_continue\<close> ends.
\<close>

section \<open>The contract of filters\<close>

locale passive_filters =
  fixes env :: fm_env
  assumes quiet_headers: "\<exists>b. snd (filter_headers env s i e m) = m\<lparr> bufs := b \<rparr>"
    and quiet_data: "\<exists>b. snd (filter_data env s i data e m) = m\<lparr> bufs := b \<rparr>"
    and quiet_trailers: "filter_trailers env s i = Some f \<Longrightarrow> \<exists>b. snd (f m) = m\<lparr> bufs := b \<rparr>"
    and quiet_complete: "\<exists>b. filter_complete env s i m = m\<lparr> bufs := b \<rparr>"
    and quiet_cb: "\<exists>b. cb env c m = m\<lparr> bufs := b \<rparr>"
    and end_stream_kept: "fst (filter_headers env s i e m) = ContinueAndDontEndStream \<Longrightarrow> e"

section \<open>The order of calls\<close>

text \<open>\<open>trace r cs\<close> follows the calls to decoder filters from the state in which the first \<open>r\<close> filters
  have got the headers: headers go to the next filter only, everything else to filters that have
  them.\<close>

fun trace :: "nat \<Rightarrow> filter_call list \<Rightarrow> nat option" where
  "trace r [] = Some r"
| "trace r (CallHeaders Decoding i e # cs) = (if i = r then trace (Suc r) cs else None)"
| "trace r (CallData Decoding i e # cs) = (if i < r then trace r cs else None)"
| "trace r (CallTrailers Decoding i # cs) = (if i < r then trace r cs else None)"
| "trace r (CallComplete Decoding i # cs) = (if i < r then trace r cs else None)"
| "trace r (_ # cs) = trace r cs"

lemma trace_append: "trace r (xs @ ys) = Option.bind (trace r xs) (\<lambda>r'. trace r' ys)"
  by (induction r xs rule: trace.induct) simp_all

section \<open>The invariant\<close>

abbreviation dec :: "fm \<Rightarrow> nat \<Rightarrow> filter_base" where
  "dec m j \<equiv> m_decoder_filters m ! j"

abbreviation n_dec :: "fm \<Rightarrow> nat" where
  "n_dec m \<equiv> length (m_decoder_filters m)"

text \<open>\<open>chain_at env r m\<close>: the headers have reached the first \<open>r\<close> decoder filters.\<close>

definition chain_at :: "fm_env \<Rightarrow> nat \<Rightarrow> fm \<Rightarrow> bool" where
  "chain_at env r m =
     (r \<le> n_dec m \<and>
      (\<forall>j < n_dec m. m_processed_headers (dec m j) = (j < r)) \<and>
      (\<forall>j. Suc j < r \<longrightarrow> m_headers_continued (dec m j)) \<and>
      (\<forall>j < r. m_iteration_state (dec m j) = IterContinue \<longrightarrow> m_headers_continued (dec m j)) \<and>
      (\<forall>j < n_dec m. r \<le> j \<longrightarrow> dec m j = filter_base_init) \<and>
      (m_decoder_filter_chain_complete m \<longrightarrow> r = n_dec m) \<and>
      (0 < r \<longrightarrow> request_headers m \<noteq> None) \<and>
      (request_trailers m \<longrightarrow> (\<forall>i < n_dec m. filter_trailers env Decoding i \<noteq> None)) \<and>
      trace 0 (fm_calls m) = Some r)"

text \<open>Between calls the last filter that has the headers has not passed them on, unless it is the
  last of the chain.\<close>

definition settled :: "nat \<Rightarrow> fm \<Rightarrow> bool" where
  "settled r m = (0 < r \<longrightarrow> r < n_dec m \<longrightarrow> \<not> m_headers_continued (dec m (r - 1)))"

definition chain_ok :: "fm_env \<Rightarrow> fm \<Rightarrow> bool" where
  "chain_ok env m = (\<exists>r. chain_at env r m \<and> settled r m)"

text \<open>\<open>frame lo m m'\<close>: what an iteration that starts at filter \<open>lo\<close> keeps.\<close>

definition frame :: "nat \<Rightarrow> fm \<Rightarrow> fm \<Rightarrow> bool" where
  "frame lo m m' =
     (n_dec m' = n_dec m \<and> (\<forall>j < lo. dec m' j = dec m j) \<and>
      (\<forall>j < n_dec m. m_processed_headers (dec m j) \<longrightarrow> m_processed_headers (dec m' j)) \<and>
      request_headers m' = request_headers m \<and> request_trailers m' = request_trailers m \<and>
      m_observed_decode_end_stream m' = m_observed_decode_end_stream m \<and>
      m_encoder_filters m' = m_encoder_filters m \<and>
      (m_buffered_request_data m \<noteq> None \<longrightarrow> m_buffered_request_data m' \<noteq> None) \<and>
      (m_decoder_filter_chain_complete m \<longrightarrow> m_decoder_filter_chain_complete m'))"

lemma frame_refl [simp]: "frame lo m m"
  by (simp add: frame_def)

lemma frame_trans: "frame lo m1 m2 \<Longrightarrow> frame lo m2 m3 \<Longrightarrow> frame lo m1 m3"
  by (auto simp: frame_def)

lemma frame_mono: "frame hi m m' \<Longrightarrow> lo \<le> hi \<Longrightarrow> frame lo m m'"
  by (auto simp: frame_def)

lemma frameD:
  assumes "frame lo m m'"
  shows "n_dec m' = n_dec m" "j < lo \<Longrightarrow> dec m' j = dec m j" "request_headers m' = request_headers m"
    "request_trailers m' = request_trailers m" "m_observed_decode_end_stream m' = m_observed_decode_end_stream m"
    "m_buffered_request_data m \<noteq> None \<Longrightarrow> m_buffered_request_data m' \<noteq> None"
    "j < n_dec m \<Longrightarrow> m_processed_headers (dec m j) \<Longrightarrow> m_processed_headers (dec m' j)"
  using assms by (auto simp: frame_def)

lemma chain_at_unique: "chain_at env r m \<Longrightarrow> chain_at env r' m \<Longrightarrow> r' = r"
  by (simp add: chain_at_def)

text \<open>Changes to other parts of the manager.\<close>

lemma chain_at_upd [simp]:
  "chain_at env r (m\<lparr> bufs := v1 \<rparr>) = chain_at env r m"
  "chain_at env r (m\<lparr> next_buf := v2 \<rparr>) = chain_at env r m"
  "chain_at env r (m\<lparr> m_buffered_request_data := v3 \<rparr>) = chain_at env r m"
  "chain_at env r (m\<lparr> m_filter_call_state := v4 \<rparr>) = chain_at env r m"
  "chain_at env r (m\<lparr> m_decoder_filter_chain_aborted := v5 \<rparr>) = chain_at env r m"
  "chain_at env r (m\<lparr> m_decoder_filters_streaming := v5 \<rparr>) = chain_at env r m"
  "chain_at env r (m\<lparr> m_latest_data_decoding_filter := v6 \<rparr>) = chain_at env r m"
  "chain_at env r (m\<lparr> m_observed_decode_end_stream := v5 \<rparr>) = chain_at env r m"
  by (simp_all add: chain_at_def)

lemma settled_upd [simp]:
  "settled r (m\<lparr> bufs := v1 \<rparr>) = settled r m"
  "settled r (m\<lparr> next_buf := v2 \<rparr>) = settled r m"
  "settled r (m\<lparr> m_buffered_request_data := v3 \<rparr>) = settled r m"
  "settled r (m\<lparr> m_filter_call_state := v4 \<rparr>) = settled r m"
  "settled r (m\<lparr> m_decoder_filter_chain_aborted := v5 \<rparr>) = settled r m"
  "settled r (m\<lparr> m_decoder_filters_streaming := v5 \<rparr>) = settled r m"
  "settled r (m\<lparr> m_latest_data_decoding_filter := v6 \<rparr>) = settled r m"
  "settled r (m\<lparr> m_observed_decode_end_stream := v5 \<rparr>) = settled r m"
  "settled r (m\<lparr> m_decoder_filter_chain_complete := v5 \<rparr>) = settled r m"
  "settled r (m\<lparr> fm_calls := v7 \<rparr>) = settled r m"
  by (simp_all add: settled_def)

lemma frame_upd [simp]:
  "frame lo m (m'\<lparr> bufs := v1 \<rparr>) = frame lo m m'"
  "frame lo m (m'\<lparr> next_buf := v2 \<rparr>) = frame lo m m'"
  "frame lo m (m'\<lparr> m_filter_call_state := v4 \<rparr>) = frame lo m m'"
  "frame lo m (m'\<lparr> m_decoder_filter_chain_aborted := v5 \<rparr>) = frame lo m m'"
  "frame lo m (m'\<lparr> m_decoder_filters_streaming := v5 \<rparr>) = frame lo m m'"
  "frame lo m (m'\<lparr> m_latest_data_decoding_filter := v6 \<rparr>) = frame lo m m'"
  "frame lo m (m'\<lparr> fm_calls := v7 \<rparr>) = frame lo m m'"
  by (simp_all add: frame_def)

lemma filters_Decoding [simp]: "filters Decoding m = m_decoder_filters m"
  by (simp add: filters_def)

lemma upd_filter_Decoding [simp]:
  "upd_filter Decoding i f m = m\<lparr> m_decoder_filters := (m_decoder_filters m)[i := f (dec m i)] \<rparr>"
  by (simp add: upd_filter_def)

lemma side_Decoding [simp]:
  "buffered_data Decoding m = m_buffered_request_data m"
  "observed_end_stream Decoding m = m_observed_decode_end_stream m"
  "has_trailers Decoding m = request_trailers m"
  "can_continue Decoding m = (\<not> m_decoder_filter_chain_aborted m)"
  "set_streaming Decoding v m = m\<lparr> m_decoder_filters_streaming := v \<rparr>"
  by (simp_all add: buffered_data_def observed_end_stream_def has_trailers_def can_continue_def set_streaming_def)

text \<open>What may happen to a filter that has the headers: anything that does not forget that it passed
  them on, and does not let it go on before.\<close>

lemma chain_at_update:
  assumes "chain_at env r m" "i < r"
    and "m_processed_headers f"
    and "m_headers_continued (dec m i) \<Longrightarrow> m_headers_continued f"
    and "m_iteration_state f = IterContinue \<Longrightarrow> m_headers_continued f"
  shows "chain_at env r (m\<lparr> m_decoder_filters := (m_decoder_filters m)[i := f] \<rparr>)"
  using assms by (auto simp: chain_at_def nth_list_update)

lemma settled_update:
  assumes "settled r m" "i < r" "m_headers_continued f = m_headers_continued (dec m i)"
  shows "settled r (m\<lparr> m_decoder_filters := (m_decoder_filters m)[i := f] \<rparr>)"
  using assms by (auto simp: settled_def nth_list_update)

lemma chain_at_call:
  assumes "chain_at env r m" "trace r cs = Some r"
  shows "chain_at env r (m\<lparr> fm_calls := fm_calls m @ cs \<rparr>)"
  using assms by (simp add: chain_at_def trace_append)

lemma handle_buffer_frame:
  "\<exists>b nb br. common_handle_buffer_data Decoding data m =
     m\<lparr> bufs := b, next_buf := nb, m_buffered_request_data := Some br \<rparr>"
proof (cases "m_buffered_request_data m")
  case None
  have "common_handle_buffer_data Decoding data m = m\<lparr> bufs := bufs (common_handle_buffer_data Decoding data m),
      next_buf := Suc (next_buf m), m_buffered_request_data := Some (next_buf m) \<rparr>"
    using None by (simp add: common_handle_buffer_data_def create_buffer_def evbuffer_add_buffer_def Let_def)
  then show ?thesis by blast
next
  case (Some a)
  have "common_handle_buffer_data Decoding data m = m\<lparr> bufs := bufs (common_handle_buffer_data Decoding data m),
      next_buf := next_buf m, m_buffered_request_data := Some a \<rparr>"
    using Some by (simp add: common_handle_buffer_data_def create_buffer_def evbuffer_add_buffer_def)
  then show ?thesis by blast
qed

text \<open>\<open>stays\<close>: a step of an iteration at filter \<open>lo\<close> or later that keeps the chain where it is.\<close>

lemma chain_handle_buffer [simp]:
  "chain_at env r (common_handle_buffer_data Decoding data m) = chain_at env r m"
  "settled r (common_handle_buffer_data Decoding data m) = settled r m"
  "frame lo m' m \<Longrightarrow> frame lo m' (common_handle_buffer_data Decoding data m)"
  "m_decoder_filters (common_handle_buffer_data Decoding data m) = m_decoder_filters m"
  "m_buffered_request_data (common_handle_buffer_data Decoding data m) \<noteq> None"
  "m_decoder_filter_chain_aborted (common_handle_buffer_data Decoding data m) = m_decoder_filter_chain_aborted m"
  "request_trailers (common_handle_buffer_data Decoding data m) = request_trailers m"
  "m_observed_decode_end_stream (common_handle_buffer_data Decoding data m) = m_observed_decode_end_stream m"
  using handle_buffer_frame [of data m] by (auto simp: frame_def)

lemma chain_create_buffer [simp]:
  "chain_at env r (snd (create_buffer Decoding m)) = chain_at env r m"
  "settled r (snd (create_buffer Decoding m)) = settled r m"
  "frame lo m' m \<Longrightarrow> frame lo m' (snd (create_buffer Decoding m))"
  by (simp_all add: create_buffer_def Let_def frame_def)

lemma chain_call_state [simp]:
  "chain_at env r (set_call_state v m) = chain_at env r m" "settled r (set_call_state v m) = settled r m"
  "chain_at env r (clear_call_state v m) = chain_at env r m" "settled r (clear_call_state v m) = settled r m"
  by (simp_all add: set_call_state_def clear_call_state_def)

context passive_filters
begin

lemma cb_chain [simp]:
  "chain_at env r (cb env c m) = chain_at env r m" "settled r (cb env c m) = settled r m"
  "frame lo m' (cb env c m) = frame lo m' m" "m_decoder_filters (cb env c m) = m_decoder_filters m"
  "m_decoder_filter_chain_aborted (cb env c m) = m_decoder_filter_chain_aborted m"
  "request_trailers (cb env c m) = request_trailers m"
  "m_observed_decode_end_stream (cb env c m) = m_observed_decode_end_stream m"
  "m_buffered_request_data (cb env c m) = m_buffered_request_data m"
  using quiet_cb [of c m] by (auto simp: frame_def)

lemma check_and_close_chain [simp]:
  "chain_at env r (check_and_close_stream_if_fully_closed env m) = chain_at env r m"
  "settled r (check_and_close_stream_if_fully_closed env m) = settled r m"
  "frame lo m' (check_and_close_stream_if_fully_closed env m) = frame lo m' m"
  by (simp_all add: check_and_close_stream_if_fully_closed_def Let_def split: option.split)

lemma maybe_end_decode_ok:
  assumes "chain_at env r m" "t \<Longrightarrow> r = n_dec m"
  shows "chain_at env r (maybe_end_decode env t m)" "settled r (maybe_end_decode env t m) = settled r m"
    "frame lo m' m \<Longrightarrow> frame lo m' (maybe_end_decode env t m)"
proof -
  have "chain_at env r (m\<lparr> m_decoder_filter_chain_complete := True \<rparr>)" if t
    using assms that by (simp add: chain_at_def)
  moreover have "frame lo m' m \<Longrightarrow> frame lo m' (m\<lparr> m_decoder_filter_chain_complete := True \<rparr>)"
    by (simp add: frame_def)
  ultimately show "chain_at env r (maybe_end_decode env t m)" "settled r (maybe_end_decode env t m) = settled r m"
    "frame lo m' m \<Longrightarrow> frame lo m' (maybe_end_decode env t m)"
    using assms(1) by (simp_all add: maybe_end_decode_def Let_def)
qed

section \<open>Headers\<close>

lemma chain_at_advance:
  assumes c: "chain_at env i m" and i: "i < n_dec m" and prev: "0 < i \<Longrightarrow> m_headers_continued (dec m (i - 1))"
    and rh: "request_headers m \<noteq> None"
    and m1: "m_decoder_filters m1 = (m_decoder_filters m)[i := g]" "request_headers m1 = request_headers m"
      "request_trailers m1 = request_trailers m"
      "m_decoder_filter_chain_complete m1 = m_decoder_filter_chain_complete m"
      "fm_calls m1 = fm_calls m @ CallHeaders Decoding i e # cs" "trace (Suc i) cs = Some (Suc i)"
      "m_observed_decode_end_stream m1 = m_observed_decode_end_stream m" "m_encoder_filters m1 = m_encoder_filters m"
      "m_buffered_request_data m1 = m_buffered_request_data m"
    and g: "m_processed_headers g" "m_iteration_state g = IterContinue \<Longrightarrow> m_headers_continued g"
  shows "chain_at env (Suc i) m1" "frame i m m1"
proof -
  have cont: "m_headers_continued (dec m j)" if "j < i" for j
  proof (cases "Suc j = i")
    case True
    then show ?thesis using prev by auto
  next
    case False
    then show ?thesis using that c by (simp add: chain_at_def)
  qed
  have c': "\<forall>j < n_dec m. m_processed_headers (dec m j) = (j < i)"
      "\<forall>j < n_dec m. i \<le> j \<longrightarrow> dec m j = filter_base_init" "\<not> m_decoder_filter_chain_complete m"
      "request_trailers m \<longrightarrow> (\<forall>i < n_dec m. filter_trailers env Decoding i \<noteq> None)" "trace 0 (fm_calls m) = Some i"
    using c i by (auto simp: chain_at_def)
  show "chain_at env (Suc i) m1"
    unfolding chain_at_def using c' cont i rh m1 g by (auto simp: nth_list_update less_Suc_eq trace_append)
  show "frame i m m1" using i m1 g c by (auto simp: frame_def nth_list_update chain_at_def)
qed

lemma headers_turn_ok:
  assumes c: "chain_at env i m" and i: "i < n_dec m" and prev: "0 < i \<Longrightarrow> m_headers_continued (dec m (i - 1))"
    and rh: "request_headers m \<noteq> None"
  shows "\<exists>c e' m1. decode_headers_turn env i e cde m = Some (c, e', m1) \<and> chain_at env (Suc i) m1 \<and> frame i m m1 \<and>
     (c = m_headers_continued (dec m1 i)) \<and> (m_decoder_filter_chain_aborted m1 \<longrightarrow> \<not> c)"
proof -
  define e2 where "e2 = (e \<and> cde = None)"
  define m3 where "m3 = (if e2 then set_call_state EndOfStream else id)
     (set_end_stream Decoding i e2 (set_call_state DecodeHeaders m))"
  define mc where "mc = m3\<lparr> fm_calls := fm_calls m3 @ [CallHeaders Decoding i e2] \<rparr>"
  obtain st b where q: "filter_headers env Decoding i e2 mc = (st, mc\<lparr> bufs := b \<rparr>)"
    using quiet_headers [of Decoding i e2 mc] by (metis prod.collapse)
  define m6 where "m6 = (if e2 then clear_call_state EndOfStream else id) (clear_call_state DecodeHeaders (mc\<lparr> bufs := b \<rparr>))"
  have f6: "m_decoder_filters m6 = (m_decoder_filters m)[i := filter_base_init\<lparr> m_end_stream := e2 \<rparr>]"
    "m_decoder_filter_chain_aborted m6 = m_decoder_filter_chain_aborted m" "request_headers m6 = request_headers m"
    "request_trailers m6 = request_trailers m" "m_decoder_filter_chain_complete m6 = m_decoder_filter_chain_complete m"
    "fm_calls m6 = fm_calls m @ [CallHeaders Decoding i e2]"
    "m_observed_decode_end_stream m6 = m_observed_decode_end_stream m" "m_encoder_filters m6 = m_encoder_filters m"
    "m_buffered_request_data m6 = m_buffered_request_data m"
    using c i by (auto simp: m6_def mc_def m3_def set_call_state_def clear_call_state_def chain_at_def)
  define st1 where "st1 = (if m_decoder_filter_chain_aborted m6 then HeadersStopIteration else st)"
  have legal: "\<not> (st1 = ContinueAndDontEndStream \<and> \<not> e2)"
    using end_stream_kept [of Decoding i e2 mc] q by (auto simp: st1_def)
  define m7 where "m7 = upd_filter Decoding i (\<lambda>f. f\<lparr> m_processed_headers := True \<rparr>) m6"
  obtain cont e' m8 where h: "common_handle_after_headers_callback Decoding i st1 e m7 = (cont, e', m8)"
    using prod_cases3 by blast
  define g where "g = dec m8 i"
  have m8: "m8 = m6\<lparr> m_decoder_filters := (m_decoder_filters m)[i := g] \<rparr>" "m_end_stream g = e2"
    "m_processed_headers g" "m_iteration_state g = IterContinue \<longrightarrow> m_headers_continued g" "cont = m_headers_continued g"
    using h i f6(1)
    by (cases st1; auto simp: g_def common_handle_after_headers_callback_def m7_def stopped_all_def filter_base_init_def)+
  define m9 where "m9 = (if e2 then call_complete env Decoding i m8 else m8)"
  have "\<exists>b cs. m9 = m8\<lparr> bufs := b, fm_calls := fm_calls m6 @ cs \<rparr> \<and> trace (Suc i) cs = Some (Suc i)"
  proof (cases e2)
    case True
    obtain b' where "filter_complete env Decoding i (m8\<lparr> fm_calls := fm_calls m8 @ [CallComplete Decoding i] \<rparr>) =
        m8\<lparr> fm_calls := fm_calls m8 @ [CallComplete Decoding i], bufs := b' \<rparr>"
      using quiet_complete [of Decoding i "m8\<lparr> fm_calls := fm_calls m8 @ [CallComplete Decoding i] \<rparr>"] by auto
    then have "m9 = m8\<lparr> bufs := b', fm_calls := fm_calls m6 @ [CallComplete Decoding i] \<rparr>"
      using True by (simp add: m9_def call_complete_def m8(1))
    then show ?thesis by (intro exI [of _ b'] exI [of _ "[CallComplete Decoding i]"]) simp
  next
    case False
    then show ?thesis by (intro exI [of _ "bufs m8"] exI [of _ "[]"]) (simp add: m9_def m8(1))
  qed
  then obtain b' cs where m9: "m9 = m8\<lparr> bufs := b', fm_calls := fm_calls m6 @ cs \<rparr>" "trace (Suc i) cs = Some (Suc i)"
    by blast
  have run: "decode_headers_turn env i e cde m = Some (cont, e', m9)"
    using legal h q m8(2) i
    by (simp add: decode_headers_turn_def call_headers_def e2_def [symmetric] Let_def m3_def mc_def m6_def m7_def
        st1_def m9_def g_def split: if_splits)
  have adv: "chain_at env (Suc i) m9" "frame i m m9"
    by (rule chain_at_advance [OF c i prev rh, where g = g and e = e2 and cs = cs];
        simp add: m9 m8 f6)+
  have "cont = m_headers_continued (dec m9 i)" using i m8(5) by (simp add: m9(1) m8(1))
  moreover have "m_decoder_filter_chain_aborted m9 \<longrightarrow> \<not> cont"
    using h by (auto simp: m9(1) m8(1) st1_def common_handle_after_headers_callback_def)
  ultimately show ?thesis using run adv by blast
qed

text \<open>\<open>resumes env cont lo b n\<close>: \<open>cont\<close> continues every stopped filter from \<open>lo\<close> on, and, if \<open>b\<close>, also
  the one before \<open>lo\<close> once it has seen the end of the stream.\<close>

definition resumes :: "continue_fn \<Rightarrow> nat \<Rightarrow> bool \<Rightarrow> nat \<Rightarrow> bool" where
  "resumes cont lo b n =
     (\<forall>j m. (lo \<le> j \<or> b \<and> Suc j = lo \<and> m_end_stream (dec m j)) \<longrightarrow> j < n \<longrightarrow> n_dec m = n \<longrightarrow>
        m_processed_headers (dec m j) \<longrightarrow> chain_ok env m \<longrightarrow> m_iteration_state (dec m j) \<noteq> IterContinue \<longrightarrow>
        (\<exists>m'. cont Decoding j m = Some m' \<and> chain_ok env m' \<and> frame j m m'))"

lemma chain_at_mono:
  assumes "chain_at env r m" "frame lo m m'" "chain_at env r' m'"
  shows "r \<le> r'"
proof (rule ccontr)
  assume "\<not> r \<le> r'"
  then have "r' < n_dec m" "m_processed_headers (dec m r')" using assms(1) by (auto simp: chain_at_def)
  then have "m_processed_headers (dec m' r')" "r' < n_dec m'" using assms(2) by (auto simp: frame_def)
  then show False using assms(3) by (auto simp: chain_at_def filter_base_init_def)
qed

lemma chain_ok_stop:
  assumes "chain_ok env m" "i < n_dec m" "m_processed_headers (dec m i)"
  shows "chain_ok env (set_iteration_state Decoding i StopSingleIteration m)"
    "frame i m (set_iteration_state Decoding i StopSingleIteration m)"
proof -
  obtain r where r: "chain_at env r m" "settled r m" using assms(1) by (auto simp: chain_ok_def)
  then have "i < r" using assms by (simp add: chain_at_def)
  then show "chain_ok env (set_iteration_state Decoding i StopSingleIteration m)"
    using r assms(3) unfolding chain_ok_def
    by (intro exI [of _ r]) (auto intro: chain_at_update settled_update)
  show "frame i m (set_iteration_state Decoding i StopSingleIteration m)"
    using assms by (auto simp: frame_def nth_list_update)
qed

lemma maybe_continue_ok:
  assumes cont: "resumes cont lo b (n_dec m)" and ok: "chain_ok env m"
    and cde: "\<And>j. cde = Some j \<Longrightarrow> lo \<le> j \<and> j < n_dec m \<and> m_processed_headers (dec m j)"
  shows "\<exists>m'. maybe_continue_decoding cont cde m = Some m' \<and> chain_ok env m' \<and> frame lo m m'"
proof (cases cde)
  case (Some j)
  let ?m = "set_iteration_state Decoding j StopSingleIteration m"
  have j: "lo \<le> j" "j < n_dec m" "m_processed_headers (dec m j)" using cde Some by auto
  note s = chain_ok_stop [OF ok j(2,3)]
  have "m_iteration_state (dec ?m j) \<noteq> IterContinue" "m_processed_headers (dec ?m j)" "n_dec ?m = n_dec m"
    using j by simp_all
  then obtain m' where "cont Decoding j ?m = Some m'" "chain_ok env m'" "frame j ?m m'"
    using cont s(1) j unfolding resumes_def by blast
  moreover have "frame lo m m'"
    using frame_trans [OF s(2) \<open>frame j ?m m'\<close>] j(1) frame_mono by blast
  ultimately show ?thesis using Some by (simp add: maybe_continue_decoding_def)
qed (simp add: maybe_continue_decoding_def ok)

lemma headers_loop_ok:
  assumes cont: "resumes cont lo b n"
  shows "chain_at env i m \<Longrightarrow> n_dec m = n \<Longrightarrow> i \<le> n \<Longrightarrow> entries = [i ..< n] \<Longrightarrow> lo \<le> i \<Longrightarrow>
     request_headers m \<noteq> None \<Longrightarrow> (0 < i \<Longrightarrow> i < n \<Longrightarrow> m_headers_continued (dec m (i - 1))) \<Longrightarrow>
     (\<And>j. cde = Some j \<Longrightarrow> lo \<le> j \<and> j < i) \<Longrightarrow> (t \<Longrightarrow> i = n) \<Longrightarrow>
     \<exists>m'. decode_headers_loop cont env entries e cde t m = Some m' \<and> chain_ok env m' \<and> frame lo m m' \<and>
       (i < n \<longrightarrow> m_processed_headers (dec m' i))"
proof (induction entries arbitrary: i e cde t m)
  case Nil
  have i: "i = n" using Nil(3) Nil(4) [symmetric] by auto
  have ok: "chain_ok env m" using Nil i by (auto simp: chain_ok_def settled_def)
  have "\<exists>m'. maybe_continue_decoding cont cde m = Some m' \<and> chain_ok env m' \<and> frame lo m m'"
    using Nil i cont ok by (intro maybe_continue_ok) (auto simp: chain_at_def)
  then obtain m1 r where m1: "maybe_continue_decoding cont cde m = Some m1" "chain_at env r m1" "settled r m1" "frame lo m m1"
    by (auto simp: chain_ok_def)
  define m2 where "m2 = (if e then disarm_request_timeout env m1 else m1)"
  have m2: "chain_at env r m2" "settled r m2" "frame lo m m2" "n_dec m2 = n"
    using m1 Nil(2) frameD(1) [OF m1(4)] by (simp_all add: m2_def disarm_request_timeout_def)
  have "n \<le> r" using chain_at_mono [OF Nil(1) m2(3,1)] i by simp
  then have t: "t \<Longrightarrow> r = n_dec m2" using m2(1,4) by (simp add: chain_at_def)
  then show ?case
    using m1(1) maybe_end_decode_ok [OF m2(1) t] m2(2,3) i by (auto simp: m2_def [symmetric] chain_ok_def)
next
  case (Cons k rest)
  then have k: "k = i" "i < n" "rest = [Suc i ..< n]" by (auto simp: upt_rec [of i n] split: if_splits)
  have last: "rest = [] \<Longrightarrow> Suc i = n" using k(2) k(3) [symmetric] by auto
  obtain c e' m1 where turn: "decode_headers_turn env i e cde m = Some (c, e', m1)" "chain_at env (Suc i) m1"
    "frame i m m1" "c = m_headers_continued (dec m1 i)" "m_decoder_filter_chain_aborted m1 \<longrightarrow> \<not> c"
    using headers_turn_ok [OF Cons(2), of e cde] Cons.prems k by auto
  have n1: "n_dec m1 = n" and fr: "frame lo m m1" and rh: "request_headers m1 \<noteq> None"
    using turn(3) Cons.prems frame_mono [OF turn(3)] by (auto simp: frame_def)
  have p1: "m_processed_headers (dec m' i)" if "frame lo m1 m'" for m'
    using frameD(7) [OF that] turn(2) n1 k(2) by (simp add: chain_at_def)
  have stop: "\<exists>m'. maybe_continue_decoding cont cde m1 = Some m' \<and> chain_ok env m' \<and> frame lo m m' \<and>
      m_processed_headers (dec m' i)" if "\<not> c"
  proof -
    have "chain_ok env m1" using turn(2,4) that by (auto simp: chain_ok_def settled_def)
    then have "\<exists>m'. maybe_continue_decoding cont cde m1 = Some m' \<and> chain_ok env m' \<and> frame lo m1 m'"
      using Cons.prems(8) cont n1 turn(2) k by (intro maybe_continue_ok) (auto simp: chain_at_def)
    then show ?thesis using frame_trans [OF fr] p1 by blast
  qed
  have go: "\<exists>m'. decode_headers_loop cont env rest e' cde' t' m1 = Some m' \<and> chain_ok env m' \<and> frame lo m m' \<and>
      m_processed_headers (dec m' i)"
    if "c \<or> rest = []" "cde' = Some i \<or> cde' = cde" "t' \<Longrightarrow> rest = []" for cde' t'
  proof -
    have "\<exists>m'. decode_headers_loop cont env rest e' cde' t' m1 = Some m' \<and> chain_ok env m' \<and> frame lo m1 m' \<and>
        (Suc i < n \<longrightarrow> m_processed_headers (dec m' (Suc i)))"
    proof (rule Cons.IH [OF turn(2) n1 _ k(3) _ rh])
      show "Suc i \<le> n" "lo \<le> Suc i" using k(2) Cons.prems(5) by simp_all
      show "m_headers_continued (dec m1 (Suc i - 1))" if "Suc i < n"
        using that \<open>c \<or> rest = []\<close> last turn(4) by auto
      show "lo \<le> j \<and> j < Suc i" if "cde' = Some j" for j
        using that \<open>cde' = Some i \<or> cde' = cde\<close> Cons.prems(5) Cons.prems(8) [of j] by auto
      show "Suc i = n" if t' using that \<open>t' \<Longrightarrow> rest = []\<close> last by blast
    qed
    then show ?thesis using frame_trans [OF fr] p1 by blast
  qed
  show ?case
  proof (cases "\<not> c \<and> rest \<noteq> []")
    case True
    then have "decode_headers_loop cont env (k # rest) e cde t m = maybe_continue_decoding cont cde m1"
      using turn(1) k(1) by simp
    then show ?thesis using stop True by metis
  next
    case False
    define cde1 where "cde1 = (if e' \<and> m_buffered_request_data m1 \<noteq> None \<and> cde = None then Some i else cde)"
    define t1 where "t1 = (rest = [] \<and> m_end_stream (dec m1 i) \<and> cde1 = None)"
    have run: "decode_headers_loop cont env (k # rest) e cde t m = decode_headers_loop cont env rest e' cde1 t1 m1"
      using False turn(1,5) k(1) by (cases "rest = []") (simp_all add: Let_def cde1_def t1_def)
    have "\<exists>m'. decode_headers_loop cont env rest e' cde1 t1 m1 = Some m' \<and> chain_ok env m' \<and> frame lo m m' \<and>
        m_processed_headers (dec m' i)"
      by (rule go) (use False in \<open>auto simp: cde1_def t1_def\<close>)
    then show ?thesis unfolding run by blast
  qed
qed

lemma decode_headers_ok:
  assumes cont: "resumes cont lo b (n_dec m)" and c: "chain_at env lo m" and rh: "request_headers m \<noteq> None"
    and start: "common_decode_prefix flt AlwaysStartFromNext m = [lo ..< n_dec m]"
    and prev: "0 < lo \<Longrightarrow> lo < n_dec m \<Longrightarrow> m_headers_continued (dec m (lo - 1))"
  shows "\<exists>m'. decode_headers cont env flt e m = Some m' \<and> chain_ok env m' \<and> frame lo m m' \<and>
     (lo < n_dec m \<longrightarrow> m_processed_headers (dec m' lo))"
proof -
  have lo: "lo \<le> n_dec m" "m_decoder_filter_chain_complete m \<longrightarrow> lo = n_dec m"
    using c by (simp_all add: chain_at_def)
  have run: "decode_headers cont env flt e m = decode_headers_loop cont env [lo ..< n_dec m] e None False m"
    using lo(2) by (auto simp: decode_headers_def start)
  show ?thesis
    unfolding run by (rule headers_loop_ok [OF cont c refl lo(1) refl _ rh]) (use prev in auto)
qed

section \<open>Data\<close>

lemma chain_ok_bufs [simp]: "chain_ok env (m\<lparr> bufs := v \<rparr>) = chain_ok env m"
  by (simp add: chain_ok_def)

lemma chain_ok_processed:
  assumes "chain_ok env m" "i < n_dec m" "m_processed_headers (dec m i)"
  obtains r where "chain_at env r m" "settled r m" "i < r"
  using assms by (auto simp: chain_ok_def chain_at_def)

text \<open>Headers passed on have reached the next filter.\<close>

lemma next_processed:
  assumes "chain_ok env m" "Suc i < n_dec m" "m_processed_headers (dec m i)" "m_headers_continued (dec m i)"
  shows "m_processed_headers (dec m (Suc i))"
proof -
  obtain r where r: "chain_at env r m" "settled r m" "i < r"
    using chain_ok_processed [OF assms(1) _ assms(3)] assms(2) by auto
  have "Suc i \<noteq> r" using r assms by (auto simp: settled_def)
  then show ?thesis using r assms(2) by (simp add: chain_at_def)
qed

lemma data_turn_ok:
  assumes ok: "chain_ok env m" and i: "i < n_dec m" "m_processed_headers (dec m i)"
    and turn: "decode_data_turn env i data e m = (st, m2)"
  shows "chain_ok env m2" "frame i m m2" "m_decoder_filter_chain_aborted m2 = m_decoder_filter_chain_aborted m"
    "m_buffered_request_data m2 = m_buffered_request_data m"
    "dec m2 i = (dec m i)\<lparr> m_end_stream := e \<and> \<not> request_trailers m \<rparr>"
proof -
  define e2 where "e2 = (e \<and> \<not> request_trailers m)"
  define m4 where "m4 = set_end_stream Decoding i e2 (set_call_state DecodeData
     (((if e then set_call_state EndOfStream m else m)\<lparr> m_latest_data_decoding_filter :=
         record_latest_data_filter i (m_latest_data_decoding_filter m) \<rparr>)))"
  define mc where "mc = m4\<lparr> fm_calls := fm_calls m4 @ [CallData Decoding i e2] \<rparr>"
  obtain st' b where q: "filter_data env Decoding i data e2 mc = (st', mc\<lparr> bufs := b \<rparr>)"
    using quiet_data [of Decoding i data e2 mc] by (metis prod.collapse)
  define m5 where "m5 = mc\<lparr> bufs := b \<rparr>"
  define m6 where "m6 = (if e2 then call_complete env Decoding i m5 else m5)"
  have m6: "\<exists>b cs. m6 = m4\<lparr> bufs := b, fm_calls := fm_calls m @ cs \<rparr> \<and> (\<forall>r > i. trace r cs = Some r)"
  proof (cases e2)
    case True
    obtain b' where "filter_complete env Decoding i (m5\<lparr> fm_calls := fm_calls m5 @ [CallComplete Decoding i] \<rparr>) =
        m5\<lparr> fm_calls := fm_calls m5 @ [CallComplete Decoding i], bufs := b' \<rparr>"
      using quiet_complete [of Decoding i "m5\<lparr> fm_calls := fm_calls m5 @ [CallComplete Decoding i] \<rparr>"] by auto
    then have "m6 = m4\<lparr> bufs := b', fm_calls := fm_calls m @ [CallData Decoding i e2, CallComplete Decoding i] \<rparr>"
      using True by (simp add: m6_def call_complete_def m5_def mc_def m4_def set_call_state_def)
    then show ?thesis by (intro exI [of _ b'] exI [of _ "[CallData Decoding i e2, CallComplete Decoding i]"]) simp
  next
    case False
    then show ?thesis
      by (intro exI [of _ b] exI [of _ "[CallData Decoding i e2]"])
         (simp add: m6_def m5_def mc_def m4_def set_call_state_def)
  qed
  then obtain b' cs where m6: "m6 = m4\<lparr> bufs := b', fm_calls := fm_calls m @ cs \<rparr>" "\<forall>r > i. trace r cs = Some r"
    by blast
  have m2: "m2 = (if e then clear_call_state EndOfStream else id) (clear_call_state DecodeData m6)"
    using turn q
    by (cases e; cases "request_trailers m"; simp add: decode_data_turn_def call_data_def e2_def Let_def m4_def
        mc_def m5_def m6_def set_call_state_def)
  have v: "m_decoder_filters m2 = (m_decoder_filters m)[i := (dec m i)\<lparr> m_end_stream := e2 \<rparr>]"
    "fm_calls m2 = fm_calls m @ cs" "m_decoder_filter_chain_complete m2 = m_decoder_filter_chain_complete m"
    "request_headers m2 = request_headers m" "request_trailers m2 = request_trailers m"
    "m_observed_decode_end_stream m2 = m_observed_decode_end_stream m" "m_encoder_filters m2 = m_encoder_filters m"
    and ab: "m_decoder_filter_chain_aborted m2 = m_decoder_filter_chain_aborted m"
    and bu: "m_buffered_request_data m2 = m_buffered_request_data m"
    by (simp_all add: m2 m6 m4_def set_call_state_def clear_call_state_def)
  show "m_decoder_filter_chain_aborted m2 = m_decoder_filter_chain_aborted m"
    "m_buffered_request_data m2 = m_buffered_request_data m" by (fact ab, fact bu)
  show "dec m2 i = (dec m i)\<lparr> m_end_stream := e \<and> \<not> request_trailers m \<rparr>" using i(1) by (simp add: v e2_def)
  show "frame i m m2" using v bu i by (auto simp: frame_def nth_list_update)
  obtain r where r: "chain_at env r m" "settled r m" "i < r" using chain_ok_processed [OF ok i] by blast
  have "chain_at env r m2"
    using r i v m6(2) unfolding chain_at_def by (auto simp: nth_list_update trace_append)
  moreover have "settled r m2" using r v i by (auto simp: settled_def nth_list_update)
  ultimately show "chain_ok env m2" by (auto simp: chain_ok_def)
qed

lemma after_data_ok:
  assumes ok: "chain_ok env m" and i: "i < n_dec m" "m_processed_headers (dec m i)"
    and all: "\<not> stopped_all (dec m i)"
    and cont: "m_iteration_state (dec m i) = StopSingleIteration \<Longrightarrow> lo \<le> i" "resumes cont lo b (n_dec m)"
    and fin: "m_observed_decode_end_stream m \<Longrightarrow> \<not> request_trailers m \<Longrightarrow> m_buffered_request_data m = None \<Longrightarrow>
      m_end_stream (dec m i)"
  shows "\<exists>g m3. common_handle_after_data_callback cont Decoding i st data m = Some (g, m3) \<and> chain_ok env m3 \<and>
     frame i m m3 \<and> (g \<longrightarrow> m3 = m \<and> m_headers_continued (dec m i))"
proof (cases "st = DataContinue")
  case True
  let ?m = "common_handle_buffer_data Decoding data m"
  have okb: "chain_ok env ?m" using ok by (simp add: chain_ok_def)
  show ?thesis
  proof (cases "m_iteration_state (dec m i) = StopSingleIteration")
    case stop: True
    have "lo \<le> i" "m_iteration_state (dec ?m i) \<noteq> IterContinue" "n_dec ?m = n_dec m" "m_processed_headers (dec ?m i)"
      using cont(1) stop i by simp_all
    then obtain m' where m': "cont Decoding i ?m = Some m'" "chain_ok env m'" "frame i ?m m'"
      using cont(2) okb i(1) unfolding resumes_def by blast
    have "frame i m m'" using frame_trans [OF chain_handle_buffer(3) [OF frame_refl] m'(3)] .
    with m' True stop show ?thesis
      by (intro exI [of _ False] exI [of _ m']) (simp add: common_handle_after_data_callback_def)
  next
    case False
    obtain r where "chain_at env r m" "i < r" using chain_ok_processed [OF ok i] by blast
    moreover have "m_iteration_state (dec m i) = IterContinue"
      using all False by (cases "m_iteration_state (dec m i)") (simp_all add: stopped_all_def)
    ultimately have "m_headers_continued (dec m i)" by (simp add: chain_at_def)
    with True False ok show ?thesis
      by (intro exI [of _ True] exI [of _ m]) (simp add: common_handle_after_data_callback_def)
  qed
next
  case False
  note s = chain_ok_stop [OF ok i]
  define m1 where "m1 = set_iteration_state Decoding i StopSingleIteration m"
  have m1: "chain_ok env m1" "frame i m m1" using s by (simp_all add: m1_def)
  have keep: "chain_ok env (common_handle_buffer_data Decoding data (set_streaming Decoding v m1))"
    "frame i m (common_handle_buffer_data Decoding data (set_streaming Decoding v m1))"
    "chain_ok env (snd (create_buffer Decoding m1))" "frame i m (snd (create_buffer Decoding m1))" for v
    using m1 by (auto simp: chain_ok_def)
  have "m_end_stream (dec m1 i)" if "observed_end_stream Decoding m1 \<and> \<not> has_trailers Decoding m1 \<and>
      buffered_data Decoding m1 = None \<and> \<not> m_destroyed m1"
    using that fin i(1) by (simp add: m1_def)
  then show ?thesis
    using False keep m1 unfolding common_handle_after_data_callback_def m1_def [symmetric] Let_def by auto
qed

lemma handle_stop_all_ok:
  "handle_data_if_stop_all Decoding i data m = (stopped_all (dec m i),
     if stopped_all (dec m i) then common_handle_buffer_data Decoding data
       (m\<lparr> m_decoder_filters_streaming := m_iteration_state (dec m i) = StopAllWatermark \<rparr>) else m)"
  by (simp add: handle_data_if_stop_all_def)

lemma decode_data_end_ok:
  assumes "chain_ok env m" "frame s m0 m" "t \<Longrightarrow> \<forall>j < n_dec m. m_processed_headers (dec m j)"
  shows "chain_ok env (decode_data_end env e t m)" "frame s m0 (decode_data_end env e t m)"
proof -
  obtain r where r: "chain_at env r m" "settled r m" using assms(1) by (auto simp: chain_ok_def)
  define m2 where "m2 = (if e then disarm_request_timeout env m else m)"
  have m2: "chain_at env r m2" "settled r m2" "frame s m0 m2" "n_dec m2 = n_dec m"
    using r assms(2) by (simp_all add: m2_def disarm_request_timeout_def)
  have "r = n_dec m2" if t
  proof (rule ccontr)
    assume "r \<noteq> n_dec m2"
    then have "r < n_dec m" using r(1) m2(4) by (simp add: chain_at_def)
    with assms(3) [OF that] r(1) show False by (auto simp: chain_at_def)
  qed
  from maybe_end_decode_ok [OF m2(1) this] m2(2,3)
  show "chain_ok env (decode_data_end env e t m)" "frame s m0 (decode_data_end env e t m)"
    by (auto simp: decode_data_end_def m2_def [symmetric] chain_ok_def)
qed

lemma all_processed:
  assumes "chain_ok env m" "i < n_dec m" "m_processed_headers (dec m i)" "Suc i = n_dec m" "frame s m m'"
  shows "\<forall>j < n_dec m'. m_processed_headers (dec m' j)"
proof -
  obtain r where "chain_at env r m" "i < r" using chain_ok_processed [OF assms(1-3)] by blast
  then have "m_processed_headers (dec m j)" if "j < n_dec m" for j
    using that assms(4) by (simp add: chain_at_def)
  then show ?thesis using frameD(1,7) [OF assms(5)] by auto
qed

lemma data_loop_ok:
  assumes cont: "resumes cont lo b n"
  shows "chain_ok env m \<Longrightarrow> n_dec m = n \<Longrightarrow> i \<le> n \<Longrightarrow> entries = [i ..< n] \<Longrightarrow> s \<le> i \<Longrightarrow>
     (i < n \<Longrightarrow> m_processed_headers (dec m i)) \<Longrightarrow>
     (i < n \<Longrightarrow> m_iteration_state (dec m i) = StopSingleIteration \<Longrightarrow> m_end_stream (dec m i) \<or> lo \<le> i) \<Longrightarrow> lo \<le> Suc i \<Longrightarrow>
     (m_observed_decode_end_stream m \<Longrightarrow> e \<or> request_trailers m \<or> m_buffered_request_data m \<noteq> None) \<Longrightarrow>
     ts = request_trailers m \<Longrightarrow> (t \<Longrightarrow> \<forall>j < n. m_processed_headers (dec m j)) \<Longrightarrow> tae = None \<Longrightarrow>
     \<exists>m'. decode_data_loop cont env data ts entries e tae t m = Some m' \<and> chain_ok env m' \<and> frame s m m'"
proof (induction entries arbitrary: i t m)
  case Nil
  then show ?case using decode_data_end_ok [of m s m t e] by simp
next
  case (Cons k rest)
  then have k: "k = i" "i < n" "rest = [Suc i ..< n]" by (auto simp: upt_rec [of i n] split: if_splits)
  have last: "rest = [] \<Longrightarrow> Suc i = n" using k(2) k(3) [symmetric] by auto
  have pi: "m_processed_headers (dec m i)" and ni: "i < n_dec m" using Cons.prems(2,6) k(2) by simp_all
  show ?case
  proof (cases "stopped_all (dec m i) \<or> m_end_stream (dec m i)")
    case True
    then show ?thesis
      using Cons.prems(1) k(1) by (auto simp: handle_stop_all_ok chain_ok_def)
  next
    case False
    obtain st m2 where turn: "decode_data_turn env i data e m = (st, m2)" by fastforce
    note m2 = data_turn_ok [OF Cons.prems(1) ni pi turn]
    note f2 = frameD [OF m2(2)]
    have fr2: "frame s m m2" using frame_mono [OF m2(2)] Cons.prems(5) by simp
    show ?thesis
    proof (cases "m_decoder_filter_chain_aborted m2")
      case True
      then show ?thesis using False turn k(1) m2(1) fr2 by (simp add: handle_stop_all_ok)
    next
      case nab: False
      have st2: "m_iteration_state (dec m2 i) = m_iteration_state (dec m i)" "m_processed_headers (dec m2 i)"
        using m2(5) pi by simp_all
      have "\<exists>g m3. common_handle_after_data_callback cont Decoding i st data m2 = Some (g, m3) \<and> chain_ok env m3 \<and>
          frame i m2 m3 \<and> (g \<longrightarrow> m3 = m2 \<and> m_headers_continued (dec m2 i))"
      proof (rule after_data_ok [OF m2(1), where lo = lo and b = b])
        show "i < n_dec m2" "m_processed_headers (dec m2 i)" using f2(1) ni st2 by simp_all
        show "\<not> stopped_all (dec m2 i)" using False st2(1) by (simp add: stopped_all_def)
        show "resumes cont lo b (n_dec m2)" using cont f2(1) Cons.prems(2) by simp
        show "lo \<le> i" if "m_iteration_state (dec m2 i) = StopSingleIteration"
          using that st2(1) Cons.prems(7) k(2) False by simp
        show "m_end_stream (dec m2 i)" if "m_observed_decode_end_stream m2" "\<not> request_trailers m2" "m_buffered_request_data m2 = None"
          using that f2(4,5) m2(4,5) Cons.prems(9) by simp
      qed
      then obtain g m3 where m3: "common_handle_after_data_callback cont Decoding i st data m2 = Some (g, m3)"
        "chain_ok env m3" "frame i m2 m3" "g \<longrightarrow> m3 = m2 \<and> m_headers_continued (dec m2 i)" by blast
      have fr3: "frame s m m3" using frame_trans [OF fr2] frame_mono [OF m3(3)] Cons.prems(5) by blast
      have run: "decode_data_loop cont env data ts (k # rest) e tae t m =
         (if \<not> g \<and> rest \<noteq> [] then Some (decode_data_end env e (e \<and> rest = []) m3)
          else decode_data_loop cont env data ts rest e tae (e \<and> rest = []) m3)"
        using False turn nab m3(1) k(1) f2(4) Cons.prems(10,12) by (simp add: handle_stop_all_ok Let_def)
      have t3: "\<forall>j < n. m_processed_headers (dec m3 j)" if "rest = []"
        using all_processed [OF m2(1) _ st2(2) _ m3(3)] last [OF that] f2(1) frameD(1) [OF m3(3)] Cons.prems(2) by auto
      show ?thesis
      proof (cases "\<not> g \<and> rest \<noteq> []")
        case True
        then show ?thesis unfolding run using decode_data_end_ok [OF m3(2) fr3] by simp
      next
        case go: False
        have n3: "n_dec m3 = n" using f2(1) frameD(1) [OF m3(3)] Cons.prems(2) by simp
        have "\<exists>m'. decode_data_loop cont env data ts rest e tae (e \<and> rest = []) m3 = Some m' \<and>
            chain_ok env m' \<and> frame s m3 m'"
        proof (rule Cons.IH [OF m3(2) n3 _ k(3)])
          show "m_processed_headers (dec m3 (Suc i))" if "Suc i < n"
            using that go m3(4) next_processed [OF m2(1) _ st2(2)] k(3) f2(1) Cons.prems(2) by auto
          show "m_observed_decode_end_stream m3 \<Longrightarrow> e \<or> request_trailers m3 \<or> m_buffered_request_data m3 \<noteq> None"
            using Cons.prems(9) f2(4,5,6) frameD(4,5,6) [OF m3(3)] by auto
          show "ts = request_trailers m3" using Cons.prems(10) f2(4) frameD(4) [OF m3(3)] by simp
        qed (use k(2) Cons.prems(5,8,12) t3 in auto)
        with go frame_trans [OF fr3] show ?thesis unfolding run by auto
      qed
    qed
  qed
qed

lemma prefix_cb [simp]: "common_decode_prefix flt start (cb env c m) = common_decode_prefix flt start m"
  by (cases flt) (simp_all add: common_decode_prefix_def start_entry_def entries_from_def)

lemma decode_data_ok:
  assumes cont: "resumes cont lo b (n_dec m)" and ok: "chain_ok env m"
    and start: "common_decode_prefix flt start m = [i ..< n_dec m]" "i \<le> n_dec m"
    and head: "i < n_dec m \<Longrightarrow> m_processed_headers (dec m i)"
      "i < n_dec m \<Longrightarrow> m_iteration_state (dec m i) = StopSingleIteration \<Longrightarrow> m_end_stream (dec m i) \<or> lo \<le> i" "lo \<le> Suc i"
    and fin: "m_observed_decode_end_stream m \<Longrightarrow> e \<or> request_trailers m \<or> m_buffered_request_data m \<noteq> None"
  shows "\<exists>m'. decode_data cont env flt data e start m = Some m' \<and> chain_ok env m' \<and> frame i m m'"
proof -
  define m1 where "m1 = cb env ResetIdleTimer m"
  have ok1: "chain_ok env m1" and fr: "frame i m m1" using ok by (simp_all add: m1_def chain_ok_def)
  have "common_decode_prefix flt start m1 = [i ..< n_dec m1]"
    using start(1) by (simp add: m1_def)
  moreover have "\<exists>m'. decode_data_loop cont env data (request_trailers m1) [i ..< n_dec m1] e None False m1 = Some m' \<and>
      chain_ok env m' \<and> frame i m1 m'"
    by (rule data_loop_ok [where lo = lo and b = b and i = i])
       (use cont ok1 start(2) head fin in \<open>simp_all add: m1_def\<close>)
  ultimately show ?thesis
    using ok1 fr frame_trans [OF fr] unfolding decode_data_def m1_def [symmetric] Let_def by auto
qed

section \<open>Trailers\<close>

lemma after_trailers_ok:
  assumes ok: "chain_ok env m" and i: "i < n_dec m" "m_processed_headers (dec m i)"
    and all: "\<not> stopped_all (dec m i)"
    and cont: "m_iteration_state (dec m i) = StopSingleIteration \<Longrightarrow> lo \<le> i \<or> b \<and> Suc i = lo \<and> m_end_stream (dec m i)"
      "resumes cont lo b (n_dec m)"
  shows "\<exists>g m3. common_handle_after_trailers_callback cont Decoding i st m = Some (g, m3) \<and> chain_ok env m3 \<and>
     frame i m m3 \<and> (g \<longrightarrow> m3 = m \<and> m_headers_continued (dec m i))"
proof (cases st)
  case TrailersContinue
  show ?thesis
  proof (cases "m_iteration_state (dec m i) = StopSingleIteration")
    case stop: True
    then have "lo \<le> i \<or> b \<and> Suc i = lo \<and> m_end_stream (dec m i)" "m_iteration_state (dec m i) \<noteq> IterContinue"
      using cont(1) by simp_all
    then obtain m' where m': "cont Decoding i m = Some m'" "chain_ok env m'" "frame i m m'"
      using cont(2) ok i unfolding resumes_def by blast
    with TrailersContinue stop show ?thesis
      by (intro exI [of _ False] exI [of _ m']) (simp add: common_handle_after_trailers_callback_def)
  next
    case False
    obtain r where "chain_at env r m" "i < r" using chain_ok_processed [OF ok i] by blast
    moreover have "m_iteration_state (dec m i) = IterContinue"
      using all False by (cases "m_iteration_state (dec m i)") (simp_all add: stopped_all_def)
    ultimately have "m_headers_continued (dec m i)" by (simp add: chain_at_def)
    with TrailersContinue False ok show ?thesis
      by (intro exI [of _ True] exI [of _ m]) (simp add: common_handle_after_trailers_callback_def)
  qed
next
  case TrailersStopIteration
  then show ?thesis
    using ok chain_ok_stop [OF ok i]
    by (intro exI [of _ False] exI [of _ "if can_iterate (dec m i) then set_iteration_state Decoding i StopSingleIteration m else m"])
       (simp add: common_handle_after_trailers_callback_def)
qed

lemma trailers_turn_ok:
  assumes ok: "chain_ok env m" and i: "i < n_dec m" "m_processed_headers (dec m i)" and tr: "request_trailers m"
  shows "\<exists>st m1. call_trailers env Decoding i (set_call_state DecodeTrailers m) = Some (st, m1) \<and>
     (let m2 = clear_call_state DecodeTrailers (set_end_stream Decoding i True m1)
      in chain_ok env m2 \<and> frame i m m2 \<and> dec m2 i = (dec m i)\<lparr> m_end_stream := True \<rparr>)"
proof -
  obtain r where r: "chain_at env r m" "settled r m" "i < r" using chain_ok_processed [OF ok i] by blast
  have "filter_trailers env Decoding i \<noteq> None" using r(1) tr i(1) by (simp add: chain_at_def)
  then obtain f where f: "filter_trailers env Decoding i = Some f" by blast
  define mc where "mc = (set_call_state DecodeTrailers m)\<lparr> fm_calls := fm_calls m @ [CallTrailers Decoding i] \<rparr>"
  obtain st b where q: "f mc = (st, mc\<lparr> bufs := b \<rparr>)"
    using quiet_trailers [OF f, of mc] by (metis prod.collapse)
  define m2 where "m2 = clear_call_state DecodeTrailers (set_end_stream Decoding i True (mc\<lparr> bufs := b \<rparr>))"
  have v: "m_decoder_filters m2 = (m_decoder_filters m)[i := (dec m i)\<lparr> m_end_stream := True \<rparr>]"
    "fm_calls m2 = fm_calls m @ [CallTrailers Decoding i]" "m_decoder_filter_chain_complete m2 = m_decoder_filter_chain_complete m"
    "request_headers m2 = request_headers m" "request_trailers m2 = request_trailers m"
    "m_observed_decode_end_stream m2 = m_observed_decode_end_stream m" "m_encoder_filters m2 = m_encoder_filters m"
    "m_buffered_request_data m2 = m_buffered_request_data m"
    by (simp_all add: m2_def mc_def set_call_state_def clear_call_state_def)
  have "chain_at env r m2"
    using r i v unfolding chain_at_def by (auto simp: nth_list_update trace_append)
  moreover have "settled r m2" using r v i by (auto simp: settled_def nth_list_update)
  moreover have "frame i m m2" using v i by (auto simp: frame_def nth_list_update)
  moreover have "call_trailers env Decoding i (set_call_state DecodeTrailers m) = Some (st, mc\<lparr> bufs := b \<rparr>)"
    using f q by (simp add: call_trailers_def mc_def set_call_state_def)
  moreover have "dec m2 i = (dec m i)\<lparr> m_end_stream := True \<rparr>" using i(1) by (simp add: v)
  ultimately show ?thesis
    unfolding chain_ok_def
    by (intro exI [of _ st] exI [of _ "mc\<lparr> bufs := b \<rparr>"]) (auto simp only: Let_def m2_def [symmetric])
qed

lemma trailers_loop_ok:
  assumes cont: "resumes cont lo b n"
  shows "chain_ok env m \<Longrightarrow> n_dec m = n \<Longrightarrow> i \<le> n \<Longrightarrow> entries = [i ..< n] \<Longrightarrow> s \<le> i \<Longrightarrow> request_trailers m \<Longrightarrow>
     (i < n \<Longrightarrow> m_processed_headers (dec m i)) \<Longrightarrow>
     (i < n \<Longrightarrow> m_iteration_state (dec m i) = StopSingleIteration \<Longrightarrow> lo \<le> i \<or> b \<and> Suc i = lo) \<Longrightarrow> lo \<le> Suc i \<Longrightarrow>
     (t \<Longrightarrow> \<forall>j < n. m_processed_headers (dec m j)) \<Longrightarrow>
     \<exists>m'. decode_trailers_loop cont env entries t m = Some m' \<and> chain_ok env m' \<and> frame s m m'"
proof (induction entries arbitrary: i t m)
  case Nil
  then show ?case using decode_data_end_ok [of m s m t True] by (simp add: decode_data_end_def)
next
  case (Cons k rest)
  then have k: "k = i" "i < n" "rest = [Suc i ..< n]" by (auto simp: upt_rec [of i n] split: if_splits)
  have last: "rest = [] \<Longrightarrow> Suc i = n" using k(2) k(3) [symmetric] by auto
  have pi: "m_processed_headers (dec m i)" and ni: "i < n_dec m" using Cons.prems(2,7) k(2) by simp_all
  show ?case
  proof (cases "stopped_all (dec m i)")
    case True
    then show ?thesis using Cons.prems(1) k(1) by simp
  next
    case False
    obtain st m1 where call: "call_trailers env Decoding i (set_call_state DecodeTrailers m) = Some (st, m1)"
      and *: "let m2 = clear_call_state DecodeTrailers (set_end_stream Decoding i True m1)
      in chain_ok env m2 \<and> frame i m m2 \<and> dec m2 i = (dec m i)\<lparr> m_end_stream := True \<rparr>"
      using trailers_turn_ok [OF Cons.prems(1) ni pi Cons.prems(6)] by blast
    define m2 where "m2 = clear_call_state DecodeTrailers (set_end_stream Decoding i True m1)"
    have m2: "chain_ok env m2" "frame i m m2" "dec m2 i = (dec m i)\<lparr> m_end_stream := True \<rparr>"
      using * by (simp_all add: m2_def Let_def)
    note f2 = frameD [OF m2(2)]
    define st1 where "st1 = (if m_decoder_filter_chain_aborted m2 then TrailersStopIteration else st)"
    have p2: "m_processed_headers (dec m2 i)" using m2(3) pi by simp
    have fr2: "frame s m m2" using frame_mono [OF m2(2)] Cons.prems(5) by simp
    have "\<exists>g m3. common_handle_after_trailers_callback cont Decoding i st1 m2 = Some (g, m3) \<and> chain_ok env m3 \<and>
        frame i m2 m3 \<and> (g \<longrightarrow> m3 = m2 \<and> m_headers_continued (dec m2 i))"
      by (rule after_trailers_ok [OF m2(1), where lo = lo and b = b])
         (use f2(1) ni p2 m2(3) False cont Cons.prems(2,8) k(2) in \<open>simp_all add: stopped_all_def\<close>)
    then obtain g m3 where m3: "common_handle_after_trailers_callback cont Decoding i st1 m2 = Some (g, m3)"
      "chain_ok env m3" "frame i m2 m3" "g \<longrightarrow> m3 = m2 \<and> m_headers_continued (dec m2 i)" by blast
    have run: "decode_trailers_loop cont env (k # rest) t m =
        (if \<not> g then Some m3 else decode_trailers_loop cont env rest (rest = []) m3)"
      using False call m3(1) [unfolded st1_def m2_def] k(1) by (simp add: Let_def)
    have fr3: "frame s m m3" using frame_trans [OF fr2] frame_mono [OF m3(3)] Cons.prems(5) by blast
    show ?thesis
    proof (cases g)
      case True
      then have g: "m3 = m2" "m_headers_continued (dec m2 i)" using m3(4) by simp_all
      have n3: "n_dec m3 = n" using f2(1) g(1) Cons.prems(2) by simp
      have "\<exists>m'. decode_trailers_loop cont env rest (rest = []) m3 = Some m' \<and> chain_ok env m' \<and> frame s m3 m'"
      proof (rule Cons.IH [OF m3(2) n3 _ k(3)])
        show "m_processed_headers (dec m3 (Suc i))" if "Suc i < n"
          using that g next_processed [OF m2(1) _ p2] f2(1) Cons.prems(2) by auto
        show "\<forall>j < n. m_processed_headers (dec m3 j)" if "rest = []"
          using all_processed [OF m2(1) _ p2 _ m3(3)] last [OF that] f2(1) n3 Cons.prems(2) by auto
        show "request_trailers m3" using g(1) f2(4) Cons.prems(6) by simp
      qed (use k(2) Cons.prems(5,9) in auto)
      with True frame_trans [OF fr3] show ?thesis unfolding run by auto
    next
      case False
      then show ?thesis unfolding run using m3(2) fr3 by simp
    qed
  qed
qed

lemma decode_trailers_ok:
  assumes cont: "resumes cont lo b (n_dec m)" and ok: "chain_ok env m" and tr: "request_trailers m"
    and start: "common_decode_prefix flt CanStartFromCurrent m = [i ..< n_dec m]" "i \<le> n_dec m"
    and head: "i < n_dec m \<Longrightarrow> m_processed_headers (dec m i)"
      "i < n_dec m \<Longrightarrow> m_iteration_state (dec m i) = StopSingleIteration \<Longrightarrow> lo \<le> i \<or> b \<and> Suc i = lo" "lo \<le> Suc i"
  shows "\<exists>m'. decode_trailers cont env flt m = Some m' \<and> chain_ok env m' \<and> frame i m m'"
proof -
  have "\<exists>m'. decode_trailers_loop cont env [i ..< n_dec m] False m = Some m' \<and> chain_ok env m' \<and> frame i m m'"
    by (rule trailers_loop_ok [OF cont ok refl start(2) refl le_refl tr head]) simp_all
  then show ?thesis using ok by (auto simp: decode_trailers_def start(1))
qed

section \<open>Continuing\<close>

lemma prefix_Some:
  "common_decode_prefix (Some i) start m =
     [if start = CanStartFromCurrent \<and> m_iterate_from_current_filter (dec m i) then i else Suc i ..< n_dec m]"
  by (simp add: common_decode_prefix_def start_entry_def entries_from_def)

lemma base_upd_comm:
  "f\<lparr> m_iterate_from_current_filter := x, m_iteration_state := y \<rparr> =
   f\<lparr> m_iteration_state := y, m_iterate_from_current_filter := x \<rparr>"
  by (cases f) simp

text \<open>The first part of \<open>common_continue\<close>: the filter goes on and passes the headers on.\<close>

lemma continue_headers_ok:
  fixes c :: bool
  assumes ok: "chain_ok env m" and i: "i < n_dec m" "m_processed_headers (dec m i)"
    and cont: "resumes cont (Suc i) b (n_dec m)"
  defines "m2 \<equiv> m\<lparr> m_decoder_filters := (m_decoder_filters m)[i := (dec m i)
       \<lparr> m_iteration_state := IterContinue, m_iterate_from_current_filter := c \<rparr>] \<rparr>"
  defines "m3' \<equiv> upd_filter Decoding i (\<lambda>f. f\<lparr> m_headers_continued := True \<rparr>) m2"
  shows "\<exists>m3. (if \<not> m_headers_continued (dec m2 i) then do_headers cont env Decoding i e m3' else Some m2) = Some m3 \<and>
     chain_ok env m3 \<and> frame i m m3 \<and>
     dec m3 i = (dec m i)\<lparr> m_iteration_state := IterContinue, m_iterate_from_current_filter := c, m_headers_continued := True \<rparr>"
proof -
  obtain r where r: "chain_at env r m" "settled r m" "i < r" using chain_ok_processed [OF ok i] by blast
  have f2: "frame i m m2" using i by (auto simp: m2_def frame_def nth_list_update)
  show ?thesis
  proof (cases "m_headers_continued (dec m i)")
    case True
    have "chain_at env r m2" unfolding m2_def using r(1,3) i(2) True by (intro chain_at_update) simp_all
    moreover have "settled r m2" unfolding m2_def using r(2,3) by (intro settled_update) simp_all
    ultimately show ?thesis using True f2 i(1) by (auto simp: chain_ok_def m2_def)
  next
    case False
    then have "\<not> Suc i < r" using r(1) by (auto simp: chain_at_def)
    then have "r = Suc i" using r(3) by simp
    have d3: "m3' = m\<lparr> m_decoder_filters := (m_decoder_filters m)[i := (dec m i)
       \<lparr> m_iteration_state := IterContinue, m_iterate_from_current_filter := c, m_headers_continued := True \<rparr>] \<rparr>"
      using i(1) by (simp add: m3'_def m2_def)
    have c3: "chain_at env (Suc i) m3'"
      unfolding d3 using r(1) \<open>r = Suc i\<close> i(2) by (intro chain_at_update) simp_all
    have n3: "n_dec m3' = n_dec m" by (simp add: d3)
    have f3: "frame i m m3'" using i by (auto simp: d3 frame_def nth_list_update)
    have rh: "request_headers m3' \<noteq> None" using c3 by (simp add: chain_at_def)
    have "\<exists>m'. decode_headers cont env (Some i) e m3' = Some m' \<and> chain_ok env m' \<and> frame (Suc i) m3' m' \<and>
        (Suc i < n_dec m3' \<longrightarrow> m_processed_headers (dec m' (Suc i)))"
      using cont n3 i(1) by (intro decode_headers_ok [OF _ c3 rh]) (simp_all add: prefix_Some d3)
    then obtain m' where m': "decode_headers cont env (Some i) e m3' = Some m'" "chain_ok env m'" "frame (Suc i) m3' m'"
      by blast
    have "frame i m m'" using frame_trans [OF f3 frame_mono [OF m'(3)]] by simp
    moreover have "dec m' i = dec m3' i" using frameD(2) [OF m'(3)] by simp
    moreover have "dec m3' i = (dec m i)\<lparr> m_iteration_state := IterContinue, m_iterate_from_current_filter := c, m_headers_continued := True \<rparr>"
      using i(1) by (simp add: d3)
    ultimately show ?thesis using False m'(1,2) rh i(1) by (auto simp: m2_def do_headers_def)
  qed
qed

lemma decode_data_ended:
  assumes "m_end_stream (dec m i)" "\<not> stopped_all (dec m i)" "m_iterate_from_current_filter (dec m i)" "i < n_dec m"
    and "decode_data cont env (Some i) data e CanStartFromCurrent m = Some m'"
  shows "m_decoder_filters m' = m_decoder_filters m"
  using assms
  by (auto simp: decode_data_def prefix_Some Let_def handle_stop_all_ok upt_conv_Cons split: if_splits)

lemma continue_data_ok:
  assumes ok: "chain_ok env m" and i: "i < n_dec m" "m_processed_headers (dec m i)" "m_headers_continued (dec m i)"
      "m_iteration_state (dec m i) = IterContinue"
    and cont: "resumes cont (Suc i) b (n_dec m)"
  shows "\<exists>m4. (case buffered_data Decoding m of None \<Rightarrow> Some m | Some data \<Rightarrow> do_data cont env Decoding i data e m) = Some m4 \<and>
     chain_ok env m4 \<and> frame i m m4 \<and>
     (m_end_stream (dec m i) \<longrightarrow> m_iteration_state (dec m4 i) = IterContinue)"
proof (cases "m_buffered_request_data m")
  case (Some data)
  let ?i = "if m_iterate_from_current_filter (dec m i) then i else Suc i"
  have "\<exists>m4. decode_data cont env (Some i) data e CanStartFromCurrent m = Some m4 \<and> chain_ok env m4 \<and> frame ?i m m4"
    by (rule decode_data_ok [OF cont ok]) (use i next_processed [OF ok _ i(2,3)] Some in \<open>auto simp: prefix_Some\<close>)
  then obtain m4 where m4: "decode_data cont env (Some i) data e CanStartFromCurrent m = Some m4" "chain_ok env m4" "frame ?i m m4"
    by blast
  have "m_iteration_state (dec m4 i) = IterContinue" if "m_end_stream (dec m i)"
  proof (cases "m_iterate_from_current_filter (dec m i)")
    case True
    with decode_data_ended [OF that _ True i(1) m4(1)] i(4) show ?thesis by (simp add: stopped_all_def)
  next
    case False
    with m4(3) i(4) show ?thesis by (simp add: frameD(2))
  qed
  with m4 frame_mono [OF m4(3), of i] Some show ?thesis by (simp add: do_data_def)
qed (simp add: ok i)

lemma continue_trailers_ok:
  assumes ok: "chain_ok env m" and i: "i < n_dec m" "m_processed_headers (dec m i)"
      "Suc i < n_dec m \<Longrightarrow> m_processed_headers (dec m (Suc i))"
      "m_iteration_state (dec m i) = StopSingleIteration \<Longrightarrow> b"
    and cont: "resumes cont (Suc i) b (n_dec m)" and tr: "request_trailers m"
  shows "\<exists>m5. do_trailers cont env Decoding i m = Some m5 \<and> chain_ok env m5 \<and> frame i m m5"
proof -
  let ?i = "if m_iterate_from_current_filter (dec m i) then i else Suc i"
  have "\<exists>m5. decode_trailers cont env (Some i) m = Some m5 \<and> chain_ok env m5 \<and> frame ?i m m5"
    by (rule decode_trailers_ok [OF cont ok tr]) (use i in \<open>auto simp: prefix_Some\<close>)
  then show ?thesis using frame_mono [of ?i _ _ i] by (auto simp: do_trailers_def)
qed

lemma continue_step_ok:
  assumes ok: "chain_ok env m" and i: "i < n_dec m" "m_processed_headers (dec m i)"
      "m_iteration_state (dec m i) \<noteq> IterContinue"
    and cont: "resumes cont (Suc i) (\<not> m_end_stream (dec m i)) (n_dec m)"
  shows "\<exists>m'. common_continue_step cont env Decoding i m = Some m' \<and> chain_ok env m' \<and> frame i m m'"
proof (cases "m_decoder_filter_chain_aborted m")
  case True
  then show ?thesis using ok by (simp add: common_continue_step_def)
next
  case False
  define c where "c = (stopped_all (dec m i) \<or> m_iterate_from_current_filter (dec m i))"
  define m2 where "m2 = m\<lparr> m_decoder_filters := (m_decoder_filters m)[i := (dec m i)
       \<lparr> m_iteration_state := IterContinue, m_iterate_from_current_filter := c \<rparr>] \<rparr>"
  define m3' where "m3' = upd_filter Decoding i (\<lambda>f. f\<lparr> m_headers_continued := True \<rparr>) m2"
  have allow: "allow_iteration Decoding i (if stopped_all (filters Decoding m ! i)
      then upd_filter Decoding i (\<lambda>f. f\<lparr> m_iterate_from_current_filter := True \<rparr>) m else m) = Some m2"
    using i by (auto simp: allow_iteration_def m2_def c_def base_upd_comm)
  obtain m3 where m3: "(if \<not> m_headers_continued (dec m2 i) then do_headers cont env Decoding i
        (observed_end_stream Decoding m3' \<and> buffered_data Decoding m3' = None \<and> \<not> has_trailers Decoding m3') m3'
        else Some m2) = Some m3" "chain_ok env m3" "frame i m m3"
    "dec m3 i = (dec m i)\<lparr> m_iteration_state := IterContinue, m_iterate_from_current_filter := c, m_headers_continued := True \<rparr>"
    using continue_headers_ok [OF ok i(1,2) cont, where c = c, folded m2_def, folded m3'_def] by blast
  have n3: "n_dec m3 = n_dec m" using frameD(1) [OF m3(3)] .
  define e where "e = (observed_end_stream Decoding m3 \<and> \<not> has_trailers Decoding m3)"
  have "\<exists>m4. (case buffered_data Decoding m3 of None \<Rightarrow> Some m3 | Some data \<Rightarrow> do_data cont env Decoding i data e m3) = Some m4 \<and>
     chain_ok env m4 \<and> frame i m3 m4 \<and> (m_end_stream (dec m3 i) \<longrightarrow> m_iteration_state (dec m4 i) = IterContinue)"
    using m3(2,4) n3 i cont by (intro continue_data_ok) simp_all
  then obtain m4 where m4: "(case buffered_data Decoding m3 of None \<Rightarrow> Some m3 | Some data \<Rightarrow> do_data cont env Decoding i data e m3) = Some m4"
    "chain_ok env m4" "frame i m3 m4" "m_end_stream (dec m i) \<longrightarrow> m_iteration_state (dec m4 i) = IterContinue"
    using m3(4) by auto
  have n4: "n_dec m4 = n_dec m" using frameD(1) [OF m4(3)] n3 by simp
  have p4: "m_processed_headers (dec m4 i)" using frameD(7) [OF m4(3)] m3(4) n3 i by simp
  have "\<exists>m5. (if has_trailers Decoding m3 then do_trailers cont env Decoding i m4 else Some m4) = Some m5 \<and>
      chain_ok env m5 \<and> frame i m4 m5"
  proof (cases "request_trailers m3")
    case True
    have "\<exists>m5. do_trailers cont env Decoding i m4 = Some m5 \<and> chain_ok env m5 \<and> frame i m4 m5"
    proof (rule continue_trailers_ok [OF m4(2), where b = "\<not> m_end_stream (dec m i)"])
      show "m_processed_headers (dec m4 (Suc i))" if "Suc i < n_dec m4"
        using that next_processed [OF m3(2), of i] m3(4) i(2) n3 n4 frameD(7) [OF m4(3)] by simp
      show "request_trailers m4" using True frameD(4) [OF m4(3)] by simp
    qed (use n4 i p4 m4(4) cont in auto)
    with True show ?thesis by simp
  qed (use m4(2) in simp)
  then obtain m5 where m5: "(if has_trailers Decoding m3 then do_trailers cont env Decoding i m4 else Some m4) = Some m5"
    "chain_ok env m5" "frame i m4 m5" by blast
  define m' where "m' = upd_filter Decoding i (\<lambda>f. f\<lparr> m_iterate_from_current_filter := False \<rparr>) m5"
  have p5: "m_processed_headers (dec m5 i)" "i < n_dec m5" using frameD(1,7) [OF m5(3)] p4 n4 i by simp_all
  obtain r where r: "chain_at env r m5" "settled r m5" "i < r" using chain_ok_processed [OF m5(2) p5(2,1)] by blast
  have "chain_at env r m'"
    unfolding m'_def upd_filter_Decoding
    by (rule chain_at_update [OF r(1,3)]) (use r p5 in \<open>auto simp: chain_at_def\<close>)
  moreover have "settled r m'" unfolding m'_def upd_filter_Decoding using r by (intro settled_update) simp_all
  ultimately have "chain_ok env m'" by (auto simp: chain_ok_def)
  moreover have "frame i m m'"
  proof -
    have "frame i m5 m'" using p5 by (auto simp: m'_def frame_def nth_list_update)
    then show ?thesis using frame_trans m3(3) m4(3) m5(3) by blast
  qed
  moreover have "common_continue_step cont env Decoding i m = Some m'"
    using False allow m3(1) m4(1) m5(1)
    by (simp only: common_continue_step_def Let_def m3'_def e_def m'_def side_Decoding if_False not_False_eq_True
        if_True simp_thms bind.simps filters_Decoding)
  ultimately show ?thesis by blast
qed

text \<open>Fuel: continuing filter \<open>i\<close> continues later filters only, and itself at most once more, after it
  has seen the end of the stream.\<close>

lemma common_continue_ok:
  assumes "2 * (n_dec m - i) + (if m_end_stream (dec m i) then 0 else 1) < fuel"
    and "chain_ok env m" "i < n_dec m" "m_processed_headers (dec m i)" "m_iteration_state (dec m i) \<noteq> IterContinue"
  shows "\<exists>m'. common_continue fuel env Decoding i m = Some m' \<and> chain_ok env m' \<and> frame i m m'"
  using assms
proof (induction fuel arbitrary: i m)
  case (Suc fuel)
  have "resumes (common_continue fuel env) (Suc i) (\<not> m_end_stream (dec m i)) (n_dec m)"
    unfolding resumes_def
  proof (intro allI impI)
    fix j m1
    assume j: "Suc i \<le> j \<or> \<not> m_end_stream (dec m i) \<and> Suc j = Suc i \<and> m_end_stream (dec m1 j)" "j < n_dec m"
      "n_dec m1 = n_dec m" "m_processed_headers (dec m1 j)" "chain_ok env m1" "m_iteration_state (dec m1 j) \<noteq> IterContinue"
    have "2 * (n_dec m1 - j) + (if m_end_stream (dec m1 j) then 0 else 1) < fuel"
      using j(1-3) Suc.prems(1) by (auto split: if_splits)
    then show "\<exists>m'. common_continue fuel env Decoding j m1 = Some m' \<and> chain_ok env m' \<and> frame j m1 m'"
      using j by (intro Suc.IH) simp_all
  qed
  from continue_step_ok [OF Suc.prems(2-5) this] show ?case by simp
qed simp

lemma common_continue_resumes:
  assumes "2 * n + 1 < fuel"
  shows "resumes (common_continue fuel env) 0 b n"
  unfolding resumes_def using assms by (auto intro!: common_continue_ok)

end

end
