(* ===== verification/Filter_Manager_Props.thy ===== *)
theory Filter_Manager_Props
  imports Filter_Manager_Inv
begin

text \<open>
  What the filter chain promises for a whole request: the calls its owner makes, in any order the
  HTTP connection can make them, reach the filters in the order of the chain and always return.
  Beside it the chain of pass-through filters, \<^verbatim>\<open>src/src/rp-pass-through-filter.c\<close>, and the paths on
  which the manager calls a function that does not exist or finishes the wrong side.
\<close>

section \<open>Requests as sequences of calls\<close>

datatype request_call = RequestHeaders headers bool | RequestData string bool | RequestTrailers
  | ContinueDecoding nat | AddDecodedData nat string bool | LocalComplete | DownstreamReset | GoAway
  | ResetStream nat

text \<open>The codec hands data over in a buffer of its own.\<close>

definition new_buffer :: "string \<Rightarrow> fm \<Rightarrow> fm" where
  "new_buffer str m = m\<lparr> bufs := (bufs m)(next_buf m := str), next_buf := Suc (next_buf m) \<rparr>"

fun request_exec :: "nat \<Rightarrow> fm_env \<Rightarrow> request_call \<Rightarrow> fm \<Rightarrow> fm option" where
  "request_exec fuel env (RequestHeaders hs e) m =
     rp_filter_manager_decode_headers fuel env e (m\<lparr> request_headers := Some hs \<rparr>)"
| "request_exec fuel env (RequestData str e) m =
     rp_filter_manager_decode_data fuel env (next_buf m) e (new_buffer str m)"
| "request_exec fuel env RequestTrailers m =
     rp_filter_manager_decode_trailers fuel env (m\<lparr> request_trailers := True \<rparr>)"
| "request_exec fuel env (ContinueDecoding i) m = continue_decoding_i fuel env i m"
| "request_exec fuel env (AddDecodedData i str streaming) m =
     rp_filter_manager_add_decoded_data fuel env i (next_buf m) streaming (new_buffer str m)"
| "request_exec fuel env LocalComplete m = Some (set_local_complete m)"
| "request_exec fuel env DownstreamReset m = Some (on_downstream_reset m)"
| "request_exec fuel env GoAway m = Some (send_go_away_and_close env m)"
| "request_exec fuel env (ResetStream reason) m = Some (reset_stream env reason m)"

text \<open>The headers come first and once; data and trailers follow them; a filter continues itself only
  when it has stopped; trailers come only to filters that implement them.\<close>

definition takes_trailers :: "fm_env \<Rightarrow> nat \<Rightarrow> bool" where
  "takes_trailers env n =
     list_all (\<lambda>i. case filter_trailers env Decoding i of None \<Rightarrow> False | Some _ \<Rightarrow> True) [0 ..< n]"

lemma takes_trailers_iff: "takes_trailers env n = (\<forall>i < n. filter_trailers env Decoding i \<noteq> None)"
  by (auto simp: takes_trailers_def list_all_iff split: option.splits)

fun request_accepts :: "fm_env \<Rightarrow> request_call \<Rightarrow> fm \<Rightarrow> bool" where
  "request_accepts env (RequestHeaders hs e) m = (request_headers m = None)"
| "request_accepts env (RequestData str e) m = (request_headers m \<noteq> None)"
| "request_accepts env RequestTrailers m =
     (request_headers m \<noteq> None \<and> takes_trailers env (n_dec m))"
| "request_accepts env (ContinueDecoding i) m =
     (i < n_dec m \<and> m_iteration_state (dec m i) \<noteq> IterContinue)"
| "request_accepts env (AddDecodedData i str streaming) m = (m_filter_call_state m = 0)"
| "request_accepts env _ m = True"

definition request_ok :: "fm_env \<Rightarrow> nat \<Rightarrow> fm \<Rightarrow> bool" where
  "request_ok env n m =
     (chain_ok env m \<and> n_dec m = n \<and>
      (request_headers m \<noteq> None \<longrightarrow> 0 < n \<longrightarrow> m_processed_headers (dec m 0)))"

lemma chain_set_headers:
  "chain_ok env m \<Longrightarrow> request_headers m = None \<Longrightarrow> chain_at env 0 (m\<lparr> request_headers := Some hs \<rparr>)"
  by (auto simp: chain_ok_def chain_at_def)

lemma chain_set_trailers:
  assumes "chain_ok env m" "\<forall>i < n_dec m. filter_trailers env Decoding i \<noteq> None"
  shows "chain_ok env (m\<lparr> request_trailers := True \<rparr>)"
  using assms by (fastforce simp: chain_ok_def chain_at_def settled_def)

lemma chain_ok_upd:
  assumes "chain_ok env m"
  shows "chain_ok env (m\<lparr> m_observed_decode_end_stream := v5 \<rparr>)" "chain_ok env (new_buffer str m)"
    "chain_ok env (m\<lparr> m_observed_encode_end_stream := v5, m_decoder_filter_chain_aborted := v6 \<rparr>)"
    "chain_ok env (m\<lparr> m_saw_downstream_reset := v5 \<rparr>)"
    "chain_ok env (m\<lparr> m_decoder_filters_streaming := v5 \<rparr>)"
    "chain_ok env (m\<lparr> m_decoder_filter_chain_aborted := v6 \<rparr>)" "chain_ok env (m\<lparr> m_encoder_filter_chain_aborted := v6 \<rparr>)"
  using assms by (auto simp: chain_ok_def chain_at_def settled_def new_buffer_def)

lemma prefix_None: "common_decode_prefix None start m = [0 ..< n_dec m]"
  by (simp add: common_decode_prefix_def entries_from_def)

lemma request_ok_frame:
  assumes "request_ok env n m" "chain_ok env m'" "frame lo m m'"
  shows "request_ok env n m'"
  using assms frameD(1,3,7) [OF assms(3)] by (auto simp: request_ok_def)

context passive_filters
begin

lemma request_headers_step:
  assumes "request_ok env n m" "request_headers m = None" "2 * n + 1 < fuel"
  shows "\<exists>m'. request_exec fuel env (RequestHeaders hs e) m = Some m' \<and> request_ok env n m'"
proof -
  let ?m = "m\<lparr> request_headers := Some hs, m_observed_decode_end_stream := e \<rparr>"
  have "chain_at env 0 ?m" and n: "n_dec ?m = n"
    using chain_set_headers [of env m hs] assms(1,2) by (simp_all add: request_ok_def)
  moreover have "resumes (common_continue fuel env) 0 False (n_dec ?m)"
    using common_continue_resumes assms(3) n by simp
  ultimately obtain m' where "decode_headers (common_continue fuel env) env None e ?m = Some m'" "chain_ok env m'" "frame 0 ?m m'"
    "0 < n_dec ?m \<longrightarrow> m_processed_headers (dec m' 0)"
    using decode_headers_ok [of "common_continue fuel env" 0 False ?m None e] by (auto simp: prefix_None)
  then show ?thesis using n frameD(1) [of 0 ?m m']
    by (auto simp: rp_filter_manager_decode_headers_def request_ok_def)
qed

lemma request_data_step:
  assumes "request_ok env n m" "request_headers m \<noteq> None" "2 * n + 1 < fuel"
  shows "\<exists>m'. request_exec fuel env (RequestData str e) m = Some m' \<and> request_ok env n m'"
proof -
  let ?m = "(new_buffer str m)\<lparr> m_observed_decode_end_stream := e \<rparr>"
  have ok: "request_ok env n ?m" "request_headers ?m \<noteq> None"
    using assms(1,2) by (auto simp: request_ok_def chain_ok_upd) (simp_all add: new_buffer_def)
  have "resumes (common_continue fuel env) 0 False (n_dec ?m)"
    using common_continue_resumes assms(3) ok(1) by (simp add: request_ok_def)
  then have "\<exists>m'. decode_data (common_continue fuel env) env None (next_buf m) e CanStartFromCurrent ?m = Some m' \<and>
      chain_ok env m' \<and> frame 0 ?m m'"
    by (rule decode_data_ok) (use ok in \<open>auto simp: request_ok_def prefix_None\<close>)
  then show ?thesis using request_ok_frame [OF ok(1)] by (auto simp: rp_filter_manager_decode_data_def)
qed

lemma request_trailers_step:
  assumes "request_ok env n m" "request_accepts env RequestTrailers m" "2 * n + 1 < fuel"
  shows "\<exists>m'. request_exec fuel env RequestTrailers m = Some m' \<and> request_ok env n m'"
proof -
  let ?m = "m\<lparr> request_trailers := True \<rparr>"
  have ok: "request_ok env n ?m" "request_headers ?m \<noteq> None"
    using assms(1,2) chain_set_trailers [of env m] by (auto simp: request_ok_def takes_trailers_iff)
  have "resumes (common_continue fuel env) 0 False (n_dec ?m)"
    using common_continue_resumes assms(3) ok(1) by (simp add: request_ok_def)
  then have "\<exists>m'. decode_trailers (common_continue fuel env) env None ?m = Some m' \<and> chain_ok env m' \<and> frame 0 ?m m'"
    by (rule decode_trailers_ok) (use ok in \<open>auto simp: request_ok_def prefix_None\<close>)
  then show ?thesis using request_ok_frame [OF ok(1)] by (auto simp: rp_filter_manager_decode_trailers_def)
qed

lemma request_continue_step:
  assumes "request_ok env n m" "request_accepts env (ContinueDecoding i) m" "2 * n + 1 < fuel"
  shows "\<exists>m'. request_exec fuel env (ContinueDecoding i) m = Some m' \<and> request_ok env n m'"
proof -
  obtain r where r: "chain_at env r m" using assms(1) by (auto simp: request_ok_def chain_ok_def)
  have "m_processed_headers (dec m i)"
    using r assms(2) by (auto simp: chain_at_def filter_base_init_def)
  then have "\<exists>m'. common_continue fuel env Decoding i m = Some m' \<and> chain_ok env m' \<and> frame i m m'"
    using assms by (intro common_continue_ok) (auto simp: request_ok_def)
  then show ?thesis using request_ok_frame [OF assms(1)] by (auto simp: continue_decoding_i_def)
qed

lemma request_ok_flags:
  assumes "request_ok env n m"
  shows "request_ok env n (set_local_complete m)" "request_ok env n (on_downstream_reset m)"
    "request_ok env n (send_go_away_and_close env m)" "request_ok env n (reset_stream env reason m)"
proof -
  have "request_ok env n (abort_current_chain m)"
    using assms by (auto simp: request_ok_def abort_current_chain_def chain_ok_upd)
  moreover have "chain_ok env (cb env c m')" if "chain_ok env m'" for c m'
    using that by (simp add: chain_ok_def)
  ultimately show "request_ok env n (send_go_away_and_close env m)" "request_ok env n (reset_stream env reason m)"
    using request_ok_frame [where lo = 0] unfolding send_go_away_and_close_def reset_stream_def
    by (metis cb_chain(3) frame_refl request_ok_def)+
qed (use assms in \<open>simp_all add: request_ok_def set_local_complete_def on_downstream_reset_def chain_ok_upd\<close>)

lemma request_step:
  assumes "request_ok env n m" "request_accepts env c m" "2 * n + 1 < fuel"
  shows "\<exists>m'. request_exec fuel env c m = Some m' \<and> request_ok env n m'"
proof (cases c)
  case (AddDecodedData i str streaming)
  let ?m = "(new_buffer str m)\<lparr> m_decoder_filters_streaming := streaming \<rparr>"
  have ok: "request_ok env n ?m" using assms(1) by (auto simp: request_ok_def chain_ok_upd) (simp_all add: new_buffer_def)
  have "chain_ok env (common_handle_buffer_data Decoding (next_buf m) ?m)" "frame 0 ?m (common_handle_buffer_data Decoding (next_buf m) ?m)"
    using ok by (auto simp: request_ok_def chain_ok_def)
  with request_ok_frame [OF ok] have "request_ok env n (common_handle_buffer_data Decoding (next_buf m) ?m)" by blast
  moreover have "m_filter_call_state (new_buffer str m) = 0" using assms(2) AddDecodedData by (simp add: new_buffer_def)
  ultimately show ?thesis using AddDecodedData by (simp add: rp_filter_manager_add_decoded_data_def)
qed (use assms request_headers_step request_data_step request_trailers_step request_continue_step request_ok_flags in simp_all)

lemma request_init: "request_ok env n (rp_filter_manager_init n k)"
  by (auto simp: request_ok_def chain_ok_def chain_at_def settled_def rp_filter_manager_init_def filter_base_init_def
      intro!: exI [of _ 0])

end

sublocale passive_filters \<subseteq> requests: invariant_system
  "\<lambda>m. \<exists>k. m = rp_filter_manager_init n k" "request_accepts env" "request_exec (2 * n + 2) env" "request_ok env n"
  for n
  using request_init request_step by unfold_locales auto

section \<open>Pass-through filters\<close>

text \<open>A chain of filters that add nothing to \<open>RpPassThroughFilter\<close>: it has no \<open>decode_trailers\<close>, neither
  of its own nor from the default of the interface. The owner's callbacks do not touch the manager.\<close>

definition pass_through_env :: "bool \<Rightarrow> fm_env" where
  "pass_through_env half_close =
     \<lparr> is_half_close_enabled = half_close, cb = (\<lambda>_ m. m),
       filter_headers = (\<lambda>_ _ _ m. (HeadersContinue, m)), filter_data = (\<lambda>_ _ _ _ m. (DataContinue, m)),
       filter_trailers = (\<lambda>s _. case s of Decoding \<Rightarrow> None | Encoding \<Rightarrow> Some (\<lambda>m. (TrailersContinue, m))),
       filter_complete = (\<lambda>_ _ m. m) \<rparr>"

lemma unchanged_bufs: "\<exists>b. m = m\<lparr> bufs := b \<rparr>" for m :: fm
  by (rule exI [of _ "bufs m"]) simp

interpretation pass_through: passive_filters "pass_through_env half_close" for half_close
  by unfold_locales (auto simp: pass_through_env_def split: side.splits intro: unchanged_bufs)

text \<open>A chain in which the first filter buffers the whole body before it lets the request go on, and
  the others pass everything through.\<close>

definition buffering_env :: fm_env where
  "buffering_env = (pass_through_env False)
     \<lparr> filter_headers := (\<lambda>_ i e m. (if i = 0 \<and> \<not> e then HeadersStopIteration else HeadersContinue, m)),
       filter_data := (\<lambda>_ i _ e m. (if i = 0 \<and> \<not> e then StopIterationAndBuffer else DataContinue, m)),
       filter_trailers := (\<lambda>_ _. Some (\<lambda>m. (TrailersContinue, m))) \<rparr>"

interpretation buffering: passive_filters buffering_env
  by unfold_locales (auto simp: buffering_env_def pass_through_env_def split: if_splits intro: unchanged_bufs)

section \<open>Requests reach the filters in order\<close>

abbreviation request_run :: "fm_env \<Rightarrow> nat \<Rightarrow> nat \<Rightarrow> request_call list \<Rightarrow> fm option" where
  "request_run env n k cs \<equiv> run_calls (request_exec (2 * n + 2) env) cs (rp_filter_manager_init n k)"

abbreviation request_calls :: "fm_env \<Rightarrow> nat \<Rightarrow> nat \<Rightarrow> request_call list \<Rightarrow> bool" where
  "request_calls env n k cs \<equiv>
     accepted (request_accepts env) (request_exec (2 * n + 2) env) cs (rp_filter_manager_init n k)"

fun decoder_headers :: "filter_call list \<Rightarrow> nat list" where
  "decoder_headers [] = []"
| "decoder_headers (CallHeaders Decoding i e # cs) = i # decoder_headers cs"
| "decoder_headers (_ # cs) = decoder_headers cs"

fun after_headers :: "filter_call \<Rightarrow> nat option" where
  "after_headers (CallData Decoding i e) = Some i"
| "after_headers (CallTrailers Decoding i) = Some i"
| "after_headers (CallComplete Decoding i) = Some i"
| "after_headers _ = None"

lemma trace_headers: "trace r cs = Some r' \<Longrightarrow> decoder_headers cs = [r ..< r'] \<and> r \<le> r'"
  by (induction r cs rule: trace.induct) (auto simp: upt_conv_Cons split: if_splits)

lemma trace_after_headers:
  assumes "trace 0 (xs @ c # ys) = Some r" "after_headers c = Some i"
  shows "i \<in> set (decoder_headers xs)"
proof -
  obtain r1 where "trace 0 xs = Some r1" "trace r1 (c # ys) = Some r"
    using assms(1) by (auto simp: trace_append bind_eq_Some_conv)
  then show ?thesis using assms(2) trace_headers [of 0 xs r1]
    by (cases c rule: after_headers.cases) (auto split: if_splits)
qed

context passive_filters
begin

lemma request_run_ok:
  "request_calls env n k cs \<Longrightarrow> \<exists>m. request_run env n k cs = Some m \<and> request_ok env n m"
  using requests.run_inv [OF requests.init_inv] by blast

end

text \<open>C2. Whatever filters the chain has, as long as they act through the status they return, and
  whatever calls a request makes (headers, data, trailers, filters that continue after they stopped or
  add data, resets), every call returns: no assertion of the iteration fails, and the recursion
  between continuing a filter and iterating over the chain is never deeper than twice the length of
  the chain.\<close>

theorem requests_never_crash:
  assumes "passive_filters env" and "request_calls env n k cs"
  shows "\<exists>m. request_run env n k cs = Some m \<and> n_dec m = n"
  using passive_filters.request_run_ok [OF assms] by (auto simp: request_ok_def)

definition upload :: "request_call list" where
  "upload = [RequestHeaders (\<lambda>_. None) False, RequestData ''ab'' False, AddDecodedData 0 ''x'' True,
     RequestData ''cd'' False, ContinueDecoding 0, RequestTrailers]"

lemma upload_calls: "request_calls buffering_env 3 0 upload"
  by code_simp

theorem requests_never_crash_witness:
  "\<exists>m. request_run buffering_env 3 0 upload = Some m \<and> n_dec m = 3"
  using requests_never_crash [OF buffering.passive_filters_axioms upload_calls] .


lemma upload_run:
  "map_option fm_calls (request_run buffering_env 3 0 upload) =
     Some ([CallHeaders Decoding 0 False, CallData Decoding 0 False, CallData Decoding 0 False,
       CallHeaders Decoding 1 False, CallHeaders Decoding 2 False] @ CallData Decoding 1 False #
       [CallData Decoding 2 False, CallTrailers Decoding 0, CallTrailers Decoding 1, CallTrailers Decoding 2])"
  by code_simp


section \<open>A request through pass-through filters\<close>

abbreviation passed :: "bool \<Rightarrow> filter_base \<Rightarrow> filter_base" where
  "passed e f \<equiv> f\<lparr> m_end_stream := e, m_processed_headers := True, m_headers_continued := True \<rparr>"

definition clean :: "fm \<Rightarrow> bool" where
  "clean m = (\<not> m_decoder_filter_chain_aborted m \<and> m_buffered_request_data m = None \<and> response_headers m = None \<and>
     \<not> request_trailers m)"

lemma clean_upd [simp]:
  "clean (m\<lparr> m_decoder_filters := v1 \<rparr>) = clean m" "clean (m\<lparr> m_filter_call_state := v2 \<rparr>) = clean m"
  "clean (m\<lparr> fm_calls := v3 \<rparr>) = clean m" "clean (m\<lparr> m_latest_data_decoding_filter := v4 \<rparr>) = clean m"
  "clean (m\<lparr> m_decoder_filter_chain_complete := v5 \<rparr>) = clean m"
  "clean (m\<lparr> m_observed_decode_end_stream := v5 \<rparr>) = clean m"
  by (simp_all add: clean_def)

lemma pass_through_end:
  assumes "clean m"
  shows "maybe_end_decode (pass_through_env h) t m =
    m\<lparr> m_decoder_filter_chain_complete := m_decoder_filter_chain_complete m \<or> t \<rparr>"
  using assms
  by (auto simp: maybe_end_decode_def check_and_close_stream_if_fully_closed_def pass_through_env_def clean_def Let_def)

lemma pass_through_headers_turn:
  assumes "clean m" "i < n_dec m" "m_iteration_state (dec m i) = IterContinue"
  shows "\<exists>cs. decode_headers_turn (pass_through_env h) i e None m = Some (True, e,
     m\<lparr> m_decoder_filters := (m_decoder_filters m)[i := passed e (dec m i)], m_filter_call_state := cs,
        fm_calls := fm_calls m @ CallHeaders Decoding i e # (if e then [CallComplete Decoding i] else []) \<rparr>)"
  using assms
  by (cases m; cases e) (auto simp: decode_headers_turn_def call_headers_def call_complete_def pass_through_env_def clean_def Let_def
      set_call_state_def clear_call_state_def common_handle_after_headers_callback_def stopped_all_def)

lemma pass_through_data_turn:
  assumes "clean m" "i < n_dec m"
  shows "\<exists>cs l. decode_data_turn (pass_through_env h) i data e m = (DataContinue,
     m\<lparr> m_decoder_filters := (m_decoder_filters m)[i := (dec m i)\<lparr> m_end_stream := e \<rparr>], m_filter_call_state := cs,
        m_latest_data_decoding_filter := l,
        fm_calls := fm_calls m @ CallData Decoding i e # (if e then [CallComplete Decoding i] else []) \<rparr>)"
  using assms
  by (cases m; cases e) (auto simp: decode_data_turn_def call_data_def call_complete_def pass_through_env_def clean_def Let_def
      set_call_state_def clear_call_state_def)

abbreviation told :: "bool \<Rightarrow> nat \<Rightarrow> filter_call list" where
  "told e i \<equiv> if e then [CallComplete Decoding i] else []"

abbreviation map_from :: "('a \<Rightarrow> 'a) \<Rightarrow> nat \<Rightarrow> 'a list \<Rightarrow> 'a list" where
  "map_from f i xs \<equiv> take i xs @ map f (drop i xs)"

lemma map_from_step: "i < length xs \<Longrightarrow> map_from f (Suc i) (xs[i := f (xs ! i)]) = map_from f i xs"
  by (simp add: take_Suc_conv_app_nth flip: Cons_nth_drop_Suc)

lemma pass_through_headers_loop:
  "clean m \<Longrightarrow> n_dec m = n \<Longrightarrow> i \<le> n \<Longrightarrow> entries = [i ..< n] \<Longrightarrow>
   (\<forall>j < n. i \<le> j \<longrightarrow> m_iteration_state (dec m j) = IterContinue) \<Longrightarrow>
   \<exists>cs. decode_headers_loop cont (pass_through_env h) entries e None t m = Some
     (m\<lparr> m_decoder_filters := map_from (passed e) i (m_decoder_filters m), m_filter_call_state := cs,
         fm_calls := fm_calls m @ concat (map (\<lambda>j. CallHeaders Decoding j e # told e j) entries),
         m_decoder_filter_chain_complete := m_decoder_filter_chain_complete m \<or> (if i < n then e else t) \<rparr>)"
proof (induction entries arbitrary: i t m)
  case Nil
  have "disarm_request_timeout (pass_through_env h) m = m" by (simp add: disarm_request_timeout_def pass_through_env_def)
  moreover have "i = n" using Nil(3) Nil(4) [symmetric] by auto
  ultimately show ?case
    using Nil by (cases m) (auto simp: maybe_continue_decoding_def pass_through_end)
next
  case (Cons k rest)
  then have k: "k = i" "i < n" "rest = [Suc i ..< n]" by (auto simp: upt_rec [of i n] split: if_splits)
  obtain cs where turn: "decode_headers_turn (pass_through_env h) i e None m = Some (True, e,
     m\<lparr> m_decoder_filters := (m_decoder_filters m)[i := passed e (dec m i)], m_filter_call_state := cs,
        fm_calls := fm_calls m @ CallHeaders Decoding i e # told e i \<rparr>)" (is "_ = Some (True, e, ?m)")
    using pass_through_headers_turn [of m i h e] Cons.prems k(2) by auto
  have m: "clean ?m" "n_dec ?m = n" "Suc i \<le> n" "\<forall>j < n. Suc i \<le> j \<longrightarrow> m_iteration_state (dec ?m j) = IterContinue"
    using Cons.prems k(2) by (auto simp: nth_list_update)
  have f: "\<not> m_decoder_filter_chain_aborted ?m" "m_buffered_request_data ?m = None" "m_end_stream (dec ?m i) = e"
    using Cons.prems(1,2) k(2) by (simp_all add: clean_def)
  have "decode_headers_loop cont (pass_through_env h) (k # rest) e None t m =
      decode_headers_loop cont (pass_through_env h) rest e None (rest = [] \<and> e) ?m"
    using turn f unfolding k(1) by (simp add: Let_def)
  moreover obtain cs' where "decode_headers_loop cont (pass_through_env h) rest e None (rest = [] \<and> e) ?m = Some
     (?m\<lparr> m_decoder_filters := map_from (passed e) (Suc i) (m_decoder_filters ?m), m_filter_call_state := cs',
         fm_calls := fm_calls ?m @ concat (map (\<lambda>j. CallHeaders Decoding j e # told e j) rest),
         m_decoder_filter_chain_complete := m_decoder_filter_chain_complete ?m \<or> (if Suc i < n then e else rest = [] \<and> e) \<rparr>)"
    using Cons.IH [OF m(1-3) k(3) m(4), of "rest = [] \<and> e"] by blast
  moreover have "(if Suc i < n then e else rest = [] \<and> e) = e" using k by auto
  moreover have "map_from (passed e) (Suc i) (m_decoder_filters ?m) = map_from (passed e) i (m_decoder_filters m)"
    using map_from_step [of i "m_decoder_filters m" "passed e"] k(2) Cons.prems(2) by simp
  ultimately show ?case using k by (intro exI [of _ cs']) simp
qed

abbreviation ended :: "bool \<Rightarrow> filter_base \<Rightarrow> filter_base" where
  "ended e f \<equiv> f\<lparr> m_end_stream := e \<rparr>"

definition open_filter :: "filter_base \<Rightarrow> bool" where
  "open_filter f = (m_iteration_state f = IterContinue \<and> m_headers_continued f \<and> \<not> m_end_stream f)"

lemma pass_through_data_loop:
  "clean m \<Longrightarrow> n_dec m = n \<Longrightarrow> i \<le> n \<Longrightarrow> entries = [i ..< n] \<Longrightarrow> (\<forall>j < n. i \<le> j \<longrightarrow> open_filter (dec m j)) \<Longrightarrow>
   \<exists>cs l. decode_data_loop cont (pass_through_env h) data False entries e None t m = Some
     (m\<lparr> m_decoder_filters := map_from (ended e) i (m_decoder_filters m), m_filter_call_state := cs,
         m_latest_data_decoding_filter := l,
         fm_calls := fm_calls m @ concat (map (\<lambda>j. CallData Decoding j e # told e j) entries),
         m_decoder_filter_chain_complete := m_decoder_filter_chain_complete m \<or> (if i < n then e else t) \<rparr>)"
proof (induction entries arbitrary: i t m)
  case Nil
  have "disarm_request_timeout (pass_through_env h) m = m" by (simp add: disarm_request_timeout_def pass_through_env_def)
  moreover have "i = n" using Nil(3) Nil(4) [symmetric] by auto
  ultimately show ?case
    using Nil by (cases m) (auto simp: decode_data_end_def pass_through_end)
next
  case (Cons k rest)
  then have k: "k = i" "i < n" "rest = [Suc i ..< n]" by (auto simp: upt_rec [of i n] split: if_splits)
  obtain cs l where turn: "decode_data_turn (pass_through_env h) i data e m = (DataContinue,
     m\<lparr> m_decoder_filters := (m_decoder_filters m)[i := ended e (dec m i)], m_filter_call_state := cs,
        m_latest_data_decoding_filter := l,
        fm_calls := fm_calls m @ CallData Decoding i e # told e i \<rparr>)" (is "_ = (DataContinue, ?m)")
    using pass_through_data_turn [of m i h data e] Cons.prems k(2) by auto
  have m: "clean ?m" "n_dec ?m = n" "Suc i \<le> n" "\<forall>j < n. Suc i \<le> j \<longrightarrow> open_filter (dec ?m j)"
    using Cons.prems k(2) by (auto simp: nth_list_update)
  have f: "\<not> m_decoder_filter_chain_aborted ?m" "\<not> request_trailers ?m" using m(1) by (simp_all add: clean_def)
  have d: "open_filter (dec m i)" "m_iteration_state (dec ?m i) = IterContinue" "m_headers_continued (dec ?m i)"
    using Cons.prems(2,5) k(2) by (simp_all add: open_filter_def)
  have "decode_data_loop cont (pass_through_env h) data False (k # rest) e None t m =
      decode_data_loop cont (pass_through_env h) data False rest e None (e \<and> rest = []) ?m"
    using turn f d unfolding k(1)
    by (simp add: Let_def handle_data_if_stop_all_def stopped_all_def open_filter_def common_handle_after_data_callback_def)
  moreover obtain cs' l' where "decode_data_loop cont (pass_through_env h) data False rest e None (e \<and> rest = []) ?m = Some
     (?m\<lparr> m_decoder_filters := map_from (ended e) (Suc i) (m_decoder_filters ?m), m_filter_call_state := cs',
         m_latest_data_decoding_filter := l',
         fm_calls := fm_calls ?m @ concat (map (\<lambda>j. CallData Decoding j e # told e j) rest),
         m_decoder_filter_chain_complete := m_decoder_filter_chain_complete ?m \<or> (if Suc i < n then e else e \<and> rest = []) \<rparr>)"
    using Cons.IH [OF m(1-3) k(3) m(4), of "e \<and> rest = []"] by blast
  moreover have "(if Suc i < n then e else e \<and> rest = []) = e" using k by auto
  moreover have "map_from (ended e) (Suc i) (m_decoder_filters ?m) = map_from (ended e) i (m_decoder_filters m)"
    using map_from_step [of i "m_decoder_filters m" "ended e"] k(2) Cons.prems(2) by simp
  ultimately show ?case using k by (intro exI [of _ cs'] exI [of _ l']) simp
qed

lemma if_True_False: "(if P then True else False) = P"
  by simp

lemma pass_through_headers_run:
  "\<exists>m. request_exec fuel (pass_through_env h) (RequestHeaders hs False) (rp_filter_manager_init n k) = Some m \<and>
     clean m \<and> m_decoder_filters m = replicate n (passed False filter_base_init) \<and>
     fm_calls m = map (\<lambda>i. CallHeaders Decoding i False) [0 ..< n] \<and> next_buf m = 0 \<and>
     \<not> m_decoder_filter_chain_complete m"
proof -
  define m0 where "m0 = (rp_filter_manager_init n k)\<lparr> request_headers := Some hs, m_observed_decode_end_stream := False \<rparr>"
  have m0: "clean m0" "m_decoder_filters m0 = replicate n filter_base_init" "fm_calls m0 = []"
    "next_buf m0 = 0" "\<not> m_decoder_filter_chain_complete m0"
    by (simp_all add: m0_def clean_def rp_filter_manager_init_def)
  obtain cs where "decode_headers_loop (common_continue fuel (pass_through_env h)) (pass_through_env h) [0 ..< n] False None False m0 = Some
     (m0\<lparr> m_decoder_filters := replicate n (passed False filter_base_init), m_filter_call_state := cs,
          fm_calls := map (\<lambda>i. CallHeaders Decoding i False) [0 ..< n], m_decoder_filter_chain_complete := False \<rparr>)"
    using pass_through_headers_loop [of m0 n 0 "[0 ..< n]" "common_continue fuel (pass_through_env h)" h False False] m0
    by (auto simp: filter_base_init_def map_replicate concat_map_singleton)
  moreover have "request_exec fuel (pass_through_env h) (RequestHeaders hs False) (rp_filter_manager_init n k) =
      decode_headers_loop (common_continue fuel (pass_through_env h)) (pass_through_env h) [0 ..< n] False None False m0"
    using m0 by (auto simp: rp_filter_manager_decode_headers_def decode_headers_def prefix_None simp flip: m0_def)
  ultimately show ?thesis using m0 by simp
qed

lemma pass_through_data_run:
  assumes "clean m" "m_decoder_filters m = replicate n (passed False filter_base_init)" "\<not> m_decoder_filter_chain_complete m"
  shows "\<exists>m'. request_exec fuel (pass_through_env h) (RequestData body True) m = Some m' \<and>
     fm_calls m' = fm_calls m @ concat (map (\<lambda>i. [CallData Decoding i True, CallComplete Decoding i]) [0 ..< n]) \<and>
     bufs m' (next_buf m) = body \<and> m_decoder_filter_chain_complete m' = (0 < n)"
proof -
  let ?cont = "common_continue fuel (pass_through_env h)"
  define m1 where "m1 = (new_buffer body m)\<lparr> m_observed_decode_end_stream := True \<rparr>"
  have m1: "clean m1" "m_decoder_filters m1 = replicate n (passed False filter_base_init)" "bufs m1 (next_buf m) = body"
    "fm_calls m1 = fm_calls m" "\<not> m_decoder_filter_chain_complete m1"
    using assms by (simp_all add: m1_def new_buffer_def clean_def)
  obtain cs l where "decode_data_loop ?cont (pass_through_env h) (next_buf m) False [0 ..< n] True None False m1 = Some
     (m1\<lparr> m_decoder_filters := map (ended True) (m_decoder_filters m1), m_filter_call_state := cs,
         m_latest_data_decoding_filter := l,
         fm_calls := fm_calls m1 @ concat (map (\<lambda>j. [CallData Decoding j True, CallComplete Decoding j]) [0 ..< n]),
         m_decoder_filter_chain_complete := 0 < n \<rparr>)"
    using pass_through_data_loop [of m1 n 0 "[0 ..< n]" ?cont h "next_buf m" True False] m1
    by (auto simp: open_filter_def filter_base_init_def if_True_False)
  moreover have "request_exec fuel (pass_through_env h) (RequestData body True) m =
      decode_data_loop ?cont (pass_through_env h) (next_buf m) False [0 ..< n] True None False m1"
    using m1(1,2) by (auto simp: rp_filter_manager_decode_data_def decode_data_def prefix_None pass_through_env_def clean_def
        simp flip: m1_def)
  ultimately show ?thesis using m1 by simp
qed

text \<open>C20. A request with a body that passes a chain of pass-through filters: each of them gets the
  headers, then each of them gets the body with the end of the stream and is told that the request is
  complete, in the order of the chain; the body itself is untouched, and the chain is complete.\<close>

theorem pass_through_request:
  "\<exists>m. request_run (pass_through_env half_close) n k [RequestHeaders hs False, RequestData body True] = Some m \<and>
     fm_calls m = map (\<lambda>i. CallHeaders Decoding i False) [0 ..< n] @
       concat (map (\<lambda>i. [CallData Decoding i True, CallComplete Decoding i]) [0 ..< n]) \<and>
     bufs m 0 = body \<and> m_decoder_filter_chain_complete m = (0 < n)"
proof -
  obtain m where m: "request_exec (2 * n + 2) (pass_through_env half_close) (RequestHeaders hs False)
       (rp_filter_manager_init n k) = Some m"
    "clean m" "m_decoder_filters m = replicate n (passed False filter_base_init)"
    "fm_calls m = map (\<lambda>i. CallHeaders Decoding i False) [0 ..< n]" "next_buf m = 0" "\<not> m_decoder_filter_chain_complete m"
    using pass_through_headers_run [of "2 * n + 2" half_close hs n k] by blast
  then show ?thesis
    using pass_through_data_run [OF m(2,3,6), of "2 * n + 2" half_close body]
    by (auto simp del: request_exec.simps)
qed

section \<open>Where the manager goes wrong\<close>

text \<open>C36. A response whose filters have stopped cannot be continued when the request had trailers: the
  wrapper of an encoder filter asks for the trailers of the request, and then calls its \<open>do_trailers\<close>,
  a function pointer that is never set.\<close>

theorem continue_encoding_crashes:
  assumes "request_trailers m" and "\<not> m_encoder_filter_chain_complete m" and "i < length (m_encoder_filters m)"
    and "m_iteration_state (m_encoder_filters m ! i) \<noteq> IterContinue" and "m_headers_continued (m_encoder_filters m ! i)"
    and "m_buffered_response_data m = None"
  shows "continue_encoding_i fuel env i m = None"
proof (cases fuel)
  case (Suc f)
  show ?thesis
    using assms unfolding Suc
    by (auto simp: continue_encoding_i_def common_continue_step_def allow_iteration_def can_continue_def
        filters_def upd_filter_def has_trailers_def buffered_data_def do_trailers_def Let_def)
qed (simp add: continue_encoding_i_def)

text \<open>A response through one encoder filter that passes the headers on and waits with the data.\<close>

definition waiting_env :: fm_env where
  "waiting_env = (pass_through_env False)\<lparr> filter_data := (\<lambda>_ _ _ _ m. (StopIterationNoBuffer, m)) \<rparr>"

definition waiting_response :: "fm option" where
  "waiting_response =
     do { m \<leftarrow> encode_headers_i 4 waiting_env 0 (\<lambda>_. None) False ((rp_filter_manager_init 1 1)\<lparr> request_trailers := True \<rparr>);
          encode_data_i 4 waiting_env 0 (next_buf m) False (new_buffer ''hello'' m) }"

lemma waiting_response_state:
  "case waiting_response of None \<Rightarrow> False
   | Some m \<Rightarrow> request_trailers m \<and> \<not> m_encoder_filter_chain_complete m \<and> length (m_encoder_filters m) = 1 \<and>
       m_iteration_state (m_encoder_filters m ! 0) = StopSingleIteration \<and> m_headers_continued (m_encoder_filters m ! 0) \<and>
       Option.is_none (m_buffered_response_data m)"
  by code_simp

theorem continue_encoding_crashes_witness:
  "\<exists>m. waiting_response = Some m \<and> continue_encoding_i 4 waiting_env 0 m = None"
proof -
  obtain m where m: "waiting_response = Some m"
    using waiting_response_state by (cases waiting_response) simp_all
  have "continue_encoding_i 4 waiting_env 0 m = None"
    by (rule continue_encoding_crashes) (use waiting_response_state in \<open>auto simp: m Option.is_none_def split: option.splits\<close>)
  with m show ?thesis by blast
qed

text \<open>Trailers that a filter adds while the last data of a request passes it are lost, and the
  chain never completes: the code means to call \<open>decode_trailers\<close> from that filter on and calls it on
  the manager. Here the first of two filters adds trailers; the second gets the data without the end of
  the stream and nothing afterwards.\<close>

definition adding_env :: fm_env where
  "adding_env = (pass_through_env False)
     \<lparr> filter_data := (\<lambda>_ i _ e m. (DataContinue, if i = 0 \<and> e then m\<lparr> request_trailers := True \<rparr> else m)),
       filter_trailers := (\<lambda>_ _. Some (\<lambda>m. (TrailersContinue, m))) \<rparr>"

theorem added_trailers_lost:
  "map_option (\<lambda>m. (fm_calls m, request_trailers m, m_decoder_filter_chain_complete m))
     (request_run adding_env 2 0 [RequestHeaders hs False, RequestData ''body'' True]) =
   Some ([CallHeaders Decoding 0 False, CallHeaders Decoding 1 False, CallData Decoding 0 True,
          CallComplete Decoding 0, CallData Decoding 1 False], True, False)"
  by code_simp

end
