(* ===== verification/Cluster_Manager.thy ===== *)
theory Cluster_Manager
  imports RP_Prelude "HOL-Library.AList"
begin

text \<open>
  Loading and updating clusters, \<^verbatim>\<open>src/src/upstream/rp-cluster-manager-impl.c\<close>, with the helper that
  waits for them, \<^verbatim>\<open>rp-cluster-manager-init-helper.c\<close>, the cluster data \<^verbatim>\<open>rp-cluster-data.c\<close>, the base of
  clusters \<^verbatim>\<open>rp-cluster-impl-base.c\<close> and the choice of their kind \<^verbatim>\<open>rp-cluster-factory-impl.c\<close>. Cluster
  data are objects with reference counts, numbered in the order of their creation; using an object
  whose count is zero, a failed assertion and a call of a NULL slot are \<open>None\<close>. Updates posted to the
  workers are a list. The load balancer policy of a configuration and the DNS targets of a cluster are
  parameters.
\<close>

unbundle bit_operations_syntax

section \<open>Hash of a configuration\<close>

text \<open>The loop over the bytes of the record in memory.\<close>

definition fnv1a_64_step :: "guint64 \<Rightarrow> 8 word \<Rightarrow> guint64" where
  "fnv1a_64_step hash byte = (hash XOR ucast byte) * 0x100000001b3"

definition fnv1a_64_update :: "guint64 \<Rightarrow> 8 word list \<Rightarrow> guint64" where
  "fnv1a_64_update hash data = foldl fnv1a_64_step hash data"

definition FNV1A_64_INIT :: guint64 where
  "FNV1A_64_INIT = 0xcbf29ce484222325"

datatype RpDiscoveryType = STATIC | STRICT_DNS | LOCAL_DNS | EDS | ORIGINAL_DST

text \<open>\<open>RpClusterCfg\<close>: what the manager reads of it, and its bytes.\<close>

record cluster_cfg =
  cfg_name :: string
  cfg_cluster_type :: "string option"
  cfg_type :: RpDiscoveryType
  cfg_bytes :: "8 word list"

definition config_hash :: "cluster_cfg \<Rightarrow> guint64" where
  "config_hash cluster = fnv1a_64_update FNV1A_64_INIT (cfg_bytes cluster)"

section \<open>Clusters\<close>

datatype cluster_kind = StaticCluster | StrictDnsCluster | DfpCluster

definition rp_cluster_factory_impl_base_create :: "cluster_cfg \<Rightarrow> cluster_kind option" where
  "rp_cluster_factory_impl_base_create cluster =
     (case cfg_cluster_type cluster of
        Some cluster_name \<Rightarrow>
          if g_ascii_strcaseeq cluster_name ''rproxy.clusters.dynamic_forward_proxy'' then Some DfpCluster else None
      | None \<Rightarrow>
          (case cfg_type cluster of
             STATIC \<Rightarrow> Some StaticCluster
           | STRICT_DNS \<Rightarrow> Some StrictDnsCluster
           | _ \<Rightarrow> None))"

datatype RpInitializePhase = Primary | Secondary

text \<open>The slot \<open>initialize_phase\<close> of the interface: the static and the dynamic forward proxy cluster
  set it, the strict DNS cluster and its bases do not.\<close>

definition initialize_phase :: "cluster_kind \<Rightarrow> RpInitializePhase option" where
  "initialize_phase k =
     (case k of StaticCluster \<Rightarrow> Some Primary | DfpCluster \<Rightarrow> Some Primary | StrictDnsCluster \<Rightarrow> None)"

text \<open>Who waits for a cluster: the helper, with the cluster's data, or the manager, by name.\<close>

datatype init_cb = HelperCb nat | ManagerCb string

text \<open>\<open>RpClusterData\<close> with the fields of its cluster.\<close>

record cluster_data =
  cd_name :: string
  cd_kind :: cluster_kind
  cd_targets :: bool
  m_config_hash :: guint64
  m_added_via_api :: bool
  m_added_or_updated :: bool
  ref_count :: nat
  m_initialize_complete_callback :: "init_cb option"
  m_initialization_started :: bool
  m_pending_initialize_health_checks :: guint64

definition rp_cluster_data_block_update :: "cluster_data \<Rightarrow> guint64 \<Rightarrow> bool" where
  "rp_cluster_data_block_update self hash = (\<not> m_added_via_api self \<or> m_config_hash self = hash)"

section \<open>State\<close>

datatype init_state = Loading | WaitingForPrimaryInitializationToComplete
  | WaitingToStartSecondaryInitialization | WaitingToStartCdsInitialization | CdsInitialized
  | AllClustersInitialized

datatype cluster_table = WarmingClusters | ActiveClusters | PrimaryInitClusters

text \<open>\<open>struct _RpClusterManagerImpl\<close> and \<open>struct _RpClusterManagerInitHelper\<close>. The three hash tables own
  a reference to each of their values. \<open>posts\<close> are the updates sent to the workers, with whether they
  add the cluster.\<close>

record cluster_manager =
  tables :: "cluster_table \<Rightarrow> (string \<times> nat) list"
  cdata :: "nat \<Rightarrow> cluster_data"
  next_data :: nat
  h_state :: init_state
  m_started_secondary_initialize :: bool
  m_cds :: bool
  m_local_cluster_name :: "string option"
  m_initialized :: bool
  posts :: "(nat \<times> bool) list"

definition blank_data :: cluster_data where
  "blank_data = \<lparr> cd_name = [], cd_kind = StaticCluster, cd_targets = False, m_config_hash = 0,
     m_added_via_api = False, m_added_or_updated = False, ref_count = 0, m_initialize_complete_callback = None,
     m_initialization_started = False, m_pending_initialize_health_checks = 0 \<rparr>"

definition rp_cluster_manager_impl_init :: cluster_manager where
  "rp_cluster_manager_impl_init =
     \<lparr> tables = (\<lambda>_. []), cdata = (\<lambda>_. blank_data), next_data = 0, h_state = Loading,
       m_started_secondary_initialize = False, m_cds = False, m_local_cluster_name = None,
       m_initialized = False, posts = [] \<rparr>"

record cluster_env =
  cluster_provided_lb :: "cluster_cfg \<Rightarrow> bool"
  resolve_targets :: "cluster_cfg \<Rightarrow> bool"
  hash_order :: "(string \<times> nat) list \<Rightarrow> (string \<times> nat) list"

abbreviation lookup :: "cluster_table \<Rightarrow> string \<Rightarrow> cluster_manager \<Rightarrow> nat option" where
  "lookup t k m \<equiv> map_of (tables m t) k"

definition upd_data :: "nat \<Rightarrow> (cluster_data \<Rightarrow> cluster_data) \<Rightarrow> cluster_manager \<Rightarrow> cluster_manager" where
  "upd_data i f m = m\<lparr> cdata := (cdata m)(i := f (cdata m i)) \<rparr>"

definition set_table :: "cluster_table \<Rightarrow> (string \<times> nat) list \<Rightarrow> cluster_manager \<Rightarrow> cluster_manager" where
  "set_table t xs m = m\<lparr> tables := (tables m)(t := xs) \<rparr>"

section \<open>References and tables\<close>

definition live :: "nat \<Rightarrow> cluster_manager \<Rightarrow> bool" where
  "live i m = (ref_count (cdata m i) \<noteq> 0)"

definition g_object_ref :: "nat \<Rightarrow> cluster_manager \<Rightarrow> cluster_manager option" where
  "g_object_ref i m =
     (if live i m then Some (upd_data i (\<lambda>d. d\<lparr> ref_count := ref_count d + 1 \<rparr>) m) else None)"

definition g_object_unref :: "nat \<Rightarrow> cluster_manager \<Rightarrow> cluster_manager option" where
  "g_object_unref i m =
     (if live i m then Some (upd_data i (\<lambda>d. d\<lparr> ref_count := ref_count d - 1 \<rparr>) m) else None)"

text \<open>The destroy function of the tables' values is \<open>g_object_unref\<close>.\<close>

definition g_hash_table_replace :: "cluster_table \<Rightarrow> string \<Rightarrow> nat \<Rightarrow> cluster_manager \<Rightarrow> cluster_manager option" where
  "g_hash_table_replace t k i m =
     do { m1 \<leftarrow> (case lookup t k m of None \<Rightarrow> Some m | Some old \<Rightarrow> g_object_unref old m);
          Some (set_table t (AList.update k i (tables m1 t)) m1) }"

definition g_hash_table_remove :: "cluster_table \<Rightarrow> string \<Rightarrow> cluster_manager \<Rightarrow> cluster_manager option" where
  "g_hash_table_remove t k m =
     (case lookup t k m of
        None \<Rightarrow> Some m
      | Some old \<Rightarrow> do { m1 \<leftarrow> g_object_unref old m; Some (set_table t (AList.delete k (tables m1 t)) m1) })"

section \<open>The helper\<close>

text \<open>No callback is ever registered with the helper, and its table of secondary clusters is NULL.\<close>

definition maybe_finish_initialize :: "cluster_manager \<Rightarrow> cluster_manager option" where
  "maybe_finish_initialize m =
     (if h_state m = Loading \<or> h_state m = WaitingToStartCdsInitialization then Some m
      else if \<not> (h_state m = WaitingToStartSecondaryInitialization \<or> h_state m = CdsInitialized \<or>
                 h_state m = WaitingForPrimaryInitializationToComplete) then None
      else if tables m PrimaryInitClusters \<noteq> [] then Some m
      else
        (let m1 = (if h_state m = WaitingForPrimaryInitializationToComplete
                   then m\<lparr> h_state := WaitingToStartCdsInitialization \<rparr> else m);
             m2 = m1\<lparr> m_started_secondary_initialize := False \<rparr>
         in Some (if h_state m2 = WaitingToStartCdsInitialization \<and> m_cds m2
                  then m2\<lparr> h_state := WaitingToStartCdsInitialization \<rparr>
                  else m2\<lparr> h_state := AllClustersInitialized \<rparr>)))"

definition rp_cluster_manager_init_helper_remove_cluster :: "nat \<Rightarrow> cluster_manager \<Rightarrow> cluster_manager option" where
  "rp_cluster_manager_init_helper_remove_cluster i m =
     (if \<not> live i m then None
      else if h_state m = AllClustersInitialized then Some m
      else
        do { m1 \<leftarrow> (if lookup PrimaryInitClusters (cd_name (cdata m i)) m = Some i
                     then g_hash_table_remove PrimaryInitClusters (cd_name (cdata m i)) m else Some m);
             maybe_finish_initialize m1 })"

section \<open>Initialised clusters\<close>

definition cluster_warming_to_active :: "string \<Rightarrow> cluster_manager \<Rightarrow> cluster_manager option" where
  "cluster_warming_to_active cluster_name m =
     do { i \<leftarrow> lookup WarmingClusters cluster_name m;
          m1 \<leftarrow> g_object_ref i m;
          m2 \<leftarrow> g_hash_table_replace ActiveClusters cluster_name i m1;
          g_hash_table_remove WarmingClusters cluster_name m2 }"

definition post_thread_local_cluster_update :: "nat \<Rightarrow> cluster_manager \<Rightarrow> cluster_manager option" where
  "post_thread_local_cluster_update i m =
     (if \<not> live i m then None
      else
        (let add_or_update_cluster = (\<not> m_added_or_updated (cdata m i))
         in Some ((upd_data i (\<lambda>d. d\<lparr> m_added_or_updated := True \<rparr>) m)
                    \<lparr> posts := posts m @ [(i, add_or_update_cluster)] \<rparr>)))"

text \<open>\<open>on_cluster_init\<close> of the manager. The load balancers of all kinds of clusters initialise without
  an error.\<close>

definition on_cluster_init :: "nat \<Rightarrow> cluster_manager \<Rightarrow> cluster_manager option" where
  "on_cluster_init i m =
     (if \<not> live i m then None
      else
        (let name = cd_name (cdata m i)
         in do { m1 \<leftarrow> (if lookup WarmingClusters name m \<noteq> None then cluster_warming_to_active name m else Some m);
                 post_thread_local_cluster_update i m1 }))"

definition helper_on_cluster_init :: "nat \<Rightarrow> cluster_manager \<Rightarrow> cluster_manager option" where
  "helper_on_cluster_init i m =
     (if h_state m = AllClustersInitialized then None
      else do { m1 \<leftarrow> on_cluster_init i m; rp_cluster_manager_init_helper_remove_cluster i m1 })"

definition rp_cluster_initialize_cb :: "string \<Rightarrow> cluster_manager \<Rightarrow> cluster_manager option" where
  "rp_cluster_initialize_cb cluster_name m =
     do { i \<leftarrow> lookup WarmingClusters cluster_name m; on_cluster_init i m }"

definition run_init_cb :: "init_cb \<Rightarrow> cluster_manager \<Rightarrow> cluster_manager option" where
  "run_init_cb c m =
     (case c of HelperCb i \<Rightarrow> helper_on_cluster_init i m | ManagerCb s \<Rightarrow> rp_cluster_initialize_cb s m)"

definition finish_initialization :: "nat \<Rightarrow> cluster_manager \<Rightarrow> cluster_manager option" where
  "finish_initialization i m =
     (if m_initialization_started (cdata m i) then
        do { snapped_callback \<leftarrow> m_initialize_complete_callback (cdata m i);
             run_init_cb snapped_callback (upd_data i (\<lambda>d. d\<lparr> m_initialize_complete_callback := None \<rparr>) m) }
      else None)"

definition on_init_done :: "nat \<Rightarrow> cluster_manager \<Rightarrow> cluster_manager option" where
  "on_init_done i m =
     (if m_pending_initialize_health_checks (cdata m i) = 0 then finish_initialization i m else Some m)"

definition rp_cluster_impl_base_on_pre_init_complete :: "nat \<Rightarrow> cluster_manager \<Rightarrow> cluster_manager option" where
  "rp_cluster_impl_base_on_pre_init_complete i m =
     (if m_initialization_started (cdata m i) then Some m
      else on_init_done i (upd_data i (\<lambda>d. d\<lparr> m_initialization_started := True \<rparr>) m))"

text \<open>The static and the dynamic forward proxy cluster are ready at once, a strict DNS cluster only if it
  has nothing to resolve.\<close>

definition start_pre_init :: "nat \<Rightarrow> cluster_manager \<Rightarrow> cluster_manager option" where
  "start_pre_init i m =
     (if cd_kind (cdata m i) = StrictDnsCluster \<and> cd_targets (cdata m i) then Some m
      else rp_cluster_impl_base_on_pre_init_complete i m)"

definition cluster_initialize :: "nat \<Rightarrow> init_cb \<Rightarrow> cluster_manager \<Rightarrow> cluster_manager option" where
  "cluster_initialize i c m =
     start_pre_init i (upd_data i (\<lambda>d. d\<lparr> m_initialize_complete_callback := Some c \<rparr>) m)"

section \<open>Adding clusters\<close>

definition rp_cluster_manager_init_helper_add_cluster :: "nat \<Rightarrow> cluster_manager \<Rightarrow> cluster_manager option" where
  "rp_cluster_manager_init_helper_add_cluster i m =
     (if h_state m = AllClustersInitialized \<or> \<not> live i m then None
      else
        (case initialize_phase (cd_kind (cdata m i)) of
           None \<Rightarrow> None
         | Some Secondary \<Rightarrow> Some m
         | Some Primary \<Rightarrow>
             do { m1 \<leftarrow> g_object_ref i m;
                  m2 \<leftarrow> g_hash_table_replace PrimaryInitClusters (cd_name (cdata m i)) i m1;
                  cluster_initialize i (HelperCb i) m2 }))"

definition on_static_load_complete :: "cluster_manager \<Rightarrow> cluster_manager option" where
  "on_static_load_complete m =
     maybe_finish_initialize (m\<lparr> h_state := WaitingForPrimaryInitializationToComplete \<rparr>)"

definition all_clusters_initialized :: "cluster_manager \<Rightarrow> bool" where
  "all_clusters_initialized m = (h_state m = AllClustersInitialized)"

datatype load_error = InvalidArgument | DuplicateCluster | LbNotSpecified

text \<open>\<open>load_cluster\<close>. All factories provide a load balancer with the cluster. The result is the data the
  new data replaced: the table has already given up its reference to it.\<close>

definition load_cluster ::
  "cluster_env \<Rightarrow> cluster_cfg \<Rightarrow> guint64 \<Rightarrow> bool \<Rightarrow> cluster_table \<Rightarrow> cluster_manager \<Rightarrow>
    ((load_error + nat option) \<times> cluster_manager) option" where
  "load_cluster env cluster cluster_hash added_via_api cluster_map m =
     (case rp_cluster_factory_impl_base_create cluster of
        None \<Rightarrow> Some (Inl InvalidArgument, m)
      | Some kind \<Rightarrow>
          (let name = cfg_name cluster in
           if \<not> added_via_api \<and> lookup cluster_map name m \<noteq> None then Some (Inl DuplicateCluster, m)
           else if \<not> cluster_provided_lb env cluster then Some (Inl LbNotSpecified, m)
           else
             (let i = next_data m;
                  d = blank_data\<lparr> cd_name := name, cd_kind := kind, cd_targets := resolve_targets env cluster,
                        m_config_hash := cluster_hash, m_added_via_api := added_via_api, ref_count := 1 \<rparr>;
                  result = lookup cluster_map name m
              in do { m1 \<leftarrow> g_hash_table_replace cluster_map name i (m\<lparr> cdata := (cdata m)(i := d), next_data := Suc i \<rparr>);
                      Some (Inr result, m1) })))"

fun load_rules :: "cluster_env \<Rightarrow> cluster_cfg list \<Rightarrow> cluster_manager \<Rightarrow> cluster_manager option" where
  "load_rules env [] m = Some m"
| "load_rules env (cluster # clusters) m =
     do { (result, m1) \<leftarrow> load_cluster env cluster (config_hash cluster) False ActiveClusters m;
          m2 \<leftarrow> (case result of Inr (Some previous) \<Rightarrow> g_object_unref previous m1 | _ \<Rightarrow> Some m1);
          load_rules env clusters m2 }"

fun add_each :: "(string \<times> nat) list \<Rightarrow> cluster_manager \<Rightarrow> cluster_manager option" where
  "add_each [] m = Some m"
| "add_each ((_, i) # rest) m = do { m1 \<leftarrow> rp_cluster_manager_init_helper_add_cluster i m; add_each rest m1 }"

text \<open>\<open>initialize_i\<close>: one cluster for each rule of the configuration, then all of them in the order in
  which the table enumerates them.\<close>

definition initialize_i :: "cluster_env \<Rightarrow> cluster_cfg list \<Rightarrow> cluster_manager \<Rightarrow> (bool \<times> cluster_manager) option" where
  "initialize_i env rules m =
     (if m_initialized m then None
      else
        do { m1 \<leftarrow> load_rules env rules (m\<lparr> m_initialized := True \<rparr>);
             let local = (case m_local_cluster_name m1 of None \<Rightarrow> None | Some [] \<Rightarrow> None | Some n \<Rightarrow> Some n);
             (case local of
                Some n \<Rightarrow>
                  (case lookup ActiveClusters n m1 of
                     None \<Rightarrow> Some (False, m1)
                   | Some i \<Rightarrow>
                       if m_added_or_updated (cdata m1 i) then None
                       else
                         do { m2 \<leftarrow> add_each (hash_order env (tables m1 ActiveClusters))
                                       (upd_data i (\<lambda>d. d\<lparr> m_added_or_updated := True \<rparr>) m1);
                              m3 \<leftarrow> on_static_load_complete m2;
                              Some (True, m3) })
              | None \<Rightarrow>
                  do { m2 \<leftarrow> add_each (hash_order env (tables m1 ActiveClusters)) m1;
                       m3 \<leftarrow> on_static_load_complete m2;
                       Some (True, m3) }) })"

definition add_or_update_cluster_i ::
  "cluster_env \<Rightarrow> cluster_cfg \<Rightarrow> cluster_manager \<Rightarrow> (bool \<times> cluster_manager) option" where
  "add_or_update_cluster_i env cluster m =
     (let cluster_name = cfg_name cluster;
          existing_active_cluster = lookup ActiveClusters cluster_name m;
          existing_warming_cluster = lookup WarmingClusters cluster_name m;
          new_hash = config_hash cluster;
          blocked = (case existing_warming_cluster of
                       Some i \<Rightarrow> rp_cluster_data_block_update (cdata m i) new_hash
                     | None \<Rightarrow> (case existing_active_cluster of
                                  Some i \<Rightarrow> rp_cluster_data_block_update (cdata m i) new_hash
                                | None \<Rightarrow> False))
      in if blocked then Some (False, m)
         else
           do { m1 \<leftarrow> (case existing_active_cluster of
                          Some i \<Rightarrow> rp_cluster_manager_init_helper_remove_cluster i m | None \<Rightarrow> Some m);
                let all_initialized = all_clusters_initialized m1;
                (previous_cluster, m2) \<leftarrow> load_cluster env cluster (config_hash cluster) True WarmingClusters m1;
                m3 \<leftarrow> (case lookup WarmingClusters cluster_name m2 of
                          None \<Rightarrow> Some m2
                        | Some cluster_entry \<Rightarrow>
                            if \<not> all_initialized then rp_cluster_manager_init_helper_add_cluster cluster_entry m2
                            else cluster_initialize cluster_entry (ManagerCb cluster_name) m2);
                m4 \<leftarrow> (case previous_cluster of Inr (Some previous) \<Rightarrow> g_object_unref previous m3 | _ \<Rightarrow> Some m3);
                Some (True, m4) })"

end
