(* ===== verification/Cluster_Manager_Props.thy ===== *)
theory Cluster_Manager_Props
  imports Cluster_Manager
begin

text \<open>
  What the cluster manager promises: start-up ends with every configured cluster active and announced
  once, updates afterwards keep its tables and the reference counts of the clusters' data consistent,
  a cluster serves only after it is ready, and a changed configuration is noticed. Beside it the two
  ways in which it goes wrong.
\<close>

section \<open>The hash of configurations\<close>

definition fnv_inverse :: guint64 where
  "fnv_inverse = 0xce965057aff6957b"

lemma fnv_prime_inverse: "(0x100000001b3 :: guint64) * fnv_inverse = 1"
  by (simp add: fnv_inverse_def)

lemma fnv_mult_inj: "x * (0x100000001b3 :: guint64) = y * 0x100000001b3 \<longleftrightarrow> x = y"
proof
  assume "x * (0x100000001b3 :: guint64) = y * 0x100000001b3"
  then have "x * 0x100000001b3 * fnv_inverse = y * 0x100000001b3 * fnv_inverse" by (rule arg_cong)
  then show "x = y" by (simp only: mult.assoc fnv_prime_inverse mult_1_right)
qed simp

lemma xor_cancel: "(x :: guint64) XOR z = y XOR z \<longleftrightarrow> x = y" "(z :: guint64) XOR x = z XOR y \<longleftrightarrow> x = y"
  by (auto simp: bit_eq_iff bit_xor_iff)

lemma ucast_byte_inj: "(ucast (a :: 8 word) :: guint64) = ucast b \<longleftrightarrow> a = b"
proof
  assume "(ucast a :: guint64) = ucast b"
  then have "unat (ucast a :: guint64) = unat (ucast b :: guint64)" by simp
  moreover have "take_bit 64 (unat x) = unat x" for x :: "8 word"
    by (rule take_bit_nat_eq_self) (rule less_le_trans [OF unsigned_less [of x]], simp)
  ultimately have "unat a = unat b" by (simp add: unsigned_ucast_eq)
  then show "a = b" by (rule unsigned_word_eqI)
qed simp

lemma fnv1a_64_step_inj: "fnv1a_64_step h a = fnv1a_64_step h' a \<longleftrightarrow> h = h'"
  by (simp only: fnv1a_64_step_def fnv_mult_inj xor_cancel)

lemma fnv1a_64_step_byte: "fnv1a_64_step h a = fnv1a_64_step h b \<longleftrightarrow> a = b"
  by (simp only: fnv1a_64_step_def fnv_mult_inj xor_cancel ucast_byte_inj)

lemma fnv1a_64_update_inj: "fnv1a_64_update h xs = fnv1a_64_update h' xs \<longleftrightarrow> h = h'"
  by (induction xs arbitrary: h h') (simp_all add: fnv1a_64_update_def fnv1a_64_step_inj)

lemma fnv1a_64_update_append: "fnv1a_64_update h (xs @ ys) = fnv1a_64_update (fnv1a_64_update h xs) ys"
  by (simp add: fnv1a_64_update_def)

text \<open>A configuration that differs from the one in use in a single byte has another hash, so the
  update is not dropped as a repetition.\<close>

theorem config_change_detected:
  assumes "cfg_bytes c = xs @ a # ys" and "cfg_bytes c' = xs @ b # ys"
  shows "config_hash c = config_hash c' \<longleftrightarrow> a = b"
proof -
  have "fnv1a_64_update h (a # ys) = fnv1a_64_update h (b # ys) \<longleftrightarrow> a = b" for h
    using fnv1a_64_update_inj [of "fnv1a_64_step h a" ys] fnv1a_64_step_byte
    by (simp add: fnv1a_64_update_def)
  then show ?thesis by (simp add: config_hash_def assms fnv1a_64_update_append)
qed

section \<open>Start-up\<close>

lemma upd_data_sel [simp]:
  "tables (upd_data i f m) = tables m" "next_data (upd_data i f m) = next_data m" "h_state (upd_data i f m) = h_state m"
  "m_cds (upd_data i f m) = m_cds m" "m_local_cluster_name (upd_data i f m) = m_local_cluster_name m"
  "m_initialized (upd_data i f m) = m_initialized m" "posts (upd_data i f m) = posts m"
  "m_started_secondary_initialize (upd_data i f m) = m_started_secondary_initialize m"
  "cdata (upd_data i f m) j = (if j = i then f (cdata m i) else cdata m j)"
  by (simp_all add: upd_data_def)

lemma set_table_sel [simp]:
  "tables (set_table t xs m) t' = (if t' = t then xs else tables m t')" "next_data (set_table t xs m) = next_data m"
  "h_state (set_table t xs m) = h_state m" "m_cds (set_table t xs m) = m_cds m"
  "m_local_cluster_name (set_table t xs m) = m_local_cluster_name m"
  "m_initialized (set_table t xs m) = m_initialized m" "posts (set_table t xs m) = posts m"
  "cdata (set_table t xs m) = cdata m"
  by (simp_all add: set_table_def)

lemma live_upd [simp]:
  "live j (upd_data i f m) = (if j = i then ref_count (f (cdata m i)) \<noteq> 0 else live j m)"
  "live j (set_table t xs m) = live j m" "live j (m\<lparr> posts := ps \<rparr>) = live j m"
  by (simp_all add: live_def)

text \<open>Adding a cluster that is ready at once, while the configuration is being loaded.\<close>

definition announced :: "cluster_data \<Rightarrow> cluster_data" where
  "announced d = d\<lparr> m_initialization_started := True, m_added_or_updated := True, m_initialize_complete_callback := None \<rparr>"

definition fresh_data :: "cluster_data \<Rightarrow> bool" where
  "fresh_data d = (ref_count d = 1 \<and> \<not> m_initialization_started d \<and> \<not> m_added_or_updated d \<and>
     m_pending_initialize_health_checks d = 0 \<and> m_initialize_complete_callback d = None)"

lemma add_cluster_at_once:
  assumes "h_state m = Loading" "tables m PrimaryInitClusters = []" "tables m WarmingClusters = []"
    "fresh_data (cdata m i)" "cd_kind (cdata m i) \<noteq> StrictDnsCluster"
  shows "rp_cluster_manager_init_helper_add_cluster i m =
    Some ((upd_data i announced m)\<lparr> posts := posts m @ [(i, True)] \<rparr>)"
proof -
  have "initialize_phase (cd_kind (cdata m i)) = Some Primary"
    using assms(5) by (cases "cd_kind (cdata m i)") (simp_all add: initialize_phase_def)
  moreover have "(tables m)(PrimaryInitClusters := []) = tables m" using assms(2) by (metis fun_upd_triv)
  moreover have "live i m" using assms(4) by (simp add: live_def fresh_data_def)
  moreover have "(cdata m i)\<lparr> m_initialization_started := True, m_initialize_complete_callback := None,
      m_added_or_updated := True, ref_count := Suc 0 \<rparr> = announced (cdata m i)"
    using assms(4) by (cases "cdata m i") (simp add: announced_def fresh_data_def)
  ultimately show ?thesis
    using assms
    by (simp add: rp_cluster_manager_init_helper_add_cluster_def g_object_ref_def g_hash_table_replace_def
        cluster_initialize_def start_pre_init_def rp_cluster_impl_base_on_pre_init_complete_def on_init_done_def
        finish_initialization_def run_init_cb_def helper_on_cluster_init_def on_cluster_init_def
        post_thread_local_cluster_update_def rp_cluster_manager_init_helper_remove_cluster_def g_hash_table_remove_def
        g_object_unref_def maybe_finish_initialize_def fresh_data_def)
       (simp add: upd_data_def set_table_def)
qed

lemma add_each_at_once:
  assumes "h_state m = Loading" "tables m PrimaryInitClusters = []" "tables m WarmingClusters = []"
    "distinct (map snd xs)" "\<forall>(k, i) \<in> set xs. fresh_data (cdata m i) \<and> cd_kind (cdata m i) \<noteq> StrictDnsCluster"
  shows "add_each xs m =
    Some (m\<lparr> cdata := (\<lambda>i. if i \<in> snd ` set xs then announced (cdata m i) else cdata m i),
             posts := posts m @ map (\<lambda>(k, i). (i, True)) xs \<rparr>)"
  using assms
proof (induction xs arbitrary: m)
  case (Cons x xs)
  obtain k i where x: "x = (k, i)" by force
  let ?m = "(upd_data i announced m)\<lparr> posts := posts m @ [(i, True)] \<rparr>"
  have add: "rp_cluster_manager_init_helper_add_cluster i m = Some ?m"
    using Cons.prems x by (intro add_cluster_at_once) auto
  have "add_each xs ?m = Some (?m\<lparr> cdata := (\<lambda>j. if j \<in> snd ` set xs then announced (cdata ?m j) else cdata ?m j),
      posts := posts ?m @ map (\<lambda>(k, i). (i, True)) xs \<rparr>)"
    by (rule Cons.IH) (use Cons.prems x in \<open>auto simp: image_iff\<close>)
  moreover have "(\<lambda>j. if j \<in> snd ` set xs then announced (cdata ?m j) else cdata ?m j) =
      (\<lambda>j. if j \<in> snd ` set (x # xs) then announced (cdata m j) else cdata m j)"
    using Cons.prems(4) x by auto
  ultimately show ?case by (simp add: x add upd_data_def del: upd_data_sel)
qed simp

lemma update_new: "k \<notin> fst ` set xs \<Longrightarrow> AList.update k v xs = xs @ [(k, v)]"
  by (induction xs) auto

text \<open>The tables while the rules are loaded.\<close>

definition loaded :: "cluster_manager \<Rightarrow> bool" where
  "loaded m =
     (h_state m = Loading \<and> tables m PrimaryInitClusters = [] \<and> tables m WarmingClusters = [] \<and> \<not> m_cds m \<and>
      m_local_cluster_name m = None \<and> posts m = [] \<and> distinct (map fst (tables m ActiveClusters)) \<and>
      (\<forall>(k, i) \<in> set (tables m ActiveClusters). i < next_data m \<and> cd_name (cdata m i) = k \<and> fresh_data (cdata m i)) \<and>
      {..<next_data m} \<subseteq> snd ` set (tables m ActiveClusters))"

definition loadable :: "cluster_env \<Rightarrow> cluster_cfg \<Rightarrow> bool" where
  "loadable env c = (rp_cluster_factory_impl_base_create c \<noteq> None \<and> cluster_provided_lb env c)"

lemma load_static:
  assumes "loaded m"
  shows "\<exists>result m'. load_cluster env c (config_hash c) False ActiveClusters m = Some (result, m') \<and> loaded m' \<and>
     (\<forall>previous. result \<noteq> Inr (Some previous)) \<and> m_initialized m' = m_initialized m \<and>
     fst ` set (tables m' ActiveClusters) = fst ` set (tables m ActiveClusters) \<union> (if loadable env c then {cfg_name c} else {}) \<and>
     set (tables m ActiveClusters) \<subseteq> set (tables m' ActiveClusters) \<and> (\<forall>i < next_data m. cdata m' i = cdata m i) \<and>
     (\<forall>(k, i) \<in> set (tables m' ActiveClusters) - set (tables m ActiveClusters).
        k = cfg_name c \<and> rp_cluster_factory_impl_base_create c = Some (cd_kind (cdata m' i)))"
proof (cases "loadable env c \<and> lookup ActiveClusters (cfg_name c) m = None")
  case False
  then show ?thesis
    using assms
    by (cases "rp_cluster_factory_impl_base_create c")
       (auto simp: load_cluster_def Let_def loadable_def dom_map_of_conv_image_fst [symmetric])
next
  case True
  then obtain kind where kind: "rp_cluster_factory_impl_base_create c = Some kind" "cluster_provided_lb env c"
    by (auto simp: loadable_def)
  have new: "cfg_name c \<notin> fst ` set (tables m ActiveClusters)" using True by (simp add: map_of_eq_None_iff)
  define i where "i = next_data m"
  define m' where "m' = set_table ActiveClusters (tables m ActiveClusters @ [(cfg_name c, i)])
    (m\<lparr> cdata := (cdata m)(i := blank_data\<lparr> cd_name := cfg_name c, cd_kind := kind, cd_targets := resolve_targets env c,
          m_config_hash := config_hash c, m_added_via_api := False, ref_count := 1 \<rparr>), next_data := Suc i \<rparr>)"
  have run: "load_cluster env c (config_hash c) False ActiveClusters m = Some (Inr None, m')"
    using True kind new by (simp add: load_cluster_def Let_def g_hash_table_replace_def update_new m'_def i_def)
  have "loaded m'"
    using assms new by (auto simp: loaded_def m'_def i_def fresh_data_def blank_data_def less_Suc_eq lessThan_Suc)
  moreover have "(\<forall>(k, j) \<in> set (tables m' ActiveClusters) - set (tables m ActiveClusters).
        k = cfg_name c \<and> rp_cluster_factory_impl_base_create c = Some (cd_kind (cdata m' j)))"
    using kind by (auto simp: m'_def blank_data_def)
  ultimately show ?thesis
    using True kind by (intro exI [of _ "Inr None"] exI [of _ m']) (auto simp: run m'_def i_def)
qed

lemma load_rules_ok:
  assumes "loaded m"
  shows "\<exists>m'. load_rules env rules m = Some m' \<and> loaded m' \<and> m_initialized m' = m_initialized m \<and>
     fst ` set (tables m' ActiveClusters) =
       fst ` set (tables m ActiveClusters) \<union> cfg_name ` {c \<in> set rules. loadable env c} \<and>
     set (tables m ActiveClusters) \<subseteq> set (tables m' ActiveClusters) \<and>
     (\<forall>i < next_data m. cdata m' i = cdata m i) \<and> next_data m \<le> next_data m' \<and>
     (\<forall>(k, i) \<in> set (tables m' ActiveClusters) - set (tables m ActiveClusters).
        \<exists>c \<in> set rules. rp_cluster_factory_impl_base_create c = Some (cd_kind (cdata m' i)))"
  using assms
proof (induction rules arbitrary: m)
  case (Cons c rules)
  obtain result m1 where m1: "load_cluster env c (config_hash c) False ActiveClusters m = Some (result, m1)" "loaded m1"
    "\<forall>previous. result \<noteq> Inr (Some previous)" "m_initialized m1 = m_initialized m"
    "fst ` set (tables m1 ActiveClusters) = fst ` set (tables m ActiveClusters) \<union> (if loadable env c then {cfg_name c} else {})"
    "set (tables m ActiveClusters) \<subseteq> set (tables m1 ActiveClusters)" "\<forall>i < next_data m. cdata m1 i = cdata m i"
    "\<forall>(k, i) \<in> set (tables m1 ActiveClusters) - set (tables m ActiveClusters).
        k = cfg_name c \<and> rp_cluster_factory_impl_base_create c = Some (cd_kind (cdata m1 i))"
    using load_static [OF Cons.prems, of env c] by blast
  have "next_data m \<le> next_data m1"
    using m1(1) by (auto simp: load_cluster_def Let_def g_hash_table_replace_def g_object_unref_def bind_eq_Some_conv
        split: option.splits if_splits)
  obtain m2 where m2: "load_rules env rules m1 = Some m2" "loaded m2" "m_initialized m2 = m_initialized m1"
    "fst ` set (tables m2 ActiveClusters) = fst ` set (tables m1 ActiveClusters) \<union> cfg_name ` {c \<in> set rules. loadable env c}"
    "set (tables m1 ActiveClusters) \<subseteq> set (tables m2 ActiveClusters)" "\<forall>i < next_data m1. cdata m2 i = cdata m1 i"
    "next_data m1 \<le> next_data m2"
    "\<forall>(k, i) \<in> set (tables m2 ActiveClusters) - set (tables m1 ActiveClusters).
        \<exists>c \<in> set rules. rp_cluster_factory_impl_base_create c = Some (cd_kind (cdata m2 i))"
    using Cons.IH [OF m1(2)] by blast
  have kinds: "\<exists>c \<in> set (c # rules). rp_cluster_factory_impl_base_create c = Some (cd_kind (cdata m2 i))"
    if "(k, i) \<in> set (tables m2 ActiveClusters)" "(k, i) \<notin> set (tables m ActiveClusters)" for k i
  proof (cases "(k, i) \<in> set (tables m1 ActiveClusters)")
    case True
    then have "i < next_data m1" using m1(2) by (auto simp: loaded_def)
    then show ?thesis using True that(2) m1(8) m2(6) by fastforce
  qed (use that m2(8) in fastforce)
  have same: "\<forall>i < next_data m. cdata m2 i = cdata m i"
    using m1(7) m2(6) \<open>next_data m \<le> next_data m1\<close> by simp
  have "load_rules env (c # rules) m = Some m2"
    using m1(1,3) m2(1) by (cases result) (auto split: option.splits sum.splits)
  moreover have "fst ` set (tables m2 ActiveClusters) =
       fst ` set (tables m ActiveClusters) \<union> cfg_name ` {c' \<in> set (c # rules). loadable env c'}"
    using m1(5) m2(4) by auto
  moreover have "\<forall>(k, i) \<in> set (tables m2 ActiveClusters) - set (tables m ActiveClusters).
        \<exists>c \<in> set (c # rules). rp_cluster_factory_impl_base_create c = Some (cd_kind (cdata m2 i))"
    using kinds by (intro ballI) (simp only: Diff_iff split_paired_all case_prod_conv, blast)
  moreover have "next_data m \<le> next_data m2" "m_initialized m2 = m_initialized m"
    using \<open>next_data m \<le> next_data m1\<close> m2(3,7) m1(4) by simp_all
  ultimately show ?case
    using m2(2) subset_trans [OF m1(6) m2(5)] same by (intro exI [of _ m2] conjI)
qed auto

lemma loaded_init: "loaded (rp_cluster_manager_impl_init\<lparr> m_initialized := True \<rparr>)"
  by (simp add: loaded_def rp_cluster_manager_impl_init_def)

lemma loadedD:
  assumes "loaded m"
  shows "h_state m = Loading" "tables m PrimaryInitClusters = []" "tables m WarmingClusters = []" "\<not> m_cds m"
    "m_local_cluster_name m = None" "posts m = []" "distinct (map fst (tables m ActiveClusters))"
    "(k, i) \<in> set (tables m ActiveClusters) \<Longrightarrow> i < next_data m"
    "(k, i) \<in> set (tables m ActiveClusters) \<Longrightarrow> cd_name (cdata m i) = k"
    "(k, i) \<in> set (tables m ActiveClusters) \<Longrightarrow> fresh_data (cdata m i)"
    "{..<next_data m} \<subseteq> snd ` set (tables m ActiveClusters)"
  using assms by (auto simp: loaded_def)

lemma loaded_distinct:
  assumes "loaded m"
  shows "distinct (map snd (tables m ActiveClusters))"
proof -
  have "fst p = cd_name (cdata m (snd p))" if "p \<in> set (tables m ActiveClusters)" for p
    using loadedD(9) [OF assms, of "fst p" "snd p"] that by simp
  then have "inj_on snd (set (tables m ActiveClusters))" by (intro inj_onI prod_eqI) simp_all
  moreover have "distinct (tables m ActiveClusters)"
    using loadedD(7) [OF assms] by (simp add: distinct_map)
  ultimately show ?thesis by (simp add: distinct_map)
qed

definition started_up :: "(string \<times> nat) list \<Rightarrow> cluster_manager \<Rightarrow> cluster_manager" where
  "started_up xs m = m\<lparr> cdata := (\<lambda>i. if i \<in> snd ` set xs then announced (cdata m i) else cdata m i),
    posts := posts m @ map (\<lambda>(k, i). (i, True)) xs, m_started_secondary_initialize := False,
    h_state := AllClustersInitialized \<rparr>"

lemma initialize_run:
  assumes "\<And>xs. set (hash_order env xs) = set xs \<and> distinct (hash_order env xs) = distinct xs"
    and "\<forall>c \<in> set rules. rp_cluster_factory_impl_base_create c \<noteq> Some StrictDnsCluster"
  shows "\<exists>m1 xs. loaded m1 \<and> fst ` set (tables m1 ActiveClusters) = cfg_name ` {c \<in> set rules. loadable env c} \<and>
     set xs = set (tables m1 ActiveClusters) \<and> distinct (map snd xs) \<and>
     initialize_i env rules rp_cluster_manager_impl_init = Some (True, started_up xs m1)"
proof -
  obtain m1 where m1: "load_rules env rules (rp_cluster_manager_impl_init\<lparr> m_initialized := True \<rparr>) = Some m1" "loaded m1"
    "fst ` set (tables m1 ActiveClusters) = cfg_name ` {c \<in> set rules. loadable env c}"
    "\<forall>(k, i) \<in> set (tables m1 ActiveClusters). \<exists>c \<in> set rules. rp_cluster_factory_impl_base_create c = Some (cd_kind (cdata m1 i))"
    using load_rules_ok [OF loaded_init, of env rules] by (auto simp: rp_cluster_manager_impl_init_def)
  define xs where "xs = hash_order env (tables m1 ActiveClusters)"
  define m2 where "m2 = m1\<lparr> cdata := (\<lambda>i. if i \<in> snd ` set xs then announced (cdata m1 i) else cdata m1 i),
    posts := posts m1 @ map (\<lambda>(k, i). (i, True)) xs \<rparr>"
  note l = loadedD [OF m1(2)]
  have xs: "set xs = set (tables m1 ActiveClusters)" "distinct xs"
    using assms(1) l(7) by (auto simp: xs_def distinct_map)
  then have dx: "distinct (map snd xs)"
    using loaded_distinct [OF m1(2)] by (simp add: distinct_map)
  have "add_each xs m1 = Some m2"
    unfolding m2_def using l(1-3) dx by (rule add_each_at_once) (use xs(1) l(10) m1(4) assms(2) in fastforce)
  moreover have "on_static_load_complete m2 = Some (started_up xs m1)"
    using l(2,4) by (simp add: on_static_load_complete_def maybe_finish_initialize_def m2_def started_up_def)
  ultimately have "initialize_i env rules rp_cluster_manager_impl_init = Some (True, started_up xs m1)"
    using m1(1) l(5) by (simp add: initialize_i_def xs_def rp_cluster_manager_impl_init_def)
  with m1(2,3) xs(1) dx show ?thesis by blast
qed

text \<open>C6. Start-up ends: when no cluster is a strict DNS cluster, the manager loads every rule whose
  cluster can be created, makes each cluster active under its name, tells the workers of each exactly
  once, and is done, in whatever order the table of clusters is enumerated.\<close>

theorem initialize_completes:
  assumes "\<And>xs. set (hash_order env xs) = set xs \<and> distinct (hash_order env xs) = distinct xs"
    and "\<forall>c \<in> set rules. rp_cluster_factory_impl_base_create c \<noteq> Some StrictDnsCluster"
  shows "\<exists>m. initialize_i env rules rp_cluster_manager_impl_init = Some (True, m) \<and> all_clusters_initialized m \<and>
     dom (\<lambda>k. lookup ActiveClusters k m) = cfg_name ` {c \<in> set rules. loadable env c} \<and>
     (\<forall>k i. lookup ActiveClusters k m = Some i \<longrightarrow>
        cd_name (cdata m i) = k \<and> m_initialization_started (cdata m i) \<and> count_list (posts m) (i, True) = 1 \<and>
        count_list (posts m) (i, False) = 0)"
proof -
  obtain m1 xs where r: "loaded m1" "fst ` set (tables m1 ActiveClusters) = cfg_name ` {c \<in> set rules. loadable env c}"
    "set xs = set (tables m1 ActiveClusters)" "distinct (map snd xs)"
    "initialize_i env rules rp_cluster_manager_impl_init = Some (True, started_up xs m1)"
    using initialize_run [OF assms] by blast
  note l = loadedD [OF r(1)]
  let ?ps = "map (\<lambda>(k, i). (i, True)) xs"
  have "count_list (posts (started_up xs m1)) (i, True) = 1 \<and> count_list (posts (started_up xs m1)) (i, False) = 0 \<and>
      cd_name (cdata (started_up xs m1) i) = k \<and> m_initialization_started (cdata (started_up xs m1) i)"
    if "lookup ActiveClusters k (started_up xs m1) = Some i" for k i
  proof -
    have ki: "(k, i) \<in> set (tables m1 ActiveClusters)" using that by (simp add: started_up_def map_of_SomeD)
    have "distinct ?ps" using r(4) by (simp add: distinct_map split_def inj_on_def)
    moreover have "(i, True) \<in> set ?ps" "(i, False) \<notin> set ?ps" "i \<in> snd ` set xs" using ki r(3) by force+
    ultimately show ?thesis
      using l(6) l(9) [OF ki] count_list_distinct [of ?ps] by (auto simp: started_up_def announced_def simp del: set_map)
  qed
  moreover have "dom (\<lambda>k. lookup ActiveClusters k (started_up xs m1)) = cfg_name ` {c \<in> set rules. loadable env c}"
    using r(2) by (simp add: started_up_def dom_map_of_conv_image_fst)
  ultimately show ?thesis using r(5) by (auto simp: all_clusters_initialized_def started_up_def)
qed

section \<open>Updates after start-up\<close>

definition cm_ok :: "cluster_manager \<Rightarrow> bool" where
  "cm_ok m =
     (h_state m = AllClustersInitialized \<and> tables m PrimaryInitClusters = [] \<and>
      (\<forall>t k i. lookup t k m = Some i \<longrightarrow> i < next_data m \<and> cd_name (cdata m i) = k) \<and>
      (\<forall>i < next_data m. ref_count (cdata m i) =
         (if lookup WarmingClusters (cd_name (cdata m i)) m = Some i then 1 else 0) +
         (if lookup ActiveClusters (cd_name (cdata m i)) m = Some i then 1 else 0)) \<and>
      (\<forall>k i. lookup WarmingClusters k m = Some i \<longrightarrow>
         \<not> m_initialization_started (cdata m i) \<and> m_initialize_complete_callback (cdata m i) = Some (ManagerCb k)) \<and>
      (\<forall>i < next_data m. m_pending_initialize_health_checks (cdata m i) = 0) \<and>
      (\<forall>k i. lookup ActiveClusters k m = Some i \<longrightarrow>
         m_initialization_started (cdata m i) \<and> m_added_or_updated (cdata m i)))"

lemma cm_okD:
  assumes "cm_ok m"
  shows "h_state m = AllClustersInitialized" "tables m PrimaryInitClusters = []"
    "lookup t k m = Some i \<Longrightarrow> i < next_data m" "lookup t k m = Some i \<Longrightarrow> cd_name (cdata m i) = k"
    "i < next_data m \<Longrightarrow> ref_count (cdata m i) =
         (if lookup WarmingClusters (cd_name (cdata m i)) m = Some i then 1 else 0) +
         (if lookup ActiveClusters (cd_name (cdata m i)) m = Some i then 1 else 0)"
    "lookup WarmingClusters k m = Some i \<Longrightarrow> \<not> m_initialization_started (cdata m i)"
    "lookup WarmingClusters k m = Some i \<Longrightarrow> m_initialize_complete_callback (cdata m i) = Some (ManagerCb k)"
    "i < next_data m \<Longrightarrow> m_pending_initialize_health_checks (cdata m i) = 0"
    "lookup ActiveClusters k m = Some i \<Longrightarrow> m_initialization_started (cdata m i)"
    "lookup ActiveClusters k m = Some i \<Longrightarrow> m_added_or_updated (cdata m i)"
  using assms unfolding cm_ok_def by blast+

text \<open>A warming cluster gets ready: it replaces the active cluster of its name.\<close>

definition dropped :: "string \<Rightarrow> cluster_manager \<Rightarrow> nat \<Rightarrow> cluster_data" where
  "dropped k m j = (if lookup ActiveClusters k m = Some j then (cdata m j)\<lparr> ref_count := 0 \<rparr> else cdata m j)"

definition ready :: "string \<Rightarrow> nat \<Rightarrow> cluster_manager \<Rightarrow> cluster_manager" where
  "ready k i m = m\<lparr> cdata := (dropped k m)(i := announced (cdata m i)),
     tables := (tables m)(ActiveClusters := AList.update k i (tables m ActiveClusters),
                          WarmingClusters := AList.delete k (tables m WarmingClusters)),
     posts := posts m @ [(i, \<not> m_added_or_updated (cdata m i))] \<rparr>"

lemma pre_init_complete_ready:
  assumes ok: "cm_ok m" and w: "lookup WarmingClusters k m = Some i"
  shows "rp_cluster_impl_base_on_pre_init_complete i m = Some (ready k i m)"
proof -
  have d: "i < next_data m" "cd_name (cdata m i) = k" "\<not> m_initialization_started (cdata m i)"
    "m_initialize_complete_callback (cdata m i) = Some (ManagerCb k)" "m_pending_initialize_health_checks (cdata m i) = 0"
    using cm_okD [OF ok] w by metis+
  have a: "lookup ActiveClusters k m \<noteq> Some i" using cm_okD(9) [OF ok] d(3) by blast
  have r: "ref_count (cdata m i) = 1" using cm_okD(5) [OF ok d(1)] w a by (simp add: d(2))
  have j: "ref_count (cdata m j) = 1" if "lookup ActiveClusters k m = Some j" for j
    using cm_okD(3,4) [OF ok that] cm_okD(5) [OF ok, of j] that w a by auto
  have eq: "(cdata m i)\<lparr> m_initialization_started := True, m_initialize_complete_callback := None,
      ref_count := Suc 0, m_added_or_updated := True \<rparr> = announced (cdata m i)"
    using r by (cases "cdata m i") (simp add: announced_def)
  show ?thesis
  proof (cases "lookup ActiveClusters k m")
    case None
    moreover from this have "dropped k m = cdata m" by (simp add: dropped_def fun_eq_iff)
    ultimately show ?thesis
      using d w r eq
      by (simp add: rp_cluster_impl_base_on_pre_init_complete_def on_init_done_def finish_initialization_def run_init_cb_def
          rp_cluster_initialize_cb_def on_cluster_init_def cluster_warming_to_active_def g_object_ref_def
          g_hash_table_replace_def g_hash_table_remove_def g_object_unref_def post_thread_local_cluster_update_def live_def
          ready_def)
         (simp add: upd_data_def set_table_def)
  next
    case (Some j)
    moreover from this have "j \<noteq> i" "ref_count (cdata m j) = 1" using a j by auto
    moreover from Some have "dropped k m = (cdata m)(j := (cdata m j)\<lparr> ref_count := 0 \<rparr>)"
      by (simp add: dropped_def fun_eq_iff)
    ultimately show ?thesis
      using d w r eq Some
      by (simp add: rp_cluster_impl_base_on_pre_init_complete_def on_init_done_def finish_initialization_def run_init_cb_def
          rp_cluster_initialize_cb_def on_cluster_init_def cluster_warming_to_active_def g_object_ref_def
          g_hash_table_replace_def g_hash_table_remove_def g_object_unref_def post_thread_local_cluster_update_def live_def
          ready_def)
         (simp add: upd_data_def set_table_def)
  qed
qed

lemma ready_sel [simp]:
  "h_state (ready k i m) = h_state m" "next_data (ready k i m) = next_data m"
  "tables (ready k i m) PrimaryInitClusters = tables m PrimaryInitClusters"
  "lookup ActiveClusters k' (ready k i m) = (if k' = k then Some i else lookup ActiveClusters k' m)"
  "lookup WarmingClusters k' (ready k i m) = (if k' = k then None else lookup WarmingClusters k' m)"
  "cdata (ready k i m) j = (if j = i then announced (cdata m i) else dropped k m j)"
  by (simp_all add: ready_def update_conv' delete_conv')

lemma announced_sel [simp]:
  "cd_name (announced d) = cd_name d" "ref_count (announced d) = ref_count d" "m_initialization_started (announced d)"
  "m_added_or_updated (announced d)" "m_initialize_complete_callback (announced d) = None"
  "m_pending_initialize_health_checks (announced d) = m_pending_initialize_health_checks d"
  "m_added_via_api (announced d) = m_added_via_api d"
  by (simp_all add: announced_def)

lemma dropped_sel [simp]:
  "cd_name (dropped k m j) = cd_name (cdata m j)"
  "ref_count (dropped k m j) = (if lookup ActiveClusters k m = Some j then 0 else ref_count (cdata m j))"
  "m_initialization_started (dropped k m j) = m_initialization_started (cdata m j)"
  "m_added_or_updated (dropped k m j) = m_added_or_updated (cdata m j)"
  "m_initialize_complete_callback (dropped k m j) = m_initialize_complete_callback (cdata m j)"
  "m_pending_initialize_health_checks (dropped k m j) = m_pending_initialize_health_checks (cdata m j)"
  by (simp_all add: dropped_def)

lemma cm_ok_ready:
  assumes ok: "cm_ok m" and w: "lookup WarmingClusters k m = Some i"
  shows "cm_ok (ready k i m)"
proof -
  note D = cm_okD [OF ok]
  have i: "i < next_data m" "cd_name (cdata m i) = k" "lookup ActiveClusters k m \<noteq> Some i"
    using D(3,4,6,9) w by blast+
  have t: "lookup t k' (ready k i m) = Some j \<Longrightarrow> lookup t k' m = Some j \<or> k' = k \<and> j = i" for t k' j
    using D(2) by (cases t) (auto split: if_splits)
  have nw: "lookup WarmingClusters k' m = Some i \<Longrightarrow> k' = k" for k' using D(4) i(2) by blast
  have na: "lookup ActiveClusters k' m \<noteq> Some i" for k' using D(4) i(2,3) by blast
  have "ref_count (cdata (ready k i m) j) =
         (if lookup WarmingClusters (cd_name (cdata (ready k i m) j)) (ready k i m) = Some j then 1 else 0) +
         (if lookup ActiveClusters (cd_name (cdata (ready k i m) j)) (ready k i m) = Some j then 1 else 0)"
    if "j < next_data m" for j
    using D(5) [OF that] D(5) [OF i(1)] w i D(4) [of ActiveClusters k j] D(4) [of WarmingClusters k j] by auto
  moreover have "lookup t k' (ready k i m) = Some j \<longrightarrow> j < next_data m \<and> cd_name (cdata (ready k i m) j) = k'" for t k' j
    using t [of t k' j] D(3,4) i by auto
  moreover have "lookup WarmingClusters k' (ready k i m) = Some j \<longrightarrow> \<not> m_initialization_started (cdata (ready k i m) j) \<and>
      m_initialize_complete_callback (cdata (ready k i m) j) = Some (ManagerCb k')" for k' j
    using D(6,7) [of k' j] nw by auto
  moreover have "lookup ActiveClusters k' (ready k i m) = Some j \<longrightarrow>
      m_initialization_started (cdata (ready k i m) j) \<and> m_added_or_updated (cdata (ready k i m) j)" for k' j
    using D(9,10) [of k' j] na by auto
  moreover have "m_pending_initialize_health_checks (cdata (ready k i m) j) = 0" if "j < next_data m" for j
    using D(8) [OF that] by auto
  ultimately show ?thesis using D(1,2) unfolding cm_ok_def by (simp del: ready_sel(4-6))
qed

text \<open>The calls after start-up: updates and the answers that clusters wait for.\<close>

datatype cluster_call = AddOrUpdate cluster_cfg | PreInitComplete nat

fun cluster_exec :: "cluster_env \<Rightarrow> cluster_call \<Rightarrow> cluster_manager \<Rightarrow> cluster_manager option" where
  "cluster_exec env (AddOrUpdate c) m = map_option snd (add_or_update_cluster_i env c m)"
| "cluster_exec env (PreInitComplete i) m = rp_cluster_impl_base_on_pre_init_complete i m"

text \<open>No cluster is updated while its last update is still warming, unless the update is blocked; only
  clusters that still exist report that they are ready.\<close>

fun cluster_accepts :: "cluster_call \<Rightarrow> cluster_manager \<Rightarrow> bool" where
  "cluster_accepts (AddOrUpdate c) m =
     (case lookup WarmingClusters (cfg_name c) m of
        None \<Rightarrow> True | Some i \<Rightarrow> rp_cluster_data_block_update (cdata m i) (config_hash c))"
| "cluster_accepts (PreInitComplete i) m =
     (i < next_data m \<and> live i m)"

lemma live_held:
  assumes ok: "cm_ok m" and "cluster_accepts (PreInitComplete i) m"
  shows "if m_initialization_started (cdata m i) then lookup ActiveClusters (cd_name (cdata m i)) m = Some i
    else lookup WarmingClusters (cd_name (cdata m i)) m = Some i"
proof -
  let ?k = "cd_name (cdata m i)"
  have "lookup WarmingClusters ?k m = Some i \<or> lookup ActiveClusters ?k m = Some i"
    using cm_okD(5) [OF ok, of i] assms(2) by (auto simp: live_def split: if_splits)
  then show ?thesis using cm_okD(6,9) [OF ok, of ?k i] by auto
qed

lemma pre_init_complete_ok:
  assumes ok: "cm_ok m" and "cluster_accepts (PreInitComplete i) m"
  shows "\<exists>m'. rp_cluster_impl_base_on_pre_init_complete i m = Some m' \<and> cm_ok m'"
proof (cases "m_initialization_started (cdata m i)")
  case True
  then show ?thesis using ok by (simp add: rp_cluster_impl_base_on_pre_init_complete_def)
next
  case False
  then have "lookup WarmingClusters (cd_name (cdata m i)) m = Some i" using live_held [OF assms] by simp
  then show ?thesis using pre_init_complete_ready [OF ok] cm_ok_ready [OF ok] by blast
qed

definition warming :: "cluster_env \<Rightarrow> cluster_cfg \<Rightarrow> cluster_kind \<Rightarrow> cluster_manager \<Rightarrow> cluster_manager" where
  "warming env c kind m = m\<lparr>
     cdata := (cdata m)(next_data m := blank_data\<lparr> cd_name := cfg_name c, cd_kind := kind, cd_targets := resolve_targets env c,
       m_config_hash := config_hash c, m_added_via_api := True, ref_count := 1,
       m_initialize_complete_callback := Some (ManagerCb (cfg_name c)) \<rparr>),
     next_data := Suc (next_data m),
     tables := (tables m)(WarmingClusters := AList.update (cfg_name c) (next_data m) (tables m WarmingClusters)) \<rparr>"

lemma warming_sel [simp]:
  "h_state (warming env c kind m) = h_state m" "next_data (warming env c kind m) = Suc (next_data m)"
  "tables (warming env c kind m) PrimaryInitClusters = tables m PrimaryInitClusters"
  "lookup ActiveClusters k (warming env c kind m) = lookup ActiveClusters k m"
  "lookup WarmingClusters k (warming env c kind m) = (if k = cfg_name c then Some (next_data m) else lookup WarmingClusters k m)"
  "j \<noteq> next_data m \<Longrightarrow> cdata (warming env c kind m) j = cdata m j"
  "j = next_data m \<Longrightarrow> cdata (warming env c kind m) j = blank_data\<lparr> cd_name := cfg_name c, cd_kind := kind,
     cd_targets := resolve_targets env c, m_config_hash := config_hash c, m_added_via_api := True, ref_count := 1,
     m_initialize_complete_callback := Some (ManagerCb (cfg_name c)) \<rparr>"
  by (simp_all add: warming_def update_conv')

text \<open>The table drops its reference to the cluster that the new one replaces.\<close>

definition released :: "string \<Rightarrow> cluster_manager \<Rightarrow> cluster_manager" where
  "released k m =
     (case lookup WarmingClusters k m of None \<Rightarrow> m | Some i \<Rightarrow> upd_data i (\<lambda>d. d\<lparr> ref_count := 0 \<rparr>) m)"

lemma released_sel [simp]:
  "h_state (released k m) = h_state m" "next_data (released k m) = next_data m" "tables (released k m) = tables m"
  "cdata (released k m) j = (if lookup WarmingClusters k m = Some j then (cdata m j)\<lparr> ref_count := 0 \<rparr> else cdata m j)"
  by (simp_all add: released_def split: option.split)

lemma released_none: "lookup WarmingClusters k m = None \<Longrightarrow> released k m = m"
  by (simp add: released_def)

lemma cm_ok_warming:
  assumes ok: "cm_ok m"
  shows "cm_ok (warming env c kind (released (cfg_name c) m))"
proof -
  note D = cm_okD [OF ok]
  let ?k = "cfg_name c" and ?m = "warming env c kind (released (cfg_name c) m)"
  have t: "lookup t k ?m = Some j \<Longrightarrow>
      lookup t k m = Some j \<and> j < next_data m \<or> t = WarmingClusters \<and> k = ?k \<and> j = next_data m" for t k j
    using D(2,3) by (cases t) (auto split: if_splits)
  have n: "lookup t k m \<noteq> Some (next_data m)" for t k using D(3) by blast
  have wa: "lookup WarmingClusters k m = Some j \<Longrightarrow> lookup ActiveClusters k' m \<noteq> Some j" for k k' j
    using D(6,9) by blast
  have "ref_count (cdata ?m j) =
         (if lookup WarmingClusters (cd_name (cdata ?m j)) ?m = Some j then 1 else 0) +
         (if lookup ActiveClusters (cd_name (cdata ?m j)) ?m = Some j then 1 else 0)"
    if "j < Suc (next_data m)" for j
    using that D(5) [of j] D(4) [of WarmingClusters ?k j] n wa by (cases "j = next_data m") auto
  moreover have "lookup t k ?m = Some j \<longrightarrow> j < Suc (next_data m) \<and> cd_name (cdata ?m j) = k" for t k j
    using t [of t k j] D(4) [of t k j] by auto
  moreover have "lookup WarmingClusters k ?m = Some j \<longrightarrow> \<not> m_initialization_started (cdata ?m j) \<and>
      m_initialize_complete_callback (cdata ?m j) = Some (ManagerCb k)" for k j
    using t [of WarmingClusters k j] D(6,7) [of k j] by (auto simp: blank_data_def split: if_splits)
  moreover have "lookup ActiveClusters k ?m = Some j \<longrightarrow>
      m_initialization_started (cdata ?m j) \<and> m_added_or_updated (cdata ?m j)" for k j
    using t [of ActiveClusters k j] D(9,10) [of k j] by auto
  moreover have "m_pending_initialize_health_checks (cdata ?m j) = 0" if "j < Suc (next_data m)" for j
    using that D(8) [of j] by (cases "j = next_data m") (auto simp: blank_data_def)
  ultimately show ?thesis using D(1,2) unfolding cm_ok_def by (simp del: warming_sel(4-7) released_sel(4))
qed

lemma warming_ref:
  assumes ok: "cm_ok m" and w: "lookup WarmingClusters k m = Some i"
  shows "i < next_data m" "ref_count (cdata m i) = 1" "lookup ActiveClusters k' m \<noteq> Some i"
proof -
  show "i < next_data m" "lookup ActiveClusters k' m \<noteq> Some i" for k' using cm_okD(3,6,9) [OF ok] w by blast+
  then show "ref_count (cdata m i) = 1" using cm_okD(4) [OF ok w] cm_okD(5) [OF ok, of i] w by simp
qed

lemma load_warming:
  assumes ok: "cm_ok m"
  shows "load_cluster env c (config_hash c) True WarmingClusters m =
    (case rp_cluster_factory_impl_base_create c of
       None \<Rightarrow> Some (Inl InvalidArgument, m)
     | Some kind \<Rightarrow>
         if \<not> cluster_provided_lb env c then Some (Inl LbNotSpecified, m)
         else Some (Inr (lookup WarmingClusters (cfg_name c) m),
           upd_data (next_data m) (\<lambda>d. d\<lparr> m_initialize_complete_callback := None \<rparr>)
             (warming env c kind (released (cfg_name c) m))))"
proof (cases "lookup WarmingClusters (cfg_name c) m")
  case None
  then show ?thesis
    by (simp add: load_cluster_def Let_def g_hash_table_replace_def released_none split: option.split)
       (simp add: warming_def set_table_def upd_data_def blank_data_def)
next
  case (Some i)
  have "i \<noteq> next_data m" "ref_count (cdata m i) = 1" using warming_ref [OF ok Some] by simp_all
  then show ?thesis
    by (simp add: load_cluster_def Let_def g_hash_table_replace_def Some g_object_unref_def live_def released_def split: option.split)
       (simp add: warming_def set_table_def upd_data_def blank_data_def fun_upd_twist)
qed

text \<open>An update by cases: blocked, refused, waiting for DNS, or active at once.\<close>

definition update_blocked :: "cluster_cfg \<Rightarrow> cluster_manager \<Rightarrow> bool" where
  "update_blocked c m =
     (case lookup WarmingClusters (cfg_name c) m of
        Some i \<Rightarrow> rp_cluster_data_block_update (cdata m i) (config_hash c)
      | None \<Rightarrow> (case lookup ActiveClusters (cfg_name c) m of
                   Some i \<Rightarrow> rp_cluster_data_block_update (cdata m i) (config_hash c) | None \<Rightarrow> False))"

lemma active_live: "cm_ok m \<Longrightarrow> lookup ActiveClusters k m = Some i \<Longrightarrow> live i m"
  using cm_okD(3) [of m ActiveClusters k i] cm_okD(4) [of m ActiveClusters k i] cm_okD(5) [of m i] by (simp add: live_def)

lemma initialize_warming:
  "cluster_initialize (next_data m) (ManagerCb (cfg_name c))
     (upd_data (next_data m) (\<lambda>d. d\<lparr> m_initialize_complete_callback := None \<rparr>) (warming env c kind m)) =
   start_pre_init (next_data m) (warming env c kind m)"
  unfolding cluster_initialize_def
  by (rule arg_cong [of _ _ "start_pre_init (next_data m)"]) (cases m, simp add: upd_data_def warming_def)

lemma initialize_warming_cases:
  assumes ok: "cm_ok m"
  shows "start_pre_init (next_data m) (warming env c kind (released (cfg_name c) m)) =
    Some (if kind = StrictDnsCluster \<and> resolve_targets env c then warming env c kind (released (cfg_name c) m)
          else ready (cfg_name c) (next_data m) (warming env c kind (released (cfg_name c) m)))"
proof -
  let ?m = "warming env c kind (released (cfg_name c) m)"
  have "lookup WarmingClusters (cfg_name c) ?m = Some (next_data m)" by simp
  from pre_init_complete_ready [OF cm_ok_warming [OF ok] this] show ?thesis by (simp add: start_pre_init_def)
qed

lemma update_not_blocked:
  assumes ok: "cm_ok m" and nb: "\<not> update_blocked c m"
  shows "add_or_update_cluster_i env c m =
    (case rp_cluster_factory_impl_base_create c of
       None \<Rightarrow> (case lookup WarmingClusters (cfg_name c) m of
                  None \<Rightarrow> Some (True, m)
                | Some i \<Rightarrow> map_option (Pair True) (cluster_initialize i (ManagerCb (cfg_name c)) m))
     | Some kind \<Rightarrow>
         if \<not> cluster_provided_lb env c
         then (case lookup WarmingClusters (cfg_name c) m of
                 None \<Rightarrow> Some (True, m)
               | Some i \<Rightarrow> map_option (Pair True) (cluster_initialize i (ManagerCb (cfg_name c)) m))
         else if lookup WarmingClusters (cfg_name c) m \<noteq> None then None
         else if kind = StrictDnsCluster \<and> resolve_targets env c then Some (True, warming env c kind m)
         else Some (True, ready (cfg_name c) (next_data m) (warming env c kind m)))"
proof -
  have rm: "(case lookup ActiveClusters (cfg_name c) m of
      Some i \<Rightarrow> rp_cluster_manager_init_helper_remove_cluster i m | None \<Rightarrow> Some m) = Some m"
    using active_live [OF ok] cm_okD(1) [OF ok]
    by (simp add: rp_cluster_manager_init_helper_remove_cluster_def split: option.split)
  have b: "(case lookup WarmingClusters (cfg_name c) m of
        Some i \<Rightarrow> rp_cluster_data_block_update (cdata m i) (config_hash c)
      | None \<Rightarrow> (case lookup ActiveClusters (cfg_name c) m of
                   Some i \<Rightarrow> rp_cluster_data_block_update (cdata m i) (config_hash c) | None \<Rightarrow> False)) = False"
    using nb by (simp add: update_blocked_def)
  have dead: "\<not> live i (warming env c kind (released (cfg_name c) m))"
    "\<not> live i (ready (cfg_name c) (next_data m) (warming env c kind (released (cfg_name c) m)))"
    if "lookup WarmingClusters (cfg_name c) m = Some i" for i kind
    using warming_ref [OF ok that] that by (auto simp: live_def)
  have init: "cluster_initialize (next_data m) (ManagerCb (cfg_name c))
     (upd_data (next_data m) (\<lambda>d. d\<lparr> m_initialize_complete_callback := None \<rparr>)
        (warming env c kind (released (cfg_name c) m))) =
      start_pre_init (next_data m) (warming env c kind (released (cfg_name c) m))" for kind
    using initialize_warming [of "released (cfg_name c) m"] by simp
  show ?thesis
    using cm_okD(1) [OF ok]
    by (auto simp: add_or_update_cluster_i_def Let_def rm b load_warming [OF ok] all_clusters_initialized_def
        init initialize_warming_cases [OF ok] g_object_unref_def dead released_none map_conv_bind_option o_def
        split: option.split)
qed

lemma add_or_update_cases:
  assumes ok: "cm_ok m" and acc: "cluster_accepts (AddOrUpdate c) m"
  shows "add_or_update_cluster_i env c m =
    (if update_blocked c m then Some (False, m)
     else case rp_cluster_factory_impl_base_create c of
       None \<Rightarrow> Some (True, m)
     | Some kind \<Rightarrow>
         if \<not> cluster_provided_lb env c then Some (True, m)
         else if kind = StrictDnsCluster \<and> resolve_targets env c then Some (True, warming env c kind m)
         else Some (True, ready (cfg_name c) (next_data m) (warming env c kind m)))"
proof (cases "update_blocked c m")
  case True
  then show ?thesis by (simp add: add_or_update_cluster_i_def update_blocked_def Let_def)
next
  case False
  then have "lookup WarmingClusters (cfg_name c) m = None"
    using acc by (auto simp: update_blocked_def split: option.splits)
  then show ?thesis by (simp add: update_not_blocked [OF ok False] False split: option.split)
qed

lemma add_or_update_ok:
  assumes ok: "cm_ok m" and acc: "cluster_accepts (AddOrUpdate c) m"
  shows "\<exists>b m'. add_or_update_cluster_i env c m = Some (b, m') \<and> cm_ok m'"
proof (cases "update_blocked c m")
  case False
  then have w: "lookup WarmingClusters (cfg_name c) m = None"
    using acc by (auto simp: update_blocked_def split: option.splits)
  have v: "cm_ok (warming env c kind m)" for kind
    using cm_ok_warming [OF ok, of env c kind] w by (simp add: released_none)
  have r: "cm_ok (ready (cfg_name c) (next_data m) (warming env c kind m))" for kind
    by (rule cm_ok_ready [OF v]) simp
  show ?thesis
    using r ok v by (auto simp: add_or_update_cases [OF ok acc] False split: option.split)
qed (use ok add_or_update_cases [OF ok acc] in auto)

text \<open>The manager after start-up, and its runs.\<close>

definition ordinary_env :: "cluster_env \<Rightarrow> bool" where
  "ordinary_env env = (\<forall>xs. set (hash_order env xs) = set xs \<and> distinct (hash_order env xs) = distinct xs)"

definition ordinary_rules :: "cluster_cfg list \<Rightarrow> bool" where
  "ordinary_rules rules = list_all (\<lambda>c. rp_cluster_factory_impl_base_create c \<noteq> Some StrictDnsCluster) rules"

definition after_startup :: "cluster_env \<Rightarrow> cluster_manager \<Rightarrow> bool" where
  "after_startup env m =
     (ordinary_env env \<and>
      (\<exists>rules. ordinary_rules rules \<and> initialize_i env rules rp_cluster_manager_impl_init = Some (True, m)))"

lemma cm_ok_started_up:
  assumes l: "loaded m" and xs: "set xs = set (tables m ActiveClusters)"
  shows "cm_ok (started_up xs m)"
proof -
  note D = loadedD [OF l]
  let ?m = "started_up xs m"
  have sel: "tables ?m = tables m" "next_data ?m = next_data m" "h_state ?m = AllClustersInitialized" by (simp_all add: started_up_def)
  have data: "\<exists>k. lookup ActiveClusters k m = Some i \<and> cd_name (cdata m i) = k \<and> fresh_data (cdata m i) \<and>
      cdata ?m i = announced (cdata m i)" if i: "i < next_data m" for i
  proof -
    obtain k where k: "(k, i) \<in> set (tables m ActiveClusters)" using D(11) i by force
    then have "i \<in> snd ` set xs" using xs by force
    then show ?thesis using D(9,10) [OF k] D(7) k by (auto simp: started_up_def)
  qed
  have held: "i < next_data m \<and> cd_name (cdata m i) = k" if "lookup ActiveClusters k m = Some i" for k i
    using D(8,9) map_of_SomeD [OF that] by blast
  have held': "i < next_data m \<and> cd_name (cdata ?m i) = k" if "lookup t k m = Some i" for t k i
    using that held [of k i] data [of i] D(2,3) by (cases t) auto
  show ?thesis
    unfolding cm_ok_def sel
  proof (intro conjI allI impI)
    fix i assume i: "i < next_data m"
    obtain k where k: "lookup ActiveClusters k m = Some i" "cd_name (cdata m i) = k" "fresh_data (cdata m i)"
      "cdata ?m i = announced (cdata m i)" using data [OF i] by blast
    show "ref_count (cdata ?m i) = (if lookup WarmingClusters (cd_name (cdata ?m i)) m = Some i then 1 else 0) +
        (if lookup ActiveClusters (cd_name (cdata ?m i)) m = Some i then 1 else 0)"
      "m_pending_initialize_health_checks (cdata ?m i) = 0"
      using k D(3) by (simp_all add: fresh_data_def)
  next
    fix k i assume "lookup ActiveClusters k m = Some i"
    then show "m_initialization_started (cdata ?m i)" "m_added_or_updated (cdata ?m i)"
      using held [of k i] data [of i] by auto
  qed (use D(2,3) held' in auto)
qed

lemma cm_ok_after_startup:
  assumes "after_startup env m"
  shows "cm_ok m"
proof -
  obtain rules where r: "ordinary_rules rules" "initialize_i env rules rp_cluster_manager_impl_init = Some (True, m)"
    using assms by (auto simp: after_startup_def)
  then show ?thesis
    using initialize_run [of env rules] cm_ok_started_up assms
    by (auto simp: after_startup_def ordinary_env_def ordinary_rules_def list_all_iff)
qed

interpretation clusters: invariant_system "after_startup env" cluster_accepts "cluster_exec env" cm_ok for env
proof
  show "\<exists>t. cluster_exec env c m = Some t \<and> cm_ok t" if "cm_ok m" "cluster_accepts c m" for c m
    using that add_or_update_ok [of m _ env] pre_init_complete_ok [of m] by (cases c) fastforce+
qed (rule cm_ok_after_startup)

text \<open>C5. Updates after start-up are safe: whatever sequence of cluster updates and answers of clusters
  arrives, with no cluster updated again before its last update is ready, nothing crashes; each
  cluster's reference count is the number of tables that hold it, so that a replaced cluster is freed
  and a listed one never is; and a cluster is active only once it is initialised.\<close>

theorem cluster_updates_safe:
  assumes "after_startup env m" "accepted cluster_accepts (cluster_exec env) cs m"
  shows "\<exists>m'. run_calls (cluster_exec env) cs m = Some m' \<and>
    (\<forall>i < next_data m'. ref_count (cdata m' i) = card {t. lookup t (cd_name (cdata m' i)) m' = Some i}) \<and>
    (\<forall>t k i. lookup t k m' = Some i \<longrightarrow> live i m' \<and> cd_name (cdata m' i) = k) \<and>
    (\<forall>k i. lookup ActiveClusters k m' = Some i \<longrightarrow> m_initialization_started (cdata m' i)) \<and>
    (\<forall>k i. lookup WarmingClusters k m' = Some i \<longrightarrow> \<not> m_initialization_started (cdata m' i))"
proof -
  obtain m' where m': "run_calls (cluster_exec env) cs m = Some m'" "cm_ok m'"
    using clusters.run_inv [OF cm_ok_after_startup [OF assms(1)] assms(2)] by blast
  note D = cm_okD [OF m'(2)]
  have held: "{t. lookup t k m' = Some i} =
      (if lookup WarmingClusters k m' = Some i then {WarmingClusters} else {}) \<union>
      (if lookup ActiveClusters k m' = Some i then {ActiveClusters} else {})" for k i
  proof -
    have "lookup t k m' = Some i \<Longrightarrow> t = WarmingClusters \<or> t = ActiveClusters" for t using D(2) by (cases t) auto
    then show ?thesis by auto
  qed
  have c: "ref_count (cdata m' i) = card {t. lookup t (cd_name (cdata m' i)) m' = Some i}" if "i < next_data m'" for i
    using D(5) [OF that] by (simp add: held)
  moreover have "live i m'" if "lookup t k m' = Some i" for t k i
  proof -
    have "finite {t. lookup t k m' = Some i}" by (simp add: held)
    then have "card {t. lookup t k m' = Some i} \<noteq> 0" using that by auto
    then show ?thesis using c [of i] D(3,4) [OF that] by (simp add: live_def)
  qed
  ultimately show ?thesis using m'(1) D(4,6,9) by blast
qed

section \<open>The abstract cluster map\<close>

text \<open>What a client of the manager sees: for each name the configuration that serves and the one that is
  getting ready, each a kind, a hash and whether it may be updated.\<close>

record cluster_view =
  serving :: "string \<rightharpoonup> cluster_kind \<times> guint64 \<times> bool"
  preparing :: "string \<rightharpoonup> cluster_kind \<times> guint64 \<times> bool"

definition view_of :: "cluster_manager \<Rightarrow> nat \<Rightarrow> cluster_kind \<times> guint64 \<times> bool" where
  "view_of m i = (cd_kind (cdata m i), m_config_hash (cdata m i), m_added_via_api (cdata m i))"

definition abs_view :: "cluster_manager \<Rightarrow> cluster_view" where
  "abs_view m = \<lparr> serving = (\<lambda>k. map_option (view_of m) (lookup ActiveClusters k m)),
                  preparing = (\<lambda>k. map_option (view_of m) (lookup WarmingClusters k m)) \<rparr>"

definition changes :: "guint64 \<Rightarrow> (cluster_kind \<times> guint64 \<times> bool) option \<Rightarrow> bool" where
  "changes h v = (case v of None \<Rightarrow> True | Some (_, h', api) \<Rightarrow> api \<and> h' \<noteq> h)"

text \<open>An update of a name whose configuration differs, and is not fixed, serves at once or is prepared; a
  prepared configuration serves when its cluster is ready. Everything else changes nothing.\<close>

definition view_update :: "cluster_env \<Rightarrow> cluster_cfg \<Rightarrow> cluster_view \<Rightarrow> cluster_view" where
  "view_update env c v =
     (let k = cfg_name c in
      case rp_cluster_factory_impl_base_create c of
        None \<Rightarrow> v
      | Some kind \<Rightarrow>
          if preparing v k \<noteq> None \<or> \<not> changes (config_hash c) (serving v k) \<or> \<not> cluster_provided_lb env c then v
          else if kind = StrictDnsCluster \<and> resolve_targets env c
          then v\<lparr> preparing := (preparing v)(k \<mapsto> (kind, config_hash c, True)) \<rparr>
          else v\<lparr> serving := (serving v)(k \<mapsto> (kind, config_hash c, True)) \<rparr>)"

definition view_ready :: "string \<Rightarrow> cluster_view \<Rightarrow> cluster_view" where
  "view_ready k v =
     (case preparing v k of
        None \<Rightarrow> v
      | Some x \<Rightarrow> v\<lparr> serving := (serving v)(k \<mapsto> x), preparing := (preparing v)(k := None) \<rparr>)"

datatype view_event = Updated cluster_cfg | Ready string | NoEvent

fun view_exec :: "cluster_env \<Rightarrow> view_event \<Rightarrow> cluster_view \<Rightarrow> cluster_view" where
  "view_exec env (Updated c) v = view_update env c v"
| "view_exec env (Ready k) v = view_ready k v"
| "view_exec env NoEvent v = v"

text \<open>What a call means to the client: a cluster that reports a second time is no event.\<close>

fun event_of :: "cluster_manager \<Rightarrow> cluster_call \<Rightarrow> view_event" where
  "event_of m (AddOrUpdate c) = Updated c"
| "event_of m (PreInitComplete i) =
     (if m_initialization_started (cdata m i) then NoEvent else Ready (cd_name (cdata m i)))"

lemma view_of_announced [simp]:
  "cd_kind (announced d) = cd_kind d" "m_config_hash (announced d) = m_config_hash d"
  by (simp_all add: announced_def)

lemma abs_ready:
  assumes ok: "cm_ok m" and w: "lookup WarmingClusters k m = Some i"
  shows "abs_view (ready k i m) = view_ready k (abs_view m)"
proof -
  note D = cm_okD [OF ok]
  have i: "cd_name (cdata m i) = k" using D(4) w by blast
  have s: "map_option (view_of (ready k i m)) (lookup ActiveClusters k' (ready k i m)) =
      (if k' = k then Some (view_of m i) else map_option (view_of m) (lookup ActiveClusters k' m))" for k'
  proof (cases "k' = k")
    case False
    then have "view_of (ready k i m) j = view_of m j" if "lookup ActiveClusters k' m = Some j" for j
      using D(4) [OF that] i D(4) [of ActiveClusters k j] by (auto simp: view_of_def dropped_def)
    then show ?thesis using False by (cases "lookup ActiveClusters k' m") simp_all
  qed (simp add: view_of_def)
  have p: "map_option (view_of (ready k i m)) (lookup WarmingClusters k' (ready k i m)) =
      (if k' = k then None else map_option (view_of m) (lookup WarmingClusters k' m))" for k'
  proof (cases "k' = k")
    case False
    then have "view_of (ready k i m) j = view_of m j" if "lookup WarmingClusters k' m = Some j" for j
      using D(4) [OF that] i D(4) [of ActiveClusters k j] by (auto simp: view_of_def dropped_def)
    then show ?thesis using False by (cases "lookup WarmingClusters k' m") simp_all
  qed simp
  show ?thesis
    unfolding abs_view_def s p by (simp add: view_ready_def w fun_eq_iff)
qed

lemma abs_warming:
  assumes ok: "cm_ok m"
  shows "abs_view (warming env c kind m) =
    (abs_view m)\<lparr> preparing := (preparing (abs_view m))(cfg_name c \<mapsto> (kind, config_hash c, True)) \<rparr>"
proof -
  have "view_of (warming env c kind m) j = view_of m j" if "lookup t k m = Some j" for t k j
    using cm_okD(3) [OF ok that] by (simp add: view_of_def)
  then have o: "map_option (view_of (warming env c kind m)) (lookup t k m) = map_option (view_of m) (lookup t k m)" for t k
    by (cases "lookup t k m") simp_all
  show ?thesis by (simp add: abs_view_def o fun_eq_iff view_of_def)
qed

lemma blocked_view:
  assumes "cluster_accepts (AddOrUpdate c) m"
  shows "update_blocked c m \<longleftrightarrow>
    preparing (abs_view m) (cfg_name c) \<noteq> None \<or> \<not> changes (config_hash c) (serving (abs_view m) (cfg_name c))"
  using assms
  by (auto simp: update_blocked_def abs_view_def changes_def view_of_def rp_cluster_data_block_update_def split: option.splits)

lemma abs_update:
  assumes ok: "cm_ok m" and acc: "cluster_accepts (AddOrUpdate c) m"
  shows "map_option (abs_view \<circ> snd) (add_or_update_cluster_i env c m) = Some (view_update env c (abs_view m))"
proof (cases "update_blocked c m")
  case True
  then show ?thesis
    using blocked_view [OF acc] by (auto simp: add_or_update_cases [OF ok acc] view_update_def Let_def split: option.split)
next
  case False
  then have w: "lookup WarmingClusters (cfg_name c) m = None"
    using acc by (auto simp: update_blocked_def split: option.splits)
  have v: "cm_ok (warming env c kind m)" for kind
    using cm_ok_warming [OF ok, of env c kind] w by (simp add: released_none)
  have "(preparing (abs_view m))(cfg_name c := None) = preparing (abs_view m)"
    using w by (simp add: abs_view_def fun_eq_iff)
  then have "abs_view (ready (cfg_name c) (next_data m) (warming env c kind m)) =
      (abs_view m)\<lparr> serving := (serving (abs_view m))(cfg_name c \<mapsto> (kind, config_hash c, True)) \<rparr>" for kind
    using abs_ready [OF v [of kind], of "cfg_name c"] by (simp add: abs_warming [OF ok] view_ready_def)
  then show ?thesis
    using False blocked_view [OF acc]
    by (auto simp: add_or_update_cases [OF ok acc] view_update_def Let_def abs_warming [OF ok] split: option.split)
qed

text \<open>C4. The manager refines the map of configurations: in every state reached after start-up, each
  accepted call takes effect, and its effect on what a client sees is the abstract one. A changed
  configuration replaces the one that serves, at once or when its cluster is ready, and until then the
  old one serves; an unchanged or a fixed configuration stays.\<close>

theorem cluster_manager_refines:
  assumes "reach (after_startup env) (\<lambda>m m'. \<exists>c. cluster_accepts c m \<and> cluster_exec env c m = Some m') m"
    and "cluster_accepts call m"
  shows "map_option abs_view (cluster_exec env call m) = Some (view_exec env (event_of m call) (abs_view m))"
proof -
  have ok: "cm_ok m" by (rule clusters.reachable_inv [OF assms(1)])
  show ?thesis
  proof (cases call)
    case (AddOrUpdate c)
    then show ?thesis using abs_update [OF ok] assms(2) by (simp add: option.map_comp)
  next
    case (PreInitComplete i)
    show ?thesis
    proof (cases "m_initialization_started (cdata m i)")
      case True
      then show ?thesis by (simp add: PreInitComplete rp_cluster_impl_base_on_pre_init_complete_def)
    next
      case False
      then have w: "lookup WarmingClusters (cd_name (cdata m i)) m = Some i"
        using live_held [OF ok] assms(2) by (simp add: PreInitComplete)
      show ?thesis using False by (simp add: PreInitComplete pre_init_complete_ready [OF ok w] abs_ready [OF ok w])
    qed
  qed
qed

section \<open>What goes wrong\<close>

text \<open>C37. A cluster that is updated again while its last update is still getting ready brings the
  manager down: the warming table has already dropped the replaced cluster when the manager drops it
  once more.\<close>

theorem update_while_warming_crashes:
  assumes "reach (after_startup env) (\<lambda>m m'. \<exists>c. cluster_accepts c m \<and> cluster_exec env c m = Some m') m"
    and "lookup WarmingClusters (cfg_name c) m = Some i" "m_added_via_api (cdata m i)"
    and "m_config_hash (cdata m i) \<noteq> config_hash c" "loadable env c"
  shows "add_or_update_cluster_i env c m = None"
proof -
  have ok: "cm_ok m" by (rule clusters.reachable_inv [OF assms(1)])
  have "\<not> update_blocked c m" using assms(2-4) by (simp add: update_blocked_def rp_cluster_data_block_update_def)
  then show ?thesis using assms(2,5) by (auto simp: update_not_blocked [OF ok] loadable_def split: option.split)
qed

lemma add_each_strict_dns:
  assumes "h_state m = Loading" "tables m PrimaryInitClusters = []" "tables m WarmingClusters = []"
    "distinct (map snd xs)" "\<forall>(k, i) \<in> set xs. fresh_data (cdata m i)" "(k, i) \<in> set xs" "cd_kind (cdata m i) = StrictDnsCluster"
  shows "add_each xs m = None"
  using assms
proof (induction xs arbitrary: m)
  case (Cons x xs)
  obtain k' j where x: "x = (k', j)" by force
  show ?case
  proof (cases "cd_kind (cdata m j) = StrictDnsCluster")
    case True
    then show ?thesis by (simp add: x rp_cluster_manager_init_helper_add_cluster_def initialize_phase_def)
  next
    case False
    let ?m = "(upd_data j announced m)\<lparr> posts := posts m @ [(j, True)] \<rparr>"
    have ij: "j \<noteq> i" using False Cons.prems(7) by blast
    have fresh: "\<forall>(k, l) \<in> set xs. fresh_data (cdata ?m l)" using Cons.prems(4,5) x by (auto simp: image_iff)
    have "(k, i) \<in> set xs" using Cons.prems(6) ij x by simp
    then have "add_each xs ?m = None"
      by (intro Cons.IH) (use Cons.prems(1-4,7) ij fresh x in \<open>simp_all\<close>)
    moreover have "rp_cluster_manager_init_helper_add_cluster j m = Some ?m"
      by (rule add_cluster_at_once) (use Cons.prems(1-3,5) x False in simp_all)
    ultimately show ?thesis by (simp add: x)
  qed
qed simp

lemma load_rules_append:
  "load_rules env (rs @ rs') m = do { m1 \<leftarrow> load_rules env rs m; load_rules env rs' m1 }"
proof (induction rs arbitrary: m)
  case (Cons r rs)
  have "load_rules env (rs @ rs') = (\<lambda>m. do { m1 \<leftarrow> load_rules env rs m; load_rules env rs' m1 })"
    using Cons.IH by (simp add: fun_eq_iff)
  then show ?case by (simp add: Option.bind_assoc split_def)
qed simp

text \<open>C38. A configuration with a strict DNS cluster brings the manager down at start-up, whatever the
  other rules are: a rule that is not ignored and makes a strict DNS cluster is loaded, and the helper
  asks that cluster for its phase through a slot that the cluster does not set.\<close>

theorem strict_dns_crashes_startup:
  assumes "ordinary_env env" "rp_cluster_factory_impl_base_create c = Some StrictDnsCluster" "cluster_provided_lb env c"
    and "list_all (\<lambda>r. cfg_name r \<noteq> cfg_name c) rules"
  shows "initialize_i env (rules @ c # rules') rp_cluster_manager_impl_init = None"
proof -
  let ?m0 = "rp_cluster_manager_impl_init\<lparr> m_initialized := True \<rparr>"
  obtain m1 where m1: "load_rules env rules ?m0 = Some m1" "loaded m1"
    "fst ` set (tables m1 ActiveClusters) = {} \<union> cfg_name ` {c \<in> set rules. loadable env c}"
    using load_rules_ok [OF loaded_init, of env rules] by (simp add: rp_cluster_manager_impl_init_def) blast
  obtain result m2 where m2: "load_cluster env c (config_hash c) False ActiveClusters m1 = Some (result, m2)" "loaded m2"
    "\<forall>previous. result \<noteq> Inr (Some previous)"
    "fst ` set (tables m2 ActiveClusters) = fst ` set (tables m1 ActiveClusters) \<union> (if loadable env c then {cfg_name c} else {})"
    "\<forall>(k, i) \<in> set (tables m2 ActiveClusters) - set (tables m1 ActiveClusters).
        k = cfg_name c \<and> rp_cluster_factory_impl_base_create c = Some (cd_kind (cdata m2 i))"
    using load_static [OF m1(2), of env c] by blast
  have "cfg_name c \<notin> fst ` set (tables m1 ActiveClusters)" using m1(3) assms(4) by (auto simp: list_all_iff)
  then have new: "(cfg_name c, i) \<notin> set (tables m1 ActiveClusters)" for i by force
  have "cfg_name c \<in> fst ` set (tables m2 ActiveClusters)" using m2(4) assms(2,3) by (simp add: loadable_def)
  then obtain i where i: "(cfg_name c, i) \<in> set (tables m2 ActiveClusters)" by force
  then have strict: "cd_kind (cdata m2 i) = StrictDnsCluster" using bspec [OF m2(5), of "(cfg_name c, i)"] new assms(2) by simp
  obtain m3 where m3: "load_rules env rules' m2 = Some m3" "loaded m3"
    "set (tables m2 ActiveClusters) \<subseteq> set (tables m3 ActiveClusters)" "\<forall>i < next_data m2. cdata m3 i = cdata m2 i"
    using load_rules_ok [OF m2(2), of env rules'] by blast
  let ?xs = "hash_order env (tables m3 ActiveClusters)"
  note l = loadedD [OF m3(2)]
  have xs: "set ?xs = set (tables m3 ActiveClusters)" "distinct ?xs"
    using assms(1) l(7) by (auto simp: ordinary_env_def distinct_map)
  then have dx: "distinct (map snd ?xs)" using loaded_distinct [OF m3(2)] by (simp add: distinct_map)
  have "i < next_data m2" using loadedD(8) [OF m2(2) i] .
  then have k: "cd_kind (cdata m3 i) = StrictDnsCluster" "(cfg_name c, i) \<in> set ?xs" using i strict m3(3,4) xs(1) by auto
  have "\<forall>(k, i) \<in> set ?xs. fresh_data (cdata m3 i)" using l(10) xs(1) by auto
  then have "add_each ?xs m3 = None" by (rule add_each_strict_dns [OF l(1-3) dx _ k(2,1)])
  moreover have "load_rules env (rules @ c # rules') ?m0 = Some m3"
    using m1(1) m2(1,3) m3(1) by (cases result) (auto simp: load_rules_append split: option.splits)
  ultimately show ?thesis using l(5) by (simp add: initialize_i_def rp_cluster_manager_impl_init_def)
qed

section \<open>Examples\<close>

definition example_env :: cluster_env where
  "example_env = \<lparr> cluster_provided_lb = (\<lambda>_. True), resolve_targets = (\<lambda>_. True), hash_order = rev \<rparr>"

definition example_cfg :: "string \<Rightarrow> RpDiscoveryType \<Rightarrow> 8 word list \<Rightarrow> cluster_cfg" where
  "example_cfg name type bytes = \<lparr> cfg_name = name, cfg_cluster_type = None, cfg_type = type, cfg_bytes = bytes \<rparr>"

definition example_rules :: "cluster_cfg list" where
  "example_rules = [example_cfg ''web'' STATIC [1], example_cfg ''api'' STATIC [2]]"

definition example_start :: cluster_manager where
  "example_start = snd (the (initialize_i example_env example_rules rp_cluster_manager_impl_init))"

lemma ordinary_example_env: "ordinary_env example_env"
  by (simp add: ordinary_env_def example_env_def)

lemma ordinary_example_rules: "ordinary_rules example_rules"
  by code_simp

lemma after_startup_initialize:
  assumes "ordinary_env env" "ordinary_rules rules"
  shows "after_startup env (snd (the (initialize_i env rules rp_cluster_manager_impl_init)))"
proof -
  have "\<exists>m. initialize_i env rules rp_cluster_manager_impl_init = Some (True, m)"
    using initialize_run [of env rules] assms by (auto simp: ordinary_env_def ordinary_rules_def list_all_iff)
  then show ?thesis using assms by (auto simp: after_startup_def)
qed

lemma after_startup_example: "after_startup example_env example_start"
  unfolding example_start_def by (rule after_startup_initialize [OF ordinary_example_env ordinary_example_rules])

text \<open>An update of a strict DNS cluster, which then waits for its addresses.\<close>

definition example_waiting :: cluster_manager where
  "example_waiting = the (cluster_exec example_env (AddOrUpdate (example_cfg ''dns'' STRICT_DNS [3])) example_start)"

lemma reach_waiting:
  "reach (after_startup example_env)
     (\<lambda>m m'. \<exists>c. cluster_accepts c m \<and> cluster_exec example_env c m = Some m') example_waiting"
proof -
  let ?c = "AddOrUpdate (example_cfg ''dns'' STRICT_DNS [3])"
  have "cluster_accepts ?c example_start" by code_simp
  then obtain m where "cluster_exec example_env ?c example_start = Some m"
    using clusters.exec_inv [OF cm_ok_after_startup [OF after_startup_example], of ?c example_env] by blast
  then have "cluster_exec example_env ?c example_start = Some example_waiting" by (simp only: example_waiting_def option.sel)
  with \<open>cluster_accepts ?c example_start\<close>
  have "\<exists>c. cluster_accepts c example_start \<and> cluster_exec example_env c example_start = Some example_waiting" by blast
  then show ?thesis by (rule reach.next_step [OF reach.start [of "after_startup example_env", OF after_startup_example]])
qed

theorem config_change_detected_witness:
  "config_hash (example_cfg ''web'' STATIC [1, 2, 3]) \<noteq> config_hash (example_cfg ''web'' STATIC [1, 7, 3])"
  using config_change_detected [of "example_cfg ''web'' STATIC [1, 2, 3]" "[1]" 2 "[3]"
      "example_cfg ''web'' STATIC [1, 7, 3]" 7] by (simp add: example_cfg_def)

theorem initialize_completes_witness:
  "\<exists>m. initialize_i example_env example_rules rp_cluster_manager_impl_init = Some (True, m) \<and> all_clusters_initialized m \<and>
     dom (\<lambda>k. lookup ActiveClusters k m) = {''web'', ''api''}"
proof -
  have "list_all (loadable example_env) example_rules" "map cfg_name example_rules = [''web'', ''api'']" by code_simp+
  then have "{c \<in> set example_rules. loadable example_env c} = set example_rules" "cfg_name ` set example_rules = {''web'', ''api''}"
    unfolding list_all_iff set_map [symmetric] by auto
  then show ?thesis
    using initialize_completes [of example_env example_rules] ordinary_example_env ordinary_example_rules
    by (auto simp: ordinary_env_def ordinary_rules_def list_all_iff)
qed

theorem cluster_updates_safe_witness:
  "\<exists>m'. run_calls (cluster_exec example_env)
      [AddOrUpdate (example_cfg ''dns'' STRICT_DNS [3]), AddOrUpdate (example_cfg ''web'' STATIC [9]), PreInitComplete 2]
      example_start = Some m' \<and>
    (\<forall>k i. lookup ActiveClusters k m' = Some i \<longrightarrow> m_initialization_started (cdata m' i))"
proof -
  have "accepted cluster_accepts (cluster_exec example_env)
      [AddOrUpdate (example_cfg ''dns'' STRICT_DNS [3]), AddOrUpdate (example_cfg ''web'' STATIC [9]), PreInitComplete 2]
      example_start"
    by code_simp
  from cluster_updates_safe [OF after_startup_example this] show ?thesis by blast
qed

theorem cluster_manager_refines_witness:
  "map_option abs_view (cluster_exec example_env (PreInitComplete 2) example_waiting) =
     Some (view_exec example_env (event_of example_waiting (PreInitComplete 2)) (abs_view example_waiting)) \<and>
   event_of example_waiting (PreInitComplete 2) = Ready ''dns''"
proof -
  have "cluster_accepts (PreInitComplete 2) example_waiting" by code_simp
  moreover have "event_of example_waiting (PreInitComplete 2) = Ready ''dns''" by code_simp
  ultimately show ?thesis using cluster_manager_refines [OF reach_waiting] by blast
qed

theorem update_while_warming_crashes_witness:
  "add_or_update_cluster_i example_env (example_cfg ''dns'' STRICT_DNS [4]) example_waiting = None"
  by (rule update_while_warming_crashes [OF reach_waiting, of _ 2]) code_simp+

theorem strict_dns_crashes_startup_witness:
  "initialize_i example_env (example_rules @ example_cfg ''dns'' STRICT_DNS [3] # []) rp_cluster_manager_impl_init = None"
  by (rule strict_dns_crashes_startup [OF ordinary_example_env]) code_simp+

end
