(* ===== verification/Scheduler.thy ===== *)
theory Scheduler
  imports RP_Prelude
begin

text \<open>
  Callbacks that run in a turn of the event loop, \<^verbatim>\<open>src/src/event/rp-schedulable-cb-impl.c\<close>, and timers,
  \<^verbatim>\<open>event/rp-timer-impl.c\<close>. A callback is scheduled through the counter of an \<open>eventfd\<close>, so that any thread
  may do it: the loop reads the counter, which makes the event of libevent active or starts its timer of
  zero length, and then runs it. The event of libevent is idle, active or waiting for its timer.
\<close>

section \<open>Callbacks\<close>

datatype raw_event = Idle | ActiveNow | TimerZero

record schedulable =
  m_enabled :: bool
  m_wakeup_fd :: guint64
  m_raw_event :: raw_event

definition rp_schedulable_callback_impl_new :: schedulable where
  "rp_schedulable_callback_impl_new = \<lparr> m_enabled = False, m_wakeup_fd = 0, m_raw_event = Idle \<rparr>"

text \<open>The counter holds at most \<open>2\<^sup>6\<^sup>4 - 2\<close>; a write that would exceed it fails, which the callers ignore.\<close>

definition eventfd_write :: "guint64 \<Rightarrow> schedulable \<Rightarrow> schedulable" where
  "eventfd_write v s = (if uint (m_wakeup_fd s) + uint v \<le> 2 ^ 64 - 2 then s\<lparr> m_wakeup_fd := m_wakeup_fd s + v \<rparr> else s)"

definition schedule_callback_current_iteration_i :: "schedulable \<Rightarrow> schedulable" where
  "schedule_callback_current_iteration_i s = (if m_enabled s then s else eventfd_write 1 (s\<lparr> m_enabled := True \<rparr>))"

definition schedule_callback_next_iteration_i :: "schedulable \<Rightarrow> schedulable" where
  "schedule_callback_next_iteration_i s = eventfd_write 2 (s\<lparr> m_enabled := True \<rparr>)"

definition cancel_i :: "schedulable \<Rightarrow> schedulable" where
  "cancel_i s = s\<lparr> m_raw_event := Idle \<rparr>"

text \<open>The loop of \<open>wakeup_cb\<close> reads the counter once: the next read would block.\<close>

definition wakeup_cb :: "schedulable \<Rightarrow> schedulable" where
  "wakeup_cb s =
     (if m_wakeup_fd s = 0 then s
      else s\<lparr> m_wakeup_fd := 0, m_raw_event := (if m_wakeup_fd s = 1 then ActiveNow else TimerZero) \<rparr>)"

text \<open>The event of libevent runs: it is taken off the loop, and what is returned is the state in which the
  callback itself is called.\<close>

definition timer_cb :: "schedulable \<Rightarrow> schedulable option" where
  "timer_cb s = (if m_raw_event s = Idle then None else Some (s\<lparr> m_raw_event := Idle, m_enabled := False \<rparr>))"

lemmas schedulable_defs = rp_schedulable_callback_impl_new_def eventfd_write_def
  schedule_callback_current_iteration_i_def schedule_callback_next_iteration_i_def cancel_i_def wakeup_cb_def timer_cb_def

text \<open>A callback whose turn will come, or that is not scheduled and not about to run.\<close>

definition will_run :: "schedulable \<Rightarrow> bool" where
  "will_run s = (m_wakeup_fd s \<noteq> 0 \<or> m_raw_event s \<noteq> Idle)"

definition schedulable_ok :: "schedulable \<Rightarrow> bool" where
  "schedulable_ok s = (m_enabled s = will_run s \<and> (m_wakeup_fd s = 0 \<or> m_raw_event s = Idle))"

lemma schedulable_ok_new [simp]: "schedulable_ok rp_schedulable_callback_impl_new" "\<not> will_run rp_schedulable_callback_impl_new"
  "\<not> m_enabled rp_schedulable_callback_impl_new"
  by (simp_all add: schedulable_ok_def will_run_def rp_schedulable_callback_impl_new_def)

lemma cancel_new [simp]: "cancel_i rp_schedulable_callback_impl_new = rp_schedulable_callback_impl_new"
  by (simp add: cancel_i_def rp_schedulable_callback_impl_new_def)

lemma schedule_current_ok:
  assumes "schedulable_ok s"
  shows "schedulable_ok (schedule_callback_current_iteration_i s)" "will_run (schedule_callback_current_iteration_i s)"
  using assms by (auto simp: schedulable_ok_def will_run_def schedulable_defs)

lemma schedule_next_ok: "schedulable_ok s \<Longrightarrow> \<not> m_enabled s \<Longrightarrow> schedulable_ok (schedule_callback_next_iteration_i s)"
  by (auto simp: schedulable_ok_def will_run_def schedulable_defs)

lemma schedule_enabled [simp]:
  "m_enabled (schedule_callback_current_iteration_i s)" "m_enabled (schedule_callback_next_iteration_i s)"
  by (simp_all add: schedulable_defs)

lemma wakeup_cb_ok [simp]: "schedulable_ok s \<Longrightarrow> schedulable_ok (wakeup_cb s)" "will_run (wakeup_cb s) = will_run s"
  "m_enabled (wakeup_cb s) = m_enabled s"
  by (auto simp: schedulable_ok_def will_run_def wakeup_cb_def)

lemma wakeup_cb_raw: "will_run s \<Longrightarrow> m_raw_event (wakeup_cb s) \<noteq> Idle"
  by (auto simp: will_run_def wakeup_cb_def)

lemma timer_cb_ok:
  assumes "schedulable_ok s" "timer_cb s = Some t"
  shows "m_enabled s" "t = rp_schedulable_callback_impl_new"
  using assms by (auto simp: schedulable_ok_def will_run_def schedulable_defs split: if_splits)

lemma timer_due:
  assumes "schedulable_ok s" "m_enabled s"
  shows "timer_cb (wakeup_cb s) = Some rp_schedulable_callback_impl_new"
proof -
  have "m_raw_event (wakeup_cb s) \<noteq> Idle" using assms by (intro wakeup_cb_raw) (simp add: schedulable_ok_def)
  then obtain t where "timer_cb (wakeup_cb s) = Some t" by (simp add: timer_cb_def)
  then show ?thesis using timer_cb_ok [OF wakeup_cb_ok(1) [OF assms(1)]] by simp
qed

text \<open>Cancelling takes the event off the loop, but neither the mark that the callback is scheduled nor the
  counter is reset: before the counter is read the callback runs all the same, afterwards it counts as
  scheduled and never runs, however often it is scheduled for the current iteration.\<close>

lemma cancel_before_wakeup: "m_wakeup_fd s \<noteq> 0 \<Longrightarrow> timer_cb (wakeup_cb (cancel_i s)) = Some (s\<lparr> m_wakeup_fd := 0, m_raw_event := Idle, m_enabled := False \<rparr>)"
  by (simp add: schedulable_defs)

lemma cancel_after_wakeup:
  assumes "m_enabled s"
  shows "let t = cancel_i (wakeup_cb s) in m_enabled t \<and> \<not> will_run t \<and> schedule_callback_current_iteration_i t = t"
  using assms by (simp add: schedulable_defs will_run_def)

section \<open>Timers\<close>

text \<open>A span counts microseconds. It and the fields of a \<open>timeval\<close> are 64-bit integers, here integers; a
  product that leaves their range is undefined, \<open>None\<close>.\<close>

record timeval =
  tv_sec :: int
  tv_usec :: int

definition G_USEC_PER_SEC :: int where "G_USEC_PER_SEC = 1000000"

definition G_MAXINT32 :: int where "G_MAXINT32 = 2 ^ 31 - 1"

definition duration_to_timeval :: "int \<Rightarrow> timeval" where
  "duration_to_timeval span =
     (if span < 0 then \<lparr> tv_sec = 0, tv_usec = 500000 \<rparr>
      else
        (let clip_to = G_MAXINT32; secs = span div G_USEC_PER_SEC in
         if secs > clip_to then \<lparr> tv_sec = clip_to, tv_usec = 0 \<rparr>
         else (let usecs = span - secs in \<lparr> tv_sec = secs, tv_usec = usecs \<rparr>)))"

definition gd_milliseconds :: "int \<Rightarrow> int option" where
  "gd_milliseconds ms = (if - (2 ^ 63) \<le> ms * 1000 \<and> ms * 1000 < 2 ^ 63 then Some (ms * 1000) else None)"

text \<open>The timer of libevent: the time for which it was started, if it is pending.\<close>

record rp_timer =
  armed :: "timeval option"

definition enable_timer_i :: "int \<Rightarrow> rp_timer \<Rightarrow> rp_timer option" where
  "enable_timer_i msecs t = map_option (\<lambda>span. t\<lparr> armed := Some (duration_to_timeval span) \<rparr>) (gd_milliseconds msecs)"

definition enable_hr_timer_i :: "int \<Rightarrow> rp_timer \<Rightarrow> rp_timer" where
  "enable_hr_timer_i usecs t = t\<lparr> armed := Some (duration_to_timeval usecs) \<rparr>"

definition disable_timer_i :: "rp_timer \<Rightarrow> rp_timer" where
  "disable_timer_i t = t\<lparr> armed := None \<rparr>"

definition timer_enabled_i :: "rp_timer \<Rightarrow> bool" where
  "timer_enabled_i t = (armed t \<noteq> None)"

definition usecs_of :: "timeval \<Rightarrow> int" where
  "usecs_of tv = tv_sec tv * G_USEC_PER_SEC + tv_usec tv"

lemmas timer_defs = duration_to_timeval_def G_USEC_PER_SEC_def G_MAXINT32_def usecs_of_def gd_milliseconds_def Let_def

lemma timer_exact_below_second: "0 \<le> span \<Longrightarrow> span < G_USEC_PER_SEC \<Longrightarrow> usecs_of (duration_to_timeval span) = span"
  by (simp add: timer_defs)

text \<open>Every full second is counted twice, less a microsecond: once as seconds and once among the microseconds.\<close>

lemma timer_late:
  assumes "0 \<le> span" "span div G_USEC_PER_SEC \<le> G_MAXINT32"
  shows "usecs_of (duration_to_timeval span) = span + (span div G_USEC_PER_SEC) * (G_USEC_PER_SEC - 1)"
  using assms by (simp add: timer_defs algebra_simps)

text \<open>C32. A timer is started for the time that was asked for exactly when that is less than a second. A second
  or more, up to the largest time a timer is started for, makes it late by nearly as much again, and past
  one second the \<open>timeval\<close> is not even a valid one.\<close>

theorem timer_exact_iff:
  assumes "0 \<le> msecs" "msecs \<le> 1000 * G_MAXINT32"
  shows "\<exists>tv. enable_timer_i msecs t = Some (t\<lparr> armed := Some tv \<rparr>) \<and>
    (usecs_of tv = 1000 * msecs \<longleftrightarrow> msecs < 1000) \<and> (tv_usec tv < G_USEC_PER_SEC \<longleftrightarrow> msecs \<le> 1000)"
proof -
  have r: "msecs * 1000 < 2 ^ 63" "(msecs * 1000) div 1000000 \<le> 2 ^ 31 - 1" "(msecs * 1000) div 1000000 = msecs div 1000"
    using assms by (simp_all add: G_MAXINT32_def)
  define s where "s = msecs div 1000"
  have s: "s \<ge> 0" "1000 * s \<le> msecs" "msecs < 1000 * s + 1000" using assms by (simp_all add: s_def)
  have d: "duration_to_timeval (msecs * 1000) = \<lparr> tv_sec = s, tv_usec = msecs * 1000 - s \<rparr>"
    using assms r by (simp add: duration_to_timeval_def Let_def G_USEC_PER_SEC_def G_MAXINT32_def s_def)
  have "(s * 1000000 + (msecs * 1000 - s) = 1000 * msecs \<longleftrightarrow> msecs < 1000)" using s by auto
  moreover have "msecs * 1000 - s < 1000000 \<longleftrightarrow> msecs \<le> 1000" using s by arith
  ultimately show ?thesis
    using assms r d
    by (intro exI [of _ "\<lparr> tv_sec = s, tv_usec = msecs * 1000 - s \<rparr>"]) (simp add: enable_timer_i_def gd_milliseconds_def usecs_of_def G_USEC_PER_SEC_def)
qed

theorem timer_exact_iff_witness:
  "\<exists>tv. enable_timer_i 5000 \<lparr> armed = None \<rparr> = Some \<lparr> armed = Some tv \<rparr> \<and> usecs_of tv \<noteq> 5000000 \<and> \<not> tv_usec tv < G_USEC_PER_SEC"
  using timer_exact_iff [of 5000 "\<lparr> armed = None \<rparr>"] by (auto simp: G_MAXINT32_def)

end
