(* ===== verification/Net_Conn.thy ===== *)
theory Net_Conn
  imports Scheduler
begin

text \<open>
  A network connection: \<^verbatim>\<open>src/src/rp-net-conn-impl.c\<close> with its base
  \<^verbatim>\<open>rp-net-conn-impl-base.c\<close>, the chains of network filters \<^verbatim>\<open>rp-net-filter-mgr-impl.c\<close>, the plain
  transport socket \<^verbatim>\<open>network/rp-raw-buffer-socket.c\<close> and the handle of the socket
  \<^verbatim>\<open>network/rp-io-bev-socket-handle-impl.c\<close>. All of it is one record. The bufferevent of libevent is its
  two buffers, what it wrote to the peer, and the callbacks that are set; the events that were raised are
  kept as a trace. The results of its calls, the
  filters and the listeners of the connection are parameters. A failed assertion, a NULL call and a call
  that does not return are \<open>None\<close>.
\<close>

unbundle bit_operations_syntax

section \<open>Types\<close>

datatype RpNetworkConnectionEvent = NoEvent | RemoteClose | LocalClose | Connected | ConnectedZeroRtt

datatype RpNetworkConnectionCloseType = NoCloseType | FlushWrite | NoFlush | FlushWriteAndDelay | Abort | AbortReset

datatype RpDetectedCloseType = NormalClose | LocalReset | RemoteReset

datatype RpNetworkConnectionState = Open | Closing | Closed

datatype RpReadDisableStatus = NoTransition | StillReadDisabled | TransitionedToReadEnabled | TransitionedToReadDisabled

datatype RpNetworkFilterStatus = Continue | StopIteration

datatype RpPostIoAction = NoAction | CloseAction | KeepOpen

definition Read :: guint32 where "Read = 1"

definition Write :: guint32 where "Write = 2"

definition FileClosed :: guint32 where "FileClosed = 4"

lemmas file_ready_defs = Read_def Write_def FileClosed_def

text \<open>Callbacks of the bufferevent: those of the handle, the first two of which may be off, or the one that
  frees the bufferevent once its output is written.\<close>

datatype bev_callbacks = HandleCbs bool bool | FreeCb

text \<open>An entry of a filter chain. \<open>m_entry\<close> is its node in the list.\<close>

record active_filter =
  m_filter :: nat
  m_entry :: "nat option"
  m_initialized :: bool

record net_conn =
  m_bev :: bool
  sockfd_valid :: bool
  bev_in :: string
  bev_out :: string
  wire :: string
  bev_enabled :: bool
  bev_cbs :: bev_callbacks
  m_enabled_events :: guint32
  m_injected_activation_events :: guint32
  m_activation_cb :: schedulable
  m_was_connected :: bool
  m_shutdown :: bool
  m_write_buffer :: string
  m_read_buffer :: string
  m_current_write_buffer :: "string option"
  m_read_disable_count :: guint32
  m_detected_close_type :: RpDetectedCloseType
  m_immediate_error_event :: RpNetworkConnectionEvent
  m_in_delayed_close :: bool
  m_detect_early_close :: bool
  m_enable_half_close :: bool
  m_read_end_stream_raised :: bool
  m_read_end_stream :: bool
  m_current_write_end_stream :: bool
  m_write_end_stream :: bool
  m_dispatch_buffered_data :: bool
  m_tranport_wants_read :: bool
  m_connecting :: bool
  m_callbacks :: "nat option list"
  m_upstream_filters :: "active_filter list"
  m_downstream_filters :: "active_filter list"
  io_calls :: nat
  raised :: "RpNetworkConnectionEvent list"

text \<open>A buffer that a filter is given: the one of the connection, or one that was injected.\<close>

datatype buffer_source = ConnSource | FixedSource string bool

text \<open>The environment. A call of libevent is numbered; a write tells whether it succeeded and whether
  \<open>errno\<close> is \<open>ECONNRESET\<close> afterwards, a read whether it succeeded. Filters and listeners are numbered.\<close>

record net_env =
  bufferevent_write_buffer :: "nat \<Rightarrow> bool \<times> bool"
  bufferevent_read_buffer :: "nat \<Rightarrow> bool"
  on_new_connection :: "nat \<Rightarrow> net_conn \<Rightarrow> (RpNetworkFilterStatus \<times> net_conn) option"
  filter_on_data :: "nat \<Rightarrow> buffer_source \<Rightarrow> net_conn \<Rightarrow> (RpNetworkFilterStatus \<times> buffer_source \<times> net_conn) option"
  filter_on_write :: "nat \<Rightarrow> buffer_source \<Rightarrow> net_conn \<Rightarrow> (RpNetworkFilterStatus \<times> buffer_source \<times> net_conn) option"
  filter_start_secure :: "nat \<Rightarrow> bool"
  on_event :: "nat \<Rightarrow> RpNetworkConnectionEvent \<Rightarrow> net_conn \<Rightarrow> net_conn option"

section \<open>The handle of the socket\<close>

definition is_open :: "net_conn \<Rightarrow> bool" where
  "is_open c = (m_bev c \<and> sockfd_valid c)"

definition state_i :: "net_conn \<Rightarrow> RpNetworkConnectionState" where
  "state_i c = (if \<not> is_open c then Closed else if m_in_delayed_close c then Closing else Open)"

definition file_event_assign_events :: "guint32 \<Rightarrow> net_conn \<Rightarrow> net_conn" where
  "file_event_assign_events events c =
     c\<lparr> m_enabled_events := events, bev_cbs := HandleCbs (events AND Read \<noteq> 0) (events AND Write \<noteq> 0) \<rparr>"

definition file_event_activate :: "guint32 \<Rightarrow> net_conn \<Rightarrow> net_conn option" where
  "file_event_activate events c =
     do { c1 \<leftarrow> (if m_injected_activation_events c = 0
                  then if m_enabled (m_activation_cb c) then None
                       else Some (c\<lparr> m_activation_cb := schedule_callback_next_iteration_i (m_activation_cb c) \<rparr>)
                  else Some c);
          if m_enabled (m_activation_cb c1)
          then Some (c1\<lparr> m_injected_activation_events := m_injected_activation_events c1 OR events \<rparr>) else None }"

definition file_event_update_events :: "guint32 \<Rightarrow> net_conn \<Rightarrow> net_conn" where
  "file_event_update_events events c =
     (if events = m_enabled_events c then c else file_event_assign_events events c)"

text \<open>Setting callbacks on a bufferevent that is gone is a NULL call.\<close>

definition file_event_set_enabled :: "guint32 \<Rightarrow> net_conn \<Rightarrow> net_conn option" where
  "file_event_set_enabled events c =
     (let c1 = (if m_injected_activation_events c \<noteq> 0
                then c\<lparr> m_injected_activation_events := 0, m_activation_cb := cancel_i (m_activation_cb c) \<rparr> else c)
      in if events \<noteq> m_enabled_events c1 \<and> \<not> m_bev c1 then None else Some (file_event_update_events events c1))"

definition io_handle_close :: "net_conn \<Rightarrow> net_conn" where
  "io_handle_close c = (if m_bev c \<and> bev_out c \<noteq> [] then c\<lparr> bev_cbs := FreeCb \<rparr> else c\<lparr> m_bev := False \<rparr>)"

definition socket_close :: "net_conn \<Rightarrow> net_conn" where
  "socket_close c = (if is_open c then io_handle_close c else c)"

definition io_handle_shutdown :: "net_conn \<Rightarrow> net_conn option" where
  "io_handle_shutdown c = (if m_bev c then Some (c\<lparr> bev_enabled := False \<rparr>) else None)"

section \<open>The transport socket\<close>

record io_result =
  m_action :: RpPostIoAction
  m_bytes_processed :: nat
  m_end_stream_read :: bool
  m_econnreset :: bool

definition do_read_i :: "net_env \<Rightarrow> net_conn \<Rightarrow> (io_result \<times> net_conn) option" where
  "do_read_i env c =
     (if \<not> m_bev c then None
      else
        (let c1 = c\<lparr> io_calls := Suc (io_calls c) \<rparr> in
         if \<not> bufferevent_read_buffer env (io_calls c)
         then Some (\<lparr> m_action = CloseAction, m_bytes_processed = 0, m_end_stream_read = False, m_econnreset = False \<rparr>, c1)
         else Some (\<lparr> m_action = KeepOpen, m_bytes_processed = length (bev_in c), m_end_stream_read = (bev_in c = []),
                      m_econnreset = False \<rparr>,
                    c1\<lparr> m_read_buffer := m_read_buffer c @ bev_in c, bev_in := [] \<rparr>)))"

definition do_write_i :: "net_env \<Rightarrow> bool \<Rightarrow> net_conn \<Rightarrow> (io_result \<times> net_conn) option" where
  "do_write_i env end_stream c =
     (if m_write_buffer c = [] then
        do { c1 \<leftarrow> (if end_stream \<and> \<not> m_shutdown c
                     then map_option (\<lambda>c. c\<lparr> m_shutdown := True \<rparr>) (io_handle_shutdown c) else Some c);
             Some (\<lparr> m_action = KeepOpen, m_bytes_processed = 0, m_end_stream_read = False, m_econnreset = False \<rparr>, c1) }
      else if \<not> m_bev c then None
      else
        (let (ok, reset) = bufferevent_write_buffer env (io_calls c);
             c1 = c\<lparr> io_calls := Suc (io_calls c) \<rparr>
         in if ok
            then Some (\<lparr> m_action = KeepOpen, m_bytes_processed = length (m_write_buffer c), m_end_stream_read = False,
                         m_econnreset = reset \<rparr>,
                       c1\<lparr> bev_out := bev_out c @ m_write_buffer c, m_write_buffer := [] \<rparr>)
            else Some (\<lparr> m_action = CloseAction, m_bytes_processed = 0, m_end_stream_read = False,
                         m_econnreset = reset \<rparr>, c1)))"

section \<open>Events\<close>

text \<open>The loop over the listeners, from the node \<open>entry\<close>; the next node is read before the call.\<close>

partial_function (option) raise_loop ::
  "net_env \<Rightarrow> RpNetworkConnectionEvent \<Rightarrow> nat \<Rightarrow> net_conn \<Rightarrow> net_conn option" where
  "raise_loop env event entry c =
     (if entry \<ge> length (m_callbacks c) then Some c
      else
        (let next = (Suc entry < length (m_callbacks c)) in
         if event \<noteq> LocalClose \<and> event \<noteq> RemoteClose \<and> state_i c \<noteq> Open then Some c
         else do { c1 \<leftarrow> (case m_callbacks c ! entry of None \<Rightarrow> Some c | Some callback \<Rightarrow> on_event env callback event c);
                   if next then raise_loop env event (Suc entry) c1 else Some c1 }))"

definition raise_connection_event :: "net_env \<Rightarrow> RpNetworkConnectionEvent \<Rightarrow> net_conn \<Rightarrow> net_conn option" where
  "raise_connection_event env event c = raise_loop env event 0 (c\<lparr> raised := raised c @ [event] \<rparr>)"

definition add_connection_callbacks_i :: "nat \<Rightarrow> net_conn \<Rightarrow> net_conn" where
  "add_connection_callbacks_i callbacks c = c\<lparr> m_callbacks := m_callbacks c @ [Some callbacks] \<rparr>"

fun remove_first :: "nat \<Rightarrow> nat option list \<Rightarrow> nat option list" where
  "remove_first k [] = []"
| "remove_first k (e # es) = (if e = Some k then None # es else e # remove_first k es)"

definition remove_connection_callbacks_i :: "nat \<Rightarrow> net_conn \<Rightarrow> net_conn" where
  "remove_connection_callbacks_i callbacks c = c\<lparr> m_callbacks := remove_first callbacks (m_callbacks c) \<rparr>"

text \<open>Closing events raise nothing else; the event \<open>Connected\<close> is handled with writing below.\<close>

definition close_socket :: "net_env \<Rightarrow> RpNetworkConnectionEvent \<Rightarrow> net_conn \<Rightarrow> net_conn option" where
  "close_socket env close_type c =
     (if \<not> is_open c then Some c
      else raise_connection_event env close_type (socket_close (c\<lparr> m_write_buffer := [] \<rparr>)))"

section \<open>Writing\<close>

text \<open>The part of \<open>on_write_ready\<close> after the check for a pending connect.\<close>

definition write_out :: "net_env \<Rightarrow> net_conn \<Rightarrow> net_conn option" where
  "write_out env c =
     do { (result, c1) \<leftarrow> do_write_i env (m_write_end_stream c) c;
          if m_econnreset result then close_socket env RemoteClose (c1\<lparr> m_detected_close_type := RemoteReset \<rparr>)
          else if m_action result = CloseAction then close_socket env RemoteClose c1
          else Some c1 }"

text \<open>\<open>on_connected\<close> of the transport socket raises \<open>Connected\<close>, which tells the listeners and then flushes
  the write buffer.\<close>

partial_function (option) on_write_ready :: "net_env \<Rightarrow> net_conn \<Rightarrow> net_conn option" where
  "on_write_ready env c =
     (if m_connecting c then
        do { c1 \<leftarrow> raise_connection_event env Connected (c\<lparr> m_connecting := False \<rparr>);
             c2 \<leftarrow> (if state_i c1 = Open \<and> m_write_buffer c1 \<noteq> [] then on_write_ready env c1 else Some c1);
             if state_i c2 \<noteq> Open then Some c2 else write_out env c2 }
      else write_out env c)"

definition flush_write_buffer_i :: "net_env \<Rightarrow> net_conn \<Rightarrow> net_conn option" where
  "flush_write_buffer_i env c =
     (if state_i c = Open \<and> m_write_buffer c \<noteq> [] then on_write_ready env c else Some c)"

definition rp_network_connection_impl_raise_event ::
  "net_env \<Rightarrow> RpNetworkConnectionEvent \<Rightarrow> net_conn \<Rightarrow> net_conn option" where
  "rp_network_connection_impl_raise_event env event c =
     do { c1 \<leftarrow> raise_connection_event env event c;
          if event = Connected then flush_write_buffer_i env c1 else Some c1 }"

section \<open>Filters\<close>

definition new_filter :: "nat \<Rightarrow> active_filter" where
  "new_filter f = \<lparr> m_filter = f, m_entry = None, m_initialized = False \<rparr>"

definition add_read_filter :: "nat \<Rightarrow> net_conn \<Rightarrow> net_conn" where
  "add_read_filter f c = c\<lparr> m_upstream_filters := m_upstream_filters c @ [new_filter f] \<rparr>"

definition add_write_filter :: "nat \<Rightarrow> net_conn \<Rightarrow> net_conn" where
  "add_write_filter f c = c\<lparr> m_downstream_filters := m_downstream_filters c @ [new_filter f] \<rparr>"

definition set_initialized :: "nat \<Rightarrow> net_conn \<Rightarrow> net_conn" where
  "set_initialized i c =
     c\<lparr> m_upstream_filters := (m_upstream_filters c)[i := (m_upstream_filters c ! i)\<lparr> m_initialized := True \<rparr>] \<rparr>"

partial_function (option) initialize_loop :: "net_env \<Rightarrow> nat \<Rightarrow> net_conn \<Rightarrow> net_conn option" where
  "initialize_loop env entry c =
     (if entry \<ge> length (m_upstream_filters c) then Some c
      else if m_initialized (m_upstream_filters c ! entry) then initialize_loop env (Suc entry) c
      else do { (status, c1) \<leftarrow> on_new_connection env (m_filter (m_upstream_filters c ! entry)) (set_initialized entry c);
                if status = StopIteration \<or> state_i c1 \<noteq> Open then Some c1 else initialize_loop env (Suc entry) c1 })"

definition initialize_read_filters :: "net_env \<Rightarrow> net_conn \<Rightarrow> (bool \<times> net_conn) option" where
  "initialize_read_filters env c =
     (if m_upstream_filters c = [] then Some (False, c)
      else do { c1 \<leftarrow> initialize_loop env 0 c; Some (True, c1) })"

text \<open>The one of a server connection, which then counts as connected.\<close>

definition server_initialize_read_filters :: "net_env \<Rightarrow> net_conn \<Rightarrow> (bool \<times> net_conn) option" where
  "server_initialize_read_filters env c =
     do { (initialized, c1) \<leftarrow> initialize_read_filters env c;
          c2 \<leftarrow> (if initialized then rp_network_connection_impl_raise_event env Connected c1 else Some c1);
          Some (initialized, c2) }"

definition get_read_buffer :: "buffer_source \<Rightarrow> net_conn \<Rightarrow> string \<times> bool" where
  "get_read_buffer src c =
     (case src of ConnSource \<Rightarrow> (m_read_buffer c, m_read_end_stream c) | FixedSource data end_stream \<Rightarrow> (data, end_stream))"

definition get_write_buffer :: "buffer_source \<Rightarrow> net_conn \<Rightarrow> string \<times> bool" where
  "get_write_buffer src c =
     (case src of
        ConnSource \<Rightarrow> ((case m_current_write_buffer c of None \<Rightarrow> [] | Some d \<Rightarrow> d), m_current_write_end_stream c)
      | FixedSource data end_stream \<Rightarrow> (data, end_stream))"

partial_function (option) continue_reading_loop ::
  "net_env \<Rightarrow> buffer_source \<Rightarrow> nat \<Rightarrow> net_conn \<Rightarrow> net_conn option" where
  "continue_reading_loop env src entry c =
     (if entry \<ge> length (m_upstream_filters c) then Some c
      else
        do { (go, c1) \<leftarrow>
               (if m_initialized (m_upstream_filters c ! entry) then Some (True, c)
                else do { (status, c1) \<leftarrow> on_new_connection env (m_filter (m_upstream_filters c ! entry)) (set_initialized entry c);
                          Some (\<not> (status = StopIteration \<or> state_i c1 \<noteq> Open), c1) });
             if \<not> go then Some c1
             else
               (let (buffer, end_stream) = get_read_buffer src c1 in
                if buffer \<noteq> [] \<or> end_stream then
                  do { (status, src', c2) \<leftarrow> filter_on_data env (m_filter (m_upstream_filters c ! entry)) src c1;
                       if status = StopIteration \<or> state_i c2 \<noteq> Open then Some c2
                       else continue_reading_loop env src' (Suc entry) c2 }
                else continue_reading_loop env src (Suc entry) c1) })"

text \<open>Going on after a filter starts at the node behind the filter's own.\<close>

definition rp_nfmi_on_continue_reading ::
  "net_env \<Rightarrow> nat option \<Rightarrow> buffer_source \<Rightarrow> net_conn \<Rightarrow> net_conn option" where
  "rp_nfmi_on_continue_reading env fltr src c =
     (if state_i c \<noteq> Open then Some c
      else
        do { entry \<leftarrow> (case fltr of
                         None \<Rightarrow> Some 0
                       | Some i \<Rightarrow> if i < length (m_upstream_filters c)
                                   then map_option Suc (m_entry (m_upstream_filters c ! i)) else None);
             continue_reading_loop env src entry c })"

definition rp_network_filter_manager_impl_on_read :: "net_env \<Rightarrow> net_conn \<Rightarrow> net_conn option" where
  "rp_network_filter_manager_impl_on_read env c = rp_nfmi_on_continue_reading env None ConnSource c"

definition continue_reading_i :: "net_env \<Rightarrow> nat \<Rightarrow> net_conn \<Rightarrow> net_conn option" where
  "continue_reading_i env i c = rp_nfmi_on_continue_reading env (Some i) ConnSource c"

definition inject_read_data_to_filter_chain_i :: "net_env \<Rightarrow> nat \<Rightarrow> string \<Rightarrow> bool \<Rightarrow> net_conn \<Rightarrow> net_conn option" where
  "inject_read_data_to_filter_chain_i env i data end_stream c =
     rp_nfmi_on_continue_reading env (Some i) (FixedSource data end_stream) c"

definition start_upstream_secure_transport :: "net_env \<Rightarrow> net_conn \<Rightarrow> bool" where
  "start_upstream_secure_transport env c = list_ex (\<lambda>f. filter_start_secure env (m_filter f)) (m_upstream_filters c)"

partial_function (option) on_write_loop ::
  "net_env \<Rightarrow> buffer_source \<Rightarrow> nat \<Rightarrow> net_conn \<Rightarrow> (RpNetworkFilterStatus \<times> buffer_source \<times> net_conn) option" where
  "on_write_loop env src entry c =
     (if entry \<ge> length (m_downstream_filters c) then Some (Continue, src, c)
      else
        do { (status, src', c1) \<leftarrow> filter_on_write env (m_filter (m_downstream_filters c ! entry)) src c;
             if status = StopIteration \<or> state_i c1 \<noteq> Open then Some (StopIteration, src', c1)
             else on_write_loop env src' (Suc entry) c1 })"

definition filters_on_write ::
  "net_env \<Rightarrow> nat option \<Rightarrow> buffer_source \<Rightarrow> net_conn \<Rightarrow> (RpNetworkFilterStatus \<times> buffer_source \<times> net_conn) option" where
  "filters_on_write env fltr src c =
     (if state_i c \<noteq> Open then Some (StopIteration, src, c)
      else
        do { entry \<leftarrow> (case fltr of
                         None \<Rightarrow> Some 0
                       | Some i \<Rightarrow> if i < length (m_downstream_filters c)
                                   then map_option Suc (m_entry (m_downstream_filters c ! i)) else None);
             on_write_loop env src entry c })"

text \<open>\<open>write_internal\<close>: the buffer of the caller is given and what is left of it returned.\<close>

definition write_internal :: "net_env \<Rightarrow> string \<Rightarrow> bool \<Rightarrow> bool \<Rightarrow> net_conn \<Rightarrow> (string \<times> net_conn) option" where
  "write_internal env data end_stream through_filter_chain c =
     (if m_write_end_stream c then Some (data, c)
      else
        do { (status, data1, c1) \<leftarrow>
               (if through_filter_chain then
                  do { (status, _, c1) \<leftarrow> filters_on_write env None ConnSource
                          (c\<lparr> m_current_write_buffer := Some data, m_current_write_end_stream := end_stream \<rparr>);
                       Some (status, fst (get_write_buffer ConnSource c1), c1\<lparr> m_current_write_buffer := None \<rparr>) }
                else Some (Continue, data, c));
             if status = StopIteration then Some (data1, c1)
             else
               (let c2 = c1\<lparr> m_write_end_stream := end_stream \<rparr> in
                if data1 \<noteq> [] \<or> end_stream then
                  (let c3 = c2\<lparr> m_write_buffer := m_write_buffer c2 @ data1 \<rparr> in
                   if \<not> m_connecting c3 then map_option (Pair []) (on_write_ready env c3) else Some ([], c3))
                else Some (data1, c2)) })"

definition write_i :: "net_env \<Rightarrow> string \<Rightarrow> bool \<Rightarrow> net_conn \<Rightarrow> (string \<times> net_conn) option" where
  "write_i env data end_stream c = write_internal env data end_stream True c"

definition raw_write_i :: "net_env \<Rightarrow> string \<Rightarrow> bool \<Rightarrow> net_conn \<Rightarrow> (string \<times> net_conn) option" where
  "raw_write_i env data end_stream c = write_internal env data end_stream False c"

definition rp_nfmi_on_resume_writing :: "net_env \<Rightarrow> nat \<Rightarrow> buffer_source \<Rightarrow> net_conn \<Rightarrow> net_conn option" where
  "rp_nfmi_on_resume_writing env i src c =
     do { (status, src', c1) \<leftarrow> filters_on_write env (Some i) src c;
          if status = Continue
          then (let (buffer, end_stream) = get_write_buffer src' c1 in map_option snd (raw_write_i env buffer end_stream c1))
          else Some c1 }"

definition inject_write_data_to_filter_chain_i :: "net_env \<Rightarrow> nat \<Rightarrow> string \<Rightarrow> bool \<Rightarrow> net_conn \<Rightarrow> net_conn option" where
  "inject_write_data_to_filter_chain_i env i data end_stream c =
     rp_nfmi_on_resume_writing env i (FixedSource data end_stream) c"

section \<open>Reading\<close>

definition filter_chain_wants_data :: "net_conn \<Rightarrow> bool" where
  "filter_chain_wants_data c = (m_read_disable_count c = 0)"

definition both_sides_half_closed :: "net_conn \<Rightarrow> bool" where
  "both_sides_half_closed c = (m_read_end_stream c \<and> m_write_end_stream c \<and> m_write_buffer c = [])"

definition on_read :: "net_env \<Rightarrow> nat \<Rightarrow> net_conn \<Rightarrow> net_conn option" where
  "on_read env read_buffer_size c =
     (if \<not> filter_chain_wants_data c then Some c
      else if read_buffer_size = 0 \<and> \<not> m_read_end_stream c then Some c
      else if m_read_end_stream c \<and> m_read_end_stream_raised c then Some c
      else rp_network_filter_manager_impl_on_read env
             (if m_read_end_stream c then c\<lparr> m_read_end_stream_raised := True \<rparr> else c))"

definition on_read_ready :: "net_env \<Rightarrow> net_conn \<Rightarrow> net_conn option" where
  "on_read_ready env c0 =
     (let latched = m_dispatch_buffered_data c0; c = c0\<lparr> m_dispatch_buffered_data := False \<rparr> in
      if m_read_disable_count c \<noteq> 0 then
        (if latched \<and> filter_chain_wants_data c then on_read env (length (m_read_buffer c)) c else Some c)
      else
        do { (result, c1) \<leftarrow> do_read_i env (c\<lparr> m_tranport_wants_read := False \<rparr>);
             if m_econnreset result then
               do { c2 \<leftarrow> (if m_bytes_processed result \<noteq> 0 then on_read env (length (m_read_buffer c1)) c1 else Some c1);
                    close_socket env RemoteClose (c2\<lparr> m_detected_close_type := RemoteReset \<rparr>) }
             else
               (let to_close = (\<not> m_enable_half_close c1 \<and> m_end_stream_read result);
                    end_stream_read = (m_end_stream_read result \<and> \<not> to_close);
                    action = (if to_close then CloseAction else m_action result);
                    c2 = c1\<lparr> m_read_end_stream := m_read_end_stream c1 \<or> end_stream_read \<rparr>
                in do { c3 \<leftarrow> (if m_bytes_processed result \<noteq> 0 \<or> end_stream_read \<or> latched \<and> m_read_buffer c2 \<noteq> []
                               then on_read env (length (m_read_buffer c1)) c2 else Some c2);
                        if action = CloseAction \<or> both_sides_half_closed c3 then close_socket env RemoteClose c3
                        else Some c3 }) })"

definition on_file_event :: "net_env \<Rightarrow> guint32 \<Rightarrow> net_conn \<Rightarrow> net_conn option" where
  "on_file_event env events c =
     (if m_immediate_error_event c = LocalClose \<or> m_immediate_error_event c = RemoteClose
      then close_socket env (m_immediate_error_event c) c
      else if events AND FileClosed \<noteq> 0
      then if events AND Read \<noteq> 0 then None else close_socket env RemoteClose c
      else
        do { c1 \<leftarrow> (if events AND Write \<noteq> 0 then on_write_ready env c else Some c);
             if is_open c1 \<and> events AND Read \<noteq> 0 then on_read_ready env c1 else Some c1 })"

definition file_event_merge_injected_events_and_run_cb :: "net_env \<Rightarrow> guint32 \<Rightarrow> net_conn \<Rightarrow> net_conn option" where
  "file_event_merge_injected_events_and_run_cb env events c =
     (if m_injected_activation_events c \<noteq> 0
      then on_file_event env (events OR m_injected_activation_events c)
             (c\<lparr> m_injected_activation_events := 0, m_activation_cb := cancel_i (m_activation_cb c) \<rparr>)
      else on_file_event env events c)"

definition activation_cb :: "net_env \<Rightarrow> net_conn \<Rightarrow> net_conn option" where
  "activation_cb env c =
     (if m_injected_activation_events c \<noteq> 0 then file_event_merge_injected_events_and_run_cb env 0 c else None)"

section \<open>Disabling reads and closing\<close>

definition read_disable_i :: "bool \<Rightarrow> net_conn \<Rightarrow> (RpReadDisableStatus \<times> net_conn) option" where
  "read_disable_i disable c =
     (if disable then
        (let c1 = c\<lparr> m_read_disable_count := m_read_disable_count c + 1 \<rparr> in
         if state_i c1 \<noteq> Open then Some (NoTransition, c1)
         else if m_read_disable_count c1 > 1 then Some (StillReadDisabled, c1)
         else map_option (Pair TransitionedToReadDisabled)
                (file_event_set_enabled (if m_detect_early_close c1 \<and> \<not> m_enable_half_close c1
                                         then Write OR FileClosed else Write) c1))
      else if m_read_disable_count c = 0 then None
      else
        (let c1 = c\<lparr> m_read_disable_count := m_read_disable_count c - 1 \<rparr> in
         if state_i c1 \<noteq> Open then Some (NoTransition, c1)
         else
           do { c2 \<leftarrow> (if m_read_disable_count c1 = 0 then file_event_set_enabled (Read OR Write) c1 else Some c1);
                c3 \<leftarrow> (if filter_chain_wants_data c2 \<and> (m_read_buffer c2 \<noteq> [] \<or> m_tranport_wants_read c2)
                        then file_event_activate Read (c2\<lparr> m_dispatch_buffered_data := True \<rparr>) else Some c2);
                Some (if m_read_disable_count c1 = 0 then TransitionedToReadEnabled else StillReadDisabled, c3) }))"

definition read_enabled_i :: "net_conn \<Rightarrow> bool option" where
  "read_enabled_i c = (if state_i c = Open then Some (m_read_disable_count c = 0) else None)"

definition set_transport_socket_is_readable_i :: "net_conn \<Rightarrow> net_conn option" where
  "set_transport_socket_is_readable_i c =
     (let c1 = c\<lparr> m_tranport_wants_read := True \<rparr> in
      if m_read_disable_count c1 = 0 then file_event_activate Read c1 else Some c1)"

text \<open>No transport socket sets the slot \<open>can_flush_close\<close>, so asking is a NULL call.\<close>

definition can_flush_close :: "bool option" where
  "can_flush_close = None"

definition close_i :: "net_env \<Rightarrow> RpNetworkConnectionCloseType \<Rightarrow> net_conn \<Rightarrow> net_conn option" where
  "close_i env type c =
     (if \<not> is_open c then Some c
      else if type = AbortReset then close_socket env LocalClose (c\<lparr> m_detected_close_type := LocalReset \<rparr>)
      else
        do { now \<leftarrow> (if m_write_buffer c = [] \<or> type = Abort \<or> type = NoFlush then Some True
                      else map_option Not can_flush_close);
             if now then
               do { c1 \<leftarrow> (if m_write_buffer c \<noteq> [] \<and> type \<noteq> Abort then map_option snd (do_write_i env True c) else Some c);
                    if type \<noteq> FlushWriteAndDelay then close_socket env LocalClose c1 else Some c1 }
             else if type = FlushWrite \<or> type = FlushWriteAndDelay then
               file_event_set_enabled (Write OR (if m_enable_half_close c then 0 else FileClosed)) c
             else None })"

section \<open>Connecting, and what libevent reports\<close>

datatype connect_result = ConnectOk | ConnectInProgress | ConnectError

definition connect_i :: "connect_result \<Rightarrow> net_conn \<Rightarrow> net_conn option" where
  "connect_i result c =
     (let c1 = c\<lparr> sockfd_valid := True, bev_cbs := HandleCbs False False \<rparr> in
      case result of
        ConnectError \<Rightarrow> Some (c1\<lparr> m_immediate_error_event := RemoteClose, m_connecting := False \<rparr>)
      | _ \<Rightarrow> if m_connecting c1 then Some c1 else None)"

text \<open>Bytes of the peer, the output being written, the end of the connection, its start, which only the
  handle of a client is told, and the two turns of the scheduled activation: the loop finds it, and runs it.\<close>

datatype bev_event = Received string | Flushed nat | BevEof | BevConnected | Wakeup | Activation

definition readcb :: "net_env \<Rightarrow> net_conn \<Rightarrow> net_conn option" where
  "readcb env c = file_event_merge_injected_events_and_run_cb env Read c"

definition freecb :: "net_conn \<Rightarrow> net_conn" where
  "freecb c = (if bev_out c = [] then c\<lparr> m_bev := False \<rparr> else c)"

definition eventcb_connected :: "net_env \<Rightarrow> net_conn \<Rightarrow> net_conn option" where
  "eventcb_connected env c =
     (let c1 = c\<lparr> m_was_connected := True, bev_cbs := HandleCbs True True \<rparr>
      in if m_enabled_events c1 AND Write \<noteq> 0 then file_event_merge_injected_events_and_run_cb env Write c1 else Some c1)"

definition eventcb_closed :: "net_env \<Rightarrow> net_conn \<Rightarrow> net_conn option" where
  "eventcb_closed env c = file_event_merge_injected_events_and_run_cb env FileClosed c"

fun bev_event_run :: "net_env \<Rightarrow> bev_event \<Rightarrow> net_conn \<Rightarrow> net_conn option" where
  "bev_event_run env (Received data) c =
     (if \<not> (m_bev c \<and> bev_enabled c) then Some c
      else (let c1 = c\<lparr> bev_in := bev_in c @ data \<rparr> in
            case bev_cbs c1 of HandleCbs True _ \<Rightarrow> readcb env c1 | _ \<Rightarrow> Some c1))"
| "bev_event_run env (Flushed n) c =
     (if \<not> (m_bev c \<and> bev_enabled c) then Some c
      else (let c1 = c\<lparr> wire := wire c @ take n (bev_out c), bev_out := drop n (bev_out c) \<rparr> in
            case bev_cbs c1 of FreeCb \<Rightarrow> Some (freecb c1) | _ \<Rightarrow> Some c1))"
| "bev_event_run env BevEof c =
     (if \<not> m_bev c then Some c else case bev_cbs c of HandleCbs _ _ \<Rightarrow> eventcb_closed env c | FreeCb \<Rightarrow> Some c)"
| "bev_event_run env BevConnected c =
     (if \<not> m_bev c then Some c else case bev_cbs c of HandleCbs _ _ \<Rightarrow> eventcb_connected env c | FreeCb \<Rightarrow> Some c)"
| "bev_event_run env Wakeup c = Some (c\<lparr> m_activation_cb := wakeup_cb (m_activation_cb c) \<rparr>)"
| "bev_event_run env Activation c =
     (case timer_cb (m_activation_cb c) of None \<Rightarrow> Some c | Some cb \<Rightarrow> activation_cb env (c\<lparr> m_activation_cb := cb \<rparr>))"

section \<open>New connections\<close>

definition rp_network_connection_impl_init :: net_conn where
  "rp_network_connection_impl_init =
     \<lparr> m_bev = True, sockfd_valid = False, bev_in = [], bev_out = [], wire = [], bev_enabled = True,
       bev_cbs = HandleCbs True True, m_enabled_events = Read OR Write, m_injected_activation_events = 0,
       m_activation_cb = rp_schedulable_callback_impl_new, m_was_connected = False, m_shutdown = False, m_write_buffer = [], m_read_buffer = [],
       m_current_write_buffer = None, m_read_disable_count = 0, m_detected_close_type = NormalClose,
       m_immediate_error_event = NoEvent, m_in_delayed_close = False, m_detect_early_close = True,
       m_enable_half_close = False, m_read_end_stream_raised = False, m_read_end_stream = False,
       m_current_write_end_stream = False, m_write_end_stream = False, m_dispatch_buffered_data = False,
       m_tranport_wants_read = False, m_connecting = False, m_callbacks = [], m_upstream_filters = [],
       m_downstream_filters = [], io_calls = 0, raised = [] \<rparr>"

definition server_conn :: net_conn where
  "server_conn = rp_network_connection_impl_init\<lparr> sockfd_valid := True \<rparr>"

definition client_conn :: net_conn where
  "client_conn = rp_network_connection_impl_init\<lparr> m_connecting := True \<rparr>"

declare raise_loop.simps [code] on_write_ready.simps [code] initialize_loop.simps [code]
  continue_reading_loop.simps [code] on_write_loop.simps [code]

end
