(* ===== verification/Http1_Encoder.thy ===== *)
theory Http1_Encoder
  imports Header_Utility Net_Conn
begin

text \<open>
  Writing HTTP/1 messages: \<^verbatim>\<open>src/src/http1/rp-stream-encoder-impl.c\<close> with the encoders of requests and
  responses, \<^verbatim>\<open>rp-request-encoder-impl.c\<close> and \<^verbatim>\<open>rp-response-encoder-impl.c\<close>, and the output of
  \<^verbatim>\<open>rp-http1-connection-impl.c\<close>, on top of the network connection. An encoder and its connection are
  passed and returned. The search in header tables, the names of status codes and the listener of the codec
  are parameters; the class of the connection is the handler \<open>oec\<close> of a finished message.
\<close>

type_synonym header_list = "(string \<times> string) list"

section \<open>State\<close>

text \<open>\<open>RpStreamEncoderImplPrivate\<close> with the fields of the two encoders derived from it.\<close>

record stream_encoder =
  m_read_disabled_calls :: guint32
  m_disable_chunk_encoding :: bool
  m_chunk_encoding :: bool
  m_connect_request :: bool
  m_is_tcp_tunneling :: bool
  m_is_response_to_head_request :: bool
  m_is_response_to_connect_request :: bool
  m_started_response :: bool
  m_upgrade_request :: bool
  m_head_request :: bool

definition rp_stream_encoder_impl_init :: stream_encoder where
  "rp_stream_encoder_impl_init =
     \<lparr> m_read_disabled_calls = 0, m_disable_chunk_encoding = False, m_chunk_encoding = True, m_connect_request = False,
       m_is_tcp_tunneling = False, m_is_response_to_head_request = False, m_is_response_to_connect_request = False,
       m_started_response = False, m_upgrade_request = False, m_head_request = False \<rparr>"

datatype RpHeaderParsingState = FieldState | ValueState | DoneState

datatype RpStatusCode = Ok | CodecProtocolError | BufferFloodError | PrematureResponseError | CodecClientError
  | InboundFramesWithEmptyPayload | EnvoyOverloadError | GoAwayGracefulClose

text \<open>What a request decoder, or a response decoder, is told.\<close>

datatype decoder_call = NewStreamCall | Decode1xxHeadersCall header_list | DecodeHeadersCall header_list bool
  | DecodeDataCall string bool | DecodeTrailersCall header_list | SendLocalReplyCall int string | ResetStreamCall
  | SetRequestedServerNameCall string

record active_request =
  m_request_url :: "string option"
  m_response_encoder :: stream_encoder
  m_remote_complete :: bool

text \<open>\<open>RpHttp1ConnectionImplPrivate\<close>, the fields of the parser of \<^verbatim>\<open>rp-legacy-http-parser-impl.c\<close> and of the
  server and the client connection. \<open>m_parser\<close> is what \<^verbatim>\<open>htparser_run\<close> was given so far, which its state is a
  function of; \<open>deferred\<close> are the requests handed to the dispatcher for deletion, \<open>released\<close> the encoders the
  client connection has let go, and \<open>calls\<close> what the decoders were told.\<close>

record h1_conn =
  net :: net_conn
  m_output_buffer :: string
  m_protocol :: evhtp_proto
  m_codec_status :: RpStatusCode
  m_header_parsing_state :: RpHeaderParsingState
  m_current_header_field :: string
  m_current_header_value :: string
  m_headers_or_trailers :: "header_list option"
  m_buffered_body :: string
  m_error_code :: int
  m_processing_trailers :: bool
  m_handling_upgrade :: bool
  m_reset_stream_called :: bool
  m_deferred_end_stream_headers :: bool
  m_dispatching :: bool
  m_dispatching_slice_already_drained :: bool
  m_current_dispatching_buffer :: "string list option"
  m_parser :: "string list"
  m_parser_error :: bool
  m_paused :: bool
  m_request_uri :: "string option"
  m_active_request :: "active_request option"
  deferred :: "active_request list"
  m_pending_response :: "stream_encoder option"
  m_pending_response_done :: bool
  m_ignore_message_complete_for_1xx :: bool
  m_force_reset_on_premature_upstream_half_close :: bool
  m_encode_complete :: bool
  released :: "stream_encoder list"
  calls :: "decoder_call list"

definition rp_http1_connection_impl_init :: "net_conn \<Rightarrow> h1_conn" where
  "rp_http1_connection_impl_init connection =
     \<lparr> net = connection, m_output_buffer = [], m_protocol = EVHTP_PROTO_INVALID, m_codec_status = Ok,
       m_header_parsing_state = FieldState, m_current_header_field = [], m_current_header_value = [],
       m_headers_or_trailers = None, m_buffered_body = [], m_error_code = 0, m_processing_trailers = False,
       m_handling_upgrade = False, m_reset_stream_called = False, m_deferred_end_stream_headers = False,
       m_dispatching = False, m_dispatching_slice_already_drained = False, m_current_dispatching_buffer = None,
       m_parser = [], m_parser_error = False, m_paused = False, m_request_uri = None, m_active_request = None,
       deferred = [], m_pending_response = None, m_pending_response_done = False,
       m_ignore_message_complete_for_1xx = False, m_force_reset_on_premature_upstream_half_close = False,
       m_encode_complete = False, released = [], calls = [] \<rparr>"

record http1_settings =
  m_accept_http_10 :: bool
  m_allow_absolute_url :: bool
  m_allow_chunked_length :: bool

record h1_env =
  nenv :: net_env
  evhtp_header_find :: "header_list \<Rightarrow> string \<Rightarrow> string option"
  evhtp_get_status_code_str :: "int \<Rightarrow> string"
  h1_read_freed :: "string \<Rightarrow> string"
  h1_parser :: header_value_parser
  settings :: http1_settings
  on_codec_encode_complete :: "h1_conn \<Rightarrow> h1_conn option"

section \<open>Output of the connection\<close>

definition buffer_add :: "string \<Rightarrow> h1_conn \<Rightarrow> h1_conn" where
  "buffer_add data h = h\<lparr> m_output_buffer := m_output_buffer h @ data \<rparr>"

definition rp_http1_connection_impl_flush_output :: "h1_env \<Rightarrow> bool \<Rightarrow> h1_conn \<Rightarrow> h1_conn option" where
  "rp_http1_connection_impl_flush_output env end_encode h =
     do { (rest, n) \<leftarrow> write_i (nenv env) (m_output_buffer h) False (net h);
          Some (h\<lparr> m_output_buffer := rest, net := n \<rparr>) }"

definition rp_http1_connection_impl_enable_trailers :: bool where
  "rp_http1_connection_impl_enable_trailers = False"

definition rp_http1_connection_impl_read_disable :: "bool \<Rightarrow> h1_conn \<Rightarrow> h1_conn option" where
  "rp_http1_connection_impl_read_disable disable h =
     (if state_i (net h) = Open
      then map_option (\<lambda>(_, n). h\<lparr> net := n \<rparr>) (Net_Conn.read_disable_i disable (net h)) else Some h)"

section \<open>Disabling reads\<close>

definition encoder_read_disable_i :: "bool \<Rightarrow> stream_encoder \<times> h1_conn \<Rightarrow> (stream_encoder \<times> h1_conn) option" where
  "encoder_read_disable_i disable eh =
     (case eh of (e, h) \<Rightarrow>
        (let e1 = (if disable then e\<lparr> m_read_disabled_calls := m_read_disabled_calls e + 1 \<rparr>
                   else if m_read_disabled_calls e \<noteq> 0 then e
                   else e\<lparr> m_read_disabled_calls := m_read_disabled_calls e - 1 \<rparr>)
         in do { h1 \<leftarrow> rp_http1_connection_impl_read_disable disable h; Some (e1, h1) }))"

partial_function (option) encoder_dispose :: "stream_encoder \<times> h1_conn \<Rightarrow> (stream_encoder \<times> h1_conn) option" where
  "encoder_dispose eh =
     (if m_read_disabled_calls (fst eh) \<noteq> 0 then do { eh1 \<leftarrow> encoder_read_disable_i False eh; encoder_dispose eh1 }
      else Some eh)"

section \<open>The body\<close>

fun hex_digit :: "nat \<Rightarrow> char" where
  "hex_digit n = (if n < 10 then char_of (48 + n) else char_of (87 + n))"

function printf_x :: "nat \<Rightarrow> string" where
  "printf_x n = (if n < 16 then [hex_digit n] else printf_x (n div 16) @ [hex_digit (n mod 16)])"
  by auto
termination by (relation "measure id") simp_all

definition CRLF :: string where
  "CRLF = [CHR 0x0D, CHR 0x0A]"

text \<open>Finishing a message. Tunnels are closed when they end.\<close>

definition end_encode ::
  "h1_env \<Rightarrow> (h1_conn \<Rightarrow> h1_conn option) \<Rightarrow> stream_encoder \<times> h1_conn \<Rightarrow> (stream_encoder \<times> h1_conn) option" where
  "end_encode env oec eh =
     (case eh of (e, h) \<Rightarrow>
        do { h1 \<leftarrow> rp_http1_connection_impl_flush_output env True
                     (if m_chunk_encoding e then buffer_add (''0'' @ CRLF @ CRLF) h else h);
             h2 \<leftarrow> on_codec_encode_complete env h1;
             h3 \<leftarrow> oec h2;
             h4 \<leftarrow> (if m_connect_request e \<or> m_is_tcp_tunneling e
                     then map_option (\<lambda>n. h3\<lparr> net := n \<rparr>) (close_i (nenv env) FlushWrite (net h3)) else Some h3);
             Some (e, h4) })"

text \<open>\<open>encode_data_i\<close>: the length of a chunk is printed as an \<open>unsigned\<close>.\<close>

definition chunk :: "string \<Rightarrow> string" where
  "chunk data = printf_x (length data mod 2 ^ 32) @ CRLF @ data @ CRLF"

definition encode_data_i ::
  "h1_env \<Rightarrow> (h1_conn \<Rightarrow> h1_conn option) \<Rightarrow> string \<Rightarrow> bool \<Rightarrow> stream_encoder \<times> h1_conn \<Rightarrow> (stream_encoder \<times> h1_conn) option" where
  "encode_data_i env oec data end_stream eh =
     (case eh of (e, h) \<Rightarrow>
        (let h1 = (if data \<noteq> [] then buffer_add (if m_chunk_encoding e then chunk data else data) h else h)
         in if end_stream then end_encode env oec (e, h1)
            else do { h2 \<leftarrow> rp_http1_connection_impl_flush_output env False h1; Some (e, h2) }))"

definition encode_trailers_base ::
  "h1_env \<Rightarrow> (h1_conn \<Rightarrow> h1_conn option) \<Rightarrow> header_list \<Rightarrow> stream_encoder \<times> h1_conn \<Rightarrow> (stream_encoder \<times> h1_conn) option" where
  "encode_trailers_base env oec trailers eh =
     (if \<not> rp_http1_connection_impl_enable_trailers then end_encode env oec eh else Some eh)"

section \<open>The headers\<close>

definition ContentLength :: string where "ContentLength = ''content-length''"

definition TransferEncoding :: string where "TransferEncoding = ''transfer-encoding''"

definition Chunked :: string where "Chunked = ''chunked''"

definition Host :: string where "Host = '':authority''"

text \<open>The name under which a header is written, \<open>None\<close> for the pseudo headers.\<close>

definition key_to_use :: "h1_env \<Rightarrow> header_list \<Rightarrow> string \<Rightarrow> string option" where
  "key_to_use env headers key =
     (let key' = (if length key > 1 \<and> key ! 0 = CHR '':'' \<and> key ! 1 = CHR ''a'' \<and>
                     evhtp_header_find env headers (HostLegacy_name RpHeaderValues) = None
                  then HostLegacy_name RpHeaderValues else key)
      in if key' \<noteq> [] \<and> key' ! 0 = CHR '':'' then None else Some key')"

definition header_line :: "string \<Rightarrow> string \<Rightarrow> string" where
  "header_line key val = key @ '': '' @ val @ CRLF"

fun encode_header_lines :: "h1_env \<Rightarrow> header_list \<Rightarrow> header_list \<Rightarrow> bool \<Rightarrow> h1_conn \<Rightarrow> bool \<times> h1_conn" where
  "encode_header_lines env headers [] saw_content_length h = (saw_content_length, h)"
| "encode_header_lines env headers ((key, val) # rest) saw_content_length h =
     (case key_to_use env headers key of
        None \<Rightarrow> encode_header_lines env headers rest saw_content_length h
      | Some k \<Rightarrow>
          encode_header_lines env headers rest
            (saw_content_length \<or> length k = length ContentLength \<and> g_ascii_strcaseeq k ContentLength)
            (buffer_add (header_line k val) h))"

definition rp_stream_encoder_impl_encode_headers_base ::
  "h1_env \<Rightarrow> (h1_conn \<Rightarrow> h1_conn option) \<Rightarrow> header_list \<Rightarrow> int \<Rightarrow> bool \<Rightarrow> bool \<Rightarrow>
     stream_encoder \<times> h1_conn \<Rightarrow> (stream_encoder \<times> h1_conn) option" where
  "rp_stream_encoder_impl_encode_headers_base env oec headers status end_stream bodiless_request eh =
     (case eh of (e, h) \<Rightarrow>
        (let (saw_content_length, h1) = encode_header_lines env headers headers False h in
         do { (e1, h2) \<leftarrow>
                (if saw_content_length \<or> m_disable_chunk_encoding e then Some (e\<lparr> m_chunk_encoding := False \<rparr>, h1)
                 else if status \<noteq> 0 \<and> (status < 200 \<or> status = 204) then Some (e\<lparr> m_chunk_encoding := False \<rparr>, h1)
                 else if status = 304 then Some (e\<lparr> m_chunk_encoding := False \<rparr>, h1)
                 else if end_stream \<and> \<not> m_is_response_to_head_request e then
                   Some (e\<lparr> m_chunk_encoding := False \<rparr>,
                         if (status = 0 \<or> status \<ge> 200 \<and> status \<noteq> 204) \<and> \<not> bodiless_request
                         then buffer_add (ContentLength @ '': 0'' @ CRLF) h1 else h1)
                 else if m_protocol h1 = EVHTP_PROTO_10 then Some (e\<lparr> m_chunk_encoding := False \<rparr>, h1)
                 else
                   do { upgrade \<leftarrow> http_utility_is_upgrade (h1_read_freed env) (h1_parser env) (evhtp_header_find env headers);
                        Some (e\<lparr> m_chunk_encoding := \<not> upgrade \<and> \<not> m_is_response_to_head_request e \<and>
                                    \<not> m_is_response_to_connect_request e \<rparr>,
                              if \<not> m_is_response_to_connect_request e
                              then buffer_add (header_line TransferEncoding Chunked) h1 else h1) });
              (let h3 = buffer_add CRLF h2 in
               if end_stream then end_encode env oec (e1, h3)
               else do { h4 \<leftarrow> rp_http1_connection_impl_flush_output env False h3; Some (e1, h4) }) }))"

section \<open>Responses and requests\<close>

text \<open>\<open>"%d"\<close>.\<close>

function printf_d :: "nat \<Rightarrow> string" where
  "printf_d n = (if n < 10 then [char_of (48 + n)] else printf_d (n div 10) @ [char_of (48 + n mod 10)])"
  by auto
termination by (relation "measure id") simp_all

definition printf_int :: "int \<Rightarrow> string" where
  "printf_int i = (if i < 0 then ''-'' @ printf_d (nat (- i)) else printf_d (nat i))"

definition response_encode_headers_i ::
  "h1_env \<Rightarrow> (h1_conn \<Rightarrow> h1_conn option) \<Rightarrow> bool \<Rightarrow> header_list \<Rightarrow> bool \<Rightarrow>
     stream_encoder \<times> h1_conn \<Rightarrow> (stream_encoder \<times> h1_conn) option" where
  "response_encode_headers_i env oec supports_http_10 response_headers end_stream eh =
     (case eh of (e, h) \<Rightarrow>
        (let e1 = e\<lparr> m_started_response := True \<rparr>;
             numeric_status = http_utility_get_response_status (evhtp_header_find env response_headers);
             response_prefix = (if m_protocol h = EVHTP_PROTO_10 \<and> supports_http_10 then ''HTTP/1.0 '' else ''HTTP/1.1 '');
             h1 = buffer_add (response_prefix @ printf_int numeric_status @ '' '' @
                    evhtp_get_status_code_str env numeric_status @ CRLF) h;
             e2 = (if numeric_status \<ge> 300 then e1\<lparr> m_is_response_to_connect_request := False \<rparr> else e1)
         in rp_stream_encoder_impl_encode_headers_base env oec response_headers numeric_status end_stream False (e2, h1)))"

definition encode_1xx_headers_i ::
  "h1_env \<Rightarrow> (h1_conn \<Rightarrow> h1_conn option) \<Rightarrow> bool \<Rightarrow> header_list \<Rightarrow>
     stream_encoder \<times> h1_conn \<Rightarrow> (stream_encoder \<times> h1_conn) option" where
  "encode_1xx_headers_i env oec supports_http_10 response_headers eh =
     map_option (\<lambda>(e, h). (e\<lparr> m_started_response := True \<rparr>, h))
       (response_encode_headers_i env oec supports_http_10 response_headers False eh)"

text \<open>A request without a method, without a path, or a CONNECT without an authority, is a NULL string.\<close>

definition request_encode_headers_i ::
  "h1_env \<Rightarrow> (h1_conn \<Rightarrow> h1_conn option) \<Rightarrow> header_list \<Rightarrow> bool \<Rightarrow>
     stream_encoder \<times> h1_conn \<Rightarrow> (stream_encoder \<times> h1_conn) option" where
  "request_encode_headers_i env oec request_headers end_stream eh =
     (case eh of (e, h) \<Rightarrow>
        (let find = evhtp_header_find env request_headers; connect = is_connect find in
         do { method \<leftarrow> find (Method_name RpHeaderValues);
              let (e1, h1) =
                (if g_ascii_strcaseeq method (Head MethodValues) then (e\<lparr> m_head_request := True \<rparr>, h)
                 else if connect
                 then (e\<lparr> m_disable_chunk_encoding := True, m_connect_request := True \<rparr>,
                       h\<lparr> net := (net h)\<lparr> m_enable_half_close := True \<rparr> \<rparr>)
                 else (e, h));
              upgrade \<leftarrow> http_utility_is_upgrade (h1_read_freed env) (h1_parser env) find;
              let e2 = (if upgrade then e1\<lparr> m_upgrade_request := True, m_disable_chunk_encoding := True \<rparr> else e1);
              target \<leftarrow> (if connect then find Host else find (Path_name RpHeaderValues));
              rp_stream_encoder_impl_encode_headers_base env oec request_headers 0 end_stream
                (request_should_have_no_body find)
                (e2, buffer_add (method @ '' '' @ target @ '' HTTP/1.1'' @ CRLF) h1) }))"

declare encoder_dispose.simps [code]

declare printf_x.simps [simp del] printf_d.simps [simp del]

end
