(* ===== verification/Http1_Codec.thy ===== *)
theory Http1_Codec
  imports Http1_Encoder
begin

text \<open>
  Reading HTTP/1 messages: the parser callbacks and the dispatch loop of
  \<^verbatim>\<open>src/src/http1/rp-http1-connection-impl.c\<close> and the hooks of \<^verbatim>\<open>rp-legacy-http-parser-impl.c\<close>. The parser of
  libevhtp is a parameter: given the slices it was run on before and the next one, it says which hooks it
  calls, how many bytes it has read and whether it ends with an error. The class of the connection, a server's
  or a client's, is a record of its methods. \<open>None\<close> is a failed assertion, a call through a slot that is not set,
  or a loop that does not end.
\<close>

section \<open>The parser\<close>

datatype RpMessageType = RequestMessage | ResponseMessage

datatype RpCallbackResult = ErrorResult | SuccessResult | NoBody | NoBodyData

datatype RpParserStatus = ParserError | ParserOk | ParserPaused

text \<open>What \<^verbatim>\<open>htparser_get_...\<close> tell of a message when its headers are complete.\<close>

record message_info =
  method_name :: "string option"
  is_http_11 :: bool
  content_length :: guint64
  is_chunked :: bool
  uses_transfer_encoding :: bool
  status_code :: int

text \<open>A call of a hook. The path comes with whether the method is \<^verbatim>\<open>CONNECT\<close>, the body with its offset in the
  slice.\<close>

datatype hook = OnMsgBegin | SchemeCb string | HostCb string | PortCb string | PathCb bool string | ArgsCb string
  | OnHdrsBegin | HdrKeyCb string | HdrValCb string | OnHdrsComplete message_info
  | OnNewChunk | OnChunkComplete | OnChunksComplete | BodyCb nat string | OnMsgComplete

text \<open>A parsed URL of GLib.\<close>

record g_uri =
  uri_scheme :: string
  uri_host :: "string option"
  uri_port :: int
  uri_path :: string
  uri_query :: "string option"

text \<open>The environment: the encoders', libevhtp's parser and header tables, GLib's parser of URLs, and what the
  decoders of the streams do to the connection.\<close>

record codec_env =
  henv :: h1_env
  htparser_run :: "string list \<Rightarrow> string \<Rightarrow> hook list \<times> nat \<times> bool"
  evhtp_header_rm_and_free :: "header_list \<Rightarrow> string \<Rightarrow> header_list"
  g_uri_parse :: "string \<Rightarrow> g_uri option"
  decoder :: "decoder_call \<Rightarrow> h1_conn \<Rightarrow> h1_conn option"

text \<open>\<open>RpHttp1ConnectionImplClass\<close>.\<close>

record h1_class =
  message_type :: RpMessageType
  on_message_begin_base :: "h1_conn \<Rightarrow> (RpStatusCode \<times> h1_conn) option"
  on_url_base :: "string \<Rightarrow> h1_conn \<Rightarrow> (RpStatusCode \<times> h1_conn) option"
  on_headers_complete_base :: "message_info \<Rightarrow> h1_conn \<Rightarrow> (RpStatusCode \<times> RpCallbackResult \<times> h1_conn) option"
  on_body :: "string \<Rightarrow> h1_conn \<Rightarrow> h1_conn option"
  on_message_complete_base :: "h1_conn \<Rightarrow> (RpStatusCode \<times> RpCallbackResult \<times> h1_conn) option"
  send_protocol_error :: "string \<Rightarrow> h1_conn \<Rightarrow> (RpStatusCode \<times> h1_conn) option"

definition notify :: "codec_env \<Rightarrow> decoder_call \<Rightarrow> h1_conn \<Rightarrow> h1_conn option" where
  "notify env call h = decoder env call (h\<lparr> calls := calls h @ [call] \<rparr>)"

definition pause_i :: "h1_conn \<Rightarrow> RpCallbackResult \<times> h1_conn" where
  "pause_i h = (SuccessResult, h\<lparr> m_paused := True \<rparr>)"

definition resume_i :: "h1_conn \<Rightarrow> h1_conn" where
  "resume_i h = h\<lparr> m_paused := False \<rparr>"

definition get_status_i :: "h1_conn \<Rightarrow> RpParserStatus" where
  "get_status_i h = (if m_paused h then ParserPaused else if m_parser_error h then ParserError else ParserOk)"

section \<open>Buffers\<close>

text \<open>A libevent buffer is the list of its segments. Draining drops bytes, and the segments left empty.\<close>

fun evbuffer_drain :: "nat \<Rightarrow> string list \<Rightarrow> string list" where
  "evbuffer_drain n [] = []"
| "evbuffer_drain n (s # ss) = (if n < length s then drop n s # ss else evbuffer_drain (n - length s) ss)"

definition evbuffer_get_length :: "string list \<Rightarrow> nat" where
  "evbuffer_get_length data = length (concat data)"

definition dispatch_buffered_body :: "h1_class \<Rightarrow> h1_conn \<Rightarrow> h1_conn option" where
  "dispatch_buffered_body klass h =
     (if m_buffered_body h \<noteq> []
      then map_option (\<lambda>h1. h1\<lparr> m_buffered_body := [] \<rparr>) (on_body klass (m_buffered_body h) h) else Some h)"

definition maybe_direct_dispatch ::
  "h1_class \<Rightarrow> string list \<Rightarrow> h1_conn \<Rightarrow> (bool \<times> string list \<times> h1_conn) option" where
  "maybe_direct_dispatch klass data h =
     (if \<not> m_handling_upgrade h then Some (False, data, h)
      else map_option (\<lambda>h1. (True, [], h1)) (on_body klass (concat data) h))"

text \<open>\<open>buffer_body_i\<close>: a body that is the whole segment drains it.\<close>

definition buffer_body_i :: "nat \<Rightarrow> string \<Rightarrow> h1_conn \<Rightarrow> h1_conn option" where
  "buffer_body_i offset data h =
     (case m_current_dispatching_buffer h of
        None \<Rightarrow> None
      | Some buffer \<Rightarrow>
          (case evbuffer_drain 0 buffer of
             segment # rest \<Rightarrow>
               (if offset = 0 \<and> \<not> m_dispatching_slice_already_drained h \<and> length data = length segment then
                  Some (h\<lparr> m_buffered_body := m_buffered_body h @ data, m_current_dispatching_buffer := Some rest,
                          m_dispatching_slice_already_drained := True \<rparr>)
                else Some (h\<lparr> m_buffered_body := m_buffered_body h @ data \<rparr>))
           | [] \<Rightarrow> Some (h\<lparr> m_buffered_body := m_buffered_body h @ data \<rparr>)))"

section \<open>The callbacks\<close>

definition alloc_headers :: "h1_conn \<Rightarrow> h1_conn" where
  "alloc_headers h = h\<lparr> m_headers_or_trailers := Some [] \<rparr>"

definition on_message_begin_impl :: "h1_class \<Rightarrow> h1_conn \<Rightarrow> (RpStatusCode \<times> h1_conn) option" where
  "on_message_begin_impl klass h =
     on_message_begin_base klass
       (alloc_headers (h\<lparr> m_protocol := EVHTP_PROTO_11, m_processing_trailers := False, m_header_parsing_state := FieldState \<rparr>))"

definition set_and_check_callback_status :: "RpStatusCode \<times> h1_conn \<Rightarrow> (RpCallbackResult \<times> h1_conn) option" where
  "set_and_check_callback_status r =
     (case r of (status, h) \<Rightarrow>
        if m_codec_status h \<noteq> Ok then None
        else Some (if status = Ok then SuccessResult else ErrorResult, h\<lparr> m_codec_status := status \<rparr>))"

definition set_and_check_callback_status_or ::
  "RpStatusCode \<times> RpCallbackResult \<times> h1_conn \<Rightarrow> (RpCallbackResult \<times> h1_conn) option" where
  "set_and_check_callback_status_or r =
     (case r of (status, result, h) \<Rightarrow>
        if m_codec_status h \<noteq> Ok then None
        else if status = Ok then Some (result, h) else Some (ErrorResult, h\<lparr> m_codec_status := status \<rparr>))"

text \<open>\<open>string_view_ltrim\<close>, with the index and the view that both advance.\<close>

function string_view_ltrim_loop :: "nat \<Rightarrow> string \<Rightarrow> string" where
  "string_view_ltrim_loop i s =
     (if i < length s then (if \<not> g_ascii_isspace (s ! i) then s else string_view_ltrim_loop (i + 1) (tl s)) else s)"
  by auto
termination by (relation "measure (\<lambda>(i, s). length s)") auto

declare string_view_ltrim_loop.simps [simp del]

definition string_view_ltrim :: "string \<Rightarrow> string" where
  "string_view_ltrim s = string_view_ltrim_loop 0 s"

text \<open>A string up to its NUL, and \<open>g_strchomp\<close>.\<close>

definition c_str :: "string \<Rightarrow> string" where
  "c_str s = takeWhile (\<lambda>c. c \<noteq> CHR 0x00) s"

definition g_strchomp :: "string \<Rightarrow> string" where
  "g_strchomp s = rev (dropWhile g_ascii_isspace (rev s))"

definition complete_current_header :: "h1_conn \<Rightarrow> (RpStatusCode \<times> h1_conn) option" where
  "complete_current_header h =
     (if \<not> m_dispatching h then None
      else if m_current_header_field h \<noteq> [] then
        (case m_headers_or_trailers h of
           None \<Rightarrow> None
         | Some hs \<Rightarrow>
             Some (Ok, h\<lparr> m_headers_or_trailers :=
                          Some (hs @ [(c_str (map g_ascii_tolower (m_current_header_field h)),
                                       g_strchomp (c_str (m_current_header_value h)))]),
                         m_current_header_field := [], m_current_header_value := [],
                         m_header_parsing_state := FieldState \<rparr>))
      else Some (Ok, h\<lparr> m_header_parsing_state := FieldState \<rparr>))"

definition on_header_field_impl :: "string \<Rightarrow> h1_conn \<Rightarrow> (RpStatusCode \<times> h1_conn) option" where
  "on_header_field_impl data h =
     (if m_header_parsing_state h = DoneState \<and> \<not> rp_http1_connection_impl_enable_trailers then Some (Ok, h)
      else
        (let h1 = (if m_header_parsing_state h = DoneState
                   then h\<lparr> m_processing_trailers := True, m_header_parsing_state := FieldState \<rparr> else h) in
         do { (status, h2) \<leftarrow> (if m_header_parsing_state h1 = ValueState then complete_current_header h1 else Some (Ok, h1));
              if status \<noteq> Ok then Some (status, h2)
              else Some (Ok, h2\<lparr> m_current_header_field := m_current_header_field h2 @ data \<rparr>) }))"

definition on_header_value_impl :: "string \<Rightarrow> h1_conn \<Rightarrow> (RpStatusCode \<times> h1_conn) option" where
  "on_header_value_impl data h =
     (if m_header_parsing_state h = DoneState \<and> \<not> rp_http1_connection_impl_enable_trailers then Some (Ok, h)
      else
        (let header_value = (if m_current_header_value h = [] then string_view_ltrim data else data) in
         Some (Ok, h\<lparr> m_header_parsing_state := ValueState,
                     m_current_header_value := m_current_header_value h @ header_value \<rparr>)))"

definition EVHTP_RES_BADREQ :: int where "EVHTP_RES_BADREQ = 400"

definition EVHTP_RES_NOTIMPL :: int where "EVHTP_RES_NOTIMPL = 501"

text \<open>Refusing a message: the class reports the error, and the codec fails.\<close>

definition refuse_message ::
  "h1_class \<Rightarrow> int \<Rightarrow> string \<Rightarrow> h1_conn \<Rightarrow> (RpStatusCode \<times> RpCallbackResult \<times> h1_conn) option" where
  "refuse_message klass error_code details h =
     do { (status, h1) \<leftarrow> send_protocol_error klass details (h\<lparr> m_error_code := error_code \<rparr>);
          Some (if status \<noteq> Ok then status else CodecProtocolError, SuccessResult, h1) }"

definition header_found :: "codec_env \<Rightarrow> string \<Rightarrow> h1_conn \<Rightarrow> string option" where
  "header_found env name h = Option.bind (m_headers_or_trailers h) (\<lambda>hs. evhtp_header_find (henv env) hs name)"

definition remove_header :: "codec_env \<Rightarrow> string \<Rightarrow> h1_conn \<Rightarrow> h1_conn" where
  "remove_header env name h =
     h\<lparr> m_headers_or_trailers := map_option (\<lambda>hs. evhtp_header_rm_and_free env hs name) (m_headers_or_trailers h) \<rparr>"

text \<open>The parts of \<open>on_headers_complete_impl\<close>: a request to connect, a length beside an encoding, the encoding.
  Each ends the callback with a result, or goes on.\<close>

datatype 'r flow = Return 'r | Go h1_conn

definition connect_checks ::
  "codec_env \<Rightarrow> h1_class \<Rightarrow> bool \<Rightarrow> h1_conn \<Rightarrow> (RpStatusCode \<times> RpCallbackResult \<times> h1_conn) flow option" where
  "connect_checks env klass connect h =
     (if \<not> connect then Some (Go h)
      else (case header_found env ContentLength h of
              None \<Rightarrow> Some (Go (h\<lparr> m_handling_upgrade := True \<rparr>))
            | Some val \<Rightarrow>
                (if val = ''0'' then Some (Go ((remove_header env ContentLength h)\<lparr> m_handling_upgrade := True \<rparr>))
                 else map_option Return (refuse_message klass EVHTP_RES_BADREQ ''body-disallowed'' h))))"

definition length_checks ::
  "codec_env \<Rightarrow> h1_class \<Rightarrow> message_info \<Rightarrow> h1_conn \<Rightarrow> (RpStatusCode \<times> RpCallbackResult \<times> h1_conn) flow option" where
  "length_checks env klass info h =
     (if uses_transfer_encoding info \<and> header_found env ContentLength h \<noteq> None then
        (if is_chunked info \<and> m_allow_chunked_length (settings (henv env)) then Some (Go (remove_header env ContentLength h))
         else map_option Return (refuse_message klass EVHTP_RES_BADREQ ''chunked-content-length'' h))
      else Some (Go h))"

definition encoding_checks ::
  "codec_env \<Rightarrow> h1_class \<Rightarrow> bool \<Rightarrow> h1_conn \<Rightarrow> (RpStatusCode \<times> RpCallbackResult \<times> h1_conn) flow option" where
  "encoding_checks env klass connect h =
     (case header_found env TransferEncoding h of
        None \<Rightarrow> Some (Go h)
      | Some encoding \<Rightarrow>
          (if \<not> g_ascii_strcaseeq encoding Chunked \<or> connect
           then map_option Return (refuse_message klass EVHTP_RES_NOTIMPL ''invalid-transfer-encoding'' h) else Some (Go h)))"

definition and_then :: "'r flow option \<Rightarrow> (h1_conn \<Rightarrow> 'r flow option) \<Rightarrow> 'r flow option" where
  "and_then r f = do { x \<leftarrow> r; case x of Return v \<Rightarrow> Some (Return v) | Go h \<Rightarrow> f h }"

definition on_headers_complete_impl ::
  "codec_env \<Rightarrow> h1_class \<Rightarrow> message_info \<Rightarrow> h1_conn \<Rightarrow> (RpStatusCode \<times> RpCallbackResult \<times> h1_conn) option" where
  "on_headers_complete_impl env klass info h =
     do { (status, h1) \<leftarrow> complete_current_header h;
          if status \<noteq> Ok then Some (status, SuccessResult, h1)
          else
            (let h2 = (if is_http_11 info then h1 else h1\<lparr> m_protocol := EVHTP_PROTO_10 \<rparr>);
                 connect = g_ascii_strcaseeq (case method_name info of None \<Rightarrow> [] | Some m \<Rightarrow> m) (Connect MethodValues)
             in do { checked \<leftarrow> and_then (and_then (connect_checks env klass connect h2) (length_checks env klass info))
                                  (encoding_checks env klass connect);
                     case checked of
                       Return r \<Rightarrow> Some r
                     | Go h3 \<Rightarrow>
                         do { (status, result, h4) \<leftarrow> on_headers_complete_base klass info h3;
                              if status \<noteq> Ok then Some (status, SuccessResult, h4)
                              else (let h5 = h4\<lparr> m_header_parsing_state := DoneState \<rparr>
                                    in Some (Ok, if m_handling_upgrade h5 then NoBodyData else result, h5)) } }) }"

definition on_message_complete_impl ::
  "h1_class \<Rightarrow> h1_conn \<Rightarrow> (RpStatusCode \<times> RpCallbackResult \<times> h1_conn) option" where
  "on_message_complete_impl klass h =
     do { h1 \<leftarrow> dispatch_buffered_body klass h;
          if m_handling_upgrade h1 then
            (if m_deferred_end_stream_headers h1 then None else (case pause_i h1 of (r, h2) \<Rightarrow> Some (Ok, r, h2)))
          else do { (status, h2) \<leftarrow> (if m_header_parsing_state h1 = ValueState then complete_current_header h1 else Some (Ok, h1));
                    if status \<noteq> Ok then Some (status, SuccessResult, h2) else on_message_complete_base klass h2 } }"

definition on_chunk_header_i :: "h1_class \<Rightarrow> bool \<Rightarrow> h1_conn \<Rightarrow> h1_conn option" where
  "on_chunk_header_i klass is_final_chunk h = (if is_final_chunk then dispatch_buffered_body klass h else Some h)"

section \<open>The hooks\<close>

definition append_request_uri :: "string \<Rightarrow> bool \<Rightarrow> bool \<Rightarrow> h1_conn \<Rightarrow> h1_conn" where
  "append_request_uri data insert_port_sep insert_query_sep h =
     h\<lparr> m_request_uri := Some ((case m_request_uri h of None \<Rightarrow> [] | Some uri \<Rightarrow> uri) @
          (if insert_port_sep then '':'' else []) @ (if insert_query_sep then ''?'' else []) @ data) \<rparr>"

definition on_msg_begin :: "h1_class \<Rightarrow> h1_conn \<Rightarrow> (RpCallbackResult \<times> h1_conn) option" where
  "on_msg_begin klass h =
     do { r \<leftarrow> on_message_begin_impl klass (h\<lparr> m_request_uri := map_option (\<lambda>_. []) (m_request_uri h) \<rparr>);
          set_and_check_callback_status r }"

definition on_hdrs_begin :: "h1_class \<Rightarrow> h1_conn \<Rightarrow> (RpCallbackResult \<times> h1_conn) option" where
  "on_hdrs_begin klass h =
     (if message_type klass = RequestMessage then
        do { uri \<leftarrow> m_request_uri h; r \<leftarrow> on_url_base klass uri h; set_and_check_callback_status r }
      else Some (SuccessResult, h))"

definition on_hdrs_complete ::
  "codec_env \<Rightarrow> h1_class \<Rightarrow> message_info \<Rightarrow> h1_conn \<Rightarrow> (RpCallbackResult \<times> h1_conn) option" where
  "on_hdrs_complete env klass info h =
     do { r \<leftarrow> on_headers_complete_impl env klass info h;
          (result, h1) \<leftarrow> set_and_check_callback_status_or r;
          Some (if result = ErrorResult then ErrorResult else SuccessResult, h1) }"

primrec run_hook :: "codec_env \<Rightarrow> h1_class \<Rightarrow> hook \<Rightarrow> h1_conn \<Rightarrow> (RpCallbackResult \<times> h1_conn) option" where
  "run_hook env klass OnMsgBegin h = on_msg_begin klass h"
| "run_hook env klass (SchemeCb s) h =
     Some (SuccessResult, append_request_uri ''://'' False False (append_request_uri s False False h))"
| "run_hook env klass (HostCb s) h = Some (SuccessResult, append_request_uri s False False h)"
| "run_hook env klass (PortCb s) h = Some (SuccessResult, append_request_uri s True False h)"
| "run_hook env klass (PathCb connect s) h =
     Some (SuccessResult, if \<not> connect then append_request_uri s False False h else h)"
| "run_hook env klass (ArgsCb s) h = Some (SuccessResult, append_request_uri s False True h)"
| "run_hook env klass OnHdrsBegin h = on_hdrs_begin klass h"
| "run_hook env klass (HdrKeyCb s) h = do { r \<leftarrow> on_header_field_impl s h; set_and_check_callback_status r }"
| "run_hook env klass (HdrValCb s) h = do { r \<leftarrow> on_header_value_impl s h; set_and_check_callback_status r }"
| "run_hook env klass (OnHdrsComplete info) h = on_hdrs_complete env klass info h"
| "run_hook env klass OnNewChunk h = map_option (\<lambda>h1. (SuccessResult, h1)) (on_chunk_header_i klass False h)"
| "run_hook env klass OnChunkComplete h = Some (SuccessResult, h)"
| "run_hook env klass OnChunksComplete h = map_option (\<lambda>h1. (SuccessResult, h1)) (on_chunk_header_i klass True h)"
| "run_hook env klass (BodyCb offset s) h = map_option (\<lambda>h1. (SuccessResult, h1)) (buffer_body_i offset s h)"
| "run_hook env klass OnMsgComplete h =
     do { r \<leftarrow> on_message_complete_impl klass h; set_and_check_callback_status_or r }"

text \<open>The parser stops at the first hook that does not succeed.\<close>

fun run_hooks :: "codec_env \<Rightarrow> h1_class \<Rightarrow> hook list \<Rightarrow> h1_conn \<Rightarrow> (RpCallbackResult \<times> h1_conn) option" where
  "run_hooks env klass [] h = Some (SuccessResult, h)"
| "run_hooks env klass (k # ks) h =
     do { (r, h1) \<leftarrow> run_hook env klass k h; if r = SuccessResult then run_hooks env klass ks h1 else Some (r, h1) }"

definition execute_i :: "codec_env \<Rightarrow> h1_class \<Rightarrow> string \<Rightarrow> h1_conn \<Rightarrow> (nat \<times> h1_conn) option" where
  "execute_i env klass segment h =
     (if m_paused h then Some (0, h)
      else (case htparser_run env (m_parser h) segment of (hooks, nread, error) \<Rightarrow>
              do { (r, h1) \<leftarrow> run_hooks env klass hooks h;
                   Some (nread, h1\<lparr> m_parser := m_parser h @ [segment], m_parser_error := error \<or> r \<noteq> SuccessResult \<rparr>) }))"

section \<open>Dispatching\<close>

definition dispatch_slice :: "codec_env \<Rightarrow> h1_class \<Rightarrow> string \<Rightarrow> h1_conn \<Rightarrow> (RpStatusCode \<times> nat \<times> h1_conn) option" where
  "dispatch_slice env klass segment h =
     (if m_codec_status h \<noteq> Ok \<or> \<not> m_dispatching h then None
      else do { (nread, h1) \<leftarrow> execute_i env klass segment h;
                if m_codec_status h1 \<noteq> Ok then Some (m_codec_status h1, nread, h1)
                else if get_status_i h1 \<noteq> ParserOk \<and> get_status_i h1 \<noteq> ParserPaused
                then Some (CodecProtocolError, nread, h1\<lparr> m_codec_status := CodecProtocolError \<rparr>)
                else Some (Ok, nread, h1) })"

text \<open>The loop over the segments. \<open>m_current_dispatching_buffer\<close> is the buffer the caller passed.\<close>

partial_function (option) dispatch_loop :: "codec_env \<Rightarrow> h1_class \<Rightarrow> h1_conn \<Rightarrow> (RpStatusCode \<times> h1_conn) option" where
  "dispatch_loop env klass h =
     (case m_current_dispatching_buffer h of
        None \<Rightarrow> None
      | Some buffer \<Rightarrow>
          (case evbuffer_drain 0 buffer of
             [] \<Rightarrow> Some (Ok, h)
           | segment # rest \<Rightarrow>
               Option.bind (dispatch_slice env klass segment (h\<lparr> m_dispatching_slice_already_drained := False \<rparr>))
                 (\<lambda>(status, nread, h1).
                    if status \<noteq> Ok then Some (status, h1)
                    else if \<not> m_dispatching_slice_already_drained h1 \<and> nread > length segment then None
                    else
                      (let h2 = (if m_dispatching_slice_already_drained h1 then h1
                                 else h1\<lparr> m_current_dispatching_buffer :=
                                           map_option (evbuffer_drain nread) (m_current_dispatching_buffer h1) \<rparr>)
                       in if get_status_i h2 = ParserOk then dispatch_loop env klass h2
                          else if get_status_i h2 = ParserPaused then Some (Ok, h2) else None))))"

declare dispatch_loop.simps [code]

definition dispatch ::
  "codec_env \<Rightarrow> h1_class \<Rightarrow> string list \<Rightarrow> h1_conn \<Rightarrow> (RpStatusCode \<times> string list \<times> h1_conn) option" where
  "dispatch env klass data h =
     do { (direct, data1, h1) \<leftarrow> maybe_direct_dispatch klass data (h\<lparr> m_dispatching := True \<rparr>);
          if direct then Some (Ok, data1, h1)
          else
            (let h2 = resume_i h1 in
             if evbuffer_get_length data1 > 0 then
               do { (status, h3) \<leftarrow> dispatch_loop env klass (h2\<lparr> m_current_dispatching_buffer := Some data1 \<rparr>);
                    data2 \<leftarrow> m_current_dispatching_buffer h3;
                    if status \<noteq> Ok then Some (status, data2, h3)
                    else do { h4 \<leftarrow> dispatch_buffered_body klass (h3\<lparr> m_current_dispatching_buffer := None \<rparr>);
                              (_, data3, h5) \<leftarrow> maybe_direct_dispatch klass data2 h4;
                              Some (Ok, data3, h5) } }
             else
               do { (status, _, h3) \<leftarrow> dispatch_slice env klass [] h2;
                    if status \<noteq> Ok then Some (status, data1, h3)
                    else do { (_, data3, h4) \<leftarrow> maybe_direct_dispatch klass data1 h3;
                              Some (Ok, data3, h4) } }) }"

end
