(* ===== verification/Http1_Server.thy ===== *)
theory Http1_Server
  imports Http1_Codec
begin

text \<open>
  The server side of HTTP/1, \<^verbatim>\<open>src/src/http1/rp-http1-server-connection-impl.c\<close>, as a class of the connection of
  \<^verbatim>\<open>Http1_Codec\<close>, and the loop of \<^verbatim>\<open>src/src/rp-http-conn-manager-impl.c\<close> that feeds it what a client sends.
\<close>

section \<open>Requests\<close>

definition ActiveRequest_new :: active_request where
  "ActiveRequest_new = \<lparr> m_request_url = Some [], m_response_encoder = rp_stream_encoder_impl_init, m_remote_complete = False \<rparr>"

definition ActiveRequest_free :: "active_request \<Rightarrow> h1_conn \<Rightarrow> h1_conn option" where
  "ActiveRequest_free request h = map_option snd (encoder_dispose (m_response_encoder request, h))"

definition server_on_message_begin_base :: "codec_env \<Rightarrow> h1_conn \<Rightarrow> (RpStatusCode \<times> h1_conn) option" where
  "server_on_message_begin_base env h =
     (if \<not> m_reset_stream_called h
      then map_option (\<lambda>h1. (Ok, h1\<lparr> m_active_request := Some ActiveRequest_new \<rparr>)) (notify env NewStreamCall h)
      else Some (Ok, h))"

definition server_on_url_base :: "string \<Rightarrow> h1_conn \<Rightarrow> (RpStatusCode \<times> h1_conn) option" where
  "server_on_url_base data h =
     (case m_active_request h of
        None \<Rightarrow> Some (Ok, h)
      | Some request \<Rightarrow>
          do { url \<leftarrow> m_request_url request;
               Some (Ok, h\<lparr> m_active_request := Some (request\<lparr> m_request_url := Some (url @ data) \<rparr>) \<rparr>) })"

definition server_on_body :: "codec_env \<Rightarrow> string \<Rightarrow> h1_conn \<Rightarrow> h1_conn option" where
  "server_on_body env data h =
     (if m_active_request h \<noteq> None then notify env (DecodeDataCall data False) h else Some h)"

definition server_on_reset_stream :: "codec_env \<Rightarrow> h1_conn \<Rightarrow> h1_conn option" where
  "server_on_reset_stream env h =
     (if m_active_request h = None then Some h
      else do { h1 \<leftarrow> notify env ResetStreamCall h;
                case m_active_request h1 of
                  None \<Rightarrow> Some h1
                | Some request \<Rightarrow> Some (h1\<lparr> deferred := deferred h1 @ [request], m_active_request := None \<rparr>) })"

definition server_on_encode_complete :: "h1_conn \<Rightarrow> h1_conn option" where
  "server_on_encode_complete h =
     do { request \<leftarrow> m_active_request h;
          Some (if m_remote_complete request
                then h\<lparr> deferred := deferred h @ [request], m_active_request := None \<rparr> else h) }"

section \<open>The path\<close>

definition Options :: string where "Options = ''OPTIONS''"

definition url_host_and_port :: "g_uri \<Rightarrow> string" where
  "url_host_and_port url =
     (case uri_host url of None \<Rightarrow> [] | Some host \<Rightarrow> host) @
     (if uri_port url > 0 then '':'' @ printf_int (uri_port url) else [])"

definition url_path_and_query_params :: "g_uri \<Rightarrow> string option" where
  "url_path_and_query_params url =
     (if uri_path url \<noteq> [] then
        Some (uri_path url @ (case uri_query url of None \<Rightarrow> [] | Some query \<Rightarrow> if query \<noteq> [] then '':'' @ query else []))
      else None)"

definition parse_request_url :: "codec_env \<Rightarrow> string \<Rightarrow> bool \<Rightarrow> g_uri option" where
  "parse_request_url env request_url connect = g_uri_parse env (if connect then ''http://'' @ request_url else request_url)"

definition add_header :: "string \<Rightarrow> string \<Rightarrow> h1_conn \<Rightarrow> h1_conn" where
  "add_header key val h = h\<lparr> m_headers_or_trailers := map_option (\<lambda>hs. hs @ [(key, val)]) (m_headers_or_trailers h) \<rparr>"

definition clear_request_url :: "active_request \<Rightarrow> h1_conn \<Rightarrow> h1_conn" where
  "clear_request_url request h = h\<lparr> m_active_request := Some (request\<lparr> m_request_url := None \<rparr>) \<rparr>"

text \<open>A path that is not absolute is stored as a pointer into the string that is freed right after; its value
  is whatever the freed memory holds.\<close>

definition handle_path :: "codec_env \<Rightarrow> string \<Rightarrow> active_request \<Rightarrow> h1_conn \<Rightarrow> (RpStatusCode \<times> h1_conn) option" where
  "handle_path env method request h =
     (let connect = g_ascii_strcaseeq method (Connect MethodValues); path = Path_name RpHeaderValues in
      case m_request_url request of
        None \<Rightarrow> None
      | Some url \<Rightarrow>
          (if \<not> connect \<and> url \<noteq> [] \<and>
              (url ! 0 = CHR ''/'' \<or> g_ascii_strcaseeq method Options \<and> url ! 0 = CHR ''*'') then
             Some (Ok, clear_request_url request (add_header path url h))
           else if \<not> m_allow_absolute_url (settings (henv env)) \<and> \<not> connect then
             Some (Ok, clear_request_url request (add_header path (h1_read_freed (henv env) url) h))
           else
             (case parse_request_url env url connect of
                None \<Rightarrow> Some (CodecProtocolError, h)
              | Some absolute_url \<Rightarrow>
                  do { h1 \<leftarrow> notify env (SetRequestedServerNameCall (url_host_and_port absolute_url))
                              (add_header Host (url_host_and_port absolute_url) h);
                       (let h2 = (if \<not> connect then add_header (Scheme_name RpHeaderValues) (uri_scheme absolute_url) h1 else h1);
                            h3 = (case url_path_and_query_params absolute_url of
                                    None \<Rightarrow> h2 | Some p \<Rightarrow> if p \<noteq> [] then add_header path p h2 else h2)
                        in Some (Ok, clear_request_url request h3)) })))"

definition check_protocol_version :: "codec_env \<Rightarrow> h1_conn \<Rightarrow> RpStatusCode \<times> h1_conn" where
  "check_protocol_version env h =
     (if m_protocol h = EVHTP_PROTO_10 \<and> \<not> m_accept_http_10 (settings (henv env)) then (Ok, h\<lparr> m_error_code := 426 \<rparr>)
      else (Ok, h))"

section \<open>The callbacks\<close>

text \<open>libevhtp has a name for the method of every request.\<close>

definition server_on_headers_complete_base ::
  "codec_env \<Rightarrow> message_info \<Rightarrow> h1_conn \<Rightarrow> (RpStatusCode \<times> RpCallbackResult \<times> h1_conn) option" where
  "server_on_headers_complete_base env info h =
     (case m_active_request h of
        None \<Rightarrow> Some (Ok, SuccessResult, h)
      | Some request \<Rightarrow>
          do { method \<leftarrow> method_name info;
               (let request1 = request\<lparr> m_response_encoder := (m_response_encoder request)\<lparr>
                      m_is_response_to_head_request := g_ascii_strcaseeq method (Head MethodValues),
                      m_is_response_to_connect_request := g_ascii_strcaseeq method (Connect MethodValues) \<rparr> \<rparr>
                in do { (status, h1) \<leftarrow> handle_path env method request1 (h\<lparr> m_active_request := Some request1 \<rparr>);
                        if status \<noteq> Ok then Some (status, SuccessResult, h1)
                        else
                          (case check_protocol_version env (add_header (Method_name RpHeaderValues) method h1) of (status, h2) \<Rightarrow>
                             if status \<noteq> Ok then Some (status, SuccessResult, h2)
                             else if is_chunked info \<or> content_length info > 0 \<or> m_handling_upgrade h2 then
                               do { hs \<leftarrow> m_headers_or_trailers h2;
                                    h3 \<leftarrow> notify env (DecodeHeadersCall hs False) h2;
                                    Some (Ok, SuccessResult, if state_i (net h3) \<noteq> Open then snd (pause_i h3) else h3) }
                             else Some (Ok, SuccessResult, h2\<lparr> m_deferred_end_stream_headers := True \<rparr>)) }) })"

definition server_on_message_complete_base ::
  "codec_env \<Rightarrow> h1_conn \<Rightarrow> (RpStatusCode \<times> RpCallbackResult \<times> h1_conn) option" where
  "server_on_message_complete_base env h =
     (if m_handling_upgrade h then None
      else do { h1 \<leftarrow>
                  (case m_active_request h of
                     None \<Rightarrow> Some h
                   | Some request \<Rightarrow>
                       (let h1 = h\<lparr> m_active_request := Some (request\<lparr> m_remote_complete := True \<rparr>) \<rparr> in
                        do { h2 \<leftarrow>
                               (if m_deferred_end_stream_headers h1 then
                                  do { hs \<leftarrow> m_headers_or_trailers h1;
                                       h2 \<leftarrow> notify env (DecodeHeadersCall hs True) h1;
                                       Some (h2\<lparr> m_deferred_end_stream_headers := False \<rparr>) }
                                else if m_processing_trailers h1 then
                                  do { hs \<leftarrow> m_headers_or_trailers h1; notify env (DecodeTrailersCall hs) h1 }
                                else notify env (DecodeDataCall [] True) h1);
                             Some (h2\<lparr> m_headers_or_trailers := None \<rparr>) }));
                (case pause_i h1 of (r, h2) \<Rightarrow> Some (Ok, r, h2)) })"

text \<open>\<open>send_protocol_error\<close> keeps the request it looked up before it started a message.\<close>

definition server_send_protocol_error ::
  "codec_env \<Rightarrow> (h1_conn \<Rightarrow> (RpStatusCode \<times> h1_conn) option) \<Rightarrow> string \<Rightarrow> h1_conn \<Rightarrow> (RpStatusCode \<times> h1_conn) option" where
  "server_send_protocol_error env begin_impl details h =
     do { (status, h1) \<leftarrow> (if m_active_request h = None then begin_impl h else Some (Ok, h));
          if status \<noteq> Ok then Some (status, h1)
          else if m_reset_stream_called h1 then Some (Ok, h1)
          else do { request \<leftarrow> m_active_request h;
                    if m_started_response (m_response_encoder request)
                    then map_option (\<lambda>h2. (Ok, h2)) (notify env (SendLocalReplyCall (m_error_code h1) details) h1)
                    else Some (Ok, h1) } }"

text \<open>The message a protocol error starts only runs \<open>on_message_begin_base\<close>, so the class is built in two steps.\<close>

definition server_class0 :: "codec_env \<Rightarrow> h1_class" where
  "server_class0 env = \<lparr> message_type = RequestMessage, on_message_begin_base = server_on_message_begin_base env,
     on_url_base = server_on_url_base, on_headers_complete_base = server_on_headers_complete_base env,
     on_body = server_on_body env, on_message_complete_base = server_on_message_complete_base env,
     send_protocol_error = (\<lambda>_ _. None) \<rparr>"

definition server_class :: "codec_env \<Rightarrow> h1_class" where
  "server_class env = (server_class0 env)\<lparr> send_protocol_error :=
     server_send_protocol_error env (on_message_begin_impl (server_class0 env)) \<rparr>"

section \<open>Dispatching\<close>

definition disable_read :: "h1_conn \<Rightarrow> h1_conn option" where
  "disable_read h =
     do { request \<leftarrow> m_active_request h;
          (e, h1) \<leftarrow> encoder_read_disable_i True (m_response_encoder request, h);
          Some (h1\<lparr> m_active_request := Some (request\<lparr> m_response_encoder := e \<rparr>) \<rparr>) }"

definition remote_complete :: "h1_conn \<Rightarrow> bool" where
  "remote_complete h = (case m_active_request h of None \<Rightarrow> False | Some request \<Rightarrow> m_remote_complete request)"

definition server_dispatch_i ::
  "codec_env \<Rightarrow> string list \<Rightarrow> h1_conn \<Rightarrow> (RpStatusCode \<times> string list \<times> h1_conn) option" where
  "server_dispatch_i env data h =
     (if remote_complete h then map_option (\<lambda>h1. (Ok, data, h1)) (disable_read h)
      else do { (status, data1, h1) \<leftarrow> dispatch env (server_class env) data h;
                if remote_complete h1 \<and> evbuffer_get_length data1 > 0
                then map_option (\<lambda>h2. (status, data1, h2)) (disable_read h1)
                else Some (status, data1, h1) })"

definition rp_http1_server_connection_impl_new :: "net_conn \<Rightarrow> h1_conn" where
  "rp_http1_server_connection_impl_new connection = rp_http1_connection_impl_init connection"

section \<open>The loop of the connection manager\<close>

text \<open>\<open>on_data_i\<close>: whether the manager has streams, and whether it is to close the connection when it has none,
  are functions of what the connection has told it.\<close>

record hcm_env =
  cenv :: codec_env
  m_streams :: "h1_conn \<Rightarrow> bool"
  drain_state_closing :: "h1_conn \<Rightarrow> bool"
  reset_all_streams :: "h1_conn \<Rightarrow> h1_conn option"

definition do_connection_close :: "hcm_env \<Rightarrow> RpNetworkConnectionCloseType \<Rightarrow> h1_conn \<Rightarrow> h1_conn option" where
  "do_connection_close env close_type h =
     do { h1 \<leftarrow> (if m_streams env h then reset_all_streams env h else Some h);
          if close_type \<noteq> NoCloseType
          then map_option (\<lambda>n. h1\<lparr> net := n \<rparr>) (close_i (nenv (henv (cenv env))) close_type (net h1)) else Some h1 }"

definition check_for_deferred_close :: "hcm_env \<Rightarrow> h1_conn \<Rightarrow> h1_conn option" where
  "check_for_deferred_close env h =
     (if drain_state_closing env h \<and> \<not> m_streams env h then do_connection_close env FlushWrite h else Some h)"

partial_function (option) hcm_on_data_loop :: "hcm_env \<Rightarrow> string list \<Rightarrow> h1_conn \<Rightarrow> (string list \<times> h1_conn) option" where
  "hcm_on_data_loop env data h =
     do { (status, data1, h1) \<leftarrow> server_dispatch_i (cenv env) data h;
          h2 \<leftarrow> check_for_deferred_close env h1;
          if proto_value (m_protocol h2) \<le> proto_value EVHTP_PROTO_11 \<and> state_i (net h2) = Open \<and>
             evbuffer_get_length data1 > 0 \<and> \<not> m_streams env h2
          then hcm_on_data_loop env data1 h2 else Some (data1, h2) }"

declare hcm_on_data_loop.simps [code]

text \<open>\<open>on_event_i\<close>, for the events of the connection.\<close>

definition hcm_on_event_i :: "hcm_env \<Rightarrow> RpNetworkConnectionEvent \<Rightarrow> h1_conn \<Rightarrow> h1_conn option" where
  "hcm_on_event_i env event h =
     (if event = RemoteClose \<or> event = LocalClose then do_connection_close env NoCloseType h else Some h)"

end
