(* ===== verification/Http1_Client.thy ===== *)
theory Http1_Client
  imports Http1_Codec
begin

text \<open>
  The client side of HTTP/1, \<^verbatim>\<open>src/src/http1/rp-http1-client-connection-impl.c\<close>, as a class of the connection of
  \<^verbatim>\<open>Http1_Codec\<close>: it reads the responses of the upstream servers.
\<close>

definition rp_http1_client_connection_impl_new :: "net_conn \<Rightarrow> h1_conn" where
  "rp_http1_client_connection_impl_new connection =
     (rp_http1_connection_impl_init connection)\<lparr> m_pending_response_done := True \<rparr>"

definition client_new_stream_i :: "h1_conn \<Rightarrow> h1_conn option" where
  "client_new_stream_i h =
     (if read_enabled_i (net h) = Some True \<and> m_pending_response h = None \<and> m_pending_response_done h
      then Some (h\<lparr> m_pending_response := Some rp_stream_encoder_impl_init, m_pending_response_done := False \<rparr>) else None)"

definition PendingResponse_free :: "h1_conn \<Rightarrow> h1_conn" where
  "PendingResponse_free h =
     (case m_pending_response h of
        None \<Rightarrow> h
      | Some response \<Rightarrow> h\<lparr> m_pending_response := None, released := released h @ [response] \<rparr>)"

definition client_on_encode_complete :: "h1_conn \<Rightarrow> h1_conn option" where
  "client_on_encode_complete h = Some (h\<lparr> m_encode_complete := True \<rparr>)"

definition client_on_message_begin_base :: "h1_conn \<Rightarrow> (RpStatusCode \<times> h1_conn) option" where
  "client_on_message_begin_base h = Some (Ok, h)"

definition headers_set_status :: "int \<Rightarrow> h1_conn \<Rightarrow> h1_conn" where
  "headers_set_status status h =
     h\<lparr> m_headers_or_trailers := map_option (\<lambda>hs. hs @ [(Status_name RpHeaderValues, printf_int status)]) (m_headers_or_trailers h) \<rparr>"

text \<open>\<open>None\<close> when the assertion on a response to a \<^verbatim>\<open>HEAD\<close> request fails.\<close>

definition rp_http1_client_connection_impl_cannot_have_body :: "message_info \<Rightarrow> h1_conn \<Rightarrow> bool option" where
  "rp_http1_client_connection_impl_cannot_have_body info h =
     (if (case m_pending_response h of None \<Rightarrow> False | Some e \<Rightarrow> m_head_request e) then
        (if m_pending_response_done h then None else Some True)
      else Some (status_code info = 204 \<or> status_code info = 304 \<or>
                 status_code info \<ge> 200 \<and> content_length info = 0 \<and> \<not> is_chunked info))"

text \<open>A response without a body by its status must not announce one. The class has no \<open>send_protocol_error\<close>, which
  is called to refuse one that does.\<close>

definition bodiless_checks :: "codec_env \<Rightarrow> message_info \<Rightarrow> h1_conn \<Rightarrow> h1_conn option" where
  "bodiless_checks env info h =
     (if status_code info < 200 \<or> status_code info = 204 then
        (if header_found env TransferEncoding h \<noteq> None then None
         else (case header_found env ContentLength h of
                 None \<Rightarrow> Some h
               | Some val \<Rightarrow> if val \<noteq> ''0'' then None else Some (remove_header env ContentLength h)))
      else Some h)"

definition client_on_headers_complete_base ::
  "codec_env \<Rightarrow> message_info \<Rightarrow> h1_conn \<Rightarrow> (RpStatusCode \<times> RpCallbackResult \<times> h1_conn) option" where
  "client_on_headers_complete_base env info h =
     (if m_pending_response h = None \<and> \<not> m_reset_stream_called h then Some (PrematureResponseError, SuccessResult, h)
      else
        do { h4 \<leftarrow>
               (case m_pending_response h of
                  None \<Rightarrow> Some h
                | Some response \<Rightarrow>
                    (if m_pending_response_done h then None
                     else
                       (let h1 = headers_set_status (status_code info) h;
                            h2 = (if 200 \<le> status_code info \<and> status_code info < 300 \<and> m_connect_request response
                                  then h1\<lparr> m_handling_upgrade := True \<rparr> else h1)
                        in do { h3 \<leftarrow> bodiless_checks env info h2;
                                hs \<leftarrow> m_headers_or_trailers h3;
                                special \<leftarrow> is_special_1xx (h1_parser (henv env)) (evhtp_header_find (henv env) hs);
                                if special then notify env (Decode1xxHeadersCall hs) h3
                                else do { cannot \<leftarrow> rp_http1_client_connection_impl_cannot_have_body info h3;
                                          if cannot \<and> \<not> m_handling_upgrade h3
                                          then Some (h3\<lparr> m_deferred_end_stream_headers := True \<rparr>)
                                          else notify env (DecodeHeadersCall hs False) h3 } })));
             cannot \<leftarrow> rp_http1_client_connection_impl_cannot_have_body info h4;
             Some (Ok, if cannot then NoBody else SuccessResult, h4) })"

definition client_on_body :: "codec_env \<Rightarrow> string \<Rightarrow> h1_conn \<Rightarrow> h1_conn option" where
  "client_on_body env data h =
     (if m_deferred_end_stream_headers h then None
      else if m_pending_response h \<noteq> None then notify env (DecodeDataCall data False) h else Some h)"

definition client_on_message_complete_base ::
  "codec_env \<Rightarrow> h1_conn \<Rightarrow> (RpStatusCode \<times> RpCallbackResult \<times> h1_conn) option" where
  "client_on_message_complete_base env h =
     (if m_ignore_message_complete_for_1xx h then Some (Ok, SuccessResult, h\<lparr> m_ignore_message_complete_for_1xx := False \<rparr>)
      else
        do { h4 \<leftarrow>
               (case m_pending_response h of
                  None \<Rightarrow> Some h
                | Some response \<Rightarrow>
                    (let h1 = h\<lparr> m_pending_response_done := True \<rparr> in
                     do { h2 \<leftarrow>
                            (if m_deferred_end_stream_headers h1 then
                               do { hs \<leftarrow> m_headers_or_trailers h1;
                                    h2 \<leftarrow> notify env (DecodeHeadersCall hs True) h1;
                                    Some (h2\<lparr> m_deferred_end_stream_headers := False \<rparr>) }
                             else if m_processing_trailers h1 then
                               do { hs \<leftarrow> m_headers_or_trailers h1; notify env (DecodeTrailersCall hs) h1 }
                             else notify env (DecodeDataCall [] True) h1);
                          h3 \<leftarrow> (if m_force_reset_on_premature_upstream_half_close h2 \<and> \<not> m_encode_complete h2
                                  then notify env ResetStreamCall h2 else Some h2);
                          Some ((PendingResponse_free h3)\<lparr> m_headers_or_trailers := None \<rparr>) }));
             (case pause_i h4 of (r, h5) \<Rightarrow> Some (Ok, r, h5)) })"

definition client_on_reset_stream :: "codec_env \<Rightarrow> h1_conn \<Rightarrow> h1_conn option" where
  "client_on_reset_stream env h =
     (case m_pending_response h of
        None \<Rightarrow> Some h
      | Some response \<Rightarrow>
          (if m_pending_response_done h then Some h
           else do { h1 \<leftarrow> notify env ResetStreamCall h;
                     Some (PendingResponse_free (h1\<lparr> m_pending_response_done := True \<rparr>)) }))"

text \<open>\<open>rp_http1_connection_impl_on_reset_stream_base\<close>.\<close>

definition on_reset_stream_base :: "(h1_conn \<Rightarrow> h1_conn option) \<Rightarrow> h1_conn \<Rightarrow> h1_conn option" where
  "on_reset_stream_base on_reset_stream h = on_reset_stream (h\<lparr> m_reset_stream_called := True \<rparr>)"

text \<open>The slots \<open>on_url_base\<close> and \<open>send_protocol_error\<close> of the class are not set.\<close>

definition client_class :: "codec_env \<Rightarrow> h1_class" where
  "client_class env = \<lparr> message_type = ResponseMessage, on_message_begin_base = client_on_message_begin_base,
     on_url_base = (\<lambda>_ _. None), on_headers_complete_base = client_on_headers_complete_base env,
     on_body = client_on_body env, on_message_complete_base = client_on_message_complete_base env,
     send_protocol_error = (\<lambda>_ _. None) \<rparr>"

definition client_dispatch_i ::
  "codec_env \<Rightarrow> string list \<Rightarrow> h1_conn \<Rightarrow> (RpStatusCode \<times> string list \<times> h1_conn) option" where
  "client_dispatch_i env data h = dispatch env (client_class env) data h"

end
