(* ===== verification/Net_Conn_Props.thy ===== *)
theory Net_Conn_Props
  imports Net_Conn "HOL-Library.Sublist"
begin

text \<open>
  What a connection of a client of the proxy promises: whatever is written, disabled, closed, received and
  flushed, nothing crashes and the peer gets a prefix of what was written. Beside it the ways in which a
  connection goes wrong.
\<close>

section \<open>Quiet surroundings\<close>

text \<open>The calls of libevent succeed, listeners only listen, and filters take some of the data they get.\<close>

definition quiet :: "net_env \<Rightarrow> bool" where
  "quiet env =
     ((\<forall>n. bufferevent_write_buffer env n = (True, False)) \<and> (\<forall>n. bufferevent_read_buffer env n) \<and>
      (\<forall>k e c. on_event env k e c = Some c) \<and>
      (\<forall>f c. \<exists>st. on_new_connection env f c = Some (st, c)) \<and>
      (\<forall>f src c. \<exists>st n. filter_on_data env f src c = Some (st, src, c\<lparr> m_read_buffer := drop n (m_read_buffer c) \<rparr>)))"

lemma quietD:
  assumes "quiet env"
  shows "bufferevent_write_buffer env n = (True, False)" "bufferevent_read_buffer env n" "on_event env k e c = Some c"
    "\<exists>st. on_new_connection env f c = Some (st, c)"
    "\<exists>st n. filter_on_data env f src c = Some (st, src, c\<lparr> m_read_buffer := drop n (m_read_buffer c) \<rparr>)"
  using assms by (simp_all add: quiet_def)

lemma raise_loop_quiet:
  assumes "quiet env"
  shows "raise_loop env ev n c = Some c"
proof (induction "length (m_callbacks c) - n" arbitrary: n)
  case 0
  then show ?case by (subst raise_loop.simps) simp
next
  case (Suc k)
  then have "raise_loop env ev (Suc n) c = Some c" by simp
  then show ?case
    by (subst raise_loop.simps) (auto simp: quietD(3) [OF assms] Let_def split: option.split)
qed

lemma raise_quiet: "quiet env \<Longrightarrow> raise_connection_event env ev c = Some (c\<lparr> raised := raised c @ [ev] \<rparr>)"
  by (simp add: raise_connection_event_def raise_loop_quiet)

lemma close_socket_quiet:
  "quiet env \<Longrightarrow> close_socket env ev c =
     Some (if is_open c then (socket_close (c\<lparr> m_write_buffer := [] \<rparr>))\<lparr> raised := raised c @ [ev] \<rparr> else c)"
  by (simp add: close_socket_def raise_quiet socket_close_def io_handle_close_def)

text \<open>A pass over the filters changes their flags and the read buffer only.\<close>

definition unread :: "net_conn \<Rightarrow> net_conn" where
  "unread c = c\<lparr> m_read_buffer := [], m_upstream_filters := [], m_read_end_stream_raised := False \<rparr>"

definition reads :: "net_conn \<Rightarrow> net_conn \<Rightarrow> bool" where
  "reads c c' = (unread c' = unread c)"

lemma reads_upd [intro]:
  "reads c c" "reads c (c\<lparr> m_read_buffer := s \<rparr>)" "reads c (c\<lparr> m_upstream_filters := fs \<rparr>)"
  "reads c (c\<lparr> m_read_end_stream_raised := b \<rparr>)" "reads c (set_initialized i c)"
  by (simp_all add: reads_def unread_def set_initialized_def)

lemma reads_trans: "reads c c' \<Longrightarrow> reads c' c'' \<Longrightarrow> reads c c''"
  by (simp add: reads_def)

lemma reads_sel:
  assumes "reads c c'"
  shows "raised c' = raised c" "is_open c' = is_open c" "bev_out c' = bev_out c"
proof -
  have "unread c' = unread c" using assms by (simp add: reads_def)
  from arg_cong [OF this, of raised] arg_cong [OF this, of is_open] arg_cong [OF this, of bev_out]
  show "raised c' = raised c" "is_open c' = is_open c" "bev_out c' = bev_out c" by (simp_all add: unread_def is_open_def)
qed

lemma continue_reading_quiet:
  assumes "quiet env"
  shows "\<exists>c'. continue_reading_loop env src entry c = Some c' \<and> reads c c'"
proof (induction "length (m_upstream_filters c) - entry" arbitrary: entry c)
  case 0
  then show ?case by (subst continue_reading_loop.simps) auto
next
  case (Suc k)
  then have e: "entry < length (m_upstream_filters c)" by simp
  let ?f = "m_filter (m_upstream_filters c ! entry)"
  define c1 where "c1 = (if m_initialized (m_upstream_filters c ! entry) then c else set_initialized entry c)"
  have c1: "reads c c1" "length (m_upstream_filters c1) = length (m_upstream_filters c)"
    using reads_upd by (simp_all add: c1_def) (simp add: set_initialized_def)
  obtain st where st: "on_new_connection env ?f (set_initialized entry c) = Some (st, set_initialized entry c)"
    using quietD(4) [OF assms] by blast
  obtain st' n where on: "filter_on_data env ?f src c1 = Some (st', src, c1\<lparr> m_read_buffer := drop n (m_read_buffer c1) \<rparr>)"
    using quietD(5) [OF assms] by blast
  let ?c2 = "c1\<lparr> m_read_buffer := drop n (m_read_buffer c1) \<rparr>"
  have k: "k = length (m_upstream_filters c1) - Suc entry" "k = length (m_upstream_filters ?c2) - Suc entry"
    using Suc(2) c1(2) by simp_all
  have r: "reads c c1" "reads c ?c2" using c1(1) reads_trans [OF c1(1) reads_upd(2)] by simp_all
  have "continue_reading_loop env src entry c \<in>
      {Some c1, Some ?c2, continue_reading_loop env src (Suc entry) c1, continue_reading_loop env src (Suc entry) ?c2}"
    using e st on by (subst continue_reading_loop.simps) (auto simp: c1_def split: prod.split)
  then show ?case
    using Suc(1) [OF k(1)] Suc(1) [OF k(2)] r reads_trans by (elim insertE) (metis, metis, metis, metis, simp)
qed

lemma on_read_quiet:
  assumes "quiet env"
  shows "\<exists>c'. on_read env k c = Some c' \<and> reads c c'"
proof -
  let ?c = "if m_read_end_stream c then c\<lparr> m_read_end_stream_raised := True \<rparr> else c"
  have r: "reads c ?c" by auto
  obtain c' where "continue_reading_loop env ConnSource 0 ?c = Some c'" "reads ?c c'"
    using continue_reading_quiet [OF assms] by blast
  then have "\<exists>c'. rp_network_filter_manager_impl_on_read env ?c = Some c' \<and> reads c c'"
    using reads_trans [OF r] r
    by (cases "state_i ?c = Open") (simp_all only: rp_network_filter_manager_impl_on_read_def
        rp_nfmi_on_continue_reading_def, auto)
  then show ?thesis by (auto simp: on_read_def)
qed

section \<open>Writing in order\<close>

datatype net_call = WriteCall string | CloseCall RpNetworkConnectionCloseType | ReadDisable bool | BevEvent bev_event

fun net_exec :: "net_env \<Rightarrow> net_call \<Rightarrow> net_conn \<Rightarrow> net_conn option" where
  "net_exec env (WriteCall data) c = map_option snd (write_i env data False c)"
| "net_exec env (CloseCall type) c = close_i env type c"
| "net_exec env (ReadDisable disable) c = map_option snd (read_disable_i disable c)"
| "net_exec env (BevEvent ev) c = bev_event_run env ev c"

text \<open>Reads are enabled only as often as they were disabled, and less than \<open>2\<^sup>3\<^sup>2\<close> times. While a read is
  scheduled they are neither disabled nor enabled, no data arrives and the peer does not close: that brings
  the proxy down, see below.\<close>

fun net_accepts :: "net_call \<Rightarrow> net_conn \<Rightarrow> bool" where
  "net_accepts (ReadDisable disable) c = 
     (m_injected_activation_events c = 0 \<and> (if disable then m_read_disable_count c + 1 \<noteq> 0 else m_read_disable_count c \<noteq> 0))"
| "net_accepts (BevEvent ev) c = 
     (case ev of
        Received _ \<Rightarrow> m_injected_activation_events c = 0
      | BevEof \<Rightarrow> m_injected_activation_events c = 0
      | BevConnected \<Rightarrow> False
      | _ \<Rightarrow> True)"
| "net_accepts _ c = True"

definition written :: "net_call list \<Rightarrow> string" where
  "written cs = concat (map (\<lambda>call. case call of WriteCall data \<Rightarrow> data | _ \<Rightarrow> []) cs)"

definition net_ok :: "string \<Rightarrow> net_conn \<Rightarrow> bool" where
  "net_ok w c =
     (sockfd_valid c \<and> bev_enabled c \<and> \<not> m_connecting c \<and> \<not> m_in_delayed_close c \<and> \<not> m_write_end_stream c \<and>
      \<not> m_read_end_stream c \<and> \<not> m_enable_half_close c \<and> m_immediate_error_event c = NoEvent \<and> m_downstream_filters c = [] \<and>
      m_enabled (m_activation_cb c) = (m_injected_activation_events c \<noteq> 0) \<and> schedulable_ok (m_activation_cb c) \<and>
      m_injected_activation_events c \<in> {0, Read} \<and>
      m_write_buffer c = [] \<and> prefix (wire c @ bev_out c) w \<and> (m_bev c \<longrightarrow> wire c @ bev_out c = w))"

lemma net_ok_close: "net_ok w c \<Longrightarrow> quiet env \<Longrightarrow> \<exists>c'. close_socket env ev c = Some c' \<and> net_ok w c'"
  by (auto simp: close_socket_quiet net_ok_def socket_close_def io_handle_close_def)

lemma net_ok_unread: "net_ok w (unread c) = net_ok w c"
  by (simp add: net_ok_def unread_def)

lemma net_ok_read: "net_ok w c \<Longrightarrow> reads c c' \<Longrightarrow> net_ok w c'"
  using net_ok_unread [of w c] net_ok_unread [of w c'] by (simp add: reads_def)

lemma on_read_ready_ok:
  assumes ok: "net_ok w c" and q: "quiet env" and "m_bev c"
  shows "\<exists>c'. on_read_ready env c = Some c' \<and> net_ok w c'"
proof (cases "m_read_disable_count c = 0")
  case False
  then show ?thesis using ok by (simp add: on_read_ready_def Let_def filter_chain_wants_data_def net_ok_def)
next
  case True
  let ?c2 = "c\<lparr> m_dispatch_buffered_data := False, m_tranport_wants_read := False, io_calls := Suc (io_calls c),
      m_read_buffer := m_read_buffer c @ bev_in c, bev_in := [], m_read_end_stream := False \<rparr>"
  have ok2: "net_ok w ?c2" using ok by (simp add: net_ok_def)
  have r: "\<exists>c3. on_read env k ?c2 = Some c3 \<and> net_ok w c3" for k
    using on_read_quiet [OF q, of k ?c2] net_ok_read [OF ok2] by blast
  have fin: "\<exists>c'. do { c3 \<leftarrow> (if P then on_read env k ?c2 else Some ?c2);
      if Q \<or> both_sides_half_closed c3 then close_socket env RemoteClose c3 else Some c3 } = Some c' \<and> net_ok w c'" for P Q k
  proof -
    obtain c3 where c3: "(if P then on_read env k ?c2 else Some ?c2) = Some c3" "net_ok w c3"
      using r [of k] ok2 by (cases P) auto
    then show ?thesis using net_ok_close [OF c3(2) q, of RemoteClose] by (cases "Q \<or> both_sides_half_closed c3") simp_all
  qed
  have off: "\<not> m_enable_half_close c" "\<not> m_read_end_stream c" using ok by (simp_all add: net_ok_def)
  have "on_read_ready env c =
     do { c3 \<leftarrow> (if bev_in c \<noteq> [] \<or> m_dispatch_buffered_data c \<and> m_read_buffer c @ bev_in c \<noteq> []
                 then on_read env (length (m_read_buffer c @ bev_in c)) ?c2 else Some ?c2);
          if bev_in c = [] \<or> both_sides_half_closed c3 then close_socket env RemoteClose c3 else Some c3 }"
    using True assms(3) off by (simp add: on_read_ready_def Let_def do_read_i_def quietD(2) [OF q])
  then show ?thesis using fin by (simp only:)
qed

lemma on_write_ready_idle: "\<not> m_connecting c \<Longrightarrow> on_write_ready env c = write_out env c"
  by (subst on_write_ready.simps) simp

lemma on_file_event_ok:
  assumes ok: "net_ok w c" and q: "quiet env" and "m_bev c" and ev: "events \<in> {Read, FileClosed}"
  shows "\<exists>c'. on_file_event env events c = Some c' \<and> net_ok w c'"
proof (cases "events = Read")
  case True
  have "is_open c" using assms(1,3) by (simp add: is_open_def net_ok_def)
  then have "on_file_event env events c = on_read_ready env c"
    using ok True by (simp add: on_file_event_def net_ok_def file_ready_defs)
  then show ?thesis using on_read_ready_ok [OF assms(1-3)] by simp
next
  case False
  then have "on_file_event env events c = close_socket env RemoteClose c"
    using ok ev by (simp add: on_file_event_def net_ok_def file_ready_defs)
  then show ?thesis using net_ok_close [OF ok q] by simp
qed

lemma merge_ok:
  assumes ok: "net_ok w c" and q: "quiet env" and "m_bev c" and ev: "events \<in> {Read, FileClosed}"
    and idle: "m_injected_activation_events c = 0"
  shows "\<exists>c'. file_event_merge_injected_events_and_run_cb env events c = Some c' \<and> net_ok w c'"
  using on_file_event_ok [OF assms(1-4)] idle by (simp add: file_event_merge_injected_events_and_run_cb_def)

lemma activation_ok:
  assumes ok: "net_ok w c" and q: "quiet env"
  shows "\<exists>c'. bev_event_run env Activation c = Some c' \<and> net_ok w c'"
proof (cases "timer_cb (m_activation_cb c)")
  case (Some cb)
  have "schedulable_ok (m_activation_cb c)" using ok by (simp add: net_ok_def)
  from timer_cb_ok [OF this Some] have cb: "cb = rp_schedulable_callback_impl_new" and "m_enabled (m_activation_cb c)" by simp_all
  then have inj: "m_injected_activation_events c = Read" using ok by (auto simp: net_ok_def)
  let ?c = "c\<lparr> m_injected_activation_events := 0, m_activation_cb := rp_schedulable_callback_impl_new \<rparr>"
  have okc: "net_ok w ?c" using ok by (simp add: net_ok_def)
  have run: "bev_event_run env Activation c = on_file_event env Read ?c"
    using Some cb inj by (simp add: activation_cb_def file_event_merge_injected_events_and_run_cb_def file_ready_defs)
  show ?thesis
  proof (cases "m_bev c")
    case True
    then show ?thesis using on_file_event_ok [OF okc q, of Read] run by simp
  next
    case False
    then show ?thesis using run okc by (simp add: on_file_event_def net_ok_def is_open_def file_ready_defs)
  qed
qed (use ok in simp)

lemma bev_event_ok:
  assumes ok: "net_ok w c" and q: "quiet env" and acc: "net_accepts (BevEvent ev) c"
  shows "\<exists>c'. bev_event_run env ev c = Some c' \<and> net_ok w c'"
proof (cases "m_bev c")
  case False
  show ?thesis
  proof (cases ev)
    case Activation
    then show ?thesis using activation_ok [OF ok q] by simp
  qed (use ok False acc in \<open>auto simp: net_ok_def\<close>)
next
  case True
  show ?thesis
  proof (cases ev)
    case (Received data)
    have "net_ok w (c\<lparr> bev_in := bev_in c @ data \<rparr>)" using ok by (simp add: net_ok_def)
    then show ?thesis
      using ok merge_ok [OF _ q, of w "c\<lparr> bev_in := bev_in c @ data \<rparr>" Read] True acc
      by (auto simp: Received Let_def readcb_def split: bev_callbacks.split bool.split)
  next
    case (Flushed n)
    then show ?thesis
      using ok True by (auto simp: Let_def freecb_def net_ok_def split: bev_callbacks.split)
  next
    case BevEof
    then show ?thesis
      using merge_ok [OF ok q True, of FileClosed] acc ok True by (auto simp: eventcb_closed_def split: bev_callbacks.split)
  next
    case BevConnected
    then show ?thesis using acc by simp
  next
    case Activation
    then show ?thesis
      using activation_ok [OF ok q] by simp
  next
    case Wakeup
    then show ?thesis using ok by (simp add: net_ok_def)
  qed
qed

lemma write_ok:
  assumes ok: "net_ok w c" and q: "quiet env"
  shows "\<exists>rest c'. write_i env data False c = Some (rest, c') \<and> net_ok (w @ data) c' \<and> is_open c' = is_open c \<and>
    (is_open c \<longrightarrow> rest = [])"
proof (cases "is_open c")
  case False
  then have "write_i env data False c =
      Some (data, c\<lparr> m_current_write_end_stream := False, m_current_write_buffer := None \<rparr>)"
    using ok by (simp add: write_i_def write_internal_def filters_on_write_def state_i_def is_open_def net_ok_def get_write_buffer_def)
  then show ?thesis using ok False by (auto simp: net_ok_def is_open_def intro: prefix_prefix)
next
  case True
  let ?c = "c\<lparr> m_current_write_end_stream := False, m_current_write_buffer := None, m_write_end_stream := False \<rparr>"
  have "state_i (c\<lparr> m_current_write_buffer := Some data, m_current_write_end_stream := False \<rparr>) = Open"
    using True ok by (simp add: state_i_def is_open_def net_ok_def)
  then have "filters_on_write env None ConnSource (c\<lparr> m_current_write_buffer := Some data, m_current_write_end_stream := False \<rparr>) =
      Some (Continue, ConnSource, c\<lparr> m_current_write_buffer := Some data, m_current_write_end_stream := False \<rparr>)"
    using ok by (simp add: filters_on_write_def on_write_loop.simps net_ok_def)
  then have "write_i env data False c =
      (if data \<noteq> [] then map_option (Pair []) (write_out env (?c\<lparr> m_write_buffer := data \<rparr>)) else Some (data, ?c))"
    using ok by (simp add: write_i_def write_internal_def get_write_buffer_def Let_def on_write_ready_idle net_ok_def)
  moreover have "write_out env (?c\<lparr> m_write_buffer := data \<rparr>) =
      Some (?c\<lparr> m_write_buffer := [], bev_out := bev_out c @ data, io_calls := Suc (io_calls c) \<rparr>)" if "data \<noteq> []"
    using that True by (simp add: write_out_def do_write_i_def quietD(1) [OF q] is_open_def)
  ultimately show ?thesis using ok True by (auto simp: net_ok_def is_open_def)
qed

lemma close_ok:
  assumes ok: "net_ok w c" and q: "quiet env"
  shows "\<exists>c'. close_i env type c = Some c' \<and> net_ok w c'"
proof -
  have "net_ok w (c\<lparr> m_detected_close_type := LocalReset \<rparr>)" using ok by (simp add: net_ok_def)
  then show ?thesis
    using net_ok_close [OF ok q, of LocalClose] net_ok_close [OF _ q, of w "c\<lparr> m_detected_close_type := LocalReset \<rparr>" LocalClose] ok
    by (auto simp: close_i_def net_ok_def)
qed

lemma set_enabled_ok:
  assumes "net_ok w c" "m_bev c" "m_injected_activation_events c = 0"
  shows "\<exists>c'. file_event_set_enabled ev c = Some c' \<and> net_ok w c' \<and> m_bev c'"
  using assms by (simp add: file_event_set_enabled_def Let_def file_event_update_events_def file_event_assign_events_def net_ok_def)

lemma activate_ok: "net_ok w c \<Longrightarrow> \<exists>c'. file_event_activate Read c = Some c' \<and> net_ok w c'"
  by (auto simp: file_event_activate_def net_ok_def file_ready_defs schedule_next_ok)

lemma read_disable_ok:
  assumes ok: "net_ok w c" and acc: "net_accepts (ReadDisable disable) c"
  shows "\<exists>st c'. read_disable_i disable c = Some (st, c') \<and> net_ok w c'"
proof -
  have inj: "m_injected_activation_events c = 0" using acc by simp
  have up: "net_ok w (c\<lparr> m_read_disable_count := k \<rparr>)" "state_i (c\<lparr> m_read_disable_count := k \<rparr>) = Open \<longleftrightarrow> m_bev c" for k
    using ok by (simp_all add: net_ok_def state_i_def is_open_def)
  show ?thesis
  proof (cases disable)
    case True
    let ?c = "c\<lparr> m_read_disable_count := m_read_disable_count c + 1 \<rparr>"
    have "read_disable_i True c =
        (if \<not> m_bev c then Some (NoTransition, ?c)
         else if m_read_disable_count c + 1 > 1 then Some (StillReadDisabled, ?c)
         else map_option (Pair TransitionedToReadDisabled)
           (file_event_set_enabled (if m_detect_early_close c \<and> \<not> m_enable_half_close c then Write OR FileClosed else Write) ?c))"
      by (simp only: read_disable_i_def Let_def up(2) simp_thms if_True) simp
    then show ?thesis
      using True up(1) inj set_enabled_ok [of w ?c "if m_detect_early_close c \<and> \<not> m_enable_half_close c then Write OR FileClosed else Write"]
      by (cases "m_bev c"; cases "m_read_disable_count c + 1 > 1") force+
  next
    case False
    let ?c = "c\<lparr> m_read_disable_count := m_read_disable_count c - 1 \<rparr>"
    show ?thesis
    proof (cases "m_bev c")
      case closed: False
      then show ?thesis using False acc up by (simp add: read_disable_i_def Let_def)
    next
      case True
      obtain c2 where c2: "(if m_read_disable_count ?c = 0 then file_event_set_enabled (Read OR Write) ?c else Some ?c) = Some c2"
        "net_ok w c2"
        using set_enabled_ok [of w ?c "Read OR Write"] up(1) inj True by (cases "m_read_disable_count ?c = 0") auto
      have "net_ok w (c2\<lparr> m_dispatch_buffered_data := True \<rparr>)" using c2(2) by (simp add: net_ok_def)
      then obtain c3 where "(if filter_chain_wants_data c2 \<and> (m_read_buffer c2 \<noteq> [] \<or> m_tranport_wants_read c2)
          then file_event_activate Read (c2\<lparr> m_dispatch_buffered_data := True \<rparr>) else Some c2) = Some c3" "net_ok w c3"
        using activate_ok c2(2) by (cases "filter_chain_wants_data c2 \<and> (m_read_buffer c2 \<noteq> [] \<or> m_tranport_wants_read c2)") auto
      then show ?thesis
        using False acc up(2) True c2(1) by (simp only: read_disable_i_def Let_def if_False net_accepts.simps) auto
    qed
  qed
qed

lemma net_exec_ok:
  assumes "net_ok w c" "quiet env" "net_accepts call c"
  shows "\<exists>c'. net_exec env call c = Some c' \<and> net_ok (w @ written [call]) c'"
proof (cases call)
  case (WriteCall data)
  then show ?thesis using write_ok [OF assms(1,2), of data] by (auto simp: written_def)
next
  case (CloseCall type)
  then show ?thesis using close_ok [OF assms(1,2)] by (simp add: written_def)
next
  case (ReadDisable disable)
  then show ?thesis using read_disable_ok [OF assms(1)] assms(3) by (fastforce simp: written_def)
next
  case (BevEvent ev)
  then show ?thesis using bev_event_ok [OF assms(1,2)] assms(3) by (simp add: written_def)
qed

lemma net_run_ok:
  assumes "net_ok w c" "quiet env" "accepted net_accepts (net_exec env) cs c"
  shows "\<exists>c'. run_calls (net_exec env) cs c = Some c' \<and> net_ok (w @ written cs) c'"
  using assms(1,3)
proof (induction cs arbitrary: w c)
  case (Cons call cs)
  obtain c1 where c1: "net_exec env call c = Some c1" "net_ok (w @ written [call]) c1"
    using net_exec_ok [OF Cons.prems(1) assms(2)] Cons.prems(2) by auto
  moreover have "w @ written (call # cs) = (w @ written [call]) @ written cs" by (simp add: written_def)
  ultimately show ?case using Cons.IH [OF c1(2)] Cons.prems(2) by simp
qed (simp add: written_def)


section \<open>What goes wrong\<close>

text \<open>C33. Enabling reads again closes a healthy connection: when reads of an open connection are disabled
  once and data waits in its buffer, enabling them schedules a read; that read finds nothing new from the
  peer, takes this for the end of the stream, and the connection is closed as if by the peer.\<close>

theorem reenabled_read_closes:
  assumes q: "quiet env" and ok: "net_ok w c" and open_c: "is_open c" and empty: "bev_in c = []" "bev_out c = []"
    and idle: "m_injected_activation_events c = 0" and count: "m_read_disable_count c = 1" and waiting: "m_read_buffer c \<noteq> []"
  shows "\<exists>c1 c2. read_disable_i False c = Some (TransitionedToReadEnabled, c1) \<and>
    run_calls (bev_event_run env) [Wakeup, Activation] c1 = Some c2 \<and> raised c2 = raised c @ [RemoteClose] \<and> \<not> is_open c2"
proof -
  have cb: "\<not> m_enabled (m_activation_cb c)" "schedulable_ok (m_activation_cb c)" using ok idle by (simp_all add: net_ok_def)
  define c1 where "c1 = c\<lparr> m_read_disable_count := 0, m_activation_cb := schedule_callback_next_iteration_i (m_activation_cb c),
    m_enabled_events := Read OR Write, bev_cbs := (if Read OR Write = m_enabled_events c then bev_cbs c else HandleCbs True True),
    m_dispatch_buffered_data := True, m_injected_activation_events := Read \<rparr>"
  have r: "read_disable_i False c = Some (TransitionedToReadEnabled, c1)"
    using ok open_c count waiting idle cb(1)
    by (simp add: read_disable_i_def Let_def state_i_def is_open_def net_ok_def file_event_set_enabled_def
        file_event_update_events_def file_event_assign_events_def filter_chain_wants_data_def file_event_activate_def c1_def
        file_ready_defs)
  have c1: "m_injected_activation_events c1 = Read" "m_bev c1" "sockfd_valid c1" "bev_in c1 = []"
    "m_read_disable_count c1 = 0" "m_dispatch_buffered_data c1" "m_read_buffer c1 \<noteq> []" "\<not> m_read_end_stream c1"
    "\<not> m_enable_half_close c1" "m_immediate_error_event c1 = NoEvent"
    using ok open_c empty waiting by (simp_all add: c1_def net_ok_def is_open_def)
  have fire: "timer_cb (wakeup_cb (m_activation_cb c1)) = Some rp_schedulable_callback_impl_new"
    using schedule_next_ok [OF cb(2,1)] by (simp add: c1_def timer_due)
  let ?c2 = "c1\<lparr> m_injected_activation_events := 0, m_activation_cb := rp_schedulable_callback_impl_new,
    m_dispatch_buffered_data := False, m_tranport_wants_read := False, io_calls := Suc (io_calls c1), bev_in := [],
    m_read_end_stream := False \<rparr>"
  obtain c3 where c3: "on_read env (length (m_read_buffer c1)) ?c2 = Some c3" "reads ?c2 c3"
    using on_read_quiet [OF q] by blast
  have "run_calls (bev_event_run env) [Wakeup, Activation] c1 = close_socket env RemoteClose c3"
    using c1 c3(1) fire
    by (simp add: activation_cb_def file_event_merge_injected_events_and_run_cb_def on_file_event_def on_read_ready_def
        do_read_i_def quietD(2) [OF q] Let_def is_open_def file_ready_defs)
  moreover have "raised c3 = raised c" "is_open c3" "bev_out c3 = []"
    using reads_sel [OF c3(2)] open_c empty by (simp_all add: c1_def is_open_def)
  ultimately show ?thesis using r by (simp add: close_socket_quiet [OF q] socket_close_def io_handle_close_def is_open_def)
qed

text \<open>A peer that closes while a read is scheduled brings the proxy down: the end of the connection is
  reported together with the pending read, which the connection asserts never to happen.\<close>

lemma eof_with_pending_read_crashes:
  assumes "m_bev c" "bev_cbs c \<noteq> FreeCb" "m_immediate_error_event c = NoEvent" "m_injected_activation_events c = Read"
  shows "bev_event_run env BevEof c = None"
  using assms
  by (cases "bev_cbs c") (simp_all add: eventcb_closed_def file_event_merge_injected_events_and_run_cb_def on_file_event_def
      file_ready_defs)

text \<open>Reading leaves a scheduled activation alone.\<close>

definition activation :: "net_conn \<Rightarrow> guint32 \<times> schedulable" where
  "activation c = (m_injected_activation_events c, m_activation_cb c)"

lemma activation_close: "quiet env \<Longrightarrow> \<exists>c'. close_socket env ev c = Some c' \<and> activation c' = activation c"
  by (simp add: close_socket_quiet socket_close_def io_handle_close_def activation_def)

lemma activation_on_read:
  assumes "quiet env"
  shows "\<exists>c'. on_read env k c = Some c' \<and> activation c' = activation c"
proof -
  obtain c' where c': "on_read env k c = Some c'" "reads c c'" using on_read_quiet [OF assms] by blast
  have "activation (unread c') = activation (unread c)" using c'(2) by (simp add: reads_def)
  then show ?thesis using c'(1) by (simp add: activation_def unread_def)
qed

lemma activation_on_read_ready:
  assumes q: "quiet env" and "m_bev c"
  shows "\<exists>c'. on_read_ready env c = Some c' \<and> activation c' = activation c"
proof -
  have a: "activation (c\<lparr> m_dispatch_buffered_data := False \<rparr>) = activation c" by (simp add: activation_def)
  let ?c2 = "c\<lparr> m_dispatch_buffered_data := False, m_tranport_wants_read := False, io_calls := Suc (io_calls c),
      m_read_buffer := m_read_buffer c @ bev_in c, bev_in := [] \<rparr>"
  have fin: "\<exists>c'. do { c3 \<leftarrow> (if P then on_read env k (?c2\<lparr> m_read_end_stream := b \<rparr>) else Some (?c2\<lparr> m_read_end_stream := b \<rparr>));
      if Q \<or> both_sides_half_closed c3 then close_socket env RemoteClose c3 else Some c3 } = Some c' \<and> activation c' = activation c"
    for P Q k b
  proof -
    have "activation (?c2\<lparr> m_read_end_stream := b \<rparr>) = activation c" by (simp add: activation_def)
    then obtain c3 where "(if P then on_read env k (?c2\<lparr> m_read_end_stream := b \<rparr>) else Some (?c2\<lparr> m_read_end_stream := b \<rparr>)) = Some c3"
      "activation c3 = activation c"
      using activation_on_read [OF q, of k "?c2\<lparr> m_read_end_stream := b \<rparr>"] by (cases P) auto
    then show ?thesis using activation_close [OF q, of RemoteClose c3] by (cases "Q \<or> both_sides_half_closed c3") auto
  qed
  show ?thesis
  proof (cases "m_read_disable_count c = 0")
    case False
    then show ?thesis using a by (simp add: on_read_ready_def Let_def filter_chain_wants_data_def)
  next
    case True
    have "on_read_ready env c =
       (let to_close = (\<not> m_enable_half_close c \<and> bev_in c = []); end_stream_read = (bev_in c = [] \<and> \<not> to_close);
            c2 = ?c2\<lparr> m_read_end_stream := m_read_end_stream c \<or> end_stream_read \<rparr>
        in do { c3 \<leftarrow> (if bev_in c \<noteq> [] \<or> end_stream_read \<or> m_dispatch_buffered_data c \<and> m_read_buffer c @ bev_in c \<noteq> []
                 then on_read env (length (m_read_buffer c @ bev_in c)) c2 else Some c2);
          if to_close \<or> both_sides_half_closed c3 then close_socket env RemoteClose c3 else Some c3 })"
      using True assms(2) by (simp add: on_read_ready_def Let_def do_read_i_def quietD(2) [OF q])
    then show ?thesis using fin by (simp only: Let_def)
  qed
qed

text \<open>C34. Data that arrives while a read is scheduled leaves a trap behind: the read is carried out with the
  data and the scheduled one cancelled, but cancelling leaves the callback marked as scheduled and its wakeup
  in place. The next activation fails an assertion, and a wakeup that was not read yet runs the cancelled
  activation, which fails another.\<close>

theorem cancelled_activation_crashes:
  assumes q: "quiet env" and "m_bev c" "bev_enabled c" "bev_cbs c = HandleCbs True b" "m_immediate_error_event c = NoEvent"
    and inj: "m_injected_activation_events c = Read" and cb: "m_enabled (m_activation_cb c)"
  shows "\<exists>c1. bev_event_run env (Received data) c = Some c1 \<and> file_event_activate events c1 = None \<and>
    (m_wakeup_fd (m_activation_cb c) \<noteq> 0 \<longrightarrow> run_calls (bev_event_run env) [Wakeup, Activation] c1 = None)"
proof -
  let ?c = "c\<lparr> bev_in := bev_in c @ data, m_injected_activation_events := 0, m_activation_cb := cancel_i (m_activation_cb c) \<rparr>"
  have "bev_event_run env (Received data) c = (if is_open ?c then on_read_ready env ?c else Some ?c)"
    using assms(2-6) by (simp add: readcb_def file_event_merge_injected_events_and_run_cb_def on_file_event_def file_ready_defs)
  then obtain c1 where c1: "bev_event_run env (Received data) c = Some c1" "activation c1 = activation ?c"
    using activation_on_read_ready [OF q, of ?c] assms(2) by (cases "is_open ?c") auto
  then have a: "m_injected_activation_events c1 = 0" "m_activation_cb c1 = cancel_i (m_activation_cb c)" by (simp_all add: activation_def)
  have "file_event_activate events c1 = None" using a cb by (simp add: file_event_activate_def cancel_i_def)
  moreover have "run_calls (bev_event_run env) [Wakeup, Activation] c1 = None" if "m_wakeup_fd (m_activation_cb c) \<noteq> 0"
    using cancel_before_wakeup [OF that] a by (simp add: activation_cb_def)
  ultimately show ?thesis using c1(1) by blast
qed

text \<open>A connection that is closed while its output is still being written counts as open, and closing
  it again tells every listener a second time that it was closed.\<close>

theorem closed_twice:
  assumes q: "quiet env" and "is_open c" "m_write_buffer c = []" "bev_out c \<noteq> []"
  shows "\<exists>c1 c2. close_i env NoFlush c = Some c1 \<and> is_open c1 \<and> close_i env NoFlush c1 = Some c2 \<and>
    raised c2 = raised c @ [LocalClose, LocalClose]"
  using assms(2-4) by (simp add: close_i_def close_socket_quiet [OF q] socket_close_def io_handle_close_def is_open_def)

text \<open>A client connection that is to be closed after its data is flushed, before it is connected, calls a slot
  that no transport socket sets.\<close>

lemma flush_close_while_connecting_crashes:
  assumes "data \<noteq> []"
  shows "do { c \<leftarrow> connect_i ConnectInProgress client_conn; (rest, c) \<leftarrow> write_i env data False c; close_i env FlushWrite c } = None"
  using assms
  by (simp add: connect_i_def client_conn_def rp_network_connection_impl_init_def write_i_def write_internal_def
      filters_on_write_def on_write_loop.simps state_i_def is_open_def get_write_buffer_def close_i_def can_flush_close_def)

text \<open>A write that succeeds while \<open>errno\<close> still holds \<open>ECONNRESET\<close> from another call closes the connection.\<close>

lemma stale_errno_closes:
  assumes "bufferevent_write_buffer env (io_calls c) = (True, True)" "m_bev c" "m_write_buffer c \<noteq> []"
  shows "write_out env c = close_socket env RemoteClose (c\<lparr> io_calls := Suc (io_calls c), bev_out := bev_out c @ m_write_buffer c,
    m_write_buffer := [], m_detected_close_type := RemoteReset \<rparr>)"
  using assms by (simp add: write_out_def do_write_i_def)

text \<open>A filter that goes on, or injects data, follows a node that is never set.\<close>

lemma continue_reading_crashes:
  assumes "m_entry (m_upstream_filters c ! i) = None" "state_i c = Open"
  shows "continue_reading_i env i c = None" "inject_read_data_to_filter_chain_i env i data end_stream c = None"
  using assms by (simp_all add: continue_reading_i_def inject_read_data_to_filter_chain_i_def rp_nfmi_on_continue_reading_def)

section \<open>Examples\<close>

text \<open>A filter that takes the first four bytes it sees.\<close>

definition example_net :: net_env where
  "example_net = \<lparr> bufferevent_write_buffer = (\<lambda>_. (True, False)), bufferevent_read_buffer = (\<lambda>_. True),
     on_new_connection = (\<lambda>f c. Some (Continue, c)),
     filter_on_data = (\<lambda>f src c. Some (Continue, src, c\<lparr> m_read_buffer := drop 4 (m_read_buffer c) \<rparr>)),
     filter_on_write = (\<lambda>f src c. Some (Continue, src, c)), filter_start_secure = (\<lambda>_. False),
     on_event = (\<lambda>k e c. Some c) \<rparr>"

lemma quiet_example_net: "quiet example_net"
  by (auto simp: quiet_def example_net_def)

definition example_calls :: "net_call list" where
  "example_calls = [BevEvent (Received ''GET /''), WriteCall ''HTTP/1.1 '', BevEvent (Flushed 4), ReadDisable True,
     WriteCall ''200 OK'', BevEvent (Flushed 3), CloseCall NoFlush]"

lemma accepted_example: "accepted net_accepts (net_exec example_net) example_calls (foldr add_read_filter [0] server_conn)"
  by code_simp

definition example_conn :: net_conn where
  "example_conn = the (run_calls (net_exec example_net) (take 2 example_calls @ [BevEvent (Flushed 9), ReadDisable True])
     (foldr add_read_filter [0] server_conn))"

lemma example_conn_ok: "net_ok ''HTTP/1.1 '' example_conn"
proof -
  have "accepted net_accepts (net_exec example_net) (take 2 example_calls @ [BevEvent (Flushed 9), ReadDisable True])
      (foldr add_read_filter [0] server_conn)"
    by code_simp
  moreover have "net_ok [] (foldr add_read_filter [0] server_conn)"
    by (simp add: net_ok_def add_read_filter_def server_conn_def rp_network_connection_impl_init_def)
  moreover have "written (take 2 example_calls @ [BevEvent (Flushed 9), ReadDisable True]) = ''HTTP/1.1 ''" by code_simp
  ultimately show ?thesis using net_run_ok [OF _ quiet_example_net] by (fastforce simp: example_conn_def)
qed


theorem reenabled_read_closes_witness:
  "\<exists>c1 c2. read_disable_i False example_conn = Some (TransitionedToReadEnabled, c1) \<and>
     run_calls (bev_event_run example_net) [Wakeup, Activation] c1 = Some c2 \<and>
     raised c2 = raised example_conn @ [RemoteClose] \<and> \<not> is_open c2"
  by (rule reenabled_read_closes [OF quiet_example_net example_conn_ok]) code_simp+

theorem cancelled_activation_crashes_witness:
  "\<exists>c1. bev_event_run example_net (Received ''more'') (snd (the (read_disable_i False example_conn))) = Some c1 \<and>
     file_event_activate Read c1 = None \<and>
     (m_wakeup_fd (m_activation_cb (snd (the (read_disable_i False example_conn)))) \<noteq> 0 \<longrightarrow>
      run_calls (bev_event_run example_net) [Wakeup, Activation] c1 = None)"
  by (rule cancelled_activation_crashes [OF quiet_example_net, where b = True]) code_simp+

theorem closed_twice_witness:
  "\<exists>c1 c2. close_i example_net NoFlush (snd (the (write_i example_net ''bye'' False server_conn))) = Some c1 \<and> is_open c1 \<and>
     close_i example_net NoFlush c1 = Some c2 \<and>
     raised c2 = raised (snd (the (write_i example_net ''bye'' False server_conn))) @ [LocalClose, LocalClose]"
  by (rule closed_twice [OF quiet_example_net]) code_simp+

end
