(* ===== verification/Http1_Encoder_Props.thy ===== *)
theory Http1_Encoder_Props
  imports Http1_Encoder Net_Conn_Props
begin

text \<open>
  What the encoders promise: a message that is written in pieces can be read back, headers and body, by a
  reader that knows the format and nothing of the encoder. Beside it the loop in which releasing an encoder
  never ends.
\<close>

section \<open>A reader of messages\<close>

definition hex_value :: "char \<Rightarrow> nat option" where
  "hex_value c =
     (if 48 \<le> code c \<and> code c \<le> 57 then Some (code c - 48)
      else if 97 \<le> code c \<and> code c \<le> 102 then Some (code c - 87) else None)"

fun parse_hex :: "nat \<Rightarrow> string \<Rightarrow> nat \<times> string" where
  "parse_hex n [] = (n, [])"
| "parse_hex n (c # s) = (case hex_value c of None \<Rightarrow> (n, c # s) | Some d \<Rightarrow> parse_hex (16 * n + d) s)"

lemma parse_hex_length: "length (snd (parse_hex n s)) \<le> length s"
  by (induction n s rule: parse_hex.induct) (auto split: option.split)

text \<open>A chunked body: its data, and what follows it.\<close>

function dechunk :: "string \<Rightarrow> (string \<times> string) option" where
  "dechunk s =
     (let n = fst (parse_hex 0 s); r = snd (parse_hex 0 s); r1 = drop 2 r in
      if take 2 r \<noteq> CRLF then None
      else if n = 0 then if take 2 r1 \<noteq> CRLF then None else Some ([], drop 2 r1)
      else if length r1 < n \<or> take 2 (drop n r1) \<noteq> CRLF then None
      else do { (d, rest) \<leftarrow> dechunk (drop (n + 2) r1); Some (take n r1 @ d, rest) })"
  by auto
termination
proof (relation "measure length")
  fix s n r r1
  assume "n = fst (parse_hex 0 s)" "r = snd (parse_hex 0 s)" "r1 = drop 2 r" "\<not> take 2 r \<noteq> CRLF"
  then have "length r \<le> length s" "0 < length r" using parse_hex_length [of 0 s] by (auto simp: CRLF_def)
  then show "(drop (n + 2) r1, s) \<in> measure length" using \<open>r1 = drop 2 r\<close> by (cases r) auto
qed simp

declare dechunk.simps [simp del]

text \<open>A line, and a block of header lines up to the empty line.\<close>

fun take_line :: "string \<Rightarrow> (string \<times> string) option" where
  "take_line [] = None"
| "take_line (c # s) =
     (if take 2 (c # s) = CRLF then Some ([], drop 2 (c # s))
      else map_option (\<lambda>(l, r). (c # l, r)) (take_line s))"

lemma take_line_length: "take_line s = Some (l, r) \<Longrightarrow> length r < length s"
  by (induction s arbitrary: l) (auto split: if_splits)

definition split_header :: "string \<Rightarrow> (string \<times> string) option" where
  "split_header l =
     (let k = takeWhile (\<lambda>c. c \<noteq> CHR '':'') l; v = dropWhile (\<lambda>c. c \<noteq> CHR '':'') l
      in if take 2 v = '': '' then Some (k, drop 2 v) else None)"

function parse_header_block :: "string \<Rightarrow> (header_list \<times> string) option" where
  "parse_header_block s =
     (case take_line s of
        None \<Rightarrow> None
      | Some (l, r) \<Rightarrow>
          if l = [] then Some ([], r)
          else do { kv \<leftarrow> split_header l; (hs, rest) \<leftarrow> parse_header_block r; Some (kv # hs, rest) })"
  by auto
termination by (relation "measure length") (auto dest: take_line_length)

declare parse_header_block.simps [simp del]

text \<open>A message with a chunked body: its first line, its headers, its body, and what follows it.\<close>

definition parse_chunked_message :: "string \<Rightarrow> (string \<times> header_list \<times> string \<times> string) option" where
  "parse_chunked_message s =
     do { (first, r) \<leftarrow> take_line s; (hs, r1) \<leftarrow> parse_header_block r; (body, rest) \<leftarrow> dechunk r1; Some (first, hs, body, rest) }"

section \<open>Chunks\<close>

lemma hex_value_digit: "n < 16 \<Longrightarrow> hex_value (hex_digit n) = Some n"
  by (simp add: hex_value_def)

lemma parse_hex_printf: "parse_hex a (printf_x n @ s) = parse_hex (a * 16 ^ length (printf_x n) + n) s"
proof (induction n arbitrary: a s rule: printf_x.induct)
  case (1 n)
  show ?case
  proof (cases "n < 16")
    case True
    then show ?thesis
      using hex_value_digit [of n] by (subst (1 2) printf_x.simps) (simp add: mult.commute del: hex_digit.simps)
  next
    case False
    let ?l = "length (printf_x (n div 16))"
    have "parse_hex a (printf_x n @ s) = parse_hex a (printf_x (n div 16) @ hex_digit (n mod 16) # s)"
      using False by (subst printf_x.simps) simp
    also have "\<dots> = parse_hex (16 * (a * 16 ^ ?l + n div 16) + n mod 16) s"
      using 1 [OF False] hex_value_digit [of "n mod 16"] by (simp del: hex_digit.simps)
    also have "16 * (a * 16 ^ ?l + n div 16) + n mod 16 = a * 16 ^ length (printf_x n) + n"
      using False by (subst (2) printf_x.simps) (simp add: algebra_simps)
    finally show ?thesis .
  qed
qed

lemma parse_hex_CRLF: "parse_hex n (CRLF @ s) = (n, CRLF @ s)"
  by (simp add: CRLF_def hex_value_def)

lemma dechunk_chunk:
  assumes "data \<noteq> []" "length data < 2 ^ 32"
  shows "dechunk (chunk data @ s) = map_option (\<lambda>(d, rest). (data @ d, rest)) (dechunk s)"
proof -
  have "parse_hex 0 (chunk data @ s) = (length data, CRLF @ data @ CRLF @ s)"
    using assms(2) by (simp add: chunk_def parse_hex_printf parse_hex_CRLF)
  then show ?thesis
    using assms(1) by (subst dechunk.simps) (simp add: CRLF_def Let_def split_def map_conv_bind_option o_def)
qed

lemma dechunk_end: "dechunk (''0'' @ CRLF @ CRLF @ s) = Some ([], s)"
  by (subst dechunk.simps) (simp add: CRLF_def hex_value_def)

section \<open>Header lines\<close>

lemma take_line_CRLF: "CHR 0x0D \<notin> set l \<Longrightarrow> take_line (l @ CRLF @ s) = Some (l, s)"
  by (induction l) (auto simp: CRLF_def)

text \<open>A header that can be read back.\<close>

definition clean_header :: "string \<times> string \<Rightarrow> bool" where
  "clean_header kv = (CHR 0x0D \<notin> set (fst kv) \<and> CHR 0x0D \<notin> set (snd kv) \<and> CHR '':'' \<notin> set (fst kv))"

lemma split_header_line: "CHR '':'' \<notin> set k \<Longrightarrow> split_header (k @ '': '' @ v) = Some (k, v)"
proof -
  assume "CHR '':'' \<notin> set k"
  then have "takeWhile (\<lambda>c. c \<noteq> CHR '':'') (k @ '': '' @ v) = k \<and> dropWhile (\<lambda>c. c \<noteq> CHR '':'') (k @ '': '' @ v) = '': '' @ v"
    by (induction k) auto
  then show ?thesis by (simp add: split_header_def)
qed

lemma parse_header_line:
  assumes "clean_header (k, v)"
  shows "parse_header_block (header_line k v @ s) =
    map_option (\<lambda>(hs, rest). ((k, v) # hs, rest)) (parse_header_block s)"
proof -
  have "take_line (header_line k v @ s) = Some (k @ '': '' @ v, s)"
    using assms take_line_CRLF [of "k @ '': '' @ v" s] by (auto simp: header_line_def clean_header_def)
  moreover have "split_header (k @ '': '' @ v) = Some (k, v)"
    using assms by (intro split_header_line) (simp add: clean_header_def)
  ultimately show ?thesis
    by (subst parse_header_block.simps) (simp add: split_def map_conv_bind_option o_def)
qed

lemma parse_header_lines:
  assumes "list_all clean_header hs"
  shows "parse_header_block (concat (map (\<lambda>(k, v). header_line k v) hs) @ CRLF @ s) = Some (hs, s)"
  using assms
proof (induction hs)
  case Nil
  have "take_line (CRLF @ s) = Some ([], s)" using take_line_CRLF [of "[]"] by simp
  then show ?case by (subst parse_header_block.simps) simp
next
  case (Cons kv hs)
  then show ?case using parse_header_line [of "fst kv" "snd kv"] by (cases kv) simp
qed

text \<open>The headers that are written.\<close>

definition visible :: "h1_env \<Rightarrow> header_list \<Rightarrow> header_list \<Rightarrow> header_list" where
  "visible env headers hs = List.map_filter (\<lambda>(k, v). map_option (\<lambda>k'. (k', v)) (key_to_use env headers k)) hs"

lemma visible_simps [simp]:
  "visible env headers [] = []"
  "visible env headers ((k, v) # hs) =
     (case key_to_use env headers k of None \<Rightarrow> visible env headers hs | Some k' \<Rightarrow> (k', v) # visible env headers hs)"
  by (simp_all add: visible_def List.map_filter_simps split: option.split)

lemma buffer_add_add [simp]: "buffer_add b (buffer_add a h) = buffer_add (a @ b) h" "buffer_add [] h = h"
  "net (buffer_add a h) = net h" "m_protocol (buffer_add a h) = m_protocol h"
  "m_output_buffer (buffer_add a h) = m_output_buffer h @ a"
  by (simp_all add: buffer_add_def)

lemma encode_header_lines_visible:
  "encode_header_lines env headers hs saw h =
     (saw \<or> list_ex (\<lambda>(k, v). g_ascii_strcaseeq k ContentLength) (visible env headers hs),
      buffer_add (concat (map (\<lambda>(k, v). header_line k v) (visible env headers hs))) h)"
  by (induction hs arbitrary: saw h) (auto split: option.split dest: g_ascii_strcaseeq_length)

section \<open>Messages\<close>

text \<open>The handlers of a finished message leave the connection alone.\<close>

definition keeps_output :: "(h1_conn \<Rightarrow> h1_conn option) \<Rightarrow> bool" where
  "keeps_output f = (\<forall>h. \<exists>h'. f h = Some h' \<and> net h' = net h \<and> m_output_buffer h' = m_output_buffer h)"

definition sent :: "h1_conn \<Rightarrow> string" where
  "sent h = wire (net h) @ bev_out (net h)"

text \<open>A connection that writes.\<close>

definition writable :: "h1_conn \<Rightarrow> bool" where
  "writable h = (net_ok (sent h) (net h) \<and> is_open (net h) \<and> m_output_buffer h = [])"

lemma flush_writable:
  assumes "writable h" "quiet (nenv env)"
  shows "\<exists>h'. rp_http1_connection_impl_flush_output env b (buffer_add s h) = Some h' \<and> writable h' \<and> sent h' = sent h @ s \<and>
    m_protocol h' = m_protocol h"
proof -
  have w: "net_ok (sent h) (net h)" "is_open (net h)" "m_output_buffer h = []" using assms(1) by (simp_all add: writable_def)
  obtain rest n where n: "write_i (nenv env) s False (net h) = Some (rest, n)" "net_ok (sent h @ s) n" "is_open n" "rest = []"
    using write_ok [OF w(1) assms(2), of s] w(2) by blast
  then have "wire n @ bev_out n = sent h @ s" by (simp add: net_ok_def is_open_def)
  then show ?thesis
    using n w(3) by (simp add: rp_http1_connection_impl_flush_output_def writable_def sent_def)
qed

lemma end_encode_writable:
  assumes "writable h" "quiet (nenv env)" "keeps_output oec" "keeps_output (on_codec_encode_complete env)"
    "\<not> m_connect_request e" "\<not> m_is_tcp_tunneling e"
  shows "\<exists>h'. end_encode env oec (e, buffer_add s h) = Some (e, h') \<and> writable h' \<and>
    sent h' = sent h @ s @ (if m_chunk_encoding e then ''0'' @ CRLF @ CRLF else [])"
proof -
  let ?s = "s @ (if m_chunk_encoding e then ''0'' @ CRLF @ CRLF else [])"
  obtain h1 where h1: "rp_http1_connection_impl_flush_output env True (buffer_add ?s h) = Some h1" "writable h1"
    "sent h1 = sent h @ ?s" using flush_writable [OF assms(1,2)] by blast
  obtain h2 where h2: "on_codec_encode_complete env h1 = Some h2" "net h2 = net h1" "m_output_buffer h2 = m_output_buffer h1"
    using assms(4) by (auto simp: keeps_output_def)
  obtain h3 where h3: "oec h2 = Some h3" "net h3 = net h2" "m_output_buffer h3 = m_output_buffer h2"
    using assms(3) by (auto simp: keeps_output_def)
  have "(if m_chunk_encoding e then buffer_add (''0'' @ CRLF @ CRLF) (buffer_add s h) else buffer_add s h) = buffer_add ?s h"
    by simp
  then have "end_encode env oec (e, buffer_add s h) = Some (e, h3)"
    using h1(1) h2(1) h3(1) assms(5,6) by (simp only: end_encode_def prod.case) simp
  then show ?thesis using h1(2,3) h2(2,3) h3(2,3) by (auto simp: writable_def sent_def)
qed

text \<open>The pieces of a body, the last of which ends the message.\<close>

fun encode_body ::
  "h1_env \<Rightarrow> (h1_conn \<Rightarrow> h1_conn option) \<Rightarrow> string list \<Rightarrow> string \<Rightarrow> stream_encoder \<times> h1_conn \<Rightarrow> (stream_encoder \<times> h1_conn) option" where
  "encode_body env oec [] final eh = encode_data_i env oec final True eh"
| "encode_body env oec (d # ds) final eh = do { eh1 \<leftarrow> encode_data_i env oec d False eh; encode_body env oec ds final eh1 }"

definition opt_chunk :: "string \<Rightarrow> string" where
  "opt_chunk d = (if d = [] then [] else chunk d)"

lemma dechunk_body:
  "list_all (\<lambda>d. length d < 2 ^ 32) ds \<Longrightarrow>
     dechunk (concat (map opt_chunk ds) @ ''0'' @ CRLF @ CRLF) = Some (concat ds, [])"
proof (induction ds)
  case Nil
  then show ?case using dechunk_end [of "[]"] by simp
next
  case (Cons d ds)
  then show ?case by (cases "d = []") (simp_all add: opt_chunk_def dechunk_chunk)
qed

lemma encode_body_writable:
  assumes "writable h" "quiet (nenv env)" "keeps_output oec" "keeps_output (on_codec_encode_complete env)"
    "\<not> m_connect_request e" "\<not> m_is_tcp_tunneling e" "m_chunk_encoding e"
  shows "\<exists>h'. encode_body env oec ds final (e, h) = Some (e, h') \<and> writable h' \<and>
    sent h' = sent h @ concat (map opt_chunk (ds @ [final])) @ ''0'' @ CRLF @ CRLF"
  using assms(1)
proof (induction ds arbitrary: h)
  case Nil
  have "encode_data_i env oec final True (e, h) = end_encode env oec (e, buffer_add (opt_chunk final) h)"
    using assms(7) by (simp add: encode_data_i_def opt_chunk_def)
  then show ?case using end_encode_writable [OF Nil assms(2-6), of "opt_chunk final"] assms(7) by auto
next
  case (Cons d ds)
  obtain h1 where h1: "rp_http1_connection_impl_flush_output env False (buffer_add (opt_chunk d) h) = Some h1" "writable h1"
    "sent h1 = sent h @ opt_chunk d" using flush_writable [OF Cons.prems assms(2)] by blast
  then have "encode_data_i env oec d False (e, h) = Some (e, h1)"
    using assms(7) by (cases "d = []") (simp_all add: encode_data_i_def opt_chunk_def)
  then show ?case using Cons.IH [OF h1(2)] h1(3) by auto
qed

text \<open>A response with a body of unknown length.\<close>

definition streamed_response :: "h1_env \<Rightarrow> header_list \<Rightarrow> stream_encoder \<Rightarrow> bool" where
  "streamed_response env hs e =
     (let status = http_utility_get_response_status (evhtp_header_find env hs) in
      status \<ge> 200 \<and> status \<noteq> 204 \<and> status \<noteq> 304 \<and> evhtp_header_find env hs (Upgrade_name RpHeaderValues) = None \<and>
      list_all (\<lambda>(k, v). \<not> g_ascii_strcaseeq k ContentLength \<and> clean_header (k, v)) (visible env hs hs) \<and>
      CHR 0x0D \<notin> set (evhtp_get_status_code_str env status) \<and>
      \<not> m_disable_chunk_encoding e \<and> \<not> m_is_response_to_head_request e \<and> \<not> m_is_response_to_connect_request e \<and>
      \<not> m_connect_request e \<and> \<not> m_is_tcp_tunneling e)"

definition status_line :: "h1_env \<Rightarrow> header_list \<Rightarrow> string" where
  "status_line env hs =
     (let status = http_utility_get_response_status (evhtp_header_find env hs)
      in ''HTTP/1.1 '' @ printf_int status @ '' '' @ evhtp_get_status_code_str env status)"

lemma printf_d_digits: "c \<in> set (printf_d n) \<Longrightarrow> 48 \<le> code c \<and> code c \<le> 57"
proof (induction n rule: printf_d.induct)
  case (1 n)
  then show ?case by (cases "n < 10") (auto simp: printf_d.simps [of n])
qed

lemma printf_int_CR: "CHR 0x0D \<notin> set (printf_int i)"
  using printf_d_digits [of "CHR 0x0D"] by (auto simp: printf_int_def)

lemma response_headers_writable:
  assumes "writable h" "quiet (nenv env)" "streamed_response env hs e" "m_protocol h = EVHTP_PROTO_11"
  shows "\<exists>e' h'. response_encode_headers_i env oec http10 hs False (e, h) = Some (e', h') \<and> writable h' \<and>
    m_chunk_encoding e' \<and> \<not> m_connect_request e' \<and> \<not> m_is_tcp_tunneling e' \<and>
    sent h' = sent h @ status_line env hs @ CRLF @
      concat (map (\<lambda>(k, v). header_line k v) (visible env hs hs @ [(TransferEncoding, Chunked)])) @ CRLF"
proof -
  define status where "status = http_utility_get_response_status (evhtp_header_find env hs)"
  note d = assms(3) [unfolded streamed_response_def Let_def, folded status_def]
  let ?lines = "concat (map (\<lambda>(k, v). header_line k v) (visible env hs hs))"
  let ?s = "status_line env hs @ CRLF @ ?lines @ header_line TransferEncoding Chunked @ CRLF"
  obtain h1 where h1: "rp_http1_connection_impl_flush_output env False (buffer_add ?s h) = Some h1" "writable h1"
    "sent h1 = sent h @ ?s" using flush_writable [OF assms(1,2)] by blast
  define e1 where "e1 = (if status \<ge> 300 then e\<lparr> m_started_response := True, m_is_response_to_connect_request := False \<rparr>
      else e\<lparr> m_started_response := True \<rparr>)"
  have e1: "\<not> m_disable_chunk_encoding e1" "\<not> m_is_response_to_head_request e1" "\<not> m_is_response_to_connect_request e1"
    "\<not> m_connect_request e1" "\<not> m_is_tcp_tunneling e1" using d by (simp_all add: e1_def)
  have lines: "encode_header_lines env hs hs False (buffer_add (status_line env hs @ CRLF) h) =
      (False, buffer_add (status_line env hs @ CRLF @ ?lines) h)"
    using d by (auto simp: encode_header_lines_visible list_ex_iff list_all_iff)
  have up: "http_utility_is_upgrade (h1_read_freed env) (h1_parser env) (evhtp_header_find env hs) = Some False"
    using d by (simp add: http_utility_is_upgrade_def)
  have "response_encode_headers_i env oec http10 hs False (e, h) =
      rp_stream_encoder_impl_encode_headers_base env oec hs status False False (e1, buffer_add (status_line env hs @ CRLF) h)"
    using assms(4) by (simp add: response_encode_headers_i_def Let_def status_line_def e1_def status_def)
  also have "\<dots> = Some (e1\<lparr> m_chunk_encoding := True \<rparr>, h1)"
    using d e1 up assms(4) h1(1) by (simp add: rp_stream_encoder_impl_encode_headers_base_def lines Let_def)
  finally show ?thesis using h1(2,3) e1 by simp
qed

text \<open>C8. A response that is streamed can be read back: whatever the headers are and into whatever pieces
  the body is cut, what the peer is sent parses as one message, whose headers are those of the response
  without the pseudo headers, and the announcement of chunks, and whose body is the pieces joined.\<close>

theorem streamed_response_roundtrip:
  assumes "writable h" "quiet (nenv env)" "keeps_output oec" "keeps_output (on_codec_encode_complete env)"
    and "streamed_response env hs e" "m_protocol h = EVHTP_PROTO_11" "list_all (\<lambda>d. length d < 2 ^ 32) (ds @ [final])"
  shows "\<exists>e' h' s. do { eh \<leftarrow> response_encode_headers_i env oec http10 hs False (e, h); encode_body env oec ds final eh } = Some (e', h') \<and>
    sent h' = sent h @ s \<and>
    parse_chunked_message s = Some (status_line env hs, visible env hs hs @ [(TransferEncoding, Chunked)], concat (ds @ [final]), [])"
proof -
  let ?hs = "visible env hs hs @ [(TransferEncoding, Chunked)]"
  let ?body = "concat (map opt_chunk (ds @ [final])) @ ''0'' @ CRLF @ CRLF"
  let ?s = "status_line env hs @ CRLF @ concat (map (\<lambda>(k, v). header_line k v) ?hs) @ CRLF @ ?body"
  obtain e1 h1 where h1: "response_encode_headers_i env oec http10 hs False (e, h) = Some (e1, h1)" "writable h1"
    "m_chunk_encoding e1" "\<not> m_connect_request e1" "\<not> m_is_tcp_tunneling e1"
    "sent h1 = sent h @ status_line env hs @ CRLF @ concat (map (\<lambda>(k, v). header_line k v) ?hs) @ CRLF"
    using response_headers_writable [OF assms(1,2,5,6)] by blast
  obtain h2 where h2: "encode_body env oec ds final (e1, h1) = Some (e1, h2)" "sent h2 = sent h1 @ ?body"
    using encode_body_writable [OF h1(2) assms(2-4) h1(4,5,3)] by blast
  have "CHR 0x0D \<notin> set (status_line env hs)"
    using assms(5) printf_int_CR by (simp add: status_line_def streamed_response_def Let_def)
  moreover have "list_all clean_header ?hs"
    using assms(5) by (auto simp: streamed_response_def Let_def list_all_iff clean_header_def TransferEncoding_def Chunked_def)
  ultimately have "parse_chunked_message ?s = Some (status_line env hs, ?hs, concat (ds @ [final]), [])"
    using take_line_CRLF parse_header_lines [of ?hs ?body] dechunk_body [OF assms(7)]
    by (simp add: parse_chunked_message_def del: concat_append map_append)
  moreover have "sent h2 = sent h @ ?s" using h1(6) h2(2) by simp
  ultimately show ?thesis using h1(1) h2(1) by (intro exI [of _ e1] exI [of _ h2] exI [of _ ?s]) simp
qed

section \<open>Releasing an encoder\<close>

text \<open>Releasing an encoder whose reads were disabled never returns: the loop that enables them again
  does not count the calls down, so on an open connection it enables reads once too often, which an
  assertion forbids, and on a closed one it goes on forever.\<close>

lemma encoder_dispose_iff:
  "encoder_dispose (e, h) \<noteq> None \<longleftrightarrow> m_read_disabled_calls e = 0"
proof
  assume "encoder_dispose (e, h) \<noteq> None"
  then obtain r where "encoder_dispose (e, h) = Some r" by blast
  then have "m_read_disabled_calls (fst (e, h)) = 0"
  proof (induction rule: encoder_dispose.raw_induct [rotated 1, consumes 1])
    case (1 dispose eh r)
    show ?case
    proof (rule ccontr)
      assume n: "m_read_disabled_calls (fst eh) \<noteq> 0"
      then obtain eh1 where eh1: "encoder_read_disable_i False eh = Some eh1" "dispose eh1 = Some r"
        using 1(2) by (auto simp: bind_eq_Some_conv)
      have "m_read_disabled_calls (fst eh1) = m_read_disabled_calls (fst eh)"
        using eh1(1) n by (cases eh) (auto simp: encoder_read_disable_i_def Let_def bind_eq_Some_conv)
      then show False using 1(1) [OF eh1(2)] n by simp
    qed
  qed
  then show "m_read_disabled_calls e = 0" by simp
qed (simp add: encoder_dispose.simps)

section \<open>Examples\<close>

definition example_h1_env :: h1_env where
  "example_h1_env = \<lparr> nenv = example_net, evhtp_header_find = map_of, evhtp_get_status_code_str = (\<lambda>_. ''OK''),
     h1_read_freed = id, h1_parser = header_value_parser_ctor [] [],
     settings = \<lparr> m_accept_http_10 = False, m_allow_absolute_url = False, m_allow_chunked_length = False \<rparr>,
     on_codec_encode_complete = Some \<rparr>"

definition example_h1 :: h1_conn where
  "example_h1 = (rp_http1_connection_impl_init server_conn)\<lparr> m_protocol := EVHTP_PROTO_11 \<rparr>"

lemma writable_example: "writable example_h1"
  by (simp add: writable_def example_h1_def rp_http1_connection_impl_init_def sent_def net_ok_def server_conn_def
      rp_network_connection_impl_init_def is_open_def)

definition example_response :: header_list where
  "example_response = [('':status'', ''200''), (''server'', ''rproxy'')]"

theorem streamed_response_roundtrip_witness:
  "\<exists>e' h' s. do { eh \<leftarrow> response_encode_headers_i example_h1_env Some False example_response False
                       (rp_stream_encoder_impl_init, example_h1);
                  encode_body example_h1_env Some [''hello '', []] ''world'' eh } = Some (e', h') \<and>
     sent h' = s \<and>
     parse_chunked_message s = Some (''HTTP/1.1 200 OK'', [(''server'', ''rproxy''), (''transfer-encoding'', ''chunked'')], ''hello world'', [])"
proof -
  have k: "quiet (nenv example_h1_env)" "keeps_output Some" "keeps_output (on_codec_encode_complete example_h1_env)"
    using quiet_example_net by (simp_all add: example_h1_env_def keeps_output_def)
  have s: "streamed_response example_h1_env example_response rp_stream_encoder_impl_init" by code_simp
  have "m_protocol example_h1 = EVHTP_PROTO_11" "list_all (\<lambda>d. length d < 2 ^ 32) ([''hello '', []] @ [''world''])"
    "sent example_h1 = []" by (simp_all add: example_h1_def sent_def rp_http1_connection_impl_init_def server_conn_def
        rp_network_connection_impl_init_def)
  moreover have "status_line example_h1_env example_response = ''HTTP/1.1 200 OK''"
    "visible example_h1_env example_response example_response @ [(TransferEncoding, Chunked)] =
      [(''server'', ''rproxy''), (''transfer-encoding'', ''chunked'')]" by code_simp+
  ultimately show ?thesis
    using streamed_response_roundtrip [OF writable_example k s, of "[''hello '', []]" "''world''" False] by simp
qed

end
