(* ===== verification/Http1_Codec_Props.thy ===== *)
theory Http1_Codec_Props
  imports Http1_Server Http1_Client Http1_Encoder_Props
begin

text \<open>
  Reading HTTP/1 messages, for both sides. A request that is cut into any pieces reaches its decoder whole and in
  order. A message the codec refuses is fatal: the status stays in the connection, and the next bytes fail an
  assertion. On the client side, an interim response ends the exchange; on the server side, bytes that come
  before the response is finished leave an encoder that cannot be released.
\<close>

section \<open>After an error\<close>

lemma dispatch_slice_status:
  "dispatch_slice env klass segment h = Some (status, n, h1) \<Longrightarrow> m_codec_status h1 = status"
  by (auto simp: dispatch_slice_def bind_eq_Some_conv split: if_splits prod.splits)

lemma dispatch_loop_status:
  "dispatch_loop env klass h = Some (status, h1) \<Longrightarrow> status \<noteq> Ok \<longrightarrow> m_codec_status h1 = status"
proof (induction env klass h "(status, h1)" arbitrary: status h1 rule: dispatch_loop.raw_induct [rotated 1, consumes 1])
  case (1 loop env klass h status h1)
  obtain buffer where b: "m_current_dispatching_buffer h = Some buffer"
    using 1(2) by (cases "m_current_dispatching_buffer h") auto
  show ?case
  proof (cases "evbuffer_drain 0 buffer")
    case Nil
    then show ?thesis using 1(2) b by simp
  next
    case (Cons segment rest)
    then obtain st n h2 where s: "dispatch_slice env klass segment (h\<lparr> m_dispatching_slice_already_drained := False \<rparr>) = Some (st, n, h2)"
      using 1(2) b by (auto simp: bind_eq_Some_conv)
    then show ?thesis
      using 1(2) b Cons dispatch_slice_status [OF s] by (auto simp: Let_def split: if_splits dest: 1(1))
  qed
qed

lemma dispatch_status:
  assumes "dispatch env klass data h = Some (status, rest, h1)" "status \<noteq> Ok"
  shows "m_codec_status h1 = status"
  using assms by (auto simp: dispatch_def bind_eq_Some_conv Let_def split: if_splits dest: dispatch_loop_status dispatch_slice_status)

lemma evbuffer_drain_0: "evbuffer_get_length data > 0 \<Longrightarrow> \<exists>segment rest. evbuffer_drain 0 data = segment # rest"
  by (induction data) (auto simp: evbuffer_get_length_def)

lemma dispatch_slice_failed: "m_codec_status h \<noteq> Ok \<Longrightarrow> dispatch_slice env klass segment h = None"
  by (simp add: dispatch_slice_def)

lemma dispatch_loop_failed:
  assumes "m_codec_status h \<noteq> Ok" "m_current_dispatching_buffer h = Some data" "evbuffer_get_length data > 0"
  shows "dispatch_loop env klass h = None"
proof -
  obtain segment rest where "evbuffer_drain 0 data = segment # rest" using evbuffer_drain_0 [OF assms(3)] by blast
  then show ?thesis using assms by (simp add: dispatch_loop.simps [of env klass h] dispatch_slice_failed)
qed

lemma dispatch_failed:
  "m_codec_status h \<noteq> Ok \<Longrightarrow> \<not> m_handling_upgrade h \<Longrightarrow> dispatch env klass data h = None"
  by (simp add: dispatch_def maybe_direct_dispatch_def resume_i_def Let_def dispatch_loop_failed dispatch_slice_failed)

text \<open>Refusing a message is fatal, for the server and for the client side: once dispatching has returned an
  error, dispatching anything again fails an assertion, unless the connection has become a tunnel. Nothing
  closes the connection in between.\<close>

theorem dispatch_after_error_crashes:
  assumes "dispatch env klass data h = Some (status, rest, h1)" "status \<noteq> Ok" "\<not> m_handling_upgrade h1"
  shows "dispatch env klass data' h1 = None"
  using assms dispatch_failed dispatch_status by metis

text \<open>What the manager of the connection makes of it: it ignores the error, and asks for what is left again.\<close>

definition no_request_yet :: "hcm_env \<Rightarrow> bool" where
  "no_request_yet env = (\<forall>h. calls h = [] \<longrightarrow> \<not> m_streams env h \<and> \<not> drain_state_closing env h)"

lemma malformed_dispatch:
  assumes "htparser_run env [] s = ([], n, True)" "s \<noteq> []"
  shows "\<exists>h. server_dispatch_i env [s] (rp_http1_server_connection_impl_new c) = Some (CodecProtocolError, [s], h) \<and>
     m_codec_status h = CodecProtocolError \<and> net h = c \<and> calls h = [] \<and> m_active_request h = None \<and> \<not> m_handling_upgrade h \<and>
     m_protocol h = EVHTP_PROTO_INVALID"
  using assms
  by (simp add: server_dispatch_i_def remote_complete_def rp_http1_server_connection_impl_new_def
      rp_http1_connection_impl_init_def dispatch_def maybe_direct_dispatch_def resume_i_def evbuffer_get_length_def
      dispatch_loop.simps dispatch_slice_def execute_i_def get_status_i_def)

text \<open>C30. The first bytes a client sends can abort the process: when the parser refuses them before it has
  announced a message, the manager dispatches them a second time, which fails the assertion.\<close>

theorem malformed_request_aborts:
  assumes "htparser_run (cenv env) [] s = ([], n, True)" "s \<noteq> []" "state_i c = Open" "no_request_yet env"
  shows "hcm_on_data_loop env [s] (rp_http1_server_connection_impl_new c) = None"
proof -
  obtain h where h: "server_dispatch_i (cenv env) [s] (rp_http1_server_connection_impl_new c) = Some (CodecProtocolError, [s], h)"
    "m_codec_status h = CodecProtocolError" "net h = c" "calls h = []" "m_active_request h = None" "\<not> m_handling_upgrade h"
    "m_protocol h = EVHTP_PROTO_INVALID" using malformed_dispatch [OF assms(1,2)] by blast
  have "server_dispatch_i (cenv env) [s] h = None"
    using h by (simp add: server_dispatch_i_def remote_complete_def dispatch_failed)
  then have "hcm_on_data_loop env [s] h = None" by (simp add: hcm_on_data_loop.simps [of env "[s]" h])
  then show ?thesis
    using h assms by (simp add: hcm_on_data_loop.simps [of env "[s]" "rp_http1_server_connection_impl_new c"]
        check_for_deferred_close_def no_request_yet_def evbuffer_get_length_def)
qed

section \<open>Bytes before the response is finished\<close>

text \<open>A client that sends anything before its response is finished makes the process hang or abort: reads are
  disabled through the encoder of the response, and when that request is released later, after the response,
  releasing the encoder never returns.\<close>

theorem early_bytes_never_released:
  assumes "m_active_request h = Some request" "m_remote_complete request" "m_read_disabled_calls (m_response_encoder request) = 0"
    and "server_dispatch_i env data h = Some (status, data', h1)"
  shows "\<exists>h2. server_on_encode_complete h1 = Some h2 \<and> deferred h2 \<noteq> [] \<and> (\<forall>h3. ActiveRequest_free (last (deferred h2)) h3 = None)"
proof -
  obtain h2 where h1: "h1 = h2\<lparr> m_active_request := Some (request\<lparr> m_response_encoder :=
      (m_response_encoder request)\<lparr> m_read_disabled_calls := 1 \<rparr> \<rparr>) \<rparr>"
    using assms by (auto simp: server_dispatch_i_def remote_complete_def disable_read_def encoder_read_disable_i_def Let_def
        bind_eq_Some_conv)
  have never: "encoder_dispose (e, h3) = None" if "m_read_disabled_calls e \<noteq> 0" for e h3
    using encoder_dispose_iff [of e h3] that by blast
  show ?thesis using assms(2) by (simp add: h1 server_on_encode_complete_def ActiveRequest_free_def never)
qed

section \<open>Collecting the headers\<close>

text \<open>A header arrives as pieces of its name and of its value.\<close>

type_synonym header_pieces = "string list \<times> string list"

definition header_hooks :: "header_pieces \<Rightarrow> hook list" where
  "header_hooks p = map HdrKeyCb (fst p) @ map HdrValCb (snd p)"

definition unspaced :: "string \<Rightarrow> bool" where
  "unspaced s = (s = [] \<or> \<not> g_ascii_isspace (hd s))"

definition good_pieces :: "header_pieces \<Rightarrow> bool" where
  "good_pieces p = (concat (fst p) \<noteq> [] \<and> snd p \<noteq> [] \<and> unspaced (concat (snd p)))"

definition header_of :: "string \<Rightarrow> string \<Rightarrow> header_list" where
  "header_of k v = (if k = [] then [] else [(c_str (map g_ascii_tolower k), g_strchomp (c_str v))])"

text \<open>A connection between two headers, the last of which is not completed yet.\<close>

definition collecting :: "h1_conn \<Rightarrow> header_list \<Rightarrow> string \<Rightarrow> string \<Rightarrow> h1_conn" where
  "collecting h hs k v =
     h\<lparr> m_headers_or_trailers := Some hs, m_current_header_field := k,
        m_header_parsing_state := (if k = [] then FieldState else ValueState), m_current_header_value := v \<rparr>"

lemma callback_status_Ok [simp]: "m_codec_status h = Ok \<Longrightarrow> set_and_check_callback_status (Ok, h) = Some (SuccessResult, h)"
  by (cases h) (simp add: set_and_check_callback_status_def)

lemma callback_status_or_Ok [simp]: "m_codec_status h = Ok \<Longrightarrow> set_and_check_callback_status_or (Ok, r, h) = Some (r, h)"
  by (simp add: set_and_check_callback_status_or_def)

lemma ltrim_unspaced: "unspaced s \<Longrightarrow> string_view_ltrim s = s"
  by (cases s) (auto simp: unspaced_def string_view_ltrim_def string_view_ltrim_loop.simps)

lemma run_keys:
  "m_codec_status h = Ok \<Longrightarrow> m_header_parsing_state h = FieldState \<Longrightarrow>
     run_hooks env klass (map HdrKeyCb ks @ rest) h =
       run_hooks env klass rest (h\<lparr> m_current_header_field := m_current_header_field h @ concat ks \<rparr>)"
proof (induction ks arbitrary: h)
  case (Cons k ks)
  then show ?case
    using Cons.IH [of "h\<lparr> m_current_header_field := m_current_header_field h @ k \<rparr>"]
    by (simp add: on_header_field_impl_def Let_def)
qed simp

lemma run_values:
  "m_codec_status h = Ok \<Longrightarrow> m_header_parsing_state h \<noteq> DoneState \<Longrightarrow> vs \<noteq> [] \<Longrightarrow> unspaced (m_current_header_value h @ concat vs) \<Longrightarrow>
     run_hooks env klass (map HdrValCb vs @ rest) h =
       run_hooks env klass rest (h\<lparr> m_header_parsing_state := ValueState,
         m_current_header_value := m_current_header_value h @ concat vs \<rparr>)"
proof (induction vs arbitrary: h)
  case (Cons v vs)
  let ?h = "h\<lparr> m_header_parsing_state := ValueState, m_current_header_value := m_current_header_value h @ v \<rparr>"
  have "string_view_ltrim v = v" if "m_current_header_value h = []"
    using that Cons.prems(4) by (intro ltrim_unspaced) (cases v, auto simp: unspaced_def)
  then have step: "run_hooks env klass (map HdrValCb (v # vs) @ rest) h = run_hooks env klass (map HdrValCb vs @ rest) ?h"
    using Cons.prems by (simp add: on_header_value_impl_def Let_def)
  show ?case
  proof (cases "vs = []")
    case True
    show ?thesis unfolding step by (simp add: True)
  next
    case False
    then show ?thesis using Cons.IH [of ?h] Cons.prems by (simp only: step) simp
  qed
qed simp

lemma complete_collecting:
  "m_dispatching h \<Longrightarrow> k = [] \<longrightarrow> v = [] \<Longrightarrow>
     complete_current_header (collecting h hs k v) = Some (Ok, collecting h (hs @ header_of k v) [] [])"
  by (simp add: complete_current_header_def collecting_def header_of_def)

lemma run_header:
  assumes "good_pieces p" "m_dispatching h" "m_codec_status h = Ok" "k = [] \<longrightarrow> v = []"
  shows "run_hooks env klass (header_hooks p @ rest) (collecting h hs k v) =
    run_hooks env klass rest (collecting h (hs @ header_of k v) (concat (fst p)) (concat (snd p)))"
proof -
  obtain n ns where p: "fst p = n # ns" using assms(1) by (cases "fst p") (auto simp: good_pieces_def)
  let ?h = "(collecting h (hs @ header_of k v) [] [])\<lparr> m_current_header_field := n \<rparr>"
  have "run_hooks env klass (header_hooks p @ rest) (collecting h hs k v) =
      run_hooks env klass (map HdrKeyCb ns @ map HdrValCb (snd p) @ rest) ?h"
    using assms(2-4) complete_collecting [of h k v hs]
    by (cases "k = []") (simp_all add: header_hooks_def p on_header_field_impl_def Let_def collecting_def header_of_def)
  also have "\<dots> = run_hooks env klass rest (collecting h (hs @ header_of k v) (concat (fst p)) (concat (snd p)))"
    using assms(1,3) by (auto simp: p run_keys run_values collecting_def good_pieces_def)
  finally show ?thesis .
qed

lemma run_headers:
  assumes "list_all good_pieces ps" "m_dispatching h" "m_codec_status h = Ok" "k = [] \<longrightarrow> v = []"
  shows "\<exists>hs' k' v'. run_hooks env klass (concat (map header_hooks ps) @ rest) (collecting h hs k v) =
      run_hooks env klass rest (collecting h hs' k' v') \<and> (k' = [] \<longrightarrow> v' = []) \<and>
    hs' @ header_of k' v' = hs @ header_of k v @ concat (map (\<lambda>p. header_of (concat (fst p)) (concat (snd p))) ps)"
  using assms(1,4)
proof (induction ps arbitrary: hs k v)
  case Nil
  then show ?case by (intro exI [of _ hs] exI [of _ k] exI [of _ v]) simp
next
  case (Cons p ps)
  let ?k = "concat (fst p)" and ?v = "concat (snd p)"
  have ne: "?k = [] \<longrightarrow> ?v = []" using Cons.prems(1) by (auto simp: good_pieces_def)
  obtain hs' k' v' where r: "run_hooks env klass (concat (map header_hooks ps) @ rest) (collecting h (hs @ header_of k v) ?k ?v) =
      run_hooks env klass rest (collecting h hs' k' v')" "k' = [] \<longrightarrow> v' = []"
    "hs' @ header_of k' v' = (hs @ header_of k v) @ header_of ?k ?v @ concat (map (\<lambda>p. header_of (concat (fst p)) (concat (snd p))) ps)"
    using Cons.IH [of ?k ?v "hs @ header_of k v"] Cons.prems(1) ne by auto
  have "run_hooks env klass (concat (map header_hooks (p # ps)) @ rest) (collecting h hs k v) =
      run_hooks env klass rest (collecting h hs' k' v')"
    using run_header [of p h k v env klass "concat (map header_hooks ps) @ rest" hs] assms(2,3) Cons.prems r(1) by simp
  then show ?case using r(2,3) by (intro exI [of _ hs'] exI [of _ k'] exI [of _ v']) simp
qed

section \<open>Reading a request\<close>

definition inert :: "codec_env \<Rightarrow> bool" where
  "inert env = (decoder env = (\<lambda>_. Some))"

text \<open>What the parser calls for the head of a request.\<close>

definition target :: "string \<Rightarrow> string option \<Rightarrow> string" where
  "target path args = path @ (case args of None \<Rightarrow> [] | Some a \<Rightarrow> ''?'' @ a)"

definition head_hooks :: "string \<Rightarrow> string option \<Rightarrow> header_pieces list \<Rightarrow> message_info \<Rightarrow> hook list" where
  "head_hooks path args ps info =
     OnMsgBegin # PathCb False path # (case args of None \<Rightarrow> [] | Some a \<Rightarrow> [ArgsCb a]) @ OnHdrsBegin #
       concat (map header_hooks ps) @ [OnHdrsComplete info]"

definition request_headers :: "header_pieces list \<Rightarrow> header_list" where
  "request_headers ps = concat (map (\<lambda>p. header_of (concat (fst p)) (concat (snd p))) ps)"

definition decoded_headers :: "string \<Rightarrow> string option \<Rightarrow> header_pieces list \<Rightarrow> string \<Rightarrow> header_list" where
  "decoded_headers path args ps method = request_headers ps @ [('':path'', target path args), ('':method'', method)]"

definition has_body :: "message_info \<Rightarrow> bool" where
  "has_body info = (is_chunked info \<or> content_length info > 0)"

text \<open>A request the codec does not refuse.\<close>

definition acceptable :: "codec_env \<Rightarrow> string \<Rightarrow> header_pieces list \<Rightarrow> message_info \<Rightarrow> string \<Rightarrow> bool" where
  "acceptable env path ps info method =
     (list_all good_pieces ps \<and> path \<noteq> [] \<and> hd path = CHR ''/'' \<and>
      method_name info = Some method \<and> \<not> g_ascii_strcaseeq method (Connect MethodValues) \<and>
      (uses_transfer_encoding info \<longrightarrow> evhtp_header_find (henv env) (request_headers ps) ContentLength = None) \<and>
      (case evhtp_header_find (henv env) (request_headers ps) TransferEncoding of
         None \<Rightarrow> True | Some encoding \<Rightarrow> g_ascii_strcaseeq encoding Chunked))"

text \<open>A connection that waits for a request.\<close>

definition waiting :: "h1_conn \<Rightarrow> bool" where
  "waiting h = (m_codec_status h = Ok \<and> m_dispatching h \<and> \<not> m_reset_stream_called h \<and> \<not> m_handling_upgrade h \<and>
     m_buffered_body h = [] \<and> m_current_header_field h = [] \<and> m_current_header_value h = [] \<and>
     \<not> m_deferred_end_stream_headers h \<and> \<not> m_paused h \<and> state_i (net h) = Open)"

text \<open>A connection that is reading a request whose head it has told its decoder, or will at the end.\<close>

definition reading :: "header_list \<Rightarrow> bool \<Rightarrow> h1_conn \<Rightarrow> bool" where
  "reading hs body h = (m_codec_status h = Ok \<and> m_dispatching h \<and> \<not> m_handling_upgrade h \<and>
     (\<exists>request. m_active_request h = Some request \<and> \<not> m_remote_complete request) \<and>
     m_headers_or_trailers h = Some hs \<and> m_header_parsing_state h = DoneState \<and> \<not> m_processing_trailers h \<and>
     m_deferred_end_stream_headers h = (\<not> body) \<and> \<not> m_paused h)"

text \<open>The connection when the request line has been read.\<close>

definition begun :: "string \<Rightarrow> h1_conn \<Rightarrow> h1_conn" where
  "begun url h = h\<lparr> m_request_uri := Some url, m_protocol := EVHTP_PROTO_11, m_processing_trailers := False,
     calls := calls h @ [NewStreamCall], m_active_request := Some (ActiveRequest_new\<lparr> m_request_url := Some url \<rparr>) \<rparr>"

lemma run_request_line:
  assumes "waiting h" "inert env"
  shows "run_hooks env (server_class env)
     (OnMsgBegin # PathCb False path # (case args of None \<Rightarrow> [] | Some a \<Rightarrow> [ArgsCb a]) @ OnHdrsBegin # rest) h =
     run_hooks env (server_class env) rest (collecting (begun (target path args) h) [] [] [])"
proof -
  have "OnMsgBegin # PathCb False path # (case args of None \<Rightarrow> [] | Some a \<Rightarrow> [ArgsCb a]) @ OnHdrsBegin # rest =
      OnMsgBegin # PathCb False path # (case args of None \<Rightarrow> OnHdrsBegin # rest | Some a \<Rightarrow> ArgsCb a # OnHdrsBegin # rest)"
    by (cases args) simp_all
  then show ?thesis
    using assms unfolding waiting_def inert_def
    by (cases h; cases args; cases "m_request_uri h")
      (simp_all add: on_msg_begin_def on_message_begin_impl_def server_class_def server_class0_def server_on_message_begin_base_def
        alloc_headers_def notify_def append_request_uri_def on_hdrs_begin_def server_on_url_base_def ActiveRequest_new_def
        collecting_def begun_def target_def)
qed

lemma checks_pass:
  assumes "acceptable env path ps info method" "m_headers_or_trailers h = Some (request_headers ps)"
  shows "and_then (and_then (connect_checks env klass False h) (length_checks env klass info)) (encoding_checks env klass False) = Some (Go h)"
  using assms
  by (auto simp: and_then_def connect_checks_def length_checks_def encoding_checks_def header_found_def acceptable_def
      split: option.splits)

text \<open>The request the codec hands over, with or without what it has read of the body.\<close>

lemma server_headers_complete:
  assumes "inert env" "acceptable env path ps info method" "m_active_request h = Some request"
    "m_request_url request = Some (target path args)" "\<not> m_remote_complete request" "\<not> m_handling_upgrade h"
    "m_headers_or_trailers h = Some (request_headers ps)" "state_i (net h) = Open" "\<not> m_deferred_end_stream_headers h"
  shows "\<exists>e request'. server_on_headers_complete_base env info h =
    Some (Ok, SuccessResult, h\<lparr> m_active_request := Some request', m_error_code := e,
      m_headers_or_trailers := Some (decoded_headers path args ps method),
      calls := calls h @ (if has_body info then [DecodeHeadersCall (decoded_headers path args ps method) False] else []),
      m_deferred_end_stream_headers := \<not> has_body info \<rparr>) \<and> \<not> m_remote_complete request'"
proof -
  have path: "target path args \<noteq> []" "target path args ! 0 = CHR ''/''"
    using assms(2) by (cases path; simp add: acceptable_def target_def)+
  have verb: "method_name info = Some method" "\<not> g_ascii_strcaseeq method (Connect MethodValues)"
    using assms(2) by (simp_all add: acceptable_def)
  define request' where "request' = request\<lparr> m_response_encoder := (m_response_encoder request)\<lparr>
     m_is_response_to_head_request := g_ascii_strcaseeq method (Head MethodValues),
     m_is_response_to_connect_request := False \<rparr>, m_request_url := None \<rparr>"
  define e where "e = (if m_protocol h = EVHTP_PROTO_10 \<and> \<not> m_accept_http_10 (settings (henv env)) then 426 else m_error_code h)"
  have "server_on_headers_complete_base env info h =
    Some (Ok, SuccessResult, h\<lparr> m_active_request := Some request', m_error_code := e,
      m_headers_or_trailers := Some (decoded_headers path args ps method),
      calls := calls h @ (if has_body info then [DecodeHeadersCall (decoded_headers path args ps method) False] else []),
      m_deferred_end_stream_headers := \<not> has_body info \<rparr>)"
    using assms path verb unfolding request'_def e_def
    by (cases h) (auto simp: server_on_headers_complete_base_def Let_def handle_path_def clear_request_url_def add_header_def
        check_protocol_version_def has_body_def notify_def inert_def decoded_headers_def RpHeaderValues_def)
  moreover have "\<not> m_remote_complete request'" using assms(5) by (simp add: request'_def)
  ultimately show ?thesis by blast
qed

lemma run_headers_complete:
  assumes "waiting h" "inert env" "acceptable env path ps info method" "k = [] \<longrightarrow> v = []" "hs @ header_of k v = request_headers ps"
  shows "\<exists>h1. run_hook env (server_class env) (OnHdrsComplete info) (collecting (begun (target path args) h) hs k v) = Some (SuccessResult, h1) \<and>
    reading (decoded_headers path args ps method) (has_body info) h1 \<and>
    calls h1 = calls h @ NewStreamCall # (if has_body info then [DecodeHeadersCall (decoded_headers path args ps method) False] else []) \<and>
    m_buffered_body h1 = [] \<and> m_current_dispatching_buffer h1 = m_current_dispatching_buffer h \<and> m_parser h1 = m_parser h \<and>
    m_dispatching_slice_already_drained h1 = m_dispatching_slice_already_drained h"
proof -
  note w = assms(1) [unfolded waiting_def]
  let ?c = "collecting (begun (target path args) h) (request_headers ps) [] []"
  define h2 where "h2 = (if is_http_11 info then ?c else ?c\<lparr> m_protocol := EVHTP_PROTO_10 \<rparr>)"
  have c: "complete_current_header (collecting (begun (target path args) h) hs k v) = Some (Ok, ?c)"
    using complete_collecting [of "begun (target path args) h" k v hs] w assms(4,5) by (simp add: begun_def)
  have h2: "m_headers_or_trailers h2 = Some (request_headers ps)" "\<not> m_handling_upgrade h2" "state_i (net h2) = Open"
    "\<not> m_deferred_end_stream_headers h2"
    "m_active_request h2 = Some (ActiveRequest_new\<lparr> m_request_url := Some (target path args) \<rparr>)"
    using w by (simp_all add: h2_def collecting_def begun_def)
  obtain e request where r: "server_on_headers_complete_base env info h2 =
    Some (Ok, SuccessResult, h2\<lparr> m_active_request := Some request, m_error_code := e,
      m_headers_or_trailers := Some (decoded_headers path args ps method),
      calls := calls h2 @ (if has_body info then [DecodeHeadersCall (decoded_headers path args ps method) False] else []),
      m_deferred_end_stream_headers := \<not> has_body info \<rparr>)" "\<not> m_remote_complete request"
    using server_headers_complete [OF assms(2,3) h2(5) _ _ h2(2,1,3,4), of args] by (auto simp: ActiveRequest_new_def)
  have connect: "g_ascii_strcaseeq (case method_name info of None \<Rightarrow> [] | Some m \<Rightarrow> m) (Connect MethodValues) = False"
    using assms(3) by (simp add: acceptable_def)
  have klass: "on_headers_complete_base (server_class env) = server_on_headers_complete_base env"
    by (simp add: server_class_def server_class0_def)
  show ?thesis
    using w h2(2) r(2)
    by (simp add: on_hdrs_complete_def on_headers_complete_impl_def c connect Let_def h2_def [symmetric] checks_pass [OF assms(3) h2(1)]
        klass r(1) reading_def) (simp add: h2_def collecting_def begun_def)
qed

lemma run_head:
  assumes "waiting h" "inert env" "acceptable env path ps info method"
  shows "\<exists>h1. run_hooks env (server_class env) (head_hooks path args ps info @ rest) h = run_hooks env (server_class env) rest h1 \<and>
    reading (decoded_headers path args ps method) (has_body info) h1 \<and>
    calls h1 = calls h @ NewStreamCall # (if has_body info then [DecodeHeadersCall (decoded_headers path args ps method) False] else []) \<and>
    m_buffered_body h1 = [] \<and> m_current_dispatching_buffer h1 = m_current_dispatching_buffer h \<and> m_parser h1 = m_parser h \<and>
    m_dispatching_slice_already_drained h1 = m_dispatching_slice_already_drained h"
proof -
  have b: "m_dispatching (begun (target path args) h)" "m_codec_status (begun (target path args) h) = Ok"
    using assms(1) by (simp_all add: begun_def waiting_def)
  have ps: "list_all good_pieces ps" using assms(3) by (simp add: acceptable_def)
  obtain hs k v where r: "run_hooks env (server_class env) (concat (map header_hooks ps) @ OnHdrsComplete info # rest)
        (collecting (begun (target path args) h) [] [] []) =
      run_hooks env (server_class env) (OnHdrsComplete info # rest) (collecting (begun (target path args) h) hs k v)" "k = [] \<longrightarrow> v = []"
    "hs @ header_of k v = request_headers ps"
    using run_headers [OF ps b, of "[]" "[]" env "server_class env" "OnHdrsComplete info # rest" "[]"]
    by (auto simp: request_headers_def header_of_def)
  have "run_hooks env (server_class env) (head_hooks path args ps info @ rest) h =
      run_hooks env (server_class env) (OnHdrsComplete info # rest) (collecting (begun (target path args) h) hs k v)"
    using run_request_line [OF assms(1,2)] r(1) by (simp add: head_hooks_def del: run_hooks.simps)
  then show ?thesis using run_headers_complete [OF assms r(2,3), of args] by (auto simp del: run_hook.simps)
qed

section \<open>Reading the body\<close>

type_synonym body_pieces = "(nat \<times> string) list"

definition body_hooks :: "body_pieces \<Rightarrow> hook list" where
  "body_hooks bs = map (\<lambda>(offset, d). BodyCb offset d) bs"

definition body_of :: "body_pieces \<Rightarrow> string" where
  "body_of bs = concat (map snd bs)"

definition delivery :: "string \<Rightarrow> decoder_call list" where
  "delivery d = (if d = [] then [] else [DecodeDataCall d False])"

text \<open>The segment being dispatched is in the buffer until it is drained.\<close>

definition dispatching_segment :: "string \<Rightarrow> h1_conn \<Rightarrow> bool" where
  "dispatching_segment s h =
     (m_current_dispatching_buffer h = Some (if m_dispatching_slice_already_drained h then [] else [s]))"

lemma run_body:
  assumes "dispatching_segment s h" "s \<noteq> []"
  shows "\<exists>b d. run_hooks env klass (body_hooks bs @ rest) h = run_hooks env klass rest
      (h\<lparr> m_buffered_body := m_buffered_body h @ body_of bs, m_current_dispatching_buffer := b, m_dispatching_slice_already_drained := d \<rparr>) \<and>
    b = Some (if d then [] else [s])"
  using assms(1)
proof (induction bs arbitrary: h)
  case Nil
  then show ?case
    by (cases h, intro exI [of _ "m_current_dispatching_buffer h"] exI [of _ "m_dispatching_slice_already_drained h"])
      (simp add: body_hooks_def body_of_def dispatching_segment_def)
next
  case (Cons x bs)
  obtain offset d where x: "x = (offset, d)" by (cases x)
  define full where "full = (offset = 0 \<and> \<not> m_dispatching_slice_already_drained h \<and> length d = length s)"
  let ?d = "m_dispatching_slice_already_drained h \<or> full"
  let ?h = "h\<lparr> m_buffered_body := m_buffered_body h @ d, m_current_dispatching_buffer := Some (if ?d then [] else [s]),
    m_dispatching_slice_already_drained := ?d \<rparr>"
  have "buffer_body_i offset d h = Some ?h"
    using Cons.prems assms(2)
    by (cases h; cases "m_dispatching_slice_already_drained h") (auto simp: buffer_body_i_def dispatching_segment_def full_def)
  then have "run_hooks env klass (body_hooks (x # bs) @ rest) h = run_hooks env klass (body_hooks bs @ rest) ?h"
    by (simp add: body_hooks_def x)
  moreover have "dispatching_segment s ?h" by (simp add: dispatching_segment_def)
  ultimately show ?case using Cons.IH [of ?h] by (simp add: body_of_def x)
qed

lemma message_complete:
  assumes "reading hs body h" "inert env" "body \<or> m_buffered_body h = []"
  shows "\<exists>h1. run_hook env (server_class env) OnMsgComplete h = Some (SuccessResult, h1) \<and>
    calls h1 = calls h @ delivery (m_buffered_body h) @ [if body then DecodeDataCall [] True else DecodeHeadersCall hs True] \<and>
    m_codec_status h1 = Ok \<and> \<not> m_handling_upgrade h1 \<and> remote_complete h1 \<and> m_buffered_body h1 = [] \<and>
    m_current_dispatching_buffer h1 = m_current_dispatching_buffer h \<and>
    m_dispatching_slice_already_drained h1 = m_dispatching_slice_already_drained h"
  using assms unfolding reading_def inert_def
  by (cases "m_buffered_body h = []")
    (auto simp: on_message_complete_impl_def dispatch_buffered_body_def server_class_def server_class0_def server_on_body_def
      notify_def server_on_message_complete_base_def Let_def pause_i_def delivery_def remote_complete_def)

lemma dispatch_loop_step:
  assumes "m_current_dispatching_buffer h = Some buffer" "evbuffer_drain 0 buffer = s # rest"
    "dispatch_slice env klass s (h\<lparr> m_dispatching_slice_already_drained := False \<rparr>) = Some (Ok, n, h1)" "n \<le> length s"
    "h2 = (if m_dispatching_slice_already_drained h1 then h1
           else h1\<lparr> m_current_dispatching_buffer := map_option (evbuffer_drain n) (m_current_dispatching_buffer h1) \<rparr>)"
    "get_status_i h2 \<noteq> ParserError"
  shows "dispatch_loop env klass h = (if get_status_i h2 = ParserOk then dispatch_loop env klass h2 else Some (Ok, h2))"
proof -
  have "get_status_i h2 = ParserOk \<or> get_status_i h2 = ParserPaused" using assms(6) by (cases "get_status_i h2") simp_all
  then show ?thesis
    unfolding dispatch_loop.simps [of env klass h] Let_def
    by (simp only: assms(1-3) option.case list.case bind.bind_lunit prod.case assms(5) [symmetric]) (use assms(4) in auto)
qed

lemma dispatch_packet:
  assumes "s \<noteq> []" "htparser_run env (m_parser h) s = (ks, length s, False)" "\<not> m_handling_upgrade h" "m_codec_status h = Ok"
    and "run_hooks env klass ks (h\<lparr> m_dispatching := True, m_paused := False, m_current_dispatching_buffer := Some [s],
            m_dispatching_slice_already_drained := False \<rparr>) = Some (SuccessResult, h1)"
    and "dispatching_segment s h1" "m_codec_status h1 = Ok"
    and "dispatch_buffered_body klass (h1\<lparr> m_parser := m_parser h @ [s], m_parser_error := False,
            m_current_dispatching_buffer := None \<rparr>) = Some h2" "\<not> m_handling_upgrade h2"
  shows "dispatch env klass [s] h = Some (Ok, [], h2)"
proof -
  let ?h = "h\<lparr> m_dispatching := True, m_paused := False, m_current_dispatching_buffer := Some [s] \<rparr>"
  let ?h1 = "h1\<lparr> m_parser := m_parser h @ [s], m_parser_error := False \<rparr>"
  let ?e = "?h1\<lparr> m_current_dispatching_buffer := Some [] \<rparr>"
  have slice: "dispatch_slice env klass s (?h\<lparr> m_dispatching_slice_already_drained := False \<rparr>) = Some (Ok, length s, ?h1)"
    using assms(2,4,5,7) by (simp add: dispatch_slice_def execute_i_def get_status_i_def)
  have e: "(if m_dispatching_slice_already_drained ?h1 then ?h1
      else ?h1\<lparr> m_current_dispatching_buffer := map_option (evbuffer_drain (length s)) (m_current_dispatching_buffer ?h1) \<rparr>) = ?e"
    using assms(6) by (cases h1) (simp add: dispatching_segment_def)
  have stop: "dispatch_loop env klass ?e = Some (Ok, ?e)" by (subst dispatch_loop.simps) simp
  have st: "get_status_i ?e \<noteq> ParserError" by (simp add: get_status_i_def)
  have buf: "m_current_dispatching_buffer ?h = Some [s]" "evbuffer_drain 0 [s] = s # []" using assms(1) by simp_all
  have "dispatch_loop env klass ?h = Some (Ok, ?e)"
    unfolding dispatch_loop_step [OF buf slice order_refl e [symmetric] st] stop by (rule if_cancel)
  then show ?thesis
    using assms(1,3,8,9)
    by (simp add: dispatch_def maybe_direct_dispatch_def resume_i_def evbuffer_get_length_def)
qed

text \<open>What a packet can end with, and the state it leaves.\<close>

definition final_hooks :: "bool \<Rightarrow> hook list" where
  "final_hooks final = (if final then [OnMsgComplete] else [])"

definition final_calls :: "bool \<Rightarrow> header_list \<Rightarrow> bool \<Rightarrow> decoder_call list" where
  "final_calls final hs body = (if final then [if body then DecodeDataCall [] True else DecodeHeadersCall hs True] else [])"

definition settled :: "bool \<Rightarrow> header_list \<Rightarrow> bool \<Rightarrow> h1_conn \<Rightarrow> bool" where
  "settled final hs body h =
     (m_codec_status h = Ok \<and> \<not> m_handling_upgrade h \<and> (if final then remote_complete h else reading hs body h))"

lemma run_tail:
  assumes "reading hs body h" "inert env" "dispatching_segment s h" "s \<noteq> []" "m_buffered_body h = []" "body \<or> bs = []"
  shows "\<exists>h1. run_hooks env (server_class env) (body_hooks bs @ final_hooks final) h = Some (SuccessResult, h1) \<and>
    dispatching_segment s h1 \<and> settled final hs body h1 \<and>
    calls h1 @ delivery (m_buffered_body h1) = calls h @ delivery (body_of bs) @ final_calls final hs body"
proof -
  obtain b d where r: "run_hooks env (server_class env) (body_hooks bs @ final_hooks final) h =
      run_hooks env (server_class env) (final_hooks final)
        (h\<lparr> m_buffered_body := body_of bs, m_current_dispatching_buffer := b, m_dispatching_slice_already_drained := d \<rparr>)"
    "b = Some (if d then [] else [s])"
    using run_body [OF assms(3,4), of env "server_class env" bs "final_hooks final"] assms(5) by auto
  let ?h = "h\<lparr> m_buffered_body := body_of bs, m_current_dispatching_buffer := b, m_dispatching_slice_already_drained := d \<rparr>"
  have h: "reading hs body ?h" using assms(1) by (simp add: reading_def)
  show ?thesis
  proof (cases final)
    case False
    then show ?thesis
      using r h by (auto simp: final_hooks_def final_calls_def dispatching_segment_def settled_def reading_def)
  next
    case True
    have "body \<or> m_buffered_body ?h = []" using assms(6) by (auto simp: body_of_def)
    then obtain h1 where h1: "run_hook env (server_class env) OnMsgComplete ?h = Some (SuccessResult, h1)"
      "calls h1 = calls ?h @ delivery (m_buffered_body ?h) @ [if body then DecodeDataCall [] True else DecodeHeadersCall hs True]"
      "m_codec_status h1 = Ok" "\<not> m_handling_upgrade h1" "remote_complete h1" "m_buffered_body h1 = []"
      "m_current_dispatching_buffer h1 = m_current_dispatching_buffer ?h"
      "m_dispatching_slice_already_drained h1 = m_dispatching_slice_already_drained ?h"
      using message_complete [OF h assms(2)] by blast
    then show ?thesis
      using r True by (auto simp: final_hooks_def final_calls_def dispatching_segment_def settled_def delivery_def simp del: run_hook.simps)
  qed
qed

lemma flush_settled:
  assumes "settled final hs body h" "inert env"
  shows "\<exists>h1. dispatch_buffered_body (server_class env) h = Some h1 \<and> settled final hs body h1 \<and>
    calls h1 = calls h @ delivery (m_buffered_body h) \<and> m_buffered_body h1 = [] \<and> m_parser h1 = m_parser h"
proof -
  have "m_active_request h \<noteq> None" using assms(1) by (auto simp: settled_def reading_def remote_complete_def split: if_splits option.splits)
  then show ?thesis
    using assms
    by (auto simp: dispatch_buffered_body_def server_class_def server_class0_def server_on_body_def notify_def inert_def delivery_def
        settled_def reading_def remote_complete_def)
qed

text \<open>A packet of the body, whatever the parser called before its part of the body.\<close>

lemma packet:
  assumes "s \<noteq> []" "htparser_run env (m_parser h) s = (ks @ body_hooks bs @ final_hooks final, length s, False)"
    and "\<not> m_handling_upgrade h" "m_codec_status h = Ok" "\<not> remote_complete h" "inert env" "body \<or> bs = []"
    and "run_hooks env (server_class env) (ks @ body_hooks bs @ final_hooks final)
           (h\<lparr> m_dispatching := True, m_paused := False, m_current_dispatching_buffer := Some [s],
              m_dispatching_slice_already_drained := False \<rparr>) =
         run_hooks env (server_class env) (body_hooks bs @ final_hooks final) h0"
    and "reading hs body h0" "dispatching_segment s h0" "m_buffered_body h0 = []"
  shows "\<exists>h1. server_dispatch_i env [s] h = Some (Ok, [], h1) \<and> settled final hs body h1 \<and> m_buffered_body h1 = [] \<and>
    m_parser h1 = m_parser h @ [s] \<and> calls h1 = calls h0 @ delivery (body_of bs) @ final_calls final hs body"
proof -
  obtain h1 where h1: "run_hooks env (server_class env) (body_hooks bs @ final_hooks final) h0 = Some (SuccessResult, h1)"
    "dispatching_segment s h1" "settled final hs body h1"
    "calls h1 @ delivery (m_buffered_body h1) = calls h0 @ delivery (body_of bs) @ final_calls final hs body"
    using run_tail [OF assms(9,6,10,1,11,7)] by blast
  let ?h1 = "h1\<lparr> m_parser := m_parser h @ [s], m_parser_error := False, m_current_dispatching_buffer := None \<rparr>"
  have "settled final hs body ?h1" using h1(3) by (cases final) (simp_all add: settled_def reading_def remote_complete_def)
  then obtain h2 where h2: "dispatch_buffered_body (server_class env) ?h1 = Some h2" "settled final hs body h2"
    "calls h2 = calls h1 @ delivery (m_buffered_body h1)" "m_buffered_body h2 = []" "m_parser h2 = m_parser h @ [s]"
    using flush_settled [OF _ assms(6)] by fastforce
  have "dispatch env (server_class env) [s] h = Some (Ok, [], h2)"
    using dispatch_packet [OF assms(1-4) _ h1(2) _ h2(1)] h1(1,3) h2(2) assms(8) by (simp add: settled_def)
  then have "server_dispatch_i env [s] h = Some (Ok, [], h2)"
    using assms(5) by (simp add: server_dispatch_i_def evbuffer_get_length_def)
  then show ?thesis using h2 h1(4) by simp
qed

text \<open>A request that comes in packets: its head and the first part of the body, then parts of the body, the last
  of which ends it.\<close>

fun feed :: "codec_env \<Rightarrow> string list \<Rightarrow> h1_conn \<Rightarrow> h1_conn option" where
  "feed env [] h = Some h"
| "feed env (s # ss) h =
     do { (status, rest, h1) \<leftarrow> server_dispatch_i env [s] h; if status = Ok \<and> rest = [] then feed env ss h1 else None }"

text \<open>The parser, run on the packets one after the other, calls the hooks given for each.\<close>

fun parses :: "codec_env \<Rightarrow> string list \<Rightarrow> string list \<Rightarrow> hook list list \<Rightarrow> bool" where
  "parses env before [] [] = True"
| "parses env before (s # ss) (ks # kss) =
     (s \<noteq> [] \<and> htparser_run env before s = (ks, length s, False) \<and> parses env (before @ [s]) ss kss)"
| "parses env before _ _ = False"

fun body_packets :: "body_pieces list \<Rightarrow> hook list list" where
  "body_packets [] = []"
| "body_packets (b # bs) = (body_hooks b @ final_hooks (bs = [])) # body_packets bs"

lemma feed_body:
  assumes "inert env" "bs \<noteq> []" "parses env (m_parser h) ss (body_packets bs)" "body \<or> concat bs = []"
    "reading hs body h" "m_buffered_body h = []"
  shows "\<exists>h1. feed env ss h = Some h1 \<and> settled True hs body h1 \<and>
    calls h1 = calls h @ concat (map (\<lambda>b. delivery (body_of b)) bs) @ final_calls True hs body"
  using assms(2-6)
proof (induction bs arbitrary: ss h)
  case (Cons b bs)
  obtain s ss' where ss: "ss = s # ss'" "s \<noteq> []"
    and p: "htparser_run env (m_parser h) s = (body_hooks b @ final_hooks (bs = []), length s, False)"
    and rest: "parses env (m_parser h @ [s]) ss' (body_packets bs)"
    using Cons.prems(2) by (cases ss) auto
  let ?h0 = "h\<lparr> m_dispatching := True, m_paused := False, m_current_dispatching_buffer := Some [s],
    m_dispatching_slice_already_drained := False \<rparr>"
  have h: "\<not> m_handling_upgrade h" "m_codec_status h = Ok" "\<not> remote_complete h"
    using Cons.prems(4) by (auto simp: reading_def remote_complete_def)
  have h0: "reading hs body ?h0" "dispatching_segment s ?h0" "m_buffered_body ?h0 = []"
    using Cons.prems(4,5) by (auto simp: reading_def dispatching_segment_def)
  have b: "body \<or> b = []" using Cons.prems(3) by auto
  obtain h1 where h1: "server_dispatch_i env [s] h = Some (Ok, [], h1)" "settled (bs = []) hs body h1" "m_buffered_body h1 = []"
    "m_parser h1 = m_parser h @ [s]" "calls h1 = calls h @ delivery (body_of b) @ final_calls (bs = []) hs body"
    using packet [where ks = "[]", OF ss(2) _ h assms(1) b _ h0, of "bs = []"] p by auto
  show ?case
  proof (cases "bs = []")
    case True
    then have "ss' = []" using rest by (cases ss') auto
    then show ?thesis using True h1 by (simp add: ss)
  next
    case False
    have r: "reading hs body h1" using h1(2) False by (simp add: settled_def)
    obtain h2 where "feed env ss' h1 = Some h2" "settled True hs body h2"
      "calls h2 = calls h1 @ concat (map (\<lambda>b. delivery (body_of b)) bs) @ final_calls True hs body"
      using Cons.IH [OF False _ _ r h1(3)] rest h1(4) Cons.prems(3) by auto
    then show ?thesis using h1 False by (simp add: ss final_calls_def)
  qed
qed simp

text \<open>What the decoder of a request is told.\<close>

definition request_calls :: "header_list \<Rightarrow> bool \<Rightarrow> body_pieces list \<Rightarrow> decoder_call list" where
  "request_calls hs body bs =
     NewStreamCall # (if body then DecodeHeadersCall hs False # concat (map (\<lambda>b. delivery (body_of b)) bs) @ [DecodeDataCall [] True]
                      else [DecodeHeadersCall hs True])"

definition ready :: "h1_conn \<Rightarrow> bool" where
  "ready h = (waiting (h\<lparr> m_dispatching := True, m_paused := False \<rparr>) \<and> m_active_request h = None)"


section \<open>Reading responses\<close>

text \<open>A client connection that waits for the response to a request.\<close>

definition awaiting :: "h1_conn \<Rightarrow> bool" where
  "awaiting h = (m_codec_status h = Ok \<and> \<not> m_reset_stream_called h \<and> \<not> m_handling_upgrade h \<and> m_pending_response h \<noteq> None \<and>
     \<not> m_pending_response_done h \<and> m_current_header_field h = [] \<and> m_current_header_value h = [] \<and> m_buffered_body h = [] \<and>
     \<not> m_deferred_end_stream_headers h \<and> \<not> m_ignore_message_complete_for_1xx h \<and> \<not> m_force_reset_on_premature_upstream_half_close h)"

text \<open>An interim response, \<^verbatim>\<open>100 Continue\<close>, without headers; and the header tables it needs.\<close>

definition interim :: "message_info \<Rightarrow> bool" where
  "interim info = (status_code info = 100 \<and> method_name info = None \<and> \<not> uses_transfer_encoding info)"

definition interim_headers :: header_list where
  "interim_headers = [('':status'', ''100'')]"

definition finds_status :: "codec_env \<Rightarrow> bool" where
  "finds_status env = (evhtp_header_find (henv env) [] TransferEncoding = None \<and>
     evhtp_header_find (henv env) interim_headers = map_of interim_headers)"

lemma printf_int_100: "printf_int 100 = ''100''"
  by code_simp

lemma interim_special:
  assumes "h1_parser (henv env) = header_value_parser_ctor bt bv" "finds_status env"
  shows "is_special_1xx (h1_parser (henv env)) (evhtp_header_find (henv env) interim_headers) = Some True"
proof -
  have "first_name ''100'' = ''100''" by code_simp
  moreover have "plain_headers (map_of interim_headers)"
    by (simp add: plain_headers_def interim_headers_def) code_simp
  ultimately show ?thesis
    using assms by (simp add: is_special_1xx_def get_status_code_def get_header_value_plain finds_status_def present_and_def)
      (simp add: interim_headers_def RpHeaderValues_def g_ascii_strcaseeq_def)
qed

text \<open>The headers of the interim response, and its end.\<close>

lemma interim_headers_complete:
  assumes "awaiting h" "inert env" "finds_status env" "h1_parser (henv env) = header_value_parser_ctor bt bv" "interim info"
    "m_headers_or_trailers h = Some []"
  shows "\<exists>r. client_on_headers_complete_base env info h =
    Some (Ok, r, h\<lparr> m_headers_or_trailers := Some interim_headers, calls := calls h @ [Decode1xxHeadersCall interim_headers] \<rparr>) \<and> r \<noteq> ErrorResult"
proof -
  obtain e where e: "m_pending_response h = Some e" using assms(1) by (auto simp: awaiting_def)
  have set: "headers_set_status 100 h = h\<lparr> m_headers_or_trailers := Some interim_headers \<rparr>"
    using assms(6) by (simp add: headers_set_status_def printf_int_100 interim_headers_def RpHeaderValues_def)
  have "map_of interim_headers TransferEncoding = None" "map_of interim_headers ContentLength = None"
    by (simp_all add: interim_headers_def TransferEncoding_def ContentLength_def)
  then have checks: "bodiless_checks env info (h\<lparr> m_headers_or_trailers := Some interim_headers \<rparr>) =
      Some (h\<lparr> m_headers_or_trailers := Some interim_headers \<rparr>)"
    using assms(3) by (simp add: bodiless_checks_def header_found_def finds_status_def)
  show ?thesis
    using assms(1,2,5) e
    by (simp add: client_on_headers_complete_base_def set Let_def interim_def checks interim_special [OF assms(4,3)] notify_def inert_def
        rp_http1_client_connection_impl_cannot_have_body_def awaiting_def)
qed

lemma interim_run:
  assumes "awaiting h" "inert env" "finds_status env" "h1_parser (henv env) = header_value_parser_ctor bt bv" "interim info" "m_dispatching h"
  shows "\<exists>h1. run_hooks env (client_class env) [OnMsgBegin, OnHdrsBegin, OnHdrsComplete info, OnMsgComplete] h = Some (SuccessResult, h1) \<and>
    m_codec_status h1 = Ok \<and> \<not> m_handling_upgrade h1 \<and> \<not> m_reset_stream_called h1 \<and> m_pending_response h1 = None \<and> m_buffered_body h1 = [] \<and>
    m_current_dispatching_buffer h1 = m_current_dispatching_buffer h \<and>
    m_dispatching_slice_already_drained h1 = m_dispatching_slice_already_drained h \<and>
    calls h1 = calls h @ [Decode1xxHeadersCall interim_headers, DecodeDataCall [] True]"
proof -
  note w = assms(1) [unfolded awaiting_def]
  define h1 where "h1 = h\<lparr> m_request_uri := map_option (\<lambda>_. []) (m_request_uri h), m_protocol := EVHTP_PROTO_11,
     m_processing_trailers := False, m_header_parsing_state := FieldState, m_headers_or_trailers := Some [] \<rparr>"
  define h2 where "h2 = (if is_http_11 info then h1 else h1\<lparr> m_protocol := EVHTP_PROTO_10 \<rparr>)"
  have "run_hook env (client_class env) OnMsgBegin h = Some (SuccessResult, h1)"
    using w by (simp add: on_msg_begin_def on_message_begin_impl_def client_class_def client_on_message_begin_base_def alloc_headers_def h1_def)
  moreover have "run_hook env (client_class env) OnHdrsBegin h1 = Some (SuccessResult, h1)"
    by (simp add: on_hdrs_begin_def client_class_def)
  moreover have h2: "awaiting h2" "m_headers_or_trailers h2 = Some []" using w by (simp_all add: awaiting_def h2_def h1_def)
  obtain r where r: "client_on_headers_complete_base env info h2 =
      Some (Ok, r, h2\<lparr> m_headers_or_trailers := Some interim_headers, calls := calls h2 @ [Decode1xxHeadersCall interim_headers] \<rparr>)" "r \<noteq> ErrorResult"
    using interim_headers_complete [OF h2(1) assms(2-5) h2(2)] by blast
  define h3 where "h3 = h2\<lparr> m_headers_or_trailers := Some interim_headers, calls := calls h2 @ [Decode1xxHeadersCall interim_headers],
    m_header_parsing_state := DoneState \<rparr>"
  have c: "complete_current_header h1 = Some (Ok, h1)"
    using w assms(6) by (cases h) (simp add: complete_current_header_def h1_def)
  have "\<not> g_ascii_strcaseeq [] (Connect MethodValues)" by code_simp
  then have k: "and_then (and_then (connect_checks env (client_class env) (g_ascii_strcaseeq [] (Connect MethodValues)) h2)
       (length_checks env (client_class env) info)) (encoding_checks env (client_class env) (g_ascii_strcaseeq [] (Connect MethodValues))) = Some (Go h2)"
    using assms(3,5) h2(2) by (simp add: and_then_def connect_checks_def length_checks_def encoding_checks_def header_found_def finds_status_def interim_def)
  have klass: "on_headers_complete_base (client_class env) = client_on_headers_complete_base env" by (simp add: client_class_def)
  have h3: "awaiting h3" "m_header_parsing_state h3 = DoneState" "\<not> m_processing_trailers h3" using w by (simp_all add: awaiting_def h3_def h2_def h1_def)
  have "run_hook env (client_class env) (OnHdrsComplete info) h1 = Some (SuccessResult, h3)"
    using assms(5) k r(2) h3(1)
    by (simp add: on_hdrs_complete_def on_headers_complete_impl_def c Let_def h2_def [symmetric] interim_def klass r(1) h3_def awaiting_def)
  moreover obtain e where e: "m_pending_response h3 = Some e" using h3(1) by (auto simp: awaiting_def)
  moreover have "run_hook env (client_class env) OnMsgComplete h3 = Some (SuccessResult,
      h3\<lparr> m_pending_response_done := True, calls := calls h3 @ [DecodeDataCall [] True], m_pending_response := None,
        released := released h3 @ [e], m_headers_or_trailers := None, m_paused := True \<rparr>)"
    using h3 e assms(2)
    by (simp add: on_message_complete_impl_def dispatch_buffered_body_def client_class_def client_on_message_complete_base_def Let_def
        notify_def inert_def PendingResponse_free_def pause_i_def awaiting_def)
  ultimately show ?thesis using h3(1) by (simp add: awaiting_def del: run_hook.simps) (simp add: h3_def h2_def h1_def)
qed

text \<open>An interim response ends the exchange: when the upstream server answers \<^verbatim>\<open>100 Continue\<close>, the stream is told
  that its response is over, without ever having had headers, and the response that follows is an error.\<close>

theorem continue_ends_exchange:
  assumes "awaiting h" "inert env" "finds_status env" "h1_parser (henv env) = header_value_parser_ctor bt bv" "interim info" "s \<noteq> []"
    and "htparser_run env (m_parser h) s = ([OnMsgBegin, OnHdrsBegin, OnHdrsComplete info, OnMsgComplete], length s, False)"
  shows "\<exists>h1. client_dispatch_i env [s] h = Some (Ok, [], h1) \<and>
    calls h1 = calls h @ [Decode1xxHeadersCall [('':status'', ''100'')], DecodeDataCall [] True] \<and>
    (\<forall>info'. client_on_headers_complete_base env info' h1 = Some (PrematureResponseError, SuccessResult, h1))"
proof -
  let ?h = "h\<lparr> m_dispatching := True, m_paused := False, m_current_dispatching_buffer := Some [s],
    m_dispatching_slice_already_drained := False \<rparr>"
  have "awaiting ?h" "m_dispatching ?h" using assms(1) by (simp_all add: awaiting_def)
  then obtain h1 where h1: "run_hooks env (client_class env) [OnMsgBegin, OnHdrsBegin, OnHdrsComplete info, OnMsgComplete] ?h = Some (SuccessResult, h1)"
    "m_codec_status h1 = Ok" "\<not> m_handling_upgrade h1" "\<not> m_reset_stream_called h1" "m_pending_response h1 = None" "m_buffered_body h1 = []"
    "dispatching_segment s h1" "calls h1 = calls h @ [Decode1xxHeadersCall interim_headers, DecodeDataCall [] True]"
    using interim_run [of ?h env bt bv info] assms(2-5) by (auto simp: dispatching_segment_def)
  let ?h1 = "h1\<lparr> m_parser := m_parser h @ [s], m_parser_error := False, m_current_dispatching_buffer := None \<rparr>"
  have "\<not> m_handling_upgrade h" "m_codec_status h = Ok" using assms(1) by (simp_all add: awaiting_def)
  then have "client_dispatch_i env [s] h = Some (Ok, [], ?h1)"
    using dispatch_packet [OF assms(6,7) _ _ h1(1,7,2), of ?h1] h1(3,6)
    by (simp add: client_dispatch_i_def dispatch_buffered_body_def)
  then show ?thesis using h1 by (simp add: client_on_headers_complete_base_def interim_headers_def)
qed

text \<open>The slot for refusing a response is not set: a response with a length beside an encoding is a call of \<open>NULL\<close>.\<close>

lemma refused_response_crashes:
  assumes "uses_transfer_encoding info" "\<not> m_allow_chunked_length (settings (henv env))" "header_found env ContentLength h \<noteq> None"
  shows "length_checks env (client_class env) info h = None"
  using assms by (simp add: length_checks_def refuse_message_def client_class_def)

section \<open>Paths and values\<close>

text \<open>An absolute URL loses the mark of its query.\<close>

lemma absolute_url_query:
  assumes "uri_path url \<noteq> []" "uri_query url = Some query" "query \<noteq> []"
  shows "url_path_and_query_params url = Some (uri_path url @ '':'' @ query)"
  using assms by (simp add: url_path_and_query_params_def)

text \<open>Trimming a value advances the view and the index together, and can drop a character that is not blank.\<close>

lemma ltrim_drops_text: "string_view_ltrim '' a b'' = '' b''"
  by code_simp

section \<open>Examples\<close>

text \<open>A parser that refuses anything, and one that reads what it is given for each packet.\<close>

definition example_codec :: "(string list \<Rightarrow> string \<Rightarrow> hook list \<times> nat \<times> bool) \<Rightarrow> codec_env" where
  "example_codec parser = \<lparr> henv = example_h1_env, htparser_run = parser, evhtp_header_rm_and_free = (\<lambda>hs k. filter (\<lambda>p. fst p \<noteq> k) hs),
     g_uri_parse = (\<lambda>_. None), decoder = (\<lambda>_. Some) \<rparr>"

definition refusing :: "string list \<Rightarrow> string \<Rightarrow> hook list \<times> nat \<times> bool" where
  "refusing before s = ([], 0, True)"

definition scripted :: "(string \<times> hook list) list \<Rightarrow> string list \<Rightarrow> string \<Rightarrow> hook list \<times> nat \<times> bool" where
  "scripted script before s = (case map_of script s of None \<Rightarrow> ([], 0, True) | Some ks \<Rightarrow> (ks, length s, False))"

theorem dispatch_after_error_crashes_witness:
  "\<exists>h1. dispatch (example_codec refusing) (server_class (example_codec refusing)) [''bad''] (rp_http1_server_connection_impl_new server_conn) =
       Some (CodecProtocolError, [''bad''], h1) \<and>
     dispatch (example_codec refusing) (server_class (example_codec refusing)) [''more''] h1 = None"
proof -
  have "\<exists>h1. dispatch (example_codec refusing) (server_class (example_codec refusing)) [''bad''] (rp_http1_server_connection_impl_new server_conn) =
      Some (CodecProtocolError, [''bad''], h1) \<and> \<not> m_handling_upgrade h1"
    by (simp add: rp_http1_server_connection_impl_new_def rp_http1_connection_impl_init_def dispatch_def maybe_direct_dispatch_def
        resume_i_def evbuffer_get_length_def dispatch_loop.simps dispatch_slice_def execute_i_def get_status_i_def example_codec_def refusing_def)
  then show ?thesis using dispatch_after_error_crashes [of "example_codec refusing"] by blast
qed

definition example_hcm :: hcm_env where
  "example_hcm = \<lparr> cenv = example_codec refusing, m_streams = (\<lambda>h. calls h \<noteq> []), drain_state_closing = (\<lambda>_. False),
     reset_all_streams = Some \<rparr>"

theorem malformed_request_aborts_witness:
  "hcm_on_data_loop example_hcm [''bad''] (rp_http1_server_connection_impl_new server_conn) = None"
proof -
  have "state_i server_conn = Open" by (simp add: server_conn_def rp_network_connection_impl_init_def state_i_def is_open_def)
  then show ?thesis
    using malformed_request_aborts [of example_hcm "''bad''" 0 server_conn]
    by (simp add: example_hcm_def example_codec_def refusing_def no_request_yet_def)
qed

definition example_served :: h1_conn where
  "example_served = (rp_http1_server_connection_impl_new server_conn)\<lparr>
     m_active_request := Some (ActiveRequest_new\<lparr> m_remote_complete := True \<rparr>) \<rparr>"

theorem early_bytes_never_released_witness:
  "\<exists>h1 h2. server_dispatch_i (example_codec refusing) [''GET''] example_served = Some (Ok, [''GET''], h1) \<and>
     server_on_encode_complete h1 = Some h2 \<and> deferred h2 \<noteq> [] \<and> (\<forall>h3. ActiveRequest_free (last (deferred h2)) h3 = None)"
proof -
  have r: "m_active_request example_served = Some (ActiveRequest_new\<lparr> m_remote_complete := True \<rparr>)"
    "m_remote_complete (ActiveRequest_new\<lparr> m_remote_complete := True \<rparr>)"
    "m_read_disabled_calls (m_response_encoder (ActiveRequest_new\<lparr> m_remote_complete := True \<rparr>)) = 0"
    by (simp_all add: example_served_def ActiveRequest_new_def rp_stream_encoder_impl_init_def)
  have "map_option (\<lambda>(status, rest, _). (status, rest)) (server_dispatch_i (example_codec refusing) [''GET''] example_served) =
      Some (Ok, [''GET''])" by code_simp
  then obtain h1 where h1: "server_dispatch_i (example_codec refusing) [''GET''] example_served = Some (Ok, [''GET''], h1)" by auto
  then show ?thesis using early_bytes_never_released [OF r h1] by blast
qed

definition example_info :: message_info where
  "example_info = \<lparr> method_name = Some ''POST'', is_http_11 = True, content_length = 5, is_chunked = False,
     uses_transfer_encoding = False, status_code = 0 \<rparr>"

text \<open>A request in two packets, with a header and a body that are cut.\<close>

definition example_pieces :: "header_pieces list" where
  "example_pieces = [([''Ho'', ''st''], [''exam'', ''ple'']), ([''Content-Length''], [''5''])]"

definition example_script :: "(string \<times> hook list) list" where
  "example_script =
     [(''first'', head_hooks ''/form'' (Some ''q=1'') example_pieces example_info @ body_hooks [(3, ''he'')]),
      (''second'', body_hooks [(0, ''llo'')] @ [OnMsgComplete])]"


definition example_interim :: message_info where
  "example_interim = \<lparr> method_name = None, is_http_11 = True, content_length = 0, is_chunked = False,
     uses_transfer_encoding = False, status_code = 100 \<rparr>"

definition example_awaiting :: h1_conn where
  "example_awaiting = (rp_http1_client_connection_impl_new server_conn)\<lparr> m_pending_response := Some rp_stream_encoder_impl_init,
     m_pending_response_done := False \<rparr>"

theorem continue_ends_exchange_witness:
  "\<exists>env h1. client_dispatch_i env [''100''] example_awaiting = Some (Ok, [], h1) \<and>
     calls h1 = [Decode1xxHeadersCall [('':status'', ''100'')], DecodeDataCall [] True] \<and>
     (\<forall>info'. client_on_headers_complete_base env info' h1 = Some (PrematureResponseError, SuccessResult, h1))"
proof -
  let ?env = "example_codec (scripted [(''100'', [OnMsgBegin, OnHdrsBegin, OnHdrsComplete example_interim, OnMsgComplete])])"
  have "awaiting example_awaiting" "calls example_awaiting = []"
    by (simp_all add: awaiting_def example_awaiting_def rp_http1_client_connection_impl_new_def rp_http1_connection_impl_init_def)
  moreover have "inert ?env" "h1_parser (henv ?env) = header_value_parser_ctor [] []" "finds_status ?env" "interim example_interim"
    by (simp_all add: inert_def example_codec_def example_h1_env_def finds_status_def interim_def example_interim_def)
  moreover have "htparser_run ?env (m_parser example_awaiting) ''100'' =
      ([OnMsgBegin, OnHdrsBegin, OnHdrsComplete example_interim, OnMsgComplete], length ''100'', False)"
    by (simp add: example_codec_def scripted_def)
  ultimately show ?thesis
    using continue_ends_exchange [of example_awaiting ?env "[]" "[]" example_interim "''100''"] by auto
qed

end
