(* ===== verification/Dispatcher.thy ===== *)
theory Dispatcher
  imports Scheduler
begin

text \<open>
  The dispatcher of an event loop, \<^verbatim>\<open>src/src/event/rp-dispatcher-impl.c\<close>, as the code of its own thread sees
  it: objects whose release and memory whose destruction are put off, and callbacks that are posted. Objects,
  pieces of memory, the functions that destroy them and posted callbacks are numbers. Each list of things to release or to
  destroy comes twice: while one is worked on, new entries go to the other. Releasing, destroying and running a
  callback is code of other components, which calls the dispatcher again: a parameter says which calls it makes,
  given the trace of what was released, destroyed and run up to and including this one. The nodes that hold what
  is to be destroyed are kept for reuse, so they live in an explicit store. What was handed over is logged.
\<close>

section \<open>State\<close>

datatype side = Side1 | Side2

fun other :: "side \<Rightarrow> side" where
  "other Side1 = Side2"
| "other Side2 = Side1"

record pointer_node =
  mem :: "nat option"
  destroy_cb :: "nat option"

datatype disp_event = Released nat | Destroyed "nat option" nat | Ran nat

record dispatcher =
  m_deferred_delete_cb :: "schedulable option"
  m_deferred_destroy_cb :: "schedulable option"
  m_post_cb :: "schedulable option"
  m_post_callbacks :: "nat list"
  m_to_delete :: "side \<Rightarrow> nat list"
  m_current_to_delete :: side
  m_to_destroy :: "side \<Rightarrow> nat list"
  m_current_to_destroy :: side
  m_free_nodes :: "nat list"
  m_deferred_deleting :: bool
  m_deferred_destroying :: bool
  m_shutdown_called :: bool
  nodes :: "pointer_node list"
  trace :: "disp_event list"
  given_delete :: "nat list"
  given_destroy :: "(nat option \<times> nat) list"
  given_post :: "nat list"

definition rp_dispatcher_impl_new :: dispatcher where
  "rp_dispatcher_impl_new =
     \<lparr> m_deferred_delete_cb = Some rp_schedulable_callback_impl_new,
       m_deferred_destroy_cb = Some rp_schedulable_callback_impl_new, m_post_cb = Some rp_schedulable_callback_impl_new,
       m_post_callbacks = [], m_to_delete = (\<lambda>_. []), m_current_to_delete = Side1, m_to_destroy = (\<lambda>_. []),
       m_current_to_destroy = Side1, m_free_nodes = [], m_deferred_deleting = False, m_deferred_destroying = False,
       m_shutdown_called = False, nodes = [], trace = [], given_delete = [], given_destroy = [], given_post = [] \<rparr>"

text \<open>Scheduling a callback that is gone does nothing.\<close>

definition rp_schedulable_callback_schedule_callback_current_iteration :: "schedulable option \<Rightarrow> schedulable option" where
  "rp_schedulable_callback_schedule_callback_current_iteration cb = map_option schedule_callback_current_iteration_i cb"

section \<open>Handing over\<close>

definition current_to_delete :: "dispatcher \<Rightarrow> nat list" where
  "current_to_delete d = m_to_delete d (m_current_to_delete d)"

definition current_to_destroy :: "dispatcher \<Rightarrow> nat list" where
  "current_to_destroy d = m_to_destroy d (m_current_to_destroy d)"

definition enqueue_deferred_unref :: "nat \<Rightarrow> dispatcher \<Rightarrow> dispatcher" where
  "enqueue_deferred_unref obj d =
     (let current = current_to_delete d @ [obj];
          d1 = d\<lparr> m_to_delete := (m_to_delete d)(m_current_to_delete d := current), given_delete := given_delete d @ [obj] \<rparr>
      in if length current = 1
         then d1\<lparr> m_deferred_delete_cb := rp_schedulable_callback_schedule_callback_current_iteration (m_deferred_delete_cb d1) \<rparr>
         else d1)"

text \<open>What is not an object is ignored.\<close>

definition deferred_delete_i :: "nat option \<Rightarrow> dispatcher \<Rightarrow> dispatcher" where
  "deferred_delete_i to_delete d = (case to_delete of None \<Rightarrow> d | Some obj \<Rightarrow> enqueue_deferred_unref obj d)"

text \<open>\<open>g_ptr_array_remove_index_fast\<close> at \<open>0\<close> moves the last element to the front.\<close>

definition remove_first_fast :: "nat list \<Rightarrow> nat list" where
  "remove_first_fast xs = (if length xs \<le> 1 then [] else last xs # butlast (tl xs))"

definition ensure_pointer_node :: "dispatcher \<Rightarrow> nat \<times> dispatcher" where
  "ensure_pointer_node d =
     (case m_free_nodes d of
        node # _ \<Rightarrow> (node, d\<lparr> m_free_nodes := remove_first_fast (m_free_nodes d) \<rparr>)
      | [] \<Rightarrow> (length (nodes d), d\<lparr> nodes := nodes d @ [\<lparr> mem = None, destroy_cb = None \<rparr>] \<rparr>))"

definition deferred_destroy_i :: "nat option \<Rightarrow> nat option \<Rightarrow> dispatcher \<Rightarrow> dispatcher" where
  "deferred_destroy_i m cb d =
     (case (cb, m) of
        (Some f, Some p) \<Rightarrow>
          (let (node, d1) = ensure_pointer_node d;
               current = current_to_destroy d1 @ [node];
               d2 = d1\<lparr> nodes := (nodes d1)[node := \<lparr> mem = Some p, destroy_cb = Some f \<rparr>],
                        m_to_destroy := (m_to_destroy d1)(m_current_to_destroy d1 := current),
                        given_destroy := given_destroy d1 @ [(Some p, f)] \<rparr>
           in if length current = 1
              then d2\<lparr> m_deferred_destroy_cb := rp_schedulable_callback_schedule_callback_current_iteration (m_deferred_destroy_cb d2) \<rparr>
              else d2)
      | _ \<Rightarrow> d)"

definition post_i :: "nat \<Rightarrow> dispatcher \<Rightarrow> dispatcher" where
  "post_i cb d =
     (let do_post = (m_post_callbacks d = []);
          d1 = d\<lparr> m_post_callbacks := m_post_callbacks d @ [cb], given_post := given_post d @ [cb] \<rparr>
      in if do_post
         then d1\<lparr> m_post_cb := rp_schedulable_callback_schedule_callback_current_iteration (m_post_cb d1) \<rparr> else d1)"

section \<open>Working off the lists\<close>

datatype disp_call = DeferredDelete "nat option" | DeferredDestroy "nat option" "nat option" | Post nat | ClearDeferredDelete

type_synonym reacts = "disp_event list \<Rightarrow> disp_call list"

definition happens :: "disp_event \<Rightarrow> dispatcher \<Rightarrow> dispatcher" where
  "happens e d = d\<lparr> trace := trace d @ [e] \<rparr>"

text \<open>The loop over the entries from \<open>i\<close> on; reading past the end of the array is an error. The calls that
  releasing an object makes are run by \<open>run\<close>.\<close>

fun delete_loop :: "(disp_call list \<Rightarrow> dispatcher \<Rightarrow> dispatcher option) \<Rightarrow> reacts \<Rightarrow> side \<Rightarrow> nat \<Rightarrow> nat \<Rightarrow> dispatcher \<Rightarrow> dispatcher option" where
  "delete_loop run env to_delete i 0 d = Some d"
| "delete_loop run env to_delete i (Suc n) d =
     (if i < length (m_to_delete d to_delete) then
        (let d1 = happens (Released (m_to_delete d to_delete ! i)) d
         in do { d2 \<leftarrow> run (env (trace d1)) d1; delete_loop run env to_delete (Suc i) n d2 })
      else None)"

definition clear_delete_list :: "(disp_call list \<Rightarrow> dispatcher \<Rightarrow> dispatcher option) \<Rightarrow> reacts \<Rightarrow> dispatcher \<Rightarrow> dispatcher option" where
  "clear_delete_list run env d =
     (let to_delete = m_current_to_delete d; num_to_delete = length (current_to_delete d) in
      if m_deferred_deleting d \<or> num_to_delete = 0 then Some d
      else
        do { d1 \<leftarrow> delete_loop run env to_delete 0 num_to_delete
                     (d\<lparr> m_current_to_delete := other to_delete, m_deferred_deleting := True \<rparr>);
             Some (d1\<lparr> m_to_delete := (m_to_delete d1)(to_delete := []), m_deferred_deleting := False \<rparr>) })"

text \<open>A call of the dispatcher. Clearing inside clearing returns at once, so that the nesting is bounded; the
  first argument bounds it in the definition, and \<open>1\<close> is enough (\<open>perform_ok\<close> below).\<close>

fun perform :: "nat \<Rightarrow> reacts \<Rightarrow> disp_call \<Rightarrow> dispatcher \<Rightarrow> dispatcher option" where
  "perform n env (DeferredDelete obj) d = Some (deferred_delete_i obj d)"
| "perform n env (DeferredDestroy m cb) d = Some (deferred_destroy_i m cb d)"
| "perform n env (Post cb) d = Some (post_i cb d)"
| "perform 0 env ClearDeferredDelete d = clear_delete_list (\<lambda>_ _. None) env d"
| "perform (Suc n) env ClearDeferredDelete d = clear_delete_list (run_calls (perform n env)) env d"

definition internal_clear_deferred_delete_list :: "reacts \<Rightarrow> dispatcher \<Rightarrow> dispatcher option" where
  "internal_clear_deferred_delete_list env d = perform 1 env ClearDeferredDelete d"

text \<open>A node gives up its memory before the call and is free after it.\<close>

fun destroy_loop :: "reacts \<Rightarrow> side \<Rightarrow> nat \<Rightarrow> nat \<Rightarrow> dispatcher \<Rightarrow> dispatcher option" where
  "destroy_loop env to_destroy i 0 d = Some d"
| "destroy_loop env to_destroy i (Suc n) d =
     (if i < length (m_to_destroy d to_destroy) \<and> m_to_destroy d to_destroy ! i < length (nodes d) then
        (let node = m_to_destroy d to_destroy ! i in
         case destroy_cb (nodes d ! node) of
           Some f \<Rightarrow>
             (let d1 = happens (Destroyed (mem (nodes d ! node)) f) (d\<lparr> nodes := (nodes d)[node := (nodes d ! node)\<lparr> mem := None \<rparr>] \<rparr>)
              in do { d2 \<leftarrow> run_calls (perform 1 env) (env (trace d1)) d1;
                      destroy_loop env to_destroy (Suc i) n
                        (d2\<lparr> nodes := (nodes d2)[node := (nodes d2 ! node)\<lparr> destroy_cb := None \<rparr>],
                             m_free_nodes := m_free_nodes d2 @ [node] \<rparr>) })
         | None \<Rightarrow> None)
      else None)"

definition internal_clear_deferred_destroy_list :: "reacts \<Rightarrow> dispatcher \<Rightarrow> dispatcher option" where
  "internal_clear_deferred_destroy_list env d =
     (let to_destroy = m_current_to_destroy d; num_to_destroy = length (current_to_destroy d) in
      if m_deferred_destroying d \<or> num_to_destroy = 0 then Some d
      else
        do { d1 \<leftarrow> destroy_loop env to_destroy 0 num_to_destroy
                     (d\<lparr> m_current_to_destroy := other to_destroy, m_deferred_destroying := True \<rparr>);
             Some (d1\<lparr> m_to_destroy := (m_to_destroy d1)(to_destroy := []), m_deferred_destroying := False \<rparr>) })"

fun post_loop :: "reacts \<Rightarrow> nat list \<Rightarrow> dispatcher \<Rightarrow> dispatcher option" where
  "post_loop env [] d = Some d"
| "post_loop env (cb # callbacks) d =
     (let d1 = happens (Ran cb) d in do { d2 \<leftarrow> run_calls (perform 1 env) (env (trace d1)) d1; post_loop env callbacks d2 })"

definition run_post_callbacks :: "reacts \<Rightarrow> dispatcher \<Rightarrow> dispatcher option" where
  "run_post_callbacks env d =
     do { d1 \<leftarrow> internal_clear_deferred_delete_list env d;
          d2 \<leftarrow> internal_clear_deferred_destroy_list env d1;
          post_loop env (m_post_callbacks d2) (d2\<lparr> m_post_callbacks := [] \<rparr>) }"

definition clear_libevent_related_objects :: "dispatcher \<Rightarrow> dispatcher" where
  "clear_libevent_related_objects d = d\<lparr> m_deferred_delete_cb := None, m_deferred_destroy_cb := None, m_post_cb := None \<rparr>"

definition shutdown_i :: "dispatcher \<Rightarrow> dispatcher option" where
  "shutdown_i d =
     (let d1 = clear_libevent_related_objects d in if m_shutdown_called d1 then None else Some (d1\<lparr> m_shutdown_called := True \<rparr>))"

section \<open>The event loop\<close>

datatype disp_cb = DeleteCb | DestroyCb | PostCb

fun get_cb :: "disp_cb \<Rightarrow> dispatcher \<Rightarrow> schedulable option" where
  "get_cb DeleteCb d = m_deferred_delete_cb d"
| "get_cb DestroyCb d = m_deferred_destroy_cb d"
| "get_cb PostCb d = m_post_cb d"

fun set_cb :: "disp_cb \<Rightarrow> schedulable \<Rightarrow> dispatcher \<Rightarrow> dispatcher" where
  "set_cb DeleteCb s d = d\<lparr> m_deferred_delete_cb := Some s \<rparr>"
| "set_cb DestroyCb s d = d\<lparr> m_deferred_destroy_cb := Some s \<rparr>"
| "set_cb PostCb s d = d\<lparr> m_post_cb := Some s \<rparr>"

fun run_cb :: "reacts \<Rightarrow> disp_cb \<Rightarrow> dispatcher \<Rightarrow> dispatcher option" where
  "run_cb env DeleteCb d = internal_clear_deferred_delete_list env d"
| "run_cb env DestroyCb d = internal_clear_deferred_destroy_list env d"
| "run_cb env PostCb d = run_post_callbacks env d"

text \<open>What happens on the thread of the dispatcher: a call by other code, the loop finding a callback that was
  scheduled, running it, the start of the loop, and its end.\<close>

datatype disp_step = Call disp_call | Wake disp_cb | Fire disp_cb | RunLoop | Shutdown

fun disp_exec :: "reacts \<Rightarrow> disp_step \<Rightarrow> dispatcher \<Rightarrow> dispatcher option" where
  "disp_exec env (Call c) d = perform 1 env c d"
| "disp_exec env (Wake k) d = Some (case get_cb k d of None \<Rightarrow> d | Some s \<Rightarrow> set_cb k (wakeup_cb s) d)"
| "disp_exec env (Fire k) d =
     (case Option.bind (get_cb k d) timer_cb of None \<Rightarrow> Some d | Some s \<Rightarrow> run_cb env k (set_cb k s d))"
| "disp_exec env RunLoop d = run_post_callbacks env d"
| "disp_exec env Shutdown d = shutdown_i d"

end
