(* ===== verification/Dispatcher_Props.thy ===== *)
theory Dispatcher_Props
  imports Dispatcher "HOL-Library.Multiset"
begin

text \<open>
  What a dispatcher promises: whatever the code that it runs does in turn, everything that was handed over is
  released, destroyed or run exactly once and in the order in which it was handed over, and what still waits
  has its turn coming.
\<close>

section \<open>The state\<close>

definition released :: "disp_event list \<Rightarrow> nat list" where
  "released tr = concat (map (\<lambda>e. case e of Released obj \<Rightarrow> [obj] | _ \<Rightarrow> []) tr)"

definition destroyed :: "disp_event list \<Rightarrow> (nat option \<times> nat) list" where
  "destroyed tr = concat (map (\<lambda>e. case e of Destroyed p f \<Rightarrow> [(p, f)] | _ \<Rightarrow> []) tr)"

definition ran_posts :: "disp_event list \<Rightarrow> nat list" where
  "ran_posts tr = concat (map (\<lambda>e. case e of Ran cb \<Rightarrow> [cb] | _ \<Rightarrow> []) tr)"

lemma trace_simps [simp]:
  "released [] = []" "destroyed [] = []" "ran_posts [] = []"
  "released (tr @ [e]) = released tr @ (case e of Released obj \<Rightarrow> [obj] | _ \<Rightarrow> [])"
  "destroyed (tr @ [e]) = destroyed tr @ (case e of Destroyed p f \<Rightarrow> [(p, f)] | _ \<Rightarrow> [])"
  "ran_posts (tr @ [e]) = ran_posts tr @ (case e of Ran cb \<Rightarrow> [cb] | _ \<Rightarrow> [])"
  by (simp_all add: released_def destroyed_def ran_posts_def)

definition content :: "dispatcher \<Rightarrow> nat \<Rightarrow> nat option \<times> nat option" where
  "content d n = (mem (nodes d ! n), destroy_cb (nodes d ! n))"

definition cb_ok :: "schedulable option \<Rightarrow> bool" where
  "cb_ok cb = (case cb of None \<Rightarrow> True | Some s \<Rightarrow> schedulable_ok s)"

definition cb_runs :: "schedulable option \<Rightarrow> bool" where
  "cb_runs cb = (case cb of None \<Rightarrow> True | Some s \<Rightarrow> will_run s)"

lemma schedule_cb_None [simp]: "rp_schedulable_callback_schedule_callback_current_iteration cb = None \<longleftrightarrow> cb = None"
  by (simp add: rp_schedulable_callback_schedule_callback_current_iteration_def)

lemma schedule_cb [simp]:
  assumes "cb_ok cb"
  shows "cb_ok (rp_schedulable_callback_schedule_callback_current_iteration cb)"
    "cb_runs (rp_schedulable_callback_schedule_callback_current_iteration cb)"
  using assms schedule_current_ok
  by (auto simp: cb_ok_def cb_runs_def rp_schedulable_callback_schedule_callback_current_iteration_def split: option.splits)

text \<open>Of what was handed over, \<open>ds\<close> waits to be released, the nodes \<open>ns\<close> hold what waits to be destroyed and
  \<open>ps\<close> waits to be run, all of it already taken off the current lists; the nodes \<open>hs\<close> are in the hands of the
  dispatcher. Every node is in one place.\<close>

definition disp_inv :: "nat list \<Rightarrow> nat list \<Rightarrow> nat list \<Rightarrow> nat list \<Rightarrow> dispatcher \<Rightarrow> bool" where
  "disp_inv ds hs ns ps d =
     (given_delete d = released (trace d) @ ds @ current_to_delete d \<and>
      given_post d = ran_posts (trace d) @ ps @ m_post_callbacks d \<and>
      map (map_prod id Some) (given_destroy d) = map (map_prod id Some) (destroyed (trace d)) @ map (content d) (ns @ current_to_destroy d) \<and>
      mset (hs @ ns @ current_to_destroy d @ m_free_nodes d) = mset [0..<length (nodes d)] \<and>
      (\<not> m_deferred_deleting d \<longrightarrow> m_to_delete d (other (m_current_to_delete d)) = []) \<and>
      (\<not> m_deferred_destroying d \<longrightarrow> m_to_destroy d (other (m_current_to_destroy d)) = []) \<and>
      cb_ok (m_deferred_delete_cb d) \<and> cb_ok (m_deferred_destroy_cb d) \<and> cb_ok (m_post_cb d))"

text \<open>What waits on a current list has its turn coming.\<close>

definition due_delete :: "dispatcher \<Rightarrow> bool" where
  "due_delete d = (current_to_delete d \<noteq> [] \<longrightarrow> cb_runs (m_deferred_delete_cb d))"

definition due_destroy :: "dispatcher \<Rightarrow> bool" where
  "due_destroy d = (current_to_destroy d \<noteq> [] \<longrightarrow> cb_runs (m_deferred_destroy_cb d))"

definition due_post :: "dispatcher \<Rightarrow> bool" where
  "due_post d = (m_post_callbacks d \<noteq> [] \<longrightarrow> cb_runs (m_post_cb d))"

lemmas due_defs = due_delete_def due_destroy_def due_post_def

text \<open>Something more was handed over and waits.\<close>

definition grows :: "'a list \<Rightarrow> nat \<Rightarrow> 'a list \<Rightarrow> nat \<Rightarrow> bool" where
  "grows g n g' n' = (\<exists>xs. g' = g @ xs \<and> n' = n + length xs)"

lemma grows_simps [simp]: "grows g n g n" "grows g n (g @ [x]) (Suc n)"
  by (auto simp: grows_def)

lemma grows_trans: "grows g n g' n' \<Longrightarrow> grows g' n' g'' n'' \<Longrightarrow> grows g n g'' n''"
  by (auto simp: grows_def)

lemma grows_done: "grows g 0 (xs @ waiting) (length waiting) \<Longrightarrow> xs = g"
  by (auto simp: grows_def)

text \<open>What a call keeps: the lists that are being worked on and the turns that are coming.\<close>

definition keeps :: "dispatcher \<Rightarrow> dispatcher \<Rightarrow> bool" where
  "keeps d d' =
     ((due_delete d \<longrightarrow> due_delete d') \<and> (due_destroy d \<longrightarrow> due_destroy d') \<and> (due_post d \<longrightarrow> due_post d') \<and>
      m_deferred_deleting d' = m_deferred_deleting d \<and> m_deferred_destroying d' = m_deferred_destroying d \<and>
      m_shutdown_called d' = m_shutdown_called d \<and> (m_deferred_delete_cb d' = None) = (m_deferred_delete_cb d = None) \<and>
      (m_deferred_destroy_cb d' = None) = (m_deferred_destroy_cb d = None) \<and> (m_post_cb d' = None) = (m_post_cb d = None) \<and>
      grows (given_post d) (length (m_post_callbacks d)) (given_post d') (length (m_post_callbacks d')) \<and>
      grows (given_destroy d) (length (current_to_destroy d)) (given_destroy d') (length (current_to_destroy d')) \<and>
      (m_deferred_deleting d \<longrightarrow>
         grows (given_delete d) (length (current_to_delete d)) (given_delete d') (length (current_to_delete d'))) \<and>
      (m_deferred_deleting d \<longrightarrow> m_current_to_delete d' = m_current_to_delete d \<and>
         m_to_delete d' (other (m_current_to_delete d)) = m_to_delete d (other (m_current_to_delete d))) \<and>
      m_current_to_destroy d' = m_current_to_destroy d \<and>
      m_to_destroy d' (other (m_current_to_destroy d)) = m_to_destroy d (other (m_current_to_destroy d)))"

lemma keeps_refl [simp]: "keeps d d"
  by (simp add: keeps_def)

lemma keeps_trans:
  assumes "keeps d1 d2" "keeps d2 d3"
  shows "keeps d1 d3"
proof -
  have "grows (given_post d1) (length (m_post_callbacks d1)) (given_post d3) (length (m_post_callbacks d3))"
    by (rule grows_trans [of _ _ "given_post d2" "length (m_post_callbacks d2)"]) (use assms in \<open>simp_all add: keeps_def\<close>)
  moreover have "grows (given_destroy d1) (length (current_to_destroy d1)) (given_destroy d3) (length (current_to_destroy d3))"
    by (rule grows_trans [of _ _ "given_destroy d2" "length (current_to_destroy d2)"]) (use assms in \<open>simp_all add: keeps_def\<close>)
  moreover have "grows (given_delete d1) (length (current_to_delete d1)) (given_delete d3) (length (current_to_delete d3))"
    if "m_deferred_deleting d1"
    by (rule grows_trans [of _ _ "given_delete d2" "length (current_to_delete d2)"]) (use assms that in \<open>simp_all add: keeps_def\<close>)
  ultimately show ?thesis using assms by (simp add: keeps_def)
qed

lemma other_simps [simp]: "other s \<noteq> s" "s \<noteq> other s" "other (other s) = s"
  by (cases s; simp)+

section \<open>Handing over\<close>

lemma happens_keeps [simp]: "keeps d (happens e d)"
  by (simp add: keeps_def happens_def due_defs current_to_delete_def current_to_destroy_def)

lemma disp_inv_cbs:
  "disp_inv ds hs ns ps d \<Longrightarrow> cb_ok (m_deferred_delete_cb d) \<and> cb_ok (m_deferred_destroy_cb d) \<and> cb_ok (m_post_cb d)"
  by (simp add: disp_inv_def)

lemma disp_inv_given:
  assumes "disp_inv ds hs ns ps d"
  shows "given_delete d = released (trace d) @ ds @ current_to_delete d"
    "given_post d = ran_posts (trace d) @ ps @ m_post_callbacks d"
    "map (map_prod id Some) (given_destroy d) = map (map_prod id Some) (destroyed (trace d)) @ map (content d) (ns @ current_to_destroy d)"
  using assms by (simp_all only: disp_inv_def)

lemma keeps_grows:
  assumes "keeps d d'"
  shows "grows (given_post d) (length (m_post_callbacks d)) (given_post d') (length (m_post_callbacks d'))"
    "grows (given_destroy d) (length (current_to_destroy d)) (given_destroy d') (length (current_to_destroy d'))"
  using assms by (simp_all only: keeps_def)

lemma deferred_delete_ok:
  assumes "disp_inv ds hs ns ps d"
  shows "disp_inv ds hs ns ps (deferred_delete_i obj d)" "keeps d (deferred_delete_i obj d)"
proof -
  show "disp_inv ds hs ns ps (deferred_delete_i obj d)"
    using assms
    by (simp add: deferred_delete_i_def enqueue_deferred_unref_def disp_inv_def Let_def current_to_delete_def
        current_to_destroy_def content_def fun_eq_iff split: option.split)
  show "keeps d (deferred_delete_i obj d)"
    using disp_inv_cbs [OF assms]
    by (simp add: deferred_delete_i_def enqueue_deferred_unref_def keeps_def Let_def current_to_delete_def
        current_to_destroy_def due_defs split: option.split)
qed

lemma post_ok:
  assumes "disp_inv ds hs ns ps d"
  shows "disp_inv ds hs ns ps (post_i cb d)" "keeps d (post_i cb d)"
proof -
  show "disp_inv ds hs ns ps (post_i cb d)"
    using assms by (simp add: post_i_def disp_inv_def Let_def current_to_delete_def current_to_destroy_def content_def fun_eq_iff)
  show "keeps d (post_i cb d)"
    using disp_inv_cbs [OF assms]
    by (simp add: post_i_def keeps_def Let_def current_to_delete_def current_to_destroy_def due_defs)
qed

lemma mset_remove_first_fast: "mset (remove_first_fast (x # xs)) = mset xs"
  by (cases xs rule: rev_cases) (auto simp: remove_first_fast_def)

lemma disp_inv_nodes:
  assumes "disp_inv ds hs ns ps d"
  shows "mset (hs @ ns @ current_to_destroy d @ m_free_nodes d) = mset [0..<length (nodes d)]"
    "distinct (hs @ ns @ current_to_destroy d @ m_free_nodes d)"
proof -
  show m: "mset (hs @ ns @ current_to_destroy d @ m_free_nodes d) = mset [0..<length (nodes d)]"
    using assms by (simp only: disp_inv_def)
  show "distinct (hs @ ns @ current_to_destroy d @ m_free_nodes d)"
    using mset_eq_imp_distinct_iff [OF m] by simp
qed

lemma content_other:
  assumes "node \<notin> set xs" "nodes d' = (nodes d)[node := v]"
  shows "map (content d') xs = map (content d) xs"
proof (rule map_cong)
  fix n assume "n \<in> set xs"
  then have "node \<noteq> n" using assms(1) by auto
  then show "content d' n = content d n" by (simp add: content_def assms(2))
qed simp

lemma ensure_pointer_node_ok:
  assumes inv: "disp_inv ds hs ns ps d" and e: "ensure_pointer_node d = (node, d1)"
  shows "disp_inv ds (node # hs) ns ps d1" "keeps d d1" "node < length (nodes d1)"
proof -
  have m: "mset (hs @ ns @ current_to_destroy d @ m_free_nodes d) = mset [0..<length (nodes d)]"
    and l: "\<And>n. n \<in> set (ns @ current_to_destroy d) \<Longrightarrow> n < length (nodes d)"
    using mset_eq_setD [OF disp_inv_nodes(1) [OF inv]] by (simp_all only: disp_inv_nodes(1) [OF inv]) auto
  show k: "keeps d d1"
    using e by (auto simp: ensure_pointer_node_def keeps_def due_defs current_to_delete_def current_to_destroy_def split: list.splits)
  have c: "map (content d1) (ns @ current_to_destroy d1) = map (content d) (ns @ current_to_destroy d)"
    using e l by (auto simp: ensure_pointer_node_def content_def nth_append current_to_destroy_def split: list.splits)
  have m1: "mset (node # hs @ ns @ current_to_destroy d1 @ m_free_nodes d1) = mset [0..<length (nodes d1)]"
    using e m by (auto simp: ensure_pointer_node_def current_to_destroy_def mset_remove_first_fast simp del: mset_upt split: list.splits)
  then show "node < length (nodes d1)" using mset_eq_setD by fastforce
  show "disp_inv ds (node # hs) ns ps d1"
    using inv e c m1
    by (auto simp: disp_inv_def ensure_pointer_node_def current_to_delete_def current_to_destroy_def split: list.splits)
qed

lemma deferred_destroy_ok:
  assumes inv: "disp_inv ds hs ns ps d"
  shows "disp_inv ds hs ns ps (deferred_destroy_i m cb d) \<and> keeps d (deferred_destroy_i m cb d)"
proof (cases "(cb, m)")
  case (Pair a b)
  obtain node d1 where e: "ensure_pointer_node d = (node, d1)" by fastforce
  note d1 = ensure_pointer_node_ok [OF inv e]
  have fresh: "node \<notin> set (ns @ current_to_destroy d1)" using disp_inv_nodes(2) [OF d1(1)] by auto
  show ?thesis
  proof (cases a; cases b)
    fix f p assume ab: "a = Some f" "b = Some p"
    let ?d2 = "d1\<lparr> nodes := (nodes d1)[node := \<lparr> mem = Some p, destroy_cb = Some f \<rparr>],
      m_to_destroy := (m_to_destroy d1)(m_current_to_destroy d1 := current_to_destroy d1 @ [node]),
      given_destroy := given_destroy d1 @ [(Some p, f)] \<rparr>"
    let ?d3 = "?d2\<lparr> m_deferred_destroy_cb := rp_schedulable_callback_schedule_callback_current_iteration (m_deferred_destroy_cb d1) \<rparr>"
    have c: "map (content ?d2) (ns @ current_to_destroy d1) = map (content d1) (ns @ current_to_destroy d1)"
      using fresh by (rule content_other) simp
    have n: "content ?d2 node = (Some p, Some f)" using d1(3) by (simp add: content_def)
    have i2: "disp_inv ds hs ns ps ?d2"
      using d1(1) c n by (auto simp: disp_inv_def current_to_delete_def current_to_destroy_def)
    then have i3: "disp_inv ds hs ns ps ?d3"
      by (simp add: disp_inv_def current_to_delete_def current_to_destroy_def content_def [abs_def])
    have "keeps d1 ?d2" if "current_to_destroy d1 \<noteq> []"
      using that by (simp add: keeps_def due_defs current_to_delete_def current_to_destroy_def)
    moreover have "keeps d1 ?d3" using i2
      by (simp add: keeps_def due_defs current_to_delete_def current_to_destroy_def disp_inv_def)
    ultimately show ?thesis
      using Pair ab e i2 i3 keeps_trans [OF d1(2)] by (auto simp: deferred_destroy_i_def Let_def)
  qed (use Pair inv in \<open>simp_all add: deferred_destroy_i_def\<close>)
qed

section \<open>Working off the lists\<close>

lemma happens_inv:
  "disp_inv (obj # ds) hs ns ps d \<Longrightarrow> disp_inv ds hs ns ps (happens (Released obj) d)"
  "disp_inv ds hs ns (cb # ps) d \<Longrightarrow> disp_inv ds hs ns ps (happens (Ran cb) d)"
  by (simp_all add: disp_inv_def happens_def current_to_delete_def current_to_destroy_def content_def [abs_def])

definition safe_run :: "(disp_call list \<Rightarrow> dispatcher \<Rightarrow> dispatcher option) \<Rightarrow> bool" where
  "safe_run run = (\<forall>cs ds hs ns ps d. m_deferred_deleting d \<longrightarrow> disp_inv ds hs ns ps d \<longrightarrow>
     (\<exists>d'. run cs d = Some d' \<and> disp_inv ds hs ns ps d' \<and> keeps d d'))"

lemma delete_loop_ok:
  assumes run: "safe_run run"
  shows "m_deferred_deleting d \<Longrightarrow> disp_inv (drop i (m_to_delete d w)) hs ns ps d \<Longrightarrow> w = other (m_current_to_delete d) \<Longrightarrow>
    i + n = length (m_to_delete d w) \<Longrightarrow>
    \<exists>d'. delete_loop run env w i n d = Some d' \<and> disp_inv [] hs ns ps d' \<and> keeps d d'"
proof (induction n arbitrary: i d)
  case (Suc n)
  let ?d1 = "happens (Released (m_to_delete d w ! i)) d"
  have i: "i < length (m_to_delete d w)" using Suc.prems by simp
  then have "disp_inv (drop (Suc i) (m_to_delete d w)) hs ns ps ?d1"
    using Suc.prems(2) happens_inv(1) by (simp add: Cons_nth_drop_Suc [symmetric])
  moreover have "m_deferred_deleting ?d1" using Suc.prems by (simp add: happens_def)
  ultimately obtain d2 where d2: "run (env (trace ?d1)) ?d1 = Some d2" "disp_inv (drop (Suc i) (m_to_delete d w)) hs ns ps d2" "keeps ?d1 d2"
    using run by (fastforce simp: safe_run_def)
  have k: "keeps d d2" using keeps_trans [OF happens_keeps d2(3)] .
  then have same: "m_to_delete d2 w = m_to_delete d w" "m_deferred_deleting d2" "m_current_to_delete d2 = m_current_to_delete d"
    using Suc.prems by (auto simp: keeps_def)
  have "\<exists>d'. delete_loop run env w (Suc i) n d2 = Some d' \<and> disp_inv [] hs ns ps d' \<and> keeps d2 d'"
    using Suc.prems same d2(2) by (intro Suc.IH) simp_all
  then show ?case using i d2(1) k keeps_trans by (auto simp: Let_def)
qed simp

text \<open>Clearing releases what was there, and afterwards what waits has its turn coming.\<close>

lemma clear_delete_ok:
  assumes run: "safe_run run" and inv: "disp_inv [] hs ns ps d" and off: "\<not> m_deferred_deleting d"
  shows "\<exists>d'. clear_delete_list run env d = Some d' \<and> disp_inv [] hs ns ps d' \<and> keeps d d' \<and> due_delete d' \<and>
    released (trace d') = given_delete d"
proof (cases "current_to_delete d = []")
  case True
  then show ?thesis using inv by (simp add: clear_delete_list_def Let_def due_defs) (simp add: disp_inv_def)
next
  case False
  let ?w = "m_current_to_delete d"
  let ?d1 = "d\<lparr> m_current_to_delete := other ?w, m_deferred_deleting := True \<rparr>"
  have empty: "m_to_delete d (other ?w) = []" using inv off by (simp add: disp_inv_def)
  have "disp_inv (m_to_delete ?d1 ?w) hs ns ps ?d1"
    using inv empty by (simp add: disp_inv_def current_to_delete_def current_to_destroy_def content_def [abs_def])
  then obtain d2 where d2: "delete_loop run env ?w 0 (length (current_to_delete d)) ?d1 = Some d2" "disp_inv [] hs ns ps d2" "keeps ?d1 d2"
    using delete_loop_ok [OF run, of ?d1 0 ?w hs ns ps "length (current_to_delete d)" env] by (auto simp: current_to_delete_def)
  let ?d3 = "d2\<lparr> m_to_delete := (m_to_delete d2)(?w := []), m_deferred_deleting := False \<rparr>"
  have "due_delete ?d1" using empty by (simp add: due_defs current_to_delete_def)
  then have same: "m_current_to_delete d2 = other ?w" "due_delete d2" using d2(3) by (simp_all add: keeps_def)
  then have "disp_inv [] hs ns ps ?d3" "due_delete ?d3"
    using d2(2) by (simp_all add: disp_inv_def due_defs current_to_delete_def current_to_destroy_def content_def [abs_def])
  moreover have "keeps d ?d3"
    using d2(3) \<open>due_delete ?d3\<close> off by (clarsimp simp: keeps_def due_defs current_to_delete_def current_to_destroy_def)
  moreover have "grows (given_delete d) 0 (given_delete d2) (length (current_to_delete d2))"
    using d2(3) empty by (clarsimp simp: keeps_def current_to_delete_def)
  then have "released (trace ?d3) = given_delete d" using d2(2) grows_done by (fastforce simp: disp_inv_def)
  ultimately show ?thesis using d2(1) off False by (simp add: clear_delete_list_def Let_def)
qed

lemma clear_delete_busy: "m_deferred_deleting d \<Longrightarrow> clear_delete_list run env d = Some d"
  by (simp add: clear_delete_list_def)

lemma perform_busy:
  assumes "disp_inv ds hs ns ps d" "m_deferred_deleting d"
  shows "\<exists>d'. perform n env c d = Some d' \<and> disp_inv ds hs ns ps d' \<and> keeps d d'"
  using assms deferred_delete_ok [OF assms(1)] deferred_destroy_ok [OF assms(1)] post_ok [OF assms(1)]
  by (cases c; cases n) (simp_all add: clear_delete_busy)

lemma safe_run_perform: "safe_run (run_calls (perform n env))"
proof -
  have "\<exists>d'. run_calls (perform n env) cs d = Some d' \<and> disp_inv ds hs ns ps d' \<and> keeps d d'"
    if "m_deferred_deleting d" "disp_inv ds hs ns ps d" for cs ds hs ns ps d
    using that
  proof (induction cs arbitrary: d)
    case (Cons c cs)
    obtain d1 where d1: "perform n env c d = Some d1" "disp_inv ds hs ns ps d1" "keeps d d1"
      using perform_busy [OF Cons.prems(2,1)] by blast
    moreover have "m_deferred_deleting d1" using d1(3) Cons.prems(1) by (simp add: keeps_def)
    ultimately show ?case using Cons.IH [of d1] keeps_trans by fastforce
  qed simp
  then show ?thesis by (simp add: safe_run_def)
qed

text \<open>One level of nesting is enough for every call.\<close>

lemma perform_ok:
  assumes "disp_inv [] hs ns ps d" "\<not> m_deferred_deleting d"
  shows "\<exists>d'. perform 1 env c d = Some d' \<and> disp_inv [] hs ns ps d' \<and> keeps d d'"
  using assms deferred_delete_ok [OF assms(1)] deferred_destroy_ok [OF assms(1)] post_ok [OF assms(1)]
    clear_delete_ok [OF safe_run_perform [of 0 env] assms, of env]
  by (cases c) auto

lemma performs_ok:
  assumes "disp_inv [] hs ns ps d" "\<not> m_deferred_deleting d"
  shows "\<exists>d'. run_calls (perform 1 env) cs d = Some d' \<and> disp_inv [] hs ns ps d' \<and> keeps d d'"
  using assms
proof (induction cs arbitrary: d)
  case (Cons c cs)
  obtain d1 where d1: "perform 1 env c d = Some d1" "disp_inv [] hs ns ps d1" "keeps d d1"
    using perform_ok [OF Cons.prems] by blast
  moreover have "\<not> m_deferred_deleting d1" using d1(3) Cons.prems(2) by (simp add: keeps_def)
  ultimately show ?case using Cons.IH [of d1] keeps_trans by fastforce
qed simp

text \<open>Destroying what one node holds.\<close>

lemma destroy_node_ok:
  assumes inv: "disp_inv [] hs (n # ns) ps d" and off: "\<not> m_deferred_deleting d"
  shows "\<exists>f d1 d2 d3. n < length (nodes d) \<and> destroy_cb (nodes d ! n) = Some f \<and>
    d1 = happens (Destroyed (mem (nodes d ! n)) f) (d\<lparr> nodes := (nodes d)[n := (nodes d ! n)\<lparr> mem := None \<rparr>] \<rparr>) \<and>
    run_calls (perform 1 env) (env (trace d1)) d1 = Some d2 \<and>
    d3 = d2\<lparr> nodes := (nodes d2)[n := (nodes d2 ! n)\<lparr> destroy_cb := None \<rparr>], m_free_nodes := m_free_nodes d2 @ [n] \<rparr> \<and>
    disp_inv [] hs ns ps d3 \<and> keeps d d3"
proof -
  have n: "n < length (nodes d)" "n \<notin> set (ns @ current_to_destroy d)"
    using mset_eq_setD [OF disp_inv_nodes(1) [OF inv]] disp_inv_nodes(2) [OF inv] by auto
  have "content d n \<in> set (map (map_prod id Some) (given_destroy d))" using inv by (simp add: disp_inv_def)
  then obtain f where f: "destroy_cb (nodes d ! n) = Some f" by (auto simp: content_def)
  define d0 where "d0 = d\<lparr> nodes := (nodes d)[n := (nodes d ! n)\<lparr> mem := None \<rparr>] \<rparr>"
  define d1 where "d1 = happens (Destroyed (mem (nodes d ! n)) f) d0"
  have "map (content d1) (ns @ current_to_destroy d) = map (content d) (ns @ current_to_destroy d)"
    using n(2) by (rule content_other) (simp add: d1_def d0_def happens_def)
  then have "disp_inv [] (n # hs) ns ps d1"
    using inv f by (auto simp: disp_inv_def d1_def d0_def happens_def current_to_delete_def current_to_destroy_def content_def)
  moreover have "\<not> m_deferred_deleting d1" using off by (simp add: d1_def d0_def happens_def)
  ultimately obtain d2 where d2: "run_calls (perform 1 env) (env (trace d1)) d1 = Some d2" "disp_inv [] (n # hs) ns ps d2" "keeps d1 d2"
    using performs_ok by blast
  define d3 where "d3 = d2\<lparr> nodes := (nodes d2)[n := (nodes d2 ! n)\<lparr> destroy_cb := None \<rparr>], m_free_nodes := m_free_nodes d2 @ [n] \<rparr>"
  have "n \<notin> set (ns @ current_to_destroy d2)" using disp_inv_nodes(2) [OF d2(2)] by auto
  then have "map (content d3) (ns @ current_to_destroy d2) = map (content d2) (ns @ current_to_destroy d2)"
    by (rule content_other) (simp add: d3_def)
  then have "disp_inv [] hs ns ps d3"
    using d2(2) by (auto simp: disp_inv_def d3_def current_to_delete_def current_to_destroy_def)
  moreover have "keeps d d0" "keeps d2 d3"
    by (simp_all add: d0_def d3_def keeps_def due_defs current_to_delete_def current_to_destroy_def)
  then have "keeps d d3" using happens_keeps d2(3) keeps_trans unfolding d1_def by blast
  ultimately show ?thesis using n(1) f d1_def d0_def d2(1) d3_def by blast
qed

lemma destroy_loop_ok:
  "m_deferred_destroying d \<Longrightarrow> \<not> m_deferred_deleting d \<Longrightarrow> disp_inv [] hs (drop i (m_to_destroy d w)) ps d \<Longrightarrow>
    w = other (m_current_to_destroy d) \<Longrightarrow> i + n = length (m_to_destroy d w) \<Longrightarrow>
    \<exists>d'. destroy_loop env w i n d = Some d' \<and> disp_inv [] hs [] ps d' \<and> keeps d d'"
proof (induction n arbitrary: i d)
  case (Suc n)
  let ?n = "m_to_destroy d w ! i"
  have i: "i < length (m_to_destroy d w)" using Suc.prems by simp
  then have "disp_inv [] hs (?n # drop (Suc i) (m_to_destroy d w)) ps d" using Suc.prems(3) by (simp add: Cons_nth_drop_Suc)
  from destroy_node_ok [OF this Suc.prems(2), of env] obtain f d1 d2 d3 where
    n: "?n < length (nodes d)" "destroy_cb (nodes d ! ?n) = Some f" and
    d1: "d1 = happens (Destroyed (mem (nodes d ! ?n)) f) (d\<lparr> nodes := (nodes d)[?n := (nodes d ! ?n)\<lparr> mem := None \<rparr>] \<rparr>)" and
    d2: "run_calls (perform 1 env) (env (trace d1)) d1 = Some d2" and
    d3: "d3 = d2\<lparr> nodes := (nodes d2)[?n := (nodes d2 ! ?n)\<lparr> destroy_cb := None \<rparr>], m_free_nodes := m_free_nodes d2 @ [?n] \<rparr>" and
    inv: "disp_inv [] hs (drop (Suc i) (m_to_destroy d w)) ps d3" and k: "keeps d d3" by blast
  have same: "m_to_destroy d3 w = m_to_destroy d w" "m_deferred_destroying d3" "m_current_to_destroy d3 = m_current_to_destroy d"
    "\<not> m_deferred_deleting d3"
    using k Suc.prems by (auto simp: keeps_def)
  then have "\<exists>d'. destroy_loop env w (Suc i) n d3 = Some d' \<and> disp_inv [] hs [] ps d' \<and> keeps d3 d'"
    using Suc.prems inv by (intro Suc.IH) simp_all
  moreover have "destroy_loop env w i (Suc n) d = destroy_loop env w (Suc i) n d3"
    using i n d2 by (simp add: Let_def d1 d3)
  ultimately show ?case using k keeps_trans by metis
qed simp

lemma map_prod_Some_inj: "inj (map_prod (id :: nat option \<Rightarrow> _) (Some :: nat \<Rightarrow> _))"
  by (simp add: prod.inj_map)

lemma grows_destroyed:
  fixes g g' dn :: "(nat option \<times> nat) list"
  assumes "grows g 0 g' (length cs)" "map (map_prod id Some) g' = map (map_prod id Some) dn @ map f cs"
  shows "dn = g"
proof -
  obtain xs where "g' = g @ xs" "length xs = length cs" using assms(1) by (auto simp: grows_def)
  then have "map (map_prod id Some) g = map (map_prod id Some) dn" using assms(2) by simp
  then show ?thesis using inj_map_eq_map [OF map_prod_Some_inj] by simp
qed

definition same_cbs :: "dispatcher \<Rightarrow> dispatcher \<Rightarrow> bool" where
  "same_cbs d d' = (m_shutdown_called d' = m_shutdown_called d \<and> (m_deferred_delete_cb d' = None) = (m_deferred_delete_cb d = None) \<and>
     (m_deferred_destroy_cb d' = None) = (m_deferred_destroy_cb d = None) \<and> (m_post_cb d' = None) = (m_post_cb d = None))"

lemma clear_destroy_ok:
  assumes inv: "disp_inv [] hs [] ps d" and off: "\<not> m_deferred_destroying d" "\<not> m_deferred_deleting d"
  shows "\<exists>d'. internal_clear_deferred_destroy_list env d = Some d' \<and> disp_inv [] hs [] ps d' \<and> due_destroy d' \<and>
    (due_delete d \<longrightarrow> due_delete d') \<and> (due_post d \<longrightarrow> due_post d') \<and> \<not> m_deferred_destroying d' \<and> \<not> m_deferred_deleting d' \<and>
    same_cbs d d' \<and> destroyed (trace d') = given_destroy d \<and>
    grows (given_post d) (length (m_post_callbacks d)) (given_post d') (length (m_post_callbacks d'))"
proof (cases "current_to_destroy d = []")
  case True
  then have "destroyed (trace d) = given_destroy d" using inv inj_map_eq_map [OF map_prod_Some_inj] by (simp add: disp_inv_def)
  then show ?thesis using inv off True by (simp add: internal_clear_deferred_destroy_list_def Let_def due_defs same_cbs_def)
next
  case False
  let ?w = "m_current_to_destroy d"
  let ?d1 = "d\<lparr> m_current_to_destroy := other ?w, m_deferred_destroying := True \<rparr>"
  have empty: "m_to_destroy d (other ?w) = []" using inv off by (simp add: disp_inv_def)
  have "disp_inv [] hs (m_to_destroy ?d1 ?w) ps ?d1"
    using inv empty by (simp add: disp_inv_def current_to_delete_def current_to_destroy_def content_def [abs_def] ac_simps)
  then obtain d2 where d2: "destroy_loop env ?w 0 (length (current_to_destroy d)) ?d1 = Some d2" "disp_inv [] hs [] ps d2" "keeps ?d1 d2"
    using destroy_loop_ok [of ?d1 hs 0 ?w ps "length (current_to_destroy d)" env] off by (auto simp: current_to_destroy_def)
  let ?d3 = "d2\<lparr> m_to_destroy := (m_to_destroy d2)(?w := []), m_deferred_destroying := False \<rparr>"
  have "due_destroy ?d1" using empty by (simp add: due_defs current_to_destroy_def)
  then have same: "m_current_to_destroy d2 = other ?w" "due_destroy d2" using d2(3) by (simp_all add: keeps_def)
  then have "disp_inv [] hs [] ps ?d3" "due_destroy ?d3"
    using d2(2) by (simp_all add: disp_inv_def due_defs current_to_delete_def current_to_destroy_def content_def [abs_def])
  moreover have "grows (given_destroy d) 0 (given_destroy d2) (length (current_to_destroy d2))"
    using d2(3) empty by (clarsimp simp: keeps_def current_to_destroy_def)
  then have gone: "destroyed (trace d2) = given_destroy d"
    by (rule grows_destroyed [where f = "content d2"]) (use disp_inv_given(3) [OF d2(2)] in simp)
  ultimately show ?thesis
    using d2(1,3) off False gone
    by (simp add: internal_clear_deferred_destroy_list_def Let_def keeps_def due_defs current_to_delete_def current_to_destroy_def
        same_cbs_def)
qed

lemma post_loop_ok:
  "disp_inv [] hs [] ps d \<Longrightarrow> \<not> m_deferred_deleting d \<Longrightarrow> \<exists>d'. post_loop env ps d = Some d' \<and> disp_inv [] hs [] [] d' \<and> keeps d d'"
proof (induction ps arbitrary: d)
  case (Cons cb ps)
  let ?d1 = "happens (Ran cb) d"
  have "disp_inv [] hs [] ps ?d1" "\<not> m_deferred_deleting ?d1" using happens_inv(2) [OF Cons.prems(1)] Cons.prems(2) by (simp_all add: happens_def)
  then obtain d2 where d2: "run_calls (perform 1 env) (env (trace ?d1)) ?d1 = Some d2" "disp_inv [] hs [] ps d2" "keeps ?d1 d2"
    using performs_ok by blast
  then have k: "keeps d d2" using happens_keeps keeps_trans by blast
  then have "\<not> m_deferred_deleting d2" using Cons.prems(2) by (simp add: keeps_def)
  then show ?case using Cons.IH [OF d2(2)] d2(1) k keeps_trans by (fastforce simp: Let_def)
qed simp

section \<open>Turns of the loop\<close>

definition disp_ok :: "dispatcher \<Rightarrow> bool" where
  "disp_ok d = (disp_inv [] [] [] [] d \<and> due_delete d \<and> due_destroy d \<and> due_post d \<and>
     \<not> m_deferred_deleting d \<and> \<not> m_deferred_destroying d \<and>
     m_shutdown_called d = (m_deferred_delete_cb d = None) \<and> m_shutdown_called d = (m_deferred_destroy_cb d = None) \<and>
     m_shutdown_called d = (m_post_cb d = None))"

lemma keeps_same_cbs: "keeps d d' \<Longrightarrow> same_cbs d d'"
  by (simp add: keeps_def same_cbs_def)

lemma keeps_disp_ok: "disp_ok d \<Longrightarrow> keeps d d' \<Longrightarrow> disp_inv [] [] [] [] d' \<Longrightarrow> disp_ok d'"
  unfolding disp_ok_def keeps_def by (elim conjE) simp

lemma clear_delete_turn:
  assumes "disp_inv [] [] [] ps d" "\<not> m_deferred_deleting d"
  shows "\<exists>d'. internal_clear_deferred_delete_list env d = Some d' \<and> disp_inv [] [] [] ps d' \<and> keeps d d' \<and> due_delete d' \<and>
    released (trace d') = given_delete d"
  using clear_delete_ok [OF safe_run_perform [of 0 env] assms] by (simp add: internal_clear_deferred_delete_list_def)

lemma run_post_ok:
  assumes inv: "disp_inv [] [] [] [] d" and off: "\<not> m_deferred_deleting d" "\<not> m_deferred_destroying d"
  shows "\<exists>d' xs. run_post_callbacks env d = Some d' \<and> disp_inv [] [] [] [] d' \<and> due_delete d' \<and> due_destroy d' \<and> due_post d' \<and>
    \<not> m_deferred_deleting d' \<and> \<not> m_deferred_destroying d' \<and> same_cbs d d' \<and> ran_posts (trace d') = given_post d @ xs"
proof -
  obtain d1 where d1: "internal_clear_deferred_delete_list env d = Some d1" "disp_inv [] [] [] [] d1" "keeps d d1" "due_delete d1"
    using clear_delete_turn [OF inv off(1)] by blast
  then have off1: "\<not> m_deferred_destroying d1" "\<not> m_deferred_deleting d1" using off by (simp_all add: keeps_def)
  from clear_destroy_ok [OF d1(2) off1] obtain d2 where
    d2: "internal_clear_deferred_destroy_list env d1 = Some d2" "disp_inv [] [] [] [] d2" "due_destroy d2" "due_delete d2"
    "\<not> m_deferred_destroying d2" "\<not> m_deferred_deleting d2" "same_cbs d1 d2"
    and g2: "grows (given_post d1) (length (m_post_callbacks d1)) (given_post d2) (length (m_post_callbacks d2))"
    using d1(4) by blast
  let ?d3 = "d2\<lparr> m_post_callbacks := [] \<rparr>"
  have "disp_inv [] [] [] (m_post_callbacks d2) ?d3"
    using d2(2) by (simp add: disp_inv_def current_to_delete_def current_to_destroy_def content_def [abs_def])
  then obtain d4 where d4: "post_loop env (m_post_callbacks d2) ?d3 = Some d4" "disp_inv [] [] [] [] d4" "keeps ?d3 d4"
    using post_loop_ok [of "[]" "m_post_callbacks d2" ?d3] d2(6) by auto
  have due: "due_delete ?d3" "due_destroy ?d3" "due_post ?d3"
    using d2(3,4) by (simp_all add: due_defs current_to_delete_def current_to_destroy_def)
  have "ran_posts (trace d4) = given_post d2"
    using keeps_grows(1) [OF d4(3)] disp_inv_given(2) [OF d4(2)] by (simp add: grows_done)
  moreover obtain xs where "given_post d2 = given_post d @ xs"
    using grows_trans [OF keeps_grows(1) [OF d1(3)] g2] by (auto simp: grows_def)
  ultimately show ?thesis
    using d1(1) d2(1) d4 due d2(5-7) keeps_same_cbs [OF d1(3)]
    by (simp add: run_post_callbacks_def keeps_def same_cbs_def)
qed

lemma set_cb_inv:
  assumes "disp_inv [] [] [] [] d" "get_cb k d = Some s" "schedulable_ok t"
  shows "disp_inv [] [] [] [] (set_cb k t d)" "given_delete (set_cb k t d) = given_delete d"
    "given_destroy (set_cb k t d) = given_destroy d" "given_post (set_cb k t d) = given_post d" "same_cbs d (set_cb k t d)"
    "m_deferred_deleting (set_cb k t d) = m_deferred_deleting d" "m_deferred_destroying (set_cb k t d) = m_deferred_destroying d"
  using assms
  by (cases k; simp add: disp_inv_def cb_ok_def same_cbs_def current_to_delete_def current_to_destroy_def content_def [abs_def])+

lemma set_cb_due:
  "k \<noteq> DeleteCb \<Longrightarrow> due_delete (set_cb k t d) = due_delete d"
  "k \<noteq> DestroyCb \<Longrightarrow> due_destroy (set_cb k t d) = due_destroy d"
  "k \<noteq> PostCb \<Longrightarrow> due_post (set_cb k t d) = due_post d"
  by (cases k; simp add: due_defs current_to_delete_def current_to_destroy_def)+

text \<open>What a turn of a callback works off.\<close>

fun worked_off :: "disp_cb \<Rightarrow> dispatcher \<Rightarrow> dispatcher \<Rightarrow> bool" where
  "worked_off DeleteCb d d' = (\<exists>xs. released (trace d') = given_delete d @ xs)"
| "worked_off DestroyCb d d' = (\<exists>xs. destroyed (trace d') = given_destroy d @ xs)"
| "worked_off PostCb d d' = (\<exists>xs. ran_posts (trace d') = given_post d @ xs)"

lemma run_cb_ok:
  assumes ok: "disp_ok d" and cb: "get_cb k d = Some s" and t: "schedulable_ok t"
  shows "\<exists>d'. run_cb env k (set_cb k t d) = Some d' \<and> disp_ok d' \<and> same_cbs d d' \<and> worked_off k d d'"
proof -
  let ?d = "set_cb k t d"
  have inv: "disp_inv [] [] [] [] d" using ok by (simp add: disp_ok_def)
  note s = set_cb_inv [OF inv cb t]
  have off: "\<not> m_deferred_deleting ?d" "\<not> m_deferred_destroying ?d" using ok s by (simp_all add: disp_ok_def)
  have due: "k \<noteq> DeleteCb \<Longrightarrow> due_delete ?d" "k \<noteq> DestroyCb \<Longrightarrow> due_destroy ?d" "k \<noteq> PostCb \<Longrightarrow> due_post ?d"
    using ok by (simp_all add: set_cb_due disp_ok_def)
  show ?thesis
  proof (cases k)
    case DeleteCb
    then show ?thesis
      using clear_delete_turn [OF s(1) off(1), of env] off due s(2,5) ok by (auto simp: disp_ok_def keeps_def same_cbs_def)
  next
    case DestroyCb
    then show ?thesis
      using clear_destroy_ok [OF s(1) off(2,1), of env] off due s(3,5) ok by (auto simp: disp_ok_def same_cbs_def)
  next
    case PostCb
    then show ?thesis
      using run_post_ok [OF s(1) off, of env] due s(4,5) ok by (auto simp: disp_ok_def same_cbs_def)
  qed
qed

fun waits :: "disp_cb \<Rightarrow> dispatcher \<Rightarrow> bool" where
  "waits DeleteCb d = (current_to_delete d \<noteq> [])"
| "waits DestroyCb d = (current_to_destroy d \<noteq> [])"
| "waits PostCb d = (m_post_callbacks d \<noteq> [])"

lemma waits_due:
  assumes "disp_ok d" "\<not> m_shutdown_called d" "waits k d"
  shows "\<exists>s. get_cb k d = Some s \<and> schedulable_ok s \<and> m_enabled s"
proof -
  have ok: "disp_inv [] [] [] [] d" "due_delete d" "due_destroy d" "due_post d" using assms(1) by (simp_all add: disp_ok_def)
  obtain s where s: "get_cb k d = Some s" using assms(1,2) by (cases k) (auto simp: disp_ok_def)
  then have "schedulable_ok s" using disp_inv_cbs [OF ok(1)] by (cases k) (simp_all add: cb_ok_def)
  moreover have "will_run s" using ok(2-4) s assms(3) by (cases k) (simp_all add: due_defs cb_runs_def)
  ultimately show ?thesis using s by (simp add: schedulable_ok_def)
qed

fun disp_accepts :: "disp_step \<Rightarrow> dispatcher \<Rightarrow> bool" where
  "disp_accepts Shutdown d = (\<not> m_shutdown_called d)"
| "disp_accepts _ d = True"

lemma wakeup_due:
  assumes "get_cb k d = Some s"
  shows "due_delete (set_cb k (wakeup_cb s) d) = due_delete d" "due_destroy (set_cb k (wakeup_cb s) d) = due_destroy d"
    "due_post (set_cb k (wakeup_cb s) d) = due_post d"
  using assms by (cases k; simp add: due_defs cb_runs_def current_to_delete_def current_to_destroy_def)+

lemma wake_ok:
  assumes ok: "disp_ok d" and w: "disp_exec env (Wake k) d = Some d'"
  shows "disp_ok d'"
proof (cases "get_cb k d")
  case None
  then show ?thesis using ok w by simp
next
  case (Some s)
  have "disp_inv [] [] [] [] d" using ok by (simp add: disp_ok_def)
  moreover have "schedulable_ok s" using ok Some by (cases k) (auto simp: disp_ok_def disp_inv_def cb_ok_def)
  ultimately show ?thesis
    using w set_cb_inv [of d k s "wakeup_cb s"] Some wakeup_due [OF Some] ok by (auto simp: disp_ok_def same_cbs_def)
qed

lemma fire_ok:
  assumes ok: "disp_ok d"
  shows "\<exists>d'. disp_exec env (Fire k) d = Some d' \<and> disp_ok d'"
proof (cases "Option.bind (get_cb k d) timer_cb")
  case (Some t)
  then obtain s where s: "get_cb k d = Some s" "timer_cb s = Some t" by (auto simp: bind_eq_Some_conv)
  have "schedulable_ok s" using ok s(1) by (cases k) (auto simp: disp_ok_def disp_inv_def cb_ok_def)
  then have "schedulable_ok t" using timer_cb_ok [OF _ s(2)] by simp
  then show ?thesis using run_cb_ok [OF ok s(1)] Some by fastforce
qed (use ok in simp)

lemma disp_exec_ok:
  assumes ok: "disp_ok d" and acc: "disp_accepts st d"
  shows "\<exists>d'. disp_exec env st d = Some d' \<and> disp_ok d'"
proof (cases st)
  case (Call c)
  then show ?thesis using perform_ok [of "[]" "[]" "[]" d env c] keeps_disp_ok [OF ok] ok by (auto simp: disp_ok_def)
next
  case (Wake k)
  then show ?thesis using wake_ok [OF ok] by simp
next
  case (Fire k)
  then show ?thesis using fire_ok [OF ok] by simp
next
  case RunLoop
  then show ?thesis using run_post_ok [of d env] ok by (auto simp: disp_ok_def same_cbs_def)
next
  case Shutdown
  then show ?thesis using ok acc
    by (simp add: shutdown_i_def clear_libevent_related_objects_def Let_def disp_ok_def disp_inv_def due_defs cb_ok_def cb_runs_def
        current_to_delete_def current_to_destroy_def content_def [abs_def])
qed

lemma disp_ok_new: "disp_ok rp_dispatcher_impl_new"
  by (simp add: disp_ok_def disp_inv_def rp_dispatcher_impl_new_def due_defs cb_ok_def current_to_delete_def current_to_destroy_def)

interpretation disp: invariant_system "\<lambda>d. d = rp_dispatcher_impl_new" disp_accepts "disp_exec env" disp_ok for env
  by unfold_locales (use disp_ok_new disp_exec_ok in auto)

text \<open>C11. Nothing that is handed to a dispatcher is lost, released twice or released out of order: whatever is
  handed over and posted, by other code or by what the dispatcher itself releases, destroys and runs, in whatever
  order the loop gets to it, nothing crashes, what was released, destroyed and run so far is what was handed over
  first, the rest waits on the current lists, and until the dispatcher is shut down each list that is not empty
  has its callback scheduled.\<close>

theorem dispatcher_loses_nothing:
  assumes "accepted disp_accepts (disp_exec env) steps rp_dispatcher_impl_new"
  shows "\<exists>d. run_calls (disp_exec env) steps rp_dispatcher_impl_new = Some d \<and>
    given_delete d = released (trace d) @ current_to_delete d \<and>
    given_destroy d = destroyed (trace d) @ map (\<lambda>n. (mem (nodes d ! n), the (destroy_cb (nodes d ! n)))) (current_to_destroy d) \<and>
    given_post d = ran_posts (trace d) @ m_post_callbacks d \<and>
    (\<not> m_shutdown_called d \<longrightarrow>
      (current_to_delete d \<noteq> [] \<longrightarrow> will_run (the (m_deferred_delete_cb d))) \<and>
      (current_to_destroy d \<noteq> [] \<longrightarrow> will_run (the (m_deferred_destroy_cb d))) \<and>
      (m_post_callbacks d \<noteq> [] \<longrightarrow> will_run (the (m_post_cb d))))"
proof -
  obtain d where d: "run_calls (disp_exec env) steps rp_dispatcher_impl_new = Some d" "disp_ok d"
    using disp.run_inv [OF disp_ok_new assms] by blast
  have "map (map_prod id the) (map (map_prod id Some) (given_destroy d)) =
      map (map_prod id the) (map (map_prod id Some) (destroyed (trace d)) @ map (content d) (current_to_destroy d))"
    using d(2) by (simp add: disp_ok_def disp_inv_def)
  then have "given_destroy d = destroyed (trace d) @ map (\<lambda>n. (mem (nodes d ! n), the (destroy_cb (nodes d ! n)))) (current_to_destroy d)"
    by (simp add: content_def comp_def map_prod_def case_prod_unfold)
  then show ?thesis
    using d by (auto simp: disp_ok_def disp_inv_def due_defs cb_runs_def)
qed

text \<open>C13. A turn of the loop works off what waits: in every state that a dispatcher reaches before it is shut
  down and in which one of its lists is not empty, the next turn of the callback of that list releases, destroys or
  runs everything that was handed over up to then.\<close>

theorem dispatcher_turn_works_off:
  assumes "accepted disp_accepts (disp_exec env) steps rp_dispatcher_impl_new"
    "run_calls (disp_exec env) steps rp_dispatcher_impl_new = Some d" "\<not> m_shutdown_called d"
    "waits k d"
  shows "\<exists>d'. run_calls (disp_exec env) [Wake k, Fire k] d = Some d' \<and> worked_off k d d'"
proof -
  have ok: "disp_ok d" using disp.run_inv [OF disp_ok_new assms(1)] assms(2) by auto
  from waits_due [OF this assms(3,4)] obtain s where s: "get_cb k d = Some s" "schedulable_ok s" "m_enabled s" by blast
  have w: "disp_exec env (Wake k) d = Some (set_cb k (wakeup_cb s) d)" using s(1) by simp
  note ok1 = wake_ok [OF ok w]
  have g: "get_cb k (set_cb k (wakeup_cb s) d) = Some (wakeup_cb s)" by (cases k) simp_all
  obtain d' where d': "run_cb env k (set_cb k rp_schedulable_callback_impl_new (set_cb k (wakeup_cb s) d)) = Some d'"
    "worked_off k (set_cb k (wakeup_cb s) d) d'"
    using run_cb_ok [OF ok1 g schedulable_ok_new(1), of env] by blast
  have "worked_off k d d'" using d'(2) by (cases k) simp_all
  then show ?thesis using w g timer_due [OF s(2,3)] d'(1) by simp
qed

section \<open>Examples\<close>

text \<open>Releasing and destroying hands over more, and a posted callback posts another.\<close>

definition example_reacts :: reacts where
  "example_reacts tr =
     (if tr = [] then []
      else if last tr = Released 1 then [DeferredDelete (Some 2), ClearDeferredDelete, Post 7]
      else if last tr = Destroyed (Some 5) 0 then [DeferredDestroy (Some 6) (Some 0), DeferredDelete (Some 3), ClearDeferredDelete]
      else if last tr = Ran 7 then [Post 8] else [])"

definition example_steps :: "disp_step list" where
  "example_steps = [Call (DeferredDelete (Some 1)), Call (DeferredDestroy (Some 5) (Some 0)), Wake DeleteCb, Fire DeleteCb,
     Wake DestroyCb, Fire DestroyCb, Call (Post 9), Wake PostCb, Fire PostCb, Shutdown]"

lemma accepted_example_steps: "accepted disp_accepts (disp_exec example_reacts) example_steps rp_dispatcher_impl_new"
  by code_simp

theorem dispatcher_loses_nothing_witness:
  "\<exists>d. run_calls (disp_exec example_reacts) example_steps rp_dispatcher_impl_new = Some d \<and>
     given_delete d = released (trace d) @ current_to_delete d \<and> given_post d = ran_posts (trace d) @ m_post_callbacks d"
  using dispatcher_loses_nothing [OF accepted_example_steps] by blast

theorem dispatcher_turn_works_off_witness:
  "\<exists>d'. run_calls (disp_exec example_reacts) [Wake DeleteCb, Fire DeleteCb]
       (the (run_calls (disp_exec example_reacts) (take 2 example_steps) rp_dispatcher_impl_new)) = Some d' \<and>
     worked_off DeleteCb (the (run_calls (disp_exec example_reacts) (take 2 example_steps) rp_dispatcher_impl_new)) d'"
proof (rule dispatcher_turn_works_off)
  show "accepted disp_accepts (disp_exec example_reacts) (take 2 example_steps) rp_dispatcher_impl_new" by code_simp
  have "run_calls (disp_exec example_reacts) (take 2 example_steps) rp_dispatcher_impl_new \<noteq> None" by code_simp
  then show "run_calls (disp_exec example_reacts) (take 2 example_steps) rp_dispatcher_impl_new =
      Some (the (run_calls (disp_exec example_reacts) (take 2 example_steps) rp_dispatcher_impl_new))" by simp
qed code_simp+

end
