(* ===== verification/Post_Queue.thy ===== *)
theory Post_Queue
  imports Dispatcher
begin

text \<open>
  Posting from other threads: \<open>post_i\<close> of \<^verbatim>\<open>src/src/event/rp-dispatcher-impl.c\<close> with the scheduling of
  \<^verbatim>\<open>event/rp-schedulable-cb-impl.c\<close>, as the steps between which other threads may run. Only the list of callbacks is
  guarded by a lock; the mark of the schedulable callback and its counter are not. Any number of calls of
  \<open>post_i\<close> are under way, in any threads, while the loop of the dispatcher runs in its own.
\<close>

section \<open>Steps\<close>

datatype poster = CheckEnabled | SetEnabled | WriteFd | Returned

datatype loop_at = NotStarted | Waiting | Fired | StealList | RunList "nat list"

record posting =
  queue :: "nat list"
  cb :: schedulable
  posters :: "poster list"
  loop_at :: loop_at
  posted :: "nat list"
  ran_so_far :: "nat list"

definition posting_init :: posting where
  "posting_init = \<lparr> queue = [], cb = rp_schedulable_callback_impl_new, posters = [], loop_at = NotStarted, posted = [], ran_so_far = [] \<rparr>"

text \<open>The guarded part of \<open>post_i\<close>, with which a call starts.\<close>

definition post_locked :: "nat \<Rightarrow> posting \<Rightarrow> posting" where
  "post_locked k s =
     s\<lparr> queue := queue s @ [k], posted := posted s @ [k],
        posters := posters s @ [if queue s = [] then CheckEnabled else Returned] \<rparr>"

definition poster_at :: "nat \<Rightarrow> poster \<Rightarrow> posting \<Rightarrow> bool" where
  "poster_at i p s = (i < length (posters s) \<and> posters s ! i = p)"

definition move :: "nat \<Rightarrow> poster \<Rightarrow> posting \<Rightarrow> posting" where
  "move i p s = s\<lparr> posters := (posters s)[i := p] \<rparr>"

text \<open>The rest of \<open>post_i\<close>, and the loop: it starts with \<open>run_post_callbacks\<close>, finds the callback scheduled, takes
  it off, runs \<open>timer_cb\<close>, which resets the mark, and \<open>run_post_callbacks\<close>, which takes the list under the lock and
  runs it.\<close>

inductive work_step :: "posting \<Rightarrow> posting \<Rightarrow> bool" where
  check: "poster_at i CheckEnabled s \<Longrightarrow> work_step s (move i (if m_enabled (cb s) then Returned else SetEnabled) s)"
| set_enabled: "poster_at i SetEnabled s \<Longrightarrow> work_step s (move i WriteFd (s\<lparr> cb := (cb s)\<lparr> m_enabled := True \<rparr> \<rparr>))"
| write_fd: "poster_at i WriteFd s \<Longrightarrow> work_step s (move i Returned (s\<lparr> cb := eventfd_write 1 (cb s) \<rparr>))"
| start: "loop_at s = NotStarted \<Longrightarrow> work_step s (s\<lparr> loop_at := StealList \<rparr>)"
| wakeup: "loop_at s = Waiting \<Longrightarrow> m_wakeup_fd (cb s) \<noteq> 0 \<Longrightarrow> work_step s (s\<lparr> cb := wakeup_cb (cb s) \<rparr>)"
| fire: "loop_at s = Waiting \<Longrightarrow> m_raw_event (cb s) \<noteq> Idle \<Longrightarrow>
    work_step s (s\<lparr> cb := (cb s)\<lparr> m_raw_event := Idle \<rparr>, loop_at := Fired \<rparr>)"
| reset: "loop_at s = Fired \<Longrightarrow> work_step s (s\<lparr> cb := (cb s)\<lparr> m_enabled := False \<rparr>, loop_at := StealList \<rparr>)"
| steal: "loop_at s = StealList \<Longrightarrow> work_step s (s\<lparr> loop_at := RunList (queue s), queue := [] \<rparr>)"
| run_one: "loop_at s = RunList (k # ks) \<Longrightarrow> work_step s (s\<lparr> loop_at := RunList ks, ran_so_far := ran_so_far s @ [k] \<rparr>)"
| done_all: "loop_at s = RunList [] \<Longrightarrow> work_step s (s\<lparr> loop_at := Waiting \<rparr>)"

inductive post_step :: "posting \<Rightarrow> posting \<Rightarrow> bool" where
  post: "post_step s (post_locked k s)"
| work: "work_step s t \<Longrightarrow> post_step s t"

abbreviation posting_reach :: "posting \<Rightarrow> bool" where
  "posting_reach \<equiv> reach (\<lambda>s. s = posting_init) post_step"

text \<open>A call of \<open>post_i\<close> that no other thread interrupts is the one of the dispatcher.\<close>

definition same_queue :: "posting \<Rightarrow> dispatcher \<Rightarrow> bool" where
  "same_queue s d = (queue s = m_post_callbacks d \<and> m_post_cb d = Some (cb s) \<and> posted s = given_post d)"

lemma post_i_is_steps:
  assumes "same_queue s d"
  shows "\<exists>t. work_step\<^sup>*\<^sup>* (post_locked k s) t \<and> same_queue t (post_i k d) \<and> last (posters t) = Returned"
proof -
  let ?s = "post_locked k s" and ?i = "length (posters s)"
  show ?thesis
  proof (cases "queue s = []")
    case False
    then show ?thesis using assms by (intro exI [of _ ?s]) (simp add: post_locked_def same_queue_def post_i_def Let_def)
  next
    case empty: True
    then have p: "poster_at ?i CheckEnabled ?s" by (simp add: poster_at_def post_locked_def)
    show ?thesis
    proof (cases "m_enabled (cb s)")
      case True
      have "work_step ?s (move ?i Returned ?s)" using check [OF p] True by (simp add: post_locked_def)
      moreover have "schedule_callback_current_iteration_i (cb s) = cb s"
        using True by (simp add: schedule_callback_current_iteration_i_def)
      ultimately show ?thesis
        using assms empty
        by (intro exI [of _ "move ?i Returned ?s"]) (auto simp: same_queue_def post_i_def Let_def post_locked_def move_def
            rp_schedulable_callback_schedule_callback_current_iteration_def)
    next
      case False
      let ?s1 = "move ?i SetEnabled ?s"
      let ?s2 = "move ?i WriteFd (?s1\<lparr> cb := (cb ?s1)\<lparr> m_enabled := True \<rparr> \<rparr>)"
      let ?s3 = "move ?i Returned (?s2\<lparr> cb := eventfd_write 1 (cb ?s2) \<rparr>)"
      have "work_step ?s ?s1" using check [OF p] False by (simp add: post_locked_def)
      moreover have "work_step ?s1 ?s2" "work_step ?s2 ?s3"
        using set_enabled [of ?i ?s1] write_fd [of ?i ?s2] by (simp_all add: poster_at_def move_def post_locked_def)
      ultimately have "work_step\<^sup>*\<^sup>* ?s ?s3" by (meson converse_rtranclp_into_rtranclp r_into_rtranclp)
      moreover have "same_queue ?s3 (post_i k d)"
        using assms empty False by (simp add: same_queue_def post_i_def Let_def post_locked_def move_def
            rp_schedulable_callback_schedule_callback_current_iteration_def schedule_callback_current_iteration_i_def)
      moreover have "last (posters ?s3) = Returned" by (simp add: move_def post_locked_def)
      ultimately show ?thesis by blast
    qed
  qed
qed

section \<open>No callback is lost\<close>

definition running :: "posting \<Rightarrow> nat list" where
  "running s = (case loop_at s of RunList ks \<Rightarrow> ks | _ \<Rightarrow> [])"

text \<open>The loop will come to take the list.\<close>

definition turn_comes :: "posting \<Rightarrow> bool" where
  "turn_comes s = (WriteFd \<in> set (posters s) \<or> will_run (cb s) \<or> loop_at s = Fired)"

definition posting_inv :: "posting \<Rightarrow> bool" where
  "posting_inv s =
     (posted s = ran_so_far s @ running s @ queue s \<and>
      (m_enabled (cb s) \<longrightarrow> turn_comes s) \<and>
      (queue s \<noteq> [] \<longrightarrow> turn_comes s \<or> loop_at s \<in> {NotStarted, StealList} \<or> CheckEnabled \<in> set (posters s) \<or> SetEnabled \<in> set (posters s)))"

lemma move_posters:
  assumes "poster_at i p s"
  shows "q \<in> set (posters (move i q s))" "r \<in> set (posters s) \<Longrightarrow> r \<noteq> p \<Longrightarrow> r \<in> set (posters (move i q s))"
proof -
  have i: "i < length (posters s)" "posters s ! i = p" using assms by (simp_all add: poster_at_def)
  show "q \<in> set (posters (move i q s))" using i by (simp add: move_def set_update_memI)
  assume "r \<in> set (posters s)" "r \<noteq> p"
  then obtain j where "j < length (posters s)" "posters s ! j = r" "j \<noteq> i" using i by (auto simp: in_set_conv_nth)
  then show "r \<in> set (posters (move i q s))" by (auto simp: move_def in_set_conv_nth intro!: exI [of _ j])
qed

lemma move_sel [simp]:
  "queue (move i p s) = queue s" "cb (move i p s) = cb s" "loop_at (move i p s) = loop_at s" "posted (move i p s) = posted s"
  "ran_so_far (move i p s) = ran_so_far s" "running (move i p s) = running s"
  by (simp_all add: move_def running_def)

lemma eventfd_write_raw [simp]: "m_raw_event (eventfd_write v c) = m_raw_event c"
  by (simp add: eventfd_write_def)

lemma eventfd_write_runs: "will_run (eventfd_write 1 c)"
proof (cases "m_wakeup_fd c = 0")
  case False
  then have "m_wakeup_fd (eventfd_write 1 c) \<noteq> 0"
  proof (cases "uint (m_wakeup_fd c) + 1 \<le> 2 ^ 64 - 2")
    case True
    have "m_wakeup_fd c + 1 \<noteq> 0"
    proof
      assume "m_wakeup_fd c + 1 = 0"
      then have "m_wakeup_fd c = - 1" by (simp add: eq_neg_iff_add_eq_0)
      then show False using True by (simp add: unsigned_minus_1_eq_mask mask_eq_exp_minus_1)
    qed
    then show ?thesis using False by (simp add: eventfd_write_def)
  qed (use False in \<open>simp add: eventfd_write_def\<close>)
  then show ?thesis by (simp add: will_run_def)
qed (simp add: will_run_def eventfd_write_def)

lemma work_step_inv:
  assumes "work_step s t" "posting_inv s"
  shows "posting_inv t"
  using assms
proof (cases rule: work_step.cases)
  case (check i)
  show ?thesis
    using assms(2) move_posters [OF check(2)]
    by (cases "m_enabled (cb s)") (auto simp: check(1) posting_inv_def turn_comes_def)
next
  case (set_enabled i)
  let ?s = "s\<lparr> cb := (cb s)\<lparr> m_enabled := True \<rparr> \<rparr>"
  have "poster_at i SetEnabled ?s" using set_enabled(2) by (simp add: poster_at_def)
  from move_posters [OF this] have "turn_comes t" by (simp add: set_enabled(1) turn_comes_def)
  then show ?thesis using assms(2) by (simp add: set_enabled(1) posting_inv_def running_def)
next
  case (write_fd i)
  have "turn_comes t" using eventfd_write_runs by (simp add: write_fd(1) turn_comes_def)
  then show ?thesis using assms(2) by (simp add: write_fd(1) posting_inv_def running_def)
qed (auto simp: posting_inv_def turn_comes_def running_def will_run_def wakeup_cb_def)

lemma posting_inv_reach: "posting_reach s \<Longrightarrow> posting_inv s"
proof (induction rule: reach.induct)
  case (start s)
  then show ?case by (simp add: posting_inv_def posting_init_def running_def)
next
  case (next_step s t)
  from next_step.hyps(2) show ?case
  proof cases
    case (post k)
    then show ?thesis using next_step.IH by (auto simp: posting_inv_def post_locked_def running_def turn_comes_def)
  qed (use next_step.IH work_step_inv in blast)
qed

text \<open>Every step brings the calls that are under way nearer to their end.\<close>

fun poster_weight :: "poster \<Rightarrow> nat" where
  "poster_weight CheckEnabled = 9"
| "poster_weight SetEnabled = 8"
| "poster_weight WriteFd = 7"
| "poster_weight Returned = 0"

fun loop_weight :: "loop_at \<Rightarrow> nat" where
  "loop_weight NotStarted = 4"
| "loop_weight Waiting = 0"
| "loop_weight Fired = 4"
| "loop_weight StealList = 3"
| "loop_weight (RunList ks) = 1 + length ks"

definition weight :: "posting \<Rightarrow> nat" where
  "weight s = sum_list (map poster_weight (posters s)) + (if m_wakeup_fd (cb s) \<noteq> 0 then 6 else 0) +
     (if m_raw_event (cb s) \<noteq> Idle then 5 else 0) + loop_weight (loop_at s) + length (queue s)"

lemma poster_weight_move:
  assumes "poster_at i p s"
  shows "sum_list (map poster_weight (posters (move i q s))) + poster_weight p = sum_list (map poster_weight (posters s)) + poster_weight q"
proof -
  have i: "i < length (posters s)" "posters s ! i = p" using assms by (simp_all add: poster_at_def)
  have "posters s = take i (posters s) @ p # drop (Suc i) (posters s)" using i id_take_nth_drop by blast
  moreover have "posters (move i q s) = take i (posters s) @ q # drop (Suc i) (posters s)"
    using i by (simp add: move_def upd_conv_take_nth_drop)
  ultimately show ?thesis by (smt (verit) add.commute add.left_commute list.simps(9) map_append sum_list.Cons sum_list_append)
qed

lemma work_step_weight: "work_step s t \<Longrightarrow> weight t < weight s"
proof (induction rule: work_step.induct)
  case (check i s)
  show ?case
    using poster_weight_move [OF check, of Returned] poster_weight_move [OF check, of SetEnabled] by (auto simp: weight_def)
next
  case (set_enabled i s)
  then have "poster_at i SetEnabled (s\<lparr> cb := (cb s)\<lparr> m_enabled := True \<rparr> \<rparr>)" by (simp add: poster_at_def)
  from poster_weight_move [OF this, of WriteFd] show ?case by (simp add: weight_def)
next
  case (write_fd i s)
  then have "poster_at i WriteFd (s\<lparr> cb := eventfd_write 1 (cb s) \<rparr>)" by (simp add: poster_at_def)
  from poster_weight_move [OF this, of Returned] show ?case by (auto simp: weight_def)
qed (auto simp: weight_def wakeup_cb_def)

lemma work_terminates: "wfp (\<lambda>t s. work_step s t)"
  by (rule wfp_if_convertible_to_nat [of _ weight]) (rule work_step_weight)

lemma work_posted: "work_step s t \<Longrightarrow> posted t = posted s"
  by (induction rule: work_step.induct) simp_all

lemma work_steps_inv:
  assumes "work_step\<^sup>*\<^sup>* s t" "posting_inv s"
  shows "posting_inv t \<and> posted t = posted s"
  using assms by (induction rule: rtranclp_induct) (auto dest: work_step_inv work_posted)

text \<open>Where no step is left everything was run.\<close>

lemma stuck_ran:
  assumes "posting_inv s" "\<not> (\<exists>t. work_step s t)"
  shows "ran_so_far s = posted s"
proof -
  have none: "\<not> work_step s t" for t using assms(2) by blast
  have p: "\<not> poster_at i p s" if "p \<noteq> Returned" for i p using that none work_step.intros(1-3) by (cases p) blast+
  then have "p \<notin> set (posters s)" if "p \<noteq> Returned" for p using that by (auto simp: poster_at_def in_set_conv_nth)
  moreover have w: "loop_at s = Waiting"
  proof (cases "loop_at s")
    case (RunList ks)
    then show ?thesis using none work_step.intros(9,10) by (cases ks) blast+
  qed (use none work_step.intros(4,7,8) in blast)+
  moreover have "\<not> will_run (cb s)" using none w work_step.intros(5,6) by (auto simp: will_run_def)
  ultimately show ?thesis using assms(1) by (auto simp: posting_inv_def turn_comes_def running_def)
qed

lemma comes_to_rest:
  assumes "wfp (\<lambda>t s. step s t)"
  shows "\<exists>t. step\<^sup>*\<^sup>* s t \<and> \<not> (\<exists>u. step t u)"
  using assms
proof (induction s rule: wfp_induct_rule)
  case (less s)
  then show ?case by (meson converse_rtranclp_into_rtranclp rtranclp.rtrancl_refl)
qed

text \<open>C12. A callback that is posted is never lost: whatever threads post while the loop runs, however their
  steps interleave, the callbacks that ran are those that were posted first, in order, the rest waits, and without
  new posts the calls that are under way and the loop come to rest, whatever the schedule; at rest every
  callback that was posted ran.\<close>

theorem posts_never_lost:
  assumes "posting_reach s"
  shows "posted s = ran_so_far s @ running s @ queue s \<and> wfp (\<lambda>t s. work_step s t) \<and>
    (\<forall>t. work_step\<^sup>*\<^sup>* s t \<and> \<not> (\<exists>u. work_step t u) \<longrightarrow> ran_so_far t = posted s)"
  using posting_inv_reach [OF assms] work_terminates work_steps_inv stuck_ran by (metis posting_inv_def)

text \<open>Two threads post at once, before the loop starts: the second finds the list not empty and does not schedule.\<close>

theorem posts_never_lost_witness:
  "posted (post_locked 2 (post_locked 1 posting_init)) = [1, 2] \<and>
   (\<exists>t. work_step\<^sup>*\<^sup>* (post_locked 2 (post_locked 1 posting_init)) t \<and> \<not> (\<exists>u. work_step t u) \<and> ran_so_far t = [1, 2])"
proof -
  let ?s = "post_locked 2 (post_locked 1 posting_init)"
  have "posting_reach posting_init" by (rule reach.start) simp
  then have "posting_reach (post_locked 1 posting_init)" by (rule reach.next_step) (rule post_step.post)
  then have "posting_reach ?s" by (rule reach.next_step) (rule post_step.post)
  from posts_never_lost [OF this] have wf: "wfp (\<lambda>t s. work_step s t)" and
    ran: "work_step\<^sup>*\<^sup>* ?s t \<and> \<not> (\<exists>u. work_step t u) \<Longrightarrow> ran_so_far t = posted ?s" for t by blast+
  obtain t where "work_step\<^sup>*\<^sup>* ?s t" "\<not> (\<exists>u. work_step t u)" using comes_to_rest [OF wf] by blast
  then show ?thesis using ran [of t] by (auto simp: post_locked_def posting_init_def)
qed

end
