(* ===== verification/Thread_Local.thy ===== *)
theory Thread_Local
  imports RP_Prelude
begin

text \<open>
  Thread-local storage: \<^verbatim>\<open>src/src/thread_local/rp-thread-local-impl.c\<close>, \<^verbatim>\<open>rp-slot-impl.c\<close> and \<^verbatim>\<open>rp-cb-guard.c\<close>.
  Thread \<open>0\<close> is the main thread, \<open>1\<close> to \<open>n_workers\<close> are the workers that registered. Each has its array of
  objects and the callbacks that were posted to its dispatcher, which it runs one by one. An operation of the main
  thread posts to the workers one after the other while they run. The context that an operation allocates, the
  guard that counts the threads and the copied argument are named by the number of the operation; using one that
  was freed is \<open>None\<close>. Objects and the callbacks of the callers are numbers; which object an initializing callback
  makes on a thread is a parameter.
\<close>

section \<open>State\<close>

datatype tl_cb = SetCb nat nat | DataCb nat | GuardCb nat | CompleteCb nat | RemoveCb nat

datatype tl_micro = PostTo nat tl_cb | Do tl_cb

datatype tl_event = Updated nat nat "nat option" | Completed nat

record tl_op =
  op_index :: nat
  op_cb :: nat
  ctx_alive :: bool
  guard_refs :: nat
  op_completes :: bool

record tl =
  n_workers :: nat
  queue :: "nat \<Rightarrow> tl_cb list"
  m_data :: "nat \<Rightarrow> nat option list"
  todo :: "tl_micro list"
  ops :: "tl_op list"
  m_slots :: "bool list"
  m_free_slot_indexes :: "nat list"
  m_shutdown :: bool
  tl_log :: "tl_event list"
  was_set :: "nat \<rightharpoonup> nat"

definition tl_init :: "nat \<Rightarrow> tl" where
  "tl_init n = \<lparr> n_workers = n, queue = (\<lambda>_. []), m_data = (\<lambda>_. []), todo = [], ops = [], m_slots = [],
     m_free_slot_indexes = [], m_shutdown = False, tl_log = [], was_set = Map.empty \<rparr>"

type_synonym initialize_cb = "nat \<Rightarrow> nat \<Rightarrow> nat option"

section \<open>What the threads run\<close>

definition set_thread_local :: "nat \<Rightarrow> nat \<Rightarrow> nat option \<Rightarrow> tl \<Rightarrow> tl" where
  "set_thread_local t index obj s =
     (let d = m_data s t; d1 = d @ replicate (Suc index - length d) None
      in s\<lparr> m_data := (m_data s)(t := d1[index := obj]) \<rparr>)"

definition set_op :: "nat \<Rightarrow> tl_op \<Rightarrow> tl \<Rightarrow> tl" where
  "set_op k r s = s\<lparr> ops := (ops s)[k := r] \<rparr>"

text \<open>\<open>get_worker\<close> reads the array without looking at its length.\<close>

definition get_worker :: "nat \<Rightarrow> nat \<Rightarrow> tl \<Rightarrow> nat option option" where
  "get_worker t index s = (if index < length (m_data s t) then Some (m_data s t ! index) else None)"

definition data_callback_cb :: "nat \<Rightarrow> nat \<Rightarrow> tl \<Rightarrow> tl option" where
  "data_callback_cb t k s =
     (if k < length (ops s) \<and> ctx_alive (ops s ! k)
      then do { obj \<leftarrow> get_worker t (op_index (ops s ! k)) s; Some (s\<lparr> tl_log := tl_log s @ [Updated t k obj] \<rparr>) }
      else None)"

text \<open>Dropping the last reference of a guard posts to the main thread.\<close>

definition guard_unref :: "nat \<Rightarrow> tl \<Rightarrow> tl" where
  "guard_unref k s =
     (let r = (ops s ! k)\<lparr> guard_refs := guard_refs (ops s ! k) - 1 \<rparr>; s1 = set_op k r s
      in if guard_refs r = 0 then s1\<lparr> queue := (queue s1)(0 := queue s1 0 @ [CompleteCb k]) \<rparr> else s1)"

definition rp_cb_guard_cb :: "nat \<Rightarrow> nat \<Rightarrow> tl \<Rightarrow> tl option" where
  "rp_cb_guard_cb t k s =
     (if k < length (ops s) \<and> guard_refs (ops s ! k) > 0 then map_option (guard_unref k) (data_callback_cb t k s) else None)"

definition internal_all_threads_complete_cb :: "nat \<Rightarrow> tl \<Rightarrow> tl option" where
  "internal_all_threads_complete_cb k s =
     (if k < length (ops s) \<and> ctx_alive (ops s ! k)
      then Some (set_op k ((ops s ! k)\<lparr> ctx_alive := False \<rparr>) (s\<lparr> tl_log := tl_log s @ [Completed k] \<rparr>)) else None)"

text \<open>\<open>remove_cb\<close> reads the copied index and frees the copy.\<close>

definition remove_cb :: "nat \<Rightarrow> nat \<Rightarrow> tl \<Rightarrow> tl option" where
  "remove_cb t k s =
     (if k < length (ops s) \<and> ctx_alive (ops s ! k)
      then (let slot = op_index (ops s ! k);
                s1 = (if slot < length (m_data s t) then s\<lparr> m_data := (m_data s)(t := (m_data s t)[slot := None]) \<rparr> else s)
            in Some (set_op k ((ops s ! k)\<lparr> ctx_alive := False \<rparr>) s1))
      else None)"

fun run_tl_cb :: "initialize_cb \<Rightarrow> nat \<Rightarrow> tl_cb \<Rightarrow> tl \<Rightarrow> tl option" where
  "run_tl_cb init t (SetCb index f) s = Some (set_thread_local t index (init f t) s)"
| "run_tl_cb init t (DataCb k) s = data_callback_cb t k s"
| "run_tl_cb init t (GuardCb k) s = rp_cb_guard_cb t k s"
| "run_tl_cb init t (CompleteCb k) s = internal_all_threads_complete_cb k s"
| "run_tl_cb init t (RemoveCb k) s = remove_cb t k s"

section \<open>Operations of the main thread\<close>

definition registered_threads :: "tl \<Rightarrow> nat list" where
  "registered_threads s = [1..<Suc (n_workers s)]"

definition set_i :: "nat \<Rightarrow> nat \<Rightarrow> tl \<Rightarrow> tl" where
  "set_i index f s =
     s\<lparr> todo := map (\<lambda>t. PostTo t (SetCb index f)) (registered_threads s) @ [Do (SetCb index f)],
        was_set := (was_set s)(index \<mapsto> f) \<rparr>"

definition new_op :: "nat \<Rightarrow> nat \<Rightarrow> nat \<Rightarrow> bool \<Rightarrow> tl \<Rightarrow> tl" where
  "new_op index cb refs completes s =
     s\<lparr> ops := ops s @ [\<lparr> op_index = index, op_cb = cb, ctx_alive = True, guard_refs = refs, op_completes = completes \<rparr>] \<rparr>"

definition run_on_all_threads :: "tl_cb \<Rightarrow> tl \<Rightarrow> tl" where
  "run_on_all_threads cb s = s\<lparr> todo := map (\<lambda>t. PostTo t cb) (registered_threads s) @ [Do cb] \<rparr>"

definition run_on_all_threads_i :: "nat \<Rightarrow> nat \<Rightarrow> tl \<Rightarrow> tl" where
  "run_on_all_threads_i index cb s = run_on_all_threads (DataCb (length (ops s))) (new_op index cb 0 False s)"

text \<open>The main thread runs the callback first and makes the guard, which has a reference for each worker; a
  guard with no reference completes at once.\<close>

definition run_on_all_threads_completed :: "nat \<Rightarrow> tl \<Rightarrow> tl option" where
  "run_on_all_threads_completed k s =
     do { s1 \<leftarrow> data_callback_cb 0 k s;
          let s2 = set_op k ((ops s1 ! k)\<lparr> guard_refs := n_workers s1 \<rparr>) s1;
          let s3 = (if n_workers s2 = 0 then s2\<lparr> queue := (queue s2)(0 := queue s2 0 @ [CompleteCb k]) \<rparr> else s2);
          Some (s3\<lparr> todo := map (\<lambda>t. PostTo t (GuardCb k)) (registered_threads s3) \<rparr>) }"

definition run_on_all_threads_completed_i :: "nat \<Rightarrow> nat \<Rightarrow> tl \<Rightarrow> tl option" where
  "run_on_all_threads_completed_i index cb s = run_on_all_threads_completed (length (ops s)) (new_op index cb 0 True s)"

text \<open>Allocating a slot fails an assertion where a free index is not free.\<close>

definition allocate_slot_i :: "tl \<Rightarrow> (nat \<times> tl) option" where
  "allocate_slot_i s =
     (if m_free_slot_indexes s = [] then Some (length (m_slots s), s\<lparr> m_slots := m_slots s @ [True] \<rparr>)
      else (let idx = last (m_free_slot_indexes s); s1 = s\<lparr> m_free_slot_indexes := butlast (m_free_slot_indexes s) \<rparr> in
            if idx < length (m_slots s1) \<and> \<not> m_slots s1 ! idx
            then Some (idx, s1\<lparr> m_slots := (m_slots s1)[idx := True] \<rparr>) else None))"

definition remove_slot :: "nat \<Rightarrow> tl \<Rightarrow> tl option" where
  "remove_slot index s =
     (if \<not> index < length (m_slots s) then None
      else if m_shutdown s then Some (s\<lparr> m_slots := (m_slots s)[index := False] \<rparr>)
      else
        Some (run_on_all_threads (RemoveCb (length (ops s)))
          (new_op index 0 0 False
             (s\<lparr> m_slots := (m_slots s)[index := False], m_free_slot_indexes := m_free_slot_indexes s @ [index] \<rparr>))))"

definition shutdown_global_threading_i :: "tl \<Rightarrow> tl option" where
  "shutdown_global_threading_i s = (if m_shutdown s then None else Some (s\<lparr> m_shutdown := True \<rparr>))"

datatype tl_call = AllocateSlot | SetSlot nat nat | RunOnAll nat nat | RunOnAllCompleted nat nat | RemoveSlot nat | ShutdownGlobal

fun tl_api :: "tl_call \<Rightarrow> tl \<Rightarrow> tl option" where
  "tl_api AllocateSlot s = map_option snd (allocate_slot_i s)"
| "tl_api (SetSlot index f) s = Some (set_i index f s)"
| "tl_api (RunOnAll index cb) s = Some (run_on_all_threads_i index cb s)"
| "tl_api (RunOnAllCompleted index cb) s = run_on_all_threads_completed_i index cb s"
| "tl_api (RemoveSlot index) s = remove_slot index s"
| "tl_api ShutdownGlobal s = shutdown_global_threading_i s"

section \<open>Interleaving\<close>

text \<open>A call on the main thread, the next step of that call, and a thread that runs the next callback that was posted to it.
  The main thread has turns when no call is under way.\<close>

datatype tl_step = Api tl_call | Continue | Turn nat

fun tl_enabled :: "tl_step \<Rightarrow> tl \<Rightarrow> bool" where
  "tl_enabled (Api c) s = (todo s = [])"
| "tl_enabled Continue s = (todo s \<noteq> [])"
| "tl_enabled (Turn t) s = (t \<le> n_workers s \<and> queue s t \<noteq> [] \<and> (t = 0 \<longrightarrow> todo s = []))"

fun tl_exec :: "initialize_cb \<Rightarrow> tl_step \<Rightarrow> tl \<Rightarrow> tl option" where
  "tl_exec init (Api c) s = tl_api c s"
| "tl_exec init Continue s =
     (case todo s of
        [] \<Rightarrow> Some s
      | PostTo t cb # rest \<Rightarrow> Some (s\<lparr> todo := rest, queue := (queue s)(t := queue s t @ [cb]) \<rparr>)
      | Do cb # rest \<Rightarrow> run_tl_cb init 0 cb (s\<lparr> todo := rest \<rparr>))"
| "tl_exec init (Turn t) s =
     (case queue s t of [] \<Rightarrow> Some s | cb # rest \<Rightarrow> run_tl_cb init t cb (s\<lparr> queue := (queue s)(t := rest) \<rparr>))"

end
