(* ===== verification/Thread_Local_Props.thy ===== *)
theory Thread_Local_Props
  imports Thread_Local
begin

text \<open>
  What running a callback on all threads promises, under every interleaving of the threads: it runs once on each
  thread, on the object that was set there, and the completion runs once, after all of them. And what removing a
  slot does instead.
\<close>

section \<open>What is pending\<close>

fun posts :: "nat \<Rightarrow> tl_micro list \<Rightarrow> tl_cb list" where
  "posts t [] = []"
| "posts t (PostTo u cb # ms) = (if u = t then cb # posts t ms else posts t ms)"
| "posts t (Do cb # ms) = posts t ms"

fun dos :: "tl_micro list \<Rightarrow> tl_cb list" where
  "dos [] = []"
| "dos (PostTo u cb # ms) = dos ms"
| "dos (Do cb # ms) = cb # dos ms"

text \<open>The callbacks that a thread will run, in order: the main thread ends its own call first.\<close>

definition pending :: "nat \<Rightarrow> tl \<Rightarrow> tl_cb list" where
  "pending t s = (if t = 0 then dos (todo s) @ queue s 0 else queue s t @ posts t (todo s))"

definition updates :: "nat \<Rightarrow> nat \<Rightarrow> tl \<Rightarrow> nat" where
  "updates t k s = length (filter (\<lambda>e. case e of Updated t' k' _ \<Rightarrow> t' = t \<and> k' = k | Completed _ \<Rightarrow> False) (tl_log s))"

definition update_cb :: "tl_op \<Rightarrow> nat \<Rightarrow> nat \<Rightarrow> tl_cb" where
  "update_cb r t k = (if op_completes r \<and> t \<noteq> 0 then GuardCb k else DataCb k)"

definition guard_posts :: "nat \<Rightarrow> tl \<Rightarrow> nat" where
  "guard_posts k s = (\<Sum>t = 1..n_workers s. count_list (pending t s) (GuardCb k))"

text \<open>The indexes that hold the object that was set.\<close>

definition loaded :: "initialize_cb \<Rightarrow> nat \<Rightarrow> tl \<Rightarrow> nat set" where
  "loaded init t s = {i. i < length (m_data s t) \<and> (\<exists>f. was_set s i = Some f \<and> m_data s t ! i = init f t)}"

fun ready :: "tl \<Rightarrow> nat set \<Rightarrow> tl_cb list \<Rightarrow> bool" where
  "ready s I [] = (dom (was_set s) \<subseteq> I)"
| "ready s I (SetCb i f # q) = (was_set s i = Some f \<and> ready s (insert i I) q)"
| "ready s I (DataCb k # q) = (k < length (ops s) \<and> \<not> op_completes (ops s ! k) \<and> op_index (ops s ! k) \<in> I \<and> ready s I q)"
| "ready s I (GuardCb k # q) = (k < length (ops s) \<and> op_completes (ops s ! k) \<and> op_index (ops s ! k) \<in> I \<and> ready s I q)"
| "ready s I (CompleteCb k # q) = (k < length (ops s) \<and> op_completes (ops s ! k) \<and> ready s I q)"
| "ready s I (RemoveCb k # q) = False"

text \<open>The state of the operation \<open>k\<close>.\<close>

definition op_inv :: "nat \<Rightarrow> tl \<Rightarrow> bool" where
  "op_inv k s =
     (let r = ops s ! k in
      (\<forall>t \<le> n_workers s. count_list (pending t s) (update_cb r t k) + updates t k s = 1) \<and>
      (if op_completes r
       then guard_refs r = guard_posts k s \<and> ctx_alive r = (count_list (tl_log s) (Completed k) = 0) \<and>
         count_list (pending 0 s) (CompleteCb k) + count_list (tl_log s) (Completed k) = (if guard_refs r = 0 then 1 else 0)
       else ctx_alive r))"

definition log_inv :: "initialize_cb \<Rightarrow> tl \<Rightarrow> bool" where
  "log_inv init s =
     ((\<forall>k l1 l2. tl_log s = l1 @ Completed k # l2 \<longrightarrow> (\<forall>t \<le> n_workers s. \<exists>obj. Updated t k obj \<in> set l1)) \<and>
      (\<forall>t k obj. Updated t k obj \<in> set (tl_log s) \<longrightarrow>
         k < length (ops s) \<and> (\<exists>f. was_set s (op_index (ops s ! k)) = Some f \<and> obj = init f t)) \<and>
      (\<forall>k. Completed k \<in> set (tl_log s) \<longrightarrow> k < length (ops s) \<and> op_completes (ops s ! k)))"

definition shape :: "tl \<Rightarrow> bool" where
  "shape s =
     ((\<forall>t cb. PostTo t cb \<in> set (todo s) \<longrightarrow> 1 \<le> t \<and> t \<le> n_workers s) \<and> m_free_slot_indexes s = [] \<and>
      (\<forall>cb \<in> set (queue s 0). \<exists>k. cb = CompleteCb k) \<and>
      (\<forall>cb \<in> set (dos (todo s)). \<forall>k. cb \<noteq> CompleteCb k \<and> cb \<noteq> GuardCb k) \<and>
      (\<forall>t k. 1 \<le> t \<longrightarrow> CompleteCb k \<notin> set (pending t s)))"

definition tl_inv :: "initialize_cb \<Rightarrow> tl \<Rightarrow> bool" where
  "tl_inv init s =
     ((\<forall>t \<le> n_workers s. ready s (loaded init t s) (pending t s)) \<and> (\<forall>k < length (ops s). op_inv k s) \<and> log_inv init s \<and> shape s)"

section \<open>Facts about pending callbacks\<close>

lemma ready_mono: "ready s I q \<Longrightarrow> I \<subseteq> J \<Longrightarrow> ready s J q"
proof (induction q arbitrary: I J)
  case (Cons cb q)
  then show ?case by (cases cb) (auto, blast)
qed auto

text \<open>Whether callbacks are ready depends on what was set and on the operations.\<close>

lemma ready_cong:
  assumes "was_set s' = was_set s" "length (ops s') = length (ops s)"
    "\<And>k. k < length (ops s) \<Longrightarrow> op_index (ops s' ! k) = op_index (ops s ! k) \<and> op_completes (ops s' ! k) = op_completes (ops s ! k)"
  shows "ready s' I q = ready s I q"
proof (induction q arbitrary: I)
  case (Cons cb q)
  then show ?case using assms by (cases cb) auto
qed (use assms in simp)

lemma ready_snoc_set:
  assumes "ready s I q" "was_set s i = None"
  shows "ready (s\<lparr> was_set := (was_set s)(i \<mapsto> f) \<rparr>) I (q @ [SetCb i f])"
  using assms(1)
proof (induction q arbitrary: I)
  case (Cons cb q)
  then show ?case using assms(2) by (cases cb) auto
qed auto

lemma ready_cons_set:
  assumes "ready s I q" "was_set s i = None"
  shows "ready (s\<lparr> was_set := (was_set s)(i \<mapsto> f) \<rparr>) (insert i I) q"
  using assms(1)
proof (induction q arbitrary: I)
  case (Cons cb q)
  show ?case
  proof (cases cb)
    case (SetCb j g)
    then show ?thesis using Cons.prems Cons.IH [of "insert j I"] assms(2) by (auto simp: insert_commute [of i j])
  qed (use Cons in auto)
qed auto

lemma ready_snoc:
  assumes "ready s I q"
    "case cb of DataCb k \<Rightarrow> k < length (ops s) \<and> \<not> op_completes (ops s ! k) \<and> op_index (ops s ! k) \<in> dom (was_set s)
      | GuardCb k \<Rightarrow> k < length (ops s) \<and> op_completes (ops s ! k) \<and> op_index (ops s ! k) \<in> dom (was_set s)
      | CompleteCb k \<Rightarrow> k < length (ops s) \<and> op_completes (ops s ! k) | _ \<Rightarrow> False"
  shows "ready s I (q @ [cb])"
  using assms(1)
proof (induction q arbitrary: I)
  case (Cons c q)
  then show ?case by (cases c) auto
qed (use assms(2) in \<open>cases cb; auto\<close>)

text \<open>A new operation changes nothing for the callbacks of the others.\<close>

lemma ready_new_op:
  assumes "ready s I q" "ops s' = ops s @ [r]" "was_set s' = was_set s"
  shows "ready s' I q"
  using assms(1)
proof (induction q arbitrary: I)
  case (Cons cb q)
  then show ?case using assms(2,3) by (cases cb) (auto simp: nth_append)
qed (use assms(3) in simp)

lemma ready_bound:
  assumes "ready s I q" "cb \<in> set q" "cb = DataCb k \<or> cb = GuardCb k \<or> cb = CompleteCb k"
  shows "k < length (ops s)" "cb = DataCb k \<Longrightarrow> \<not> op_completes (ops s ! k)" "cb = GuardCb k \<Longrightarrow> op_completes (ops s ! k)"
  using assms
proof (induction q arbitrary: I)
  case (Cons c q)
  { case 1 then show ?case using Cons by (cases c) auto }
  { case 2 then show ?case using Cons by (cases c) auto }
  { case 3 then show ?case using Cons by (cases c) auto }
qed auto

lemma count_zero: "count_list xs x = 0 \<longleftrightarrow> x \<notin> set xs"
  by (simp add: count_list_0_iff)

lemma posts_map: "posts t (map (\<lambda>u. PostTo u cb) us @ ms) = replicate (count_list us t) cb @ posts t ms"
  by (induction us) auto

lemma dos_map: "dos (map (\<lambda>u. PostTo u cb) us @ ms) = dos ms"
  by (induction us) auto

lemma registered_count: "count_list (registered_threads s) t = (if 1 \<le> t \<and> t \<le> n_workers s then 1 else 0)"
  by (auto simp: registered_threads_def count_list_distinct)

text \<open>An operation is concerned with its own callbacks only.\<close>

lemma op_inv_cong:
  assumes n: "n_workers s' = n_workers s" and "ops s' ! k = ops s ! k"
    and c: "\<And>t c. t \<le> n_workers s \<Longrightarrow> c \<in> {DataCb k, GuardCb k, CompleteCb k} \<Longrightarrow> count_list (pending t s') c = count_list (pending t s) c"
    and "\<And>t. updates t k s' = updates t k s" "count_list (tl_log s') (Completed k) = count_list (tl_log s) (Completed k)"
  shows "op_inv k s' = op_inv k s"
proof -
  have "guard_posts k s' = guard_posts k s" unfolding guard_posts_def n by (rule sum.cong) (simp_all add: c)
  then show ?thesis by (simp add: op_inv_def Let_def update_cb_def assms)
qed

section \<open>Running a callback\<close>

text \<open>The callback \<open>cb\<close> was taken off what thread \<open>t\<close> has to run, and nothing else happened.\<close>

definition consumed :: "nat \<Rightarrow> tl_cb \<Rightarrow> tl \<Rightarrow> tl \<Rightarrow> bool" where
  "consumed t cb s s0 =
     (t \<le> n_workers s \<and> pending t s = cb # pending t s0 \<and> (\<forall>u. u \<noteq> t \<longrightarrow> pending u s0 = pending u s) \<and> shape s0 \<and>
      n_workers s0 = n_workers s \<and> m_data s0 = m_data s \<and> ops s0 = ops s \<and> tl_log s0 = tl_log s \<and> was_set s0 = was_set s)"

lemma pending_cong [simp]:
  "pending t (set_op k r s) = pending t s" "pending t (set_thread_local u i obj s) = pending t s"
  "pending t (s\<lparr> tl_log := l \<rparr>) = pending t s"
  by (simp_all add: pending_def set_op_def set_thread_local_def Let_def)

lemma shape_cong [simp]:
  "shape (set_op k r s) = shape s" "shape (set_thread_local u i obj s) = shape s" "shape (s\<lparr> tl_log := l \<rparr>) = shape s"
  by (simp_all add: shape_def) (simp_all add: set_op_def set_thread_local_def Let_def)

lemma set_thread_local_sel [simp]:
  "n_workers (set_thread_local t i obj s) = n_workers s" "ops (set_thread_local t i obj s) = ops s"
  "tl_log (set_thread_local t i obj s) = tl_log s" "was_set (set_thread_local t i obj s) = was_set s"
  by (simp_all add: set_thread_local_def Let_def)

lemma set_op_sel [simp]:
  "n_workers (set_op k r s) = n_workers s" "m_data (set_op k r s) = m_data s" "tl_log (set_op k r s) = tl_log s"
  "was_set (set_op k r s) = was_set s" "ops (set_op k r s) = (ops s)[k := r]" "queue (set_op k r s) = queue s"
  "m_free_slot_indexes (set_op k r s) = m_free_slot_indexes s"
  by (simp_all add: set_op_def)

lemma consumed_count:
  assumes "consumed t cb s s0"
  shows "count_list (pending u s) c = count_list (pending u s0) c + (if u = t \<and> c = cb then 1 else 0)"
  using assms by (cases "u = t") (auto simp: consumed_def)

lemma consumed_guard_posts:
  assumes "consumed t cb s s0"
  shows "guard_posts k s = guard_posts k s0 + (if 1 \<le> t \<and> cb = GuardCb k then 1 else 0)"
proof -
  have n: "n_workers s0 = n_workers s" "t \<le> n_workers s" using assms by (simp_all add: consumed_def)
  have "guard_posts k s = (\<Sum>u = 1..n_workers s. count_list (pending u s0) (GuardCb k) + (if u = t then (if cb = GuardCb k then 1 else 0) else 0))"
    unfolding guard_posts_def consumed_count [OF assms] by (rule sum.cong) auto
  then show ?thesis using n by (simp add: guard_posts_def sum.distrib sum.delta)
qed

lemma loaded_set: "was_set s i = Some f \<Longrightarrow> insert i (loaded init t s) \<subseteq> loaded init t (set_thread_local t i (init f t) s)"
  by (auto simp: loaded_def set_thread_local_def Let_def nth_append nth_list_update)

lemma loaded_other: "u \<noteq> t \<Longrightarrow> loaded init u (set_thread_local t i obj s) = loaded init u s"
  by (simp add: loaded_def set_thread_local_def Let_def)

lemma consumed_inv:
  assumes "tl_inv init s" "consumed t cb s s0"
  shows "ready s0 (loaded init t s0) (cb # pending t s0)" "u \<le> n_workers s \<Longrightarrow> u \<noteq> t \<Longrightarrow> ready s0 (loaded init u s0) (pending u s0)"
    "log_inv init s0" "shape s0"
proof -
  have f: "m_data s0 = m_data s" "ops s0 = ops s" "tl_log s0 = tl_log s" "was_set s0 = was_set s" "n_workers s0 = n_workers s"
    using assms(2) by (simp_all add: consumed_def)
  have e: "ready s0 I q = ready s I q" "loaded init u s0 = loaded init u s" for I q u
    by (rule ready_cong) (simp_all add: f loaded_def)
  show "ready s0 (loaded init t s0) (cb # pending t s0)" using assms by (fastforce simp: e tl_inv_def consumed_def)
  show "ready s0 (loaded init u s0) (pending u s0)" if "u \<le> n_workers s" "u \<noteq> t"
    using assms that by (simp add: e tl_inv_def consumed_def)
  show "log_inv init s0" "shape s0" using assms by (simp_all add: tl_inv_def log_inv_def consumed_def)
qed

lemma run_set_ok:
  assumes inv: "tl_inv init s" and c: "consumed t (SetCb i f) s s0"
  shows "\<exists>s'. run_tl_cb init t (SetCb i f) s0 = Some s' \<and> tl_inv init s'"
proof -
  let ?s = "set_thread_local t i (init f t) s0"
  note s0 = consumed_inv [OF inv c]
  have n: "n_workers s0 = n_workers s" "ops s0 = ops s" "tl_log s0 = tl_log s" using c by (simp_all add: consumed_def)
  have r: "ready ?s I q = ready s0 I q" for I q by (rule ready_cong) simp_all
  have "ready ?s (loaded init u ?s) (pending u ?s)" if "u \<le> n_workers s" for u
  proof (cases "u = t")
    case True
    then show ?thesis using s0(1) ready_mono [OF _ loaded_set] by (auto simp: r)
  next
    case False
    then show ?thesis using s0(2) [OF that] by (simp add: r loaded_other)
  qed
  moreover have "op_inv k ?s" if "k < length (ops s)" for k
  proof -
    have "op_inv k s" using inv that by (simp add: tl_inv_def)
    moreover have "op_inv k ?s = op_inv k s"
      by (rule op_inv_cong) (auto simp: n consumed_count [OF c] updates_def)
    ultimately show ?thesis by simp
  qed
  moreover have "log_inv init ?s" using s0(3) by (simp add: log_inv_def)
  ultimately show ?thesis using s0(4) n by (simp add: tl_inv_def)
qed

lemma split_snoc: "l @ [e] = l1 @ c # l2 \<longleftrightarrow> (l2 = [] \<and> l1 = l \<and> c = e) \<or> (\<exists>l3. l2 = l3 @ [e] \<and> l = l1 @ c # l3)"
  by (cases l2 rule: rev_cases) auto

lemma log_inv_update:
  assumes "log_inv init s" "k < length (ops s)" "was_set s (op_index (ops s ! k)) = Some f"
  shows "log_inv init (s\<lparr> tl_log := tl_log s @ [Updated t k (init f t)] \<rparr>)"
  using assms by (auto simp: log_inv_def split_snoc)

lemma log_inv_complete:
  assumes "log_inv init s" "k < length (ops s)" "op_completes (ops s ! k)" "\<And>t. t \<le> n_workers s \<Longrightarrow> \<exists>obj. Updated t k obj \<in> set (tl_log s)"
  shows "log_inv init (s\<lparr> tl_log := tl_log s @ [Completed k] \<rparr>)"
  using assms by (auto simp: log_inv_def split_snoc)

lemma nth_update_field: "g r = g (xs ! k) \<Longrightarrow> g (xs[k := r] ! j) = g (xs ! j)"
  by (cases "k < length xs"; cases "j = k") (simp_all add: list_update_beyond)

lemma log_inv_set_op:
  assumes "log_inv init s" "op_index r = op_index (ops s ! k)" "op_completes r = op_completes (ops s ! k)"
  shows "log_inv init (set_op k r s)"
proof -
  have "op_index ((ops s)[k := r] ! j) = op_index (ops s ! j)" "op_completes ((ops s)[k := r] ! j) = op_completes (ops s ! j)" for j
    using assms(2,3) by (simp_all add: nth_update_field [of op_index] nth_update_field [of op_completes])
  then show ?thesis using assms(1) by (simp add: log_inv_def)
qed

lemma ready_set_op:
  assumes "op_index r = op_index (ops s ! k)" "op_completes r = op_completes (ops s ! k)"
  shows "ready (set_op k r s) I q = ready s I q"
  by (rule ready_cong) (use nth_update_field [of op_index, OF assms(1)] nth_update_field [of op_completes, OF assms(2)] in simp_all)

lemma updates_snoc [simp]:
  "updates t k (s\<lparr> tl_log := tl_log s @ [Updated t' k' obj] \<rparr>) = updates t k s + (if t' = t \<and> k' = k then 1 else 0)"
  "updates t k (s\<lparr> tl_log := tl_log s @ [Completed k'] \<rparr>) = updates t k s"
  "updates t k (set_op j r s) = updates t k s"
  by (simp_all add: updates_def)

lemma updates_pos: "0 < updates t k s \<Longrightarrow> \<exists>obj. Updated t k obj \<in> set (tl_log s)"
proof -
  assume "0 < updates t k s"
  then obtain e where "e \<in> set (tl_log s)" "case e of Updated t' k' _ \<Rightarrow> t' = t \<and> k' = k | Completed _ \<Rightarrow> False"
    by (auto simp: updates_def filter_empty_conv)
  then show "\<exists>obj. Updated t k obj \<in> set (tl_log s)" by (auto split: tl_event.splits)
qed

lemma loaded_cong [simp]: "loaded init t (set_op k r s) = loaded init t s" "loaded init t (s\<lparr> tl_log := l \<rparr>) = loaded init t s"
  by (simp_all add: loaded_def)

lemma ready_log [simp]: "ready (s\<lparr> tl_log := l \<rparr>) I q = ready s I q"
  by (rule ready_cong) simp_all

lemma guard_posts_cong [simp]: "guard_posts k (set_op j r s) = guard_posts k s" "guard_posts k (s\<lparr> tl_log := l \<rparr>) = guard_posts k s"
  by (simp_all add: guard_posts_def)

lemma data_callback_loaded:
  assumes "k < length (ops s)" "ctx_alive (ops s ! k)" "op_index (ops s ! k) \<in> loaded init t s"
  shows "\<exists>f. was_set s (op_index (ops s ! k)) = Some f \<and>
    data_callback_cb t k s = Some (s\<lparr> tl_log := tl_log s @ [Updated t k (init f t)] \<rparr>)"
  using assms by (auto simp: data_callback_cb_def get_worker_def loaded_def)

text \<open>The invariant of the other operations does not notice that a callback of \<open>k\<close> is run.\<close>

lemma op_inv_other:
  assumes c: "consumed t cb s s0" and cb: "cb = DataCb k \<or> cb = GuardCb k \<or> cb = CompleteCb k" and j: "op_inv j s" "j \<noteq> k"
    and s': "n_workers s' = n_workers s" "ops s' ! j = ops s ! j" "\<And>u. updates u j s' = updates u j s"
    "count_list (tl_log s') (Completed j) = count_list (tl_log s) (Completed j)"
    "\<And>u c. c \<in> {DataCb j, GuardCb j, CompleteCb j} \<Longrightarrow> count_list (pending u s') c = count_list (pending u s0) c"
  shows "op_inv j s'"
proof -
  have "op_inv j s' = op_inv j s"
    by (rule op_inv_cong) (use s' consumed_count [OF c] cb j(2) in auto)
  then show ?thesis using j(1) by simp
qed

lemma run_data_ok:
  assumes inv: "tl_inv init s" and c: "consumed t (DataCb k) s s0"
  shows "\<exists>s'. run_tl_cb init t (DataCb k) s0 = Some s' \<and> tl_inv init s'"
proof -
  note s0 = consumed_inv [OF inv c]
  have n: "n_workers s0 = n_workers s" "ops s0 = ops s" "tl_log s0 = tl_log s" "t \<le> n_workers s" using c by (simp_all add: consumed_def)
  have k: "k < length (ops s)" "\<not> op_completes (ops s ! k)" "op_index (ops s0 ! k) \<in> loaded init t s0"
    using s0(1) n by simp_all
  have op: "op_inv k s" using inv k(1) by (simp add: tl_inv_def)
  then have alive: "ctx_alive (ops s ! k)" using k(2) by (simp add: op_inv_def Let_def)
  then obtain f where f: "was_set s0 (op_index (ops s0 ! k)) = Some f"
    "data_callback_cb t k s0 = Some (s0\<lparr> tl_log := tl_log s0 @ [Updated t k (init f t)] \<rparr>)"
    using data_callback_loaded k n by metis
  let ?s = "s0\<lparr> tl_log := tl_log s0 @ [Updated t k (init f t)] \<rparr>"
  have "ready ?s (loaded init u ?s) (pending u ?s)" if "u \<le> n_workers s" for u
    using s0(1) s0(2) [OF that] by (cases "u = t") simp_all
  moreover have "op_inv j ?s" if "j < length (ops s)" for j
  proof (cases "j = k")
    case True
    have "count_list (pending u s0) (DataCb k) + updates u k ?s = 1" if "u \<le> n_workers s" for u
      using op that k(2) consumed_count [OF c, of u "DataCb k"] n(3) by (auto simp: op_inv_def update_cb_def updates_def)
    then show ?thesis using True k(2) alive n by (simp add: op_inv_def update_cb_def)
  next
    case False
    have j: "op_inv j s" using inv that by (simp add: tl_inv_def)
    show ?thesis by (rule op_inv_other [OF c _ j False]) (use n False in \<open>auto simp: updates_def\<close>)
  qed
  moreover have "log_inv init ?s" using log_inv_update [OF s0(3)] k(1) n f(1) by simp
  ultimately show ?thesis using f(2) s0(4) n by (simp add: tl_inv_def)
qed

lemma shape_pending:
  assumes "shape s"
  shows "1 \<le> t \<Longrightarrow> CompleteCb k \<notin> set (pending t s)" "GuardCb k \<notin> set (pending 0 s)"
  using assms by (auto simp: shape_def) (auto simp: pending_def)

lemma consumed_in: "consumed t cb s s0 \<Longrightarrow> cb \<in> set (pending t s)"
  by (simp add: consumed_def)

lemma consumed_worker: "tl_inv init s \<Longrightarrow> consumed t (GuardCb k) s s0 \<Longrightarrow> 1 \<le> t"
  using shape_pending(2) [of s k] consumed_in [of t "GuardCb k" s s0] by (cases t) (simp_all add: tl_inv_def)

lemma consumed_main: "tl_inv init s \<Longrightarrow> consumed t (CompleteCb k) s s0 \<Longrightarrow> t = 0"
  using shape_pending(1) [of s t k] consumed_in [of t "CompleteCb k" s s0] by (cases t) (simp_all add: tl_inv_def)

lemma op_inv_count: "op_inv k s \<Longrightarrow> t \<le> n_workers s \<Longrightarrow> count_list (pending t s) (update_cb (ops s ! k) t k) + updates t k s = 1"
  by (simp only: op_inv_def Let_def)

lemma update_cb_neq [simp]: "update_cb r t k \<noteq> CompleteCb j" "update_cb r t k \<noteq> SetCb i f"
  by (simp_all add: update_cb_def)

lemma update_cb_upd [simp]: "update_cb (r\<lparr> ctx_alive := a \<rparr>) = update_cb r" "update_cb (r\<lparr> guard_refs := n \<rparr>) = update_cb r"
  by (simp_all add: update_cb_def fun_eq_iff)

text \<open>What \<open>guard_unref\<close> posts.\<close>

lemma guard_unref_sel:
  "n_workers (guard_unref k s) = n_workers s" "m_data (guard_unref k s) = m_data s" "tl_log (guard_unref k s) = tl_log s"
  "was_set (guard_unref k s) = was_set s" "todo (guard_unref k s) = todo s"
  "ops (guard_unref k s) = (ops s)[k := (ops s ! k)\<lparr> guard_refs := guard_refs (ops s ! k) - 1 \<rparr>]"
  "pending u (guard_unref k s) = pending u s @ (if u = 0 \<and> guard_refs (ops s ! k) \<le> 1 then [CompleteCb k] else [])"
  by (simp_all add: guard_unref_def Let_def) (simp_all add: pending_def set_op_def)

lemma shape_guard_unref: "shape s \<Longrightarrow> shape (guard_unref k s)"
  by (auto simp: shape_def guard_unref_sel) (auto simp: guard_unref_def Let_def split: if_splits)

lemma run_guard_ok:
  assumes inv: "tl_inv init s" and c: "consumed t (GuardCb k) s s0"
  shows "\<exists>s'. run_tl_cb init t (GuardCb k) s0 = Some s' \<and> tl_inv init s'"
proof -
  note s0 = consumed_inv [OF inv c] and t = consumed_worker [OF inv c]
  have n: "n_workers s0 = n_workers s" "ops s0 = ops s" "tl_log s0 = tl_log s" "t \<le> n_workers s" using c by (simp_all add: consumed_def)
  have k: "k < length (ops s)" "op_completes (ops s ! k)" "op_index (ops s0 ! k) \<in> loaded init t s0" using s0(1) n by simp_all
  have op: "op_inv k s" using inv k(1) by (simp add: tl_inv_def)
  have posts: "guard_refs (ops s ! k) = guard_posts k s0 + 1" using op k(2) consumed_guard_posts [OF c, of k] t by (simp add: op_inv_def Let_def)
  then have done0: "count_list (pending 0 s) (CompleteCb k) = 0" "count_list (tl_log s) (Completed k) = 0" "ctx_alive (ops s ! k)"
    using op k(2) by (simp_all add: op_inv_def Let_def)
  obtain f where f: "was_set s0 (op_index (ops s0 ! k)) = Some f"
    "data_callback_cb t k s0 = Some (s0\<lparr> tl_log := tl_log s0 @ [Updated t k (init f t)] \<rparr>)"
    using data_callback_loaded [of k s0 init t] k n done0(3) by auto
  define s1 where "s1 = s0\<lparr> tl_log := tl_log s0 @ [Updated t k (init f t)] \<rparr>"
  define s' where "s' = guard_unref k s1"
  have s1: "n_workers s1 = n_workers s" "ops s1 = ops s" "was_set s1 = was_set s0" "m_data s1 = m_data s0" "\<And>u. pending u s1 = pending u s0"
    by (simp_all add: s1_def n)
  have run: "run_tl_cb init t (GuardCb k) s0 = Some s'"
    using k(1) n(2) f(2) posts by (simp add: rp_cb_guard_cb_def s'_def s1_def)
  have rs: "ready s' I q = ready s0 I q" for I q
    by (rule ready_cong) (use n(2) nth_update_field [of op_index _ "ops s" k] nth_update_field [of op_completes _ "ops s" k] in \<open>simp_all add: s'_def guard_unref_sel s1\<close>)
  have ld: "loaded init u s' = loaded init u s0" for u by (simp add: loaded_def s'_def guard_unref_sel s1)
  have "ready s' (loaded init u s') (pending u s')" if "u \<le> n_workers s" for u
  proof -
    have "ready s0 (loaded init u s0) (pending u s0)" using s0(1) s0(2) [OF that] by (cases "u = t") simp_all
    moreover have "pending u s' = pending u s0 @ (if u = 0 \<and> guard_refs (ops s ! k) \<le> 1 then [CompleteCb k] else [])"
      by (simp add: s'_def guard_unref_sel s1)
    ultimately show ?thesis using k n(2) by (auto simp: rs ld intro!: ready_snoc)
  qed
  moreover have "op_inv j s'" if "j < length (ops s)" for j
  proof (cases "j = k")
    case True
    have u: "count_list (pending u s') (update_cb (ops s ! k) u k) + updates u k s' = 1" if "u \<le> n_workers s" for u
      using op that k(2) consumed_count [OF c, of u "update_cb (ops s ! k) u k"] n(3) t
      by (auto simp: op_inv_def Let_def s'_def guard_unref_sel s1 update_cb_def updates_def s1_def)
    have "guard_posts k s' = guard_posts k s0" unfolding guard_posts_def by (rule sum.cong) (auto simp: s'_def guard_unref_sel s1 n)
    moreover have "ops s' ! k = (ops s ! k)\<lparr> guard_refs := guard_posts k s0 \<rparr>" using k(1) posts by (simp add: s'_def guard_unref_sel s1)
    moreover have "count_list (pending 0 s') (CompleteCb k) = (if guard_posts k s0 = 0 then 1 else 0)"
      using done0(1) consumed_count [OF c, of 0 "CompleteCb k"] posts by (simp add: s'_def guard_unref_sel s1)
    moreover have "tl_log s' = tl_log s @ [Updated t k (init f t)]" "n_workers s' = n_workers s"
      by (simp_all add: s'_def guard_unref_sel s1_def n)
    ultimately show ?thesis using u done0(2,3) k(2) True by (simp add: op_inv_def Let_def update_cb_def)
  next
    case False
    have j: "op_inv j s" using inv that by (simp add: tl_inv_def)
    show ?thesis
      by (rule op_inv_other [OF c _ j False]) (use n False in \<open>auto simp: s'_def guard_unref_sel s1 updates_def s1_def\<close>)
  qed
  moreover have "log_inv init s1" using log_inv_update [OF s0(3)] k(1) n f(1) by (simp add: s1_def)
  then have "log_inv init s'"
    using nth_update_field [of op_index _ "ops s" k] nth_update_field [of op_completes _ "ops s" k]
    by (simp add: s'_def log_inv_def guard_unref_sel s1)
  moreover have "shape s'" using s0(4) shape_guard_unref by (simp add: s'_def s1_def)
  moreover have "length (ops s') = length (ops s)" "n_workers s' = n_workers s" by (simp_all add: s'_def guard_unref_sel s1)
  ultimately show ?thesis using run by (simp add: tl_inv_def)
qed

lemma run_complete_ok:
  assumes inv: "tl_inv init s" and c: "consumed t (CompleteCb k) s s0"
  shows "\<exists>s'. run_tl_cb init t (CompleteCb k) s0 = Some s' \<and> tl_inv init s'"
proof -
  note s0 = consumed_inv [OF inv c] and t = consumed_main [OF inv c]
  have n: "n_workers s0 = n_workers s" "ops s0 = ops s" "tl_log s0 = tl_log s" using c by (simp_all add: consumed_def)
  have k: "k < length (ops s)" "op_completes (ops s ! k)" using s0(1) n by simp_all
  have op: "op_inv k s" using inv k(1) by (simp add: tl_inv_def)
  have cnt: "count_list (pending 0 s) (CompleteCb k) = count_list (pending 0 s0) (CompleteCb k) + 1" using consumed_count [OF c] t by simp
  then have r: "guard_refs (ops s ! k) = 0" "count_list (pending 0 s0) (CompleteCb k) = 0" "count_list (tl_log s) (Completed k) = 0" "ctx_alive (ops s ! k)"
    using op k(2) by (auto simp: op_inv_def Let_def split: if_splits)
  then have g: "guard_posts k s = 0" using op k(2) by (simp add: op_inv_def Let_def)
  have all: "\<exists>obj. Updated u k obj \<in> set (tl_log s)" if "u \<le> n_workers s" for u
  proof -
    have "count_list (pending u s) (update_cb (ops s ! k) u k) = 0"
    proof (cases "u = 0")
      case True
      have "ready s (loaded init 0 s) (pending 0 s)" using inv by (simp add: tl_inv_def)
      then have "DataCb k \<notin> set (pending 0 s)" using ready_bound(2) [of s _ "pending 0 s" "DataCb k" k] k(2) by blast
      then show ?thesis using True by (simp add: update_cb_def count_zero)
    next
      case False
      then show ?thesis using g that k(2) by (auto simp: guard_posts_def update_cb_def)
    qed
    then have "updates u k s = 1" using op_inv_count [OF op that] by simp
    then show ?thesis using updates_pos [of u k s] by simp
  qed
  let ?l = "s0\<lparr> tl_log := tl_log s0 @ [Completed k] \<rparr>"
  let ?s = "set_op k ((ops s0 ! k)\<lparr> ctx_alive := False \<rparr>) ?l"
  have run: "run_tl_cb init t (CompleteCb k) s0 = Some ?s" using k(1) n(2) r(4) by (simp add: internal_all_threads_complete_cb_def)
  have rs: "ready ?s I q = ready s0 I q" for I q by (simp add: ready_set_op)
  have "ready ?s (loaded init u ?s) (pending u ?s)" if "u \<le> n_workers s" for u
    using s0(1) s0(2) [OF that] by (cases "u = t") (simp_all add: rs)
  moreover have "op_inv j ?s" if "j < length (ops s)" for j
  proof (cases "j = k")
    case True
    have "updates u k ?s = updates u k s" for u by (simp add: updates_def n)
    then have "count_list (pending u ?s) (update_cb (ops s ! k) u k) + updates u k ?s = 1" if "u \<le> n_workers s" for u
      using op_inv_count [OF op that] consumed_count [OF c, of u "update_cb (ops s ! k) u k"] by simp
    moreover have "guard_posts k ?s = 0" using g consumed_guard_posts [OF c, of k] by simp
    moreover have "ops ?s ! k = (ops s ! k)\<lparr> ctx_alive := False \<rparr>" "n_workers ?s = n_workers s" "pending 0 ?s = pending 0 s0"
      "tl_log ?s = tl_log s @ [Completed k]" using k(1) n by simp_all
    ultimately show ?thesis using r k(2) True unfolding op_inv_def Let_def by (simp del: set_op_sel pending_cong updates_snoc)
  next
    case False
    have j: "op_inv j s" using inv that by (simp add: tl_inv_def)
    show ?thesis by (rule op_inv_other [OF c _ j False]) (use n False in \<open>auto simp: updates_def\<close>)
  qed
  moreover have "log_inv init ?s" by (intro log_inv_set_op log_inv_complete) (use s0(3) k n all in simp_all)
  ultimately show ?thesis using run s0(4) n by (simp add: tl_inv_def)
qed

lemma run_tl_cb_ok:
  assumes inv: "tl_inv init s" and c: "consumed t cb s s0"
  shows "\<exists>s'. run_tl_cb init t cb s0 = Some s' \<and> tl_inv init s'"
proof (cases cb)
  case (SetCb i f)
  then show ?thesis using run_set_ok [OF inv] c by simp
next
  case (DataCb k)
  then show ?thesis using run_data_ok [OF inv] c by simp
next
  case (GuardCb k)
  then show ?thesis using run_guard_ok [OF inv] c by simp
next
  case (CompleteCb k)
  then show ?thesis using run_complete_ok [OF inv] c by simp
next
  case (RemoveCb k)
  then show ?thesis using consumed_inv(1) [OF inv c] by simp
qed

section \<open>Steps\<close>

lemma tl_inv_cong:
  assumes inv: "tl_inv init s" and "shape s'"
    and e: "n_workers s' = n_workers s" "m_data s' = m_data s" "ops s' = ops s" "tl_log s' = tl_log s" "was_set s' = was_set s"
    and p: "\<And>t. pending t s' = pending t s"
  shows "tl_inv init s'"
proof -
  have "ready s' I q = ready s I q" for I q by (rule ready_cong) (simp_all add: e)
  moreover have "op_inv k s' = op_inv k s" for k by (rule op_inv_cong) (simp_all add: e p updates_def)
  moreover have "loaded init t s' = loaded init t s" for t by (simp add: loaded_def e)
  ultimately show ?thesis using assms by (simp add: tl_inv_def log_inv_def)
qed

lemma turn_ok:
  assumes inv: "tl_inv init s" and en: "tl_enabled (Turn t) s"
  shows "\<exists>s'. tl_exec init (Turn t) s = Some s' \<and> tl_inv init s'"
proof -
  obtain cb rest where q: "queue s t = cb # rest" using en by (cases "queue s t") auto
  let ?s = "s\<lparr> queue := (queue s)(t := rest) \<rparr>"
  have p: "pending u s = (if u = t then cb # pending t ?s else pending u ?s)" for u
    using en q by (cases "t = 0") (auto simp: pending_def)
  have "shape s" using inv by (simp add: tl_inv_def)
  then have "shape ?s" using q p by (auto simp: shape_def split: if_splits)
  then have "consumed t cb s ?s" using en p by (simp add: consumed_def)
  then show ?thesis using run_tl_cb_ok [OF inv] q by simp
qed

lemma continue_ok:
  assumes inv: "tl_inv init s" and en: "tl_enabled Continue s"
  shows "\<exists>s'. tl_exec init Continue s = Some s' \<and> tl_inv init s'"
proof -
  obtain m rest where m: "todo s = m # rest" using en by (cases "todo s") auto
  have sh: "shape s" using inv by (simp add: tl_inv_def)
  show ?thesis
  proof (cases m)
    case (PostTo t cb)
    let ?s = "s\<lparr> todo := rest, queue := (queue s)(t := queue s t @ [cb]) \<rparr>"
    have t: "1 \<le> t" "t \<le> n_workers s" using sh m PostTo by (auto simp: shape_def)
    then have p: "pending u ?s = pending u s" for u using m PostTo by (auto simp: pending_def)
    have "shape ?s" using sh m PostTo t p by (auto simp: shape_def)
    then have "tl_inv init ?s" using p by (intro tl_inv_cong [OF inv]) simp_all
    then show ?thesis using m PostTo by simp
  next
    case (Do cb)
    let ?s = "s\<lparr> todo := rest \<rparr>"
    have p: "pending u s = (if u = 0 then cb # pending 0 ?s else pending u ?s)" for u using m Do by (auto simp: pending_def)
    then have "shape ?s" using sh m Do by (auto simp: shape_def)
    then have "consumed 0 cb s ?s" using p by (simp add: consumed_def)
    then show ?thesis using run_tl_cb_ok [OF inv] m Do by simp
  qed
qed

lemma set_i_ok:
  assumes inv: "tl_inv init s" and idle: "todo s = []" and new: "was_set s i = None"
  shows "tl_inv init (set_i i f s)"
proof -
  let ?s = "set_i i f s"
  have p: "pending u ?s = (if u = 0 then SetCb i f # pending 0 s else if u \<le> n_workers s then pending u s @ [SetCb i f] else pending u s)" for u
    using idle by (simp add: pending_def set_i_def posts_map dos_map registered_count)
  have f: "ops ?s = ops s" "n_workers ?s = n_workers s" "tl_log ?s = tl_log s" "m_data ?s = m_data s" "was_set ?s = (was_set s)(i \<mapsto> f)"
    by (simp_all add: set_i_def)
  have r: "ready ?s I q = ready (s\<lparr> was_set := (was_set s)(i \<mapsto> f) \<rparr>) I q" for I q by (rule ready_cong) (simp_all add: set_i_def)
  have ld: "loaded init u s \<subseteq> loaded init u ?s" for u using new by (auto simp: loaded_def f)
  have "ready ?s (loaded init u ?s) (pending u ?s)" if u: "u \<le> n_workers s" for u
  proof -
    have "ready s (loaded init u s) (pending u s)" using inv u by (simp add: tl_inv_def)
    then have "ready ?s (loaded init u s) (pending u ?s)"
      using ready_snoc_set [OF _ new] ready_cons_set [OF _ new] u by (auto simp: p r)
    then show ?thesis using ready_mono ld by blast
  qed
  moreover have "op_inv k ?s" if "k < length (ops s)" for k
  proof -
    have "op_inv k s" using inv that by (simp add: tl_inv_def)
    moreover have "op_inv k ?s = op_inv k s" by (rule op_inv_cong) (auto simp: f p updates_def)
    ultimately show ?thesis by simp
  qed
  moreover have "log_inv init ?s" using inv new by (fastforce simp: log_inv_def f tl_inv_def)
  moreover have "shape ?s" using inv idle p by (auto simp: shape_def tl_inv_def set_i_def dos_map registered_threads_def)
  ultimately show ?thesis by (simp add: tl_inv_def f)
qed

text \<open>Between calls the main thread has set everything that was set.\<close>

lemma ready_completes: "ready s I q \<Longrightarrow> \<forall>cb \<in> set q. \<exists>k. cb = CompleteCb k \<Longrightarrow> dom (was_set s) \<subseteq> I"
proof (induction q)
  case (Cons cb q)
  then show ?case by (cases cb) auto
qed simp

lemma main_loaded:
  assumes "tl_inv init s" "todo s = []" "was_set s i \<noteq> None"
  shows "i \<in> loaded init 0 s"
proof -
  have "ready s (loaded init 0 s) (queue s 0)" "\<forall>cb \<in> set (queue s 0). \<exists>k. cb = CompleteCb k"
    using assms by (auto simp: tl_inv_def shape_def pending_def)
  then show ?thesis using ready_completes assms(3) by blast
qed

text \<open>No callback and no event belongs to an operation that does not exist yet.\<close>

lemma fresh_op:
  assumes inv: "tl_inv init s" and k: "k = length (ops s)"
  shows "t \<le> n_workers s \<Longrightarrow> c \<in> {DataCb k, GuardCb k, CompleteCb k} \<Longrightarrow> count_list (pending t s) c = 0"
    "updates t k s = 0" "count_list (tl_log s) (Completed k) = 0"
proof -
  show "count_list (pending t s) c = 0" if "t \<le> n_workers s" "c \<in> {DataCb k, GuardCb k, CompleteCb k}"
  proof -
    have "ready s (loaded init t s) (pending t s)" using inv that(1) by (simp add: tl_inv_def)
    from ready_bound(1) [OF this, of c k] have "c \<notin> set (pending t s)" using that(2) k by auto
    then show ?thesis by (simp add: count_zero)
  qed
  have l: "log_inv init s" using inv by (simp add: tl_inv_def)
  show "updates t k s = 0"
  proof (rule ccontr)
    assume "updates t k s \<noteq> 0"
    then obtain obj where "Updated t k obj \<in> set (tl_log s)" using updates_pos by blast
    then have "k < length (ops s)" using l unfolding log_inv_def by blast
    then show False using k by simp
  qed
  show "count_list (tl_log s) (Completed k) = 0" using l k by (auto simp: log_inv_def count_zero)
qed

lemma run_on_all_ok:
  assumes inv: "tl_inv init s" and idle: "todo s = []" and set_i: "was_set s i \<noteq> None"
  shows "tl_inv init (run_on_all_threads_i i cb s)"
proof -
  let ?s = "run_on_all_threads_i i cb s" and ?k = "length (ops s)"
  let ?r = "\<lparr> op_index = i, op_cb = cb, ctx_alive = True, guard_refs = 0, op_completes = False \<rparr>"
  have p: "pending u ?s = (if u = 0 then DataCb ?k # pending 0 s else if u \<le> n_workers s then pending u s @ [DataCb ?k] else pending u s)" for u
    using idle by (simp add: pending_def run_on_all_threads_i_def run_on_all_threads_def new_op_def posts_map dos_map registered_count)
  have f: "ops ?s = ops s @ [?r]" "n_workers ?s = n_workers s" "tl_log ?s = tl_log s" "m_data ?s = m_data s" "was_set ?s = was_set s"
    by (simp_all add: run_on_all_threads_i_def run_on_all_threads_def new_op_def)
  have ld: "loaded init u ?s = loaded init u s" for u by (simp add: loaded_def f)
  have "ready ?s (loaded init u ?s) (pending u ?s)" if u: "u \<le> n_workers s" for u
  proof -
    have "ready s (loaded init u s) (pending u s)" using inv u by (simp add: tl_inv_def)
    then have "ready ?s (loaded init u s) (pending u s)" using ready_new_op f(1,5) by blast
    then show ?thesis using main_loaded [OF inv idle set_i] set_i u by (auto simp: p ld f intro!: ready_snoc)
  qed
  moreover have "op_inv k ?s" if "k < Suc ?k" for k
  proof (cases "k = ?k")
    case True
    have "updates t k ?s = 0" "t \<le> n_workers s \<Longrightarrow> count_list (pending t ?s) (DataCb k) = 1" for t
      using fresh_op(1,2) [OF inv True] f(3) True by (auto simp: updates_def p)
    then show ?thesis using True by (simp add: op_inv_def f update_cb_def)
  next
    case False
    then have "op_inv k s" using inv that by (simp add: tl_inv_def)
    moreover have "op_inv k ?s = op_inv k s" by (rule op_inv_cong) (use False that in \<open>auto simp: f p updates_def nth_append\<close>)
    ultimately show ?thesis by simp
  qed
  moreover have "log_inv init ?s" using inv by (fastforce simp: log_inv_def f tl_inv_def nth_append)
  moreover have "shape ?s"
    using inv p by (auto simp: shape_def tl_inv_def run_on_all_threads_i_def run_on_all_threads_def new_op_def dos_map registered_threads_def)
  ultimately show ?thesis by (simp add: tl_inv_def f)
qed

text \<open>Running with completion: the main thread was served, each worker has one callback coming.\<close>

definition after_completed :: "initialize_cb \<Rightarrow> nat \<Rightarrow> nat \<Rightarrow> nat \<Rightarrow> tl \<Rightarrow> tl" where
  "after_completed init i f cb s =
     (let k = length (ops s) in
      s\<lparr> ops := ops s @ [\<lparr> op_index = i, op_cb = cb, ctx_alive = True, guard_refs = n_workers s, op_completes = True \<rparr>],
         tl_log := tl_log s @ [Updated 0 k (init f 0)],
         queue := (if n_workers s = 0 then (queue s)(0 := queue s 0 @ [CompleteCb k]) else queue s),
         todo := map (\<lambda>t. PostTo t (GuardCb k)) (registered_threads s) \<rparr>)"

lemma run_on_all_completed_eq:
  assumes inv: "tl_inv init s" and idle: "todo s = []" and set_i: "was_set s i = Some f"
  shows "run_on_all_threads_completed_i i cb s = Some (after_completed init i f cb s)"
proof -
  let ?k = "length (ops s)" and ?s = "new_op i cb 0 True s"
  have "i \<in> loaded init 0 s" using main_loaded [OF inv idle] set_i by simp
  then have "op_index (ops ?s ! ?k) \<in> loaded init 0 ?s" by (simp add: new_op_def loaded_def)
  then have "data_callback_cb 0 ?k ?s = Some (?s\<lparr> tl_log := tl_log ?s @ [Updated 0 ?k (init f 0)] \<rparr>)"
    using data_callback_loaded [of ?k ?s init 0] set_i by (auto simp: new_op_def)
  then show ?thesis
    by (simp add: run_on_all_threads_completed_i_def run_on_all_threads_completed_def Let_def after_completed_def)
      (simp add: new_op_def set_op_def list_update_append registered_threads_def)
qed

lemma after_completed_sel:
  fixes init i f cb s
  defines "s' \<equiv> after_completed init i f cb s" and "k \<equiv> length (ops s)"
  shows "ops s' = ops s @ [\<lparr> op_index = i, op_cb = cb, ctx_alive = True, guard_refs = n_workers s, op_completes = True \<rparr>]"
    "n_workers s' = n_workers s" "tl_log s' = tl_log s @ [Updated 0 k (init f 0)]" "m_data s' = m_data s" "was_set s' = was_set s"
    "todo s = [] \<Longrightarrow> pending u s' = pending u s @ (if u = 0 then (if n_workers s = 0 then [CompleteCb k] else [])
       else if u \<le> n_workers s then [GuardCb k] else [])"
  using posts_map [of u "GuardCb k" "registered_threads s" "[]"] dos_map [of "GuardCb k" "registered_threads s" "[]"]
  by (simp_all add: s'_def k_def after_completed_def Let_def pending_def registered_count)

lemma run_on_all_completed_ok:
  assumes inv: "tl_inv init s" and idle: "todo s = []" and set_i: "was_set s i = Some f"
  shows "tl_inv init (after_completed init i f cb s)"
proof -
  let ?s = "after_completed init i f cb s" and ?k = "length (ops s)"
  note f = after_completed_sel(1-5) [of init i f cb s] and p = after_completed_sel(6) [OF idle, where init = init and i = i and f = f and cb = cb]
  have ld: "loaded init u ?s = loaded init u s" for u by (simp add: loaded_def f)
  have "ready ?s (loaded init u ?s) (pending u ?s)" if u: "u \<le> n_workers s" for u
  proof -
    have "ready s (loaded init u s) (pending u s)" using inv u by (simp add: tl_inv_def)
    then have "ready ?s (loaded init u s) (pending u s)" using ready_new_op f(1,5) by blast
    then show ?thesis using set_i u by (auto simp: p ld f intro!: ready_snoc)
  qed
  moreover have "op_inv k ?s" if "k < Suc ?k" for k
  proof (cases "k = ?k")
    case True
    note fr = fresh_op [OF inv True]
    have u: "updates t k ?s = (if t = 0 then 1 else 0)" for t using fr(2) [of t] True by (simp add: updates_def f)
    have g: "count_list (pending t ?s) (GuardCb k) = 1" if "t \<in> {1..n_workers s}" for t
      using fr(1) [of t "GuardCb k"] that True by (simp add: p)
    have "guard_posts k ?s = (\<Sum>t = 1..n_workers s. 1)" unfolding guard_posts_def f by (rule sum.cong) (simp_all add: g)
    moreover have "count_list (pending 0 ?s) (DataCb k) = 0" "count_list (pending 0 ?s) (CompleteCb k) = (if n_workers s = 0 then 1 else 0)"
      using fr(1) [of 0 "DataCb k"] fr(1) [of 0 "CompleteCb k"] True by (simp_all add: p)
    moreover have "count_list (tl_log ?s) (Completed k) = 0" using fr(3) by (simp add: f)
    ultimately show ?thesis using True u g by (simp add: op_inv_def f update_cb_def)
  next
    case False
    then have "op_inv k s" using inv that by (simp add: tl_inv_def)
    moreover have "op_inv k ?s = op_inv k s" by (rule op_inv_cong) (use False that in \<open>auto simp: f p updates_def nth_append\<close>)
    ultimately show ?thesis by simp
  qed
  moreover have "log_inv init s" using inv by (simp add: tl_inv_def)
  then have "log_inv init ?s" using set_i by (fastforce simp: log_inv_def f split_snoc nth_append)
  moreover have "shape s" using inv by (simp add: tl_inv_def)
  then have "shape ?s"
    using p dos_map [of "GuardCb ?k" "registered_threads s" "[]"]
    by (auto simp: shape_def) (auto simp: after_completed_def Let_def registered_threads_def split: if_splits)
  ultimately show ?thesis by (simp add: tl_inv_def f)
qed

text \<open>A slot is set once, before callbacks run on it, and slots are not removed.\<close>

fun tl_accepts :: "tl_step \<Rightarrow> tl \<Rightarrow> bool" where
  "tl_accepts (Api c) s = (todo s = [] \<and>
     (case c of
        AllocateSlot \<Rightarrow> True
      | SetSlot i _ \<Rightarrow> was_set s i = None
      | RunOnAll i _ \<Rightarrow> was_set s i \<noteq> None
      | RunOnAllCompleted i _ \<Rightarrow> was_set s i \<noteq> None
      | RemoveSlot _ \<Rightarrow> False
      | ShutdownGlobal \<Rightarrow> \<not> m_shutdown s))"
| "tl_accepts st s = tl_enabled st s"

lemma run_tl_cb_workers: "run_tl_cb init t cb s = Some s' \<Longrightarrow> n_workers s' = n_workers s"
  by (cases cb) (auto simp: data_callback_cb_def rp_cb_guard_cb_def internal_all_threads_complete_cb_def remove_cb_def guard_unref_def Let_def
      bind_eq_Some_conv split: if_splits)

lemma tl_exec_workers: "tl_exec init st s = Some s' \<Longrightarrow> n_workers s' = n_workers s"
proof (cases st)
  case (Api c)
  assume "tl_exec init st s = Some s'"
  then show ?thesis using Api
    by (cases c) (auto simp: allocate_slot_i_def set_i_def run_on_all_threads_i_def run_on_all_threads_def new_op_def remove_slot_def
        shutdown_global_threading_i_def run_on_all_threads_completed_i_def run_on_all_threads_completed_def data_callback_cb_def Let_def
        bind_eq_Some_conv split: if_splits)
next
  case Continue
  assume "tl_exec init st s = Some s'"
  then show ?thesis using Continue by (auto split: list.splits tl_micro.splits dest: run_tl_cb_workers)
next
  case (Turn t)
  assume "tl_exec init st s = Some s'"
  then show ?thesis using Turn by (auto split: list.splits dest: run_tl_cb_workers)
qed

lemma run_workers: "run_calls (tl_exec init) steps s = Some s' \<Longrightarrow> n_workers s' = n_workers s"
  by (induction steps arbitrary: s) (auto simp: bind_eq_Some_conv dest: tl_exec_workers)

lemma tl_exec_ok:
  assumes inv: "tl_inv init s" and acc: "tl_accepts st s"
  shows "\<exists>s'. tl_exec init st s = Some s' \<and> tl_inv init s'"
proof (cases st)
  case (Api c)
  have sh: "shape s" using inv by (simp add: tl_inv_def)
  have same: "tl_inv init s'" if "shape s'" "n_workers s' = n_workers s" "m_data s' = m_data s" "ops s' = ops s" "tl_log s' = tl_log s"
    "was_set s' = was_set s" "todo s' = todo s" "queue s' = queue s" for s'
    using that by (intro tl_inv_cong [OF inv]) (simp_all add: pending_def)
  show ?thesis
  proof (cases c)
    case AllocateSlot
    have "tl_inv init (s\<lparr> m_slots := m_slots s @ [True] \<rparr>)" by (rule same) (use sh in \<open>simp_all add: shape_def pending_def\<close>)
    then show ?thesis using sh Api AllocateSlot by (simp add: allocate_slot_i_def shape_def)
  next
    case ShutdownGlobal
    have "tl_inv init (s\<lparr> m_shutdown := True \<rparr>)" by (rule same) (use sh in \<open>simp_all add: shape_def pending_def\<close>)
    then show ?thesis using acc Api ShutdownGlobal by (simp add: shutdown_global_threading_i_def)
  next
    case (RunOnAllCompleted i cb)
    then obtain f where "was_set s i = Some f" using acc Api by auto
    then show ?thesis
      using run_on_all_completed_eq [OF inv] run_on_all_completed_ok [OF inv] acc Api RunOnAllCompleted by simp
  qed (use acc Api set_i_ok [OF inv] run_on_all_ok [OF inv] in simp_all)
qed (use acc turn_ok [OF inv] continue_ok [OF inv] in simp_all)

lemma tl_inv_init: "tl_inv init (tl_init n)"
  by (simp add: tl_inv_def tl_init_def log_inv_def shape_def pending_def)

interpretation tls: invariant_system "\<lambda>s. s = tl_init n" tl_accepts "tl_exec init" "\<lambda>s. tl_inv init s \<and> n_workers s = n" for n init
proof unfold_locales
  fix s assume "s = tl_init n"
  then show "tl_inv init s \<and> n_workers s = n" by (simp add: tl_inv_init) (simp add: tl_init_def)
next
  fix s st assume "tl_inv init s \<and> n_workers s = n" "tl_accepts st s"
  then show "\<exists>t. tl_exec init st s = Some t \<and> tl_inv init t \<and> n_workers t = n"
    using tl_exec_ok [of init s st] tl_exec_workers by blast
qed

text \<open>C10. A callback that is run on all threads runs on each of them at most once and on the object that was set
  there, and its completion runs at most once and only after the callback ran on every thread, however the
  threads interleave; nothing crashes, and in particular no thread uses the context after the completion freed it.
  When no call is under way and every thread has run what was posted to it, the callback ran on every thread and
  its completion ran.\<close>

theorem runs_on_all_threads:
  assumes "accepted tl_accepts (tl_exec init) steps (tl_init n)"
  shows "\<exists>s. run_calls (tl_exec init) steps (tl_init n) = Some s \<and>
    (\<forall>k l1 l2. tl_log s = l1 @ Completed k # l2 \<longrightarrow> (\<forall>t \<le> n. \<exists>obj. Updated t k obj \<in> set l1)) \<and>
    (\<forall>t k obj. Updated t k obj \<in> set (tl_log s) \<longrightarrow> (\<exists>f. was_set s (op_index (ops s ! k)) = Some f \<and> obj = init f t)) \<and>
    (\<forall>k < length (ops s). (\<forall>t \<le> n. updates t k s \<le> 1) \<and> count_list (tl_log s) (Completed k) \<le> 1) \<and>
    (todo s = [] \<and> (\<forall>t \<le> n. queue s t = []) \<longrightarrow>
      (\<forall>k < length (ops s). (\<forall>t \<le> n. updates t k s = 1) \<and> (op_completes (ops s ! k) \<longrightarrow> count_list (tl_log s) (Completed k) = 1)))"
proof -
  obtain s where s: "run_calls (tl_exec init) steps (tl_init n) = Some s" "tl_inv init s" "n_workers s = n"
    using tls.run_inv [of init "tl_init n" n steps] assms tl_inv_init by (auto simp: tl_init_def)
  have l: "log_inv init s" and ops: "\<And>k. k < length (ops s) \<Longrightarrow> op_inv k s" using s(2) by (simp_all add: tl_inv_def)
  have once: "updates t k s \<le> 1" if "k < length (ops s)" "t \<le> n" for t k
    using op_inv_count [OF ops [OF that(1)], of t] that(2) s(3) by simp
  have compl: "count_list (tl_log s) (Completed k) \<le> 1" if "k < length (ops s)" for k
  proof (cases "op_completes (ops s ! k)")
    case True
    then show ?thesis using ops [OF that] by (auto simp: op_inv_def Let_def split: if_splits)
  next
    case False
    then have "Completed k \<notin> set (tl_log s)" using l unfolding log_inv_def by blast
    then show ?thesis by simp
  qed
  have rest: "updates t k s = 1 \<and> (op_completes (ops s ! k) \<longrightarrow> count_list (tl_log s) (Completed k) = 1)"
    if "todo s = []" "\<forall>t \<le> n. queue s t = []" "k < length (ops s)" "t \<le> n" for t k
  proof -
    have "pending u s = []" if "u \<le> n" for u using \<open>todo s = []\<close> \<open>\<forall>t \<le> n. queue s t = []\<close> that by (simp add: pending_def)
    then show ?thesis using ops [OF that(3)] op_inv_count [OF ops [OF that(3)]] that(4) s(3)
      by (auto simp: op_inv_def Let_def guard_posts_def)
  qed
  show ?thesis using s(1,3) l once compl rest rest [where t = 0] by (intro exI [of _ s]) (auto simp: log_inv_def)
qed

section \<open>Removing a slot\<close>

text \<open>All threads are given the same copy of the index, and each frees it. \<open>k\<close> is the number of that copy.\<close>

definition removals :: "nat \<Rightarrow> tl \<Rightarrow> nat" where
  "removals k s = (\<Sum>t = 0..n_workers s. count_list (pending t s) (RemoveCb k))"

definition removing :: "nat \<Rightarrow> tl \<Rightarrow> bool" where
  "removing k s =
     (k < length (ops s) \<and> (\<forall>t cb. PostTo t cb \<in> set (todo s) \<longrightarrow> 1 \<le> t \<and> t \<le> n_workers s) \<and>
      (\<forall>t \<le> n_workers s. CompleteCb k \<notin> set (pending t s) \<and> GuardCb k \<notin> set (pending t s)) \<and>
      removals k s = (if ctx_alive (ops s ! k) then Suc (n_workers s) else n_workers s))"

text \<open>A callback that is not about the copy leaves it alone.\<close>

lemma run_other_removing:
  assumes "run_tl_cb init t cb s = Some s'" "cb \<noteq> RemoveCb k" "cb \<noteq> CompleteCb k" "cb \<noteq> GuardCb k"
  shows "length (ops s') = length (ops s)" "ctx_alive (ops s' ! k) = ctx_alive (ops s ! k)" "todo s' = todo s" "n_workers s' = n_workers s"
    "\<exists>cs. (\<forall>c \<in> set cs. \<exists>j. c = CompleteCb j \<and> j \<noteq> k) \<and> (\<forall>u. pending u s' = pending u s @ (if u = 0 then cs else []))"
proof -
  have "length (ops s') = length (ops s) \<and> ctx_alive (ops s' ! k) = ctx_alive (ops s ! k) \<and> todo s' = todo s \<and> n_workers s' = n_workers s \<and>
    (\<exists>cs. (\<forall>c \<in> set cs. \<exists>j. c = CompleteCb j \<and> j \<noteq> k) \<and> (\<forall>u. pending u s' = pending u s @ (if u = 0 then cs else [])))"
  proof (cases cb)
    case (GuardCb j)
    then obtain s1 where s1: "data_callback_cb t j s = Some s1" "s' = guard_unref j s1" "j < length (ops s)"
      using assms(1) by (auto simp: rp_cb_guard_cb_def split: if_splits)
    then have e: "ops s1 = ops s" "todo s1 = todo s" "n_workers s1 = n_workers s" "\<And>u. pending u s1 = pending u s"
      by (auto simp: data_callback_cb_def bind_eq_Some_conv split: if_splits)
    have "ctx_alive ((ops s)[j := (ops s ! j)\<lparr> guard_refs := x \<rparr>] ! k) = ctx_alive (ops s ! k)" for x
      by (rule nth_update_field [of ctx_alive]) simp
    then show ?thesis using e s1(2) GuardCb assms(4)
      by (auto simp: guard_unref_sel intro!: exI [of _ "if guard_refs (ops s ! j) \<le> 1 then [CompleteCb j] else []"])
  qed (use assms in \<open>auto simp: data_callback_cb_def internal_all_threads_complete_cb_def remove_cb_def set_op_def set_thread_local_def
        pending_def Let_def bind_eq_Some_conv intro!: exI [of _ "[]"] split: if_splits\<close>)
  then show "length (ops s') = length (ops s)" "ctx_alive (ops s' ! k) = ctx_alive (ops s ! k)" "todo s' = todo s" "n_workers s' = n_workers s"
    "\<exists>cs. (\<forall>c \<in> set cs. \<exists>j. c = CompleteCb j \<and> j \<noteq> k) \<and> (\<forall>u. pending u s' = pending u s @ (if u = 0 then cs else []))"
    by simp_all
qed

lemma ready_no_remove: "ready s I q \<Longrightarrow> RemoveCb k \<notin> set q"
proof (induction q arbitrary: I)
  case (Cons cb q)
  then show ?case by (cases cb) auto
qed simp

definition takes :: "nat \<Rightarrow> tl_cb \<Rightarrow> tl \<Rightarrow> tl \<Rightarrow> bool" where
  "takes t cb s s0 =
     (t \<le> n_workers s \<and> pending t s = cb # pending t s0 \<and> (\<forall>u. u \<noteq> t \<longrightarrow> pending u s0 = pending u s) \<and>
      set (todo s0) \<subseteq> set (todo s) \<and> n_workers s0 = n_workers s \<and> ops s0 = ops s)"

lemma takes_removals:
  assumes "takes t cb s s0"
  shows "removals k s = removals k s0 + (if cb = RemoveCb k then 1 else 0)"
proof -
  have c: "count_list (pending u s) (RemoveCb k) = count_list (pending u s0) (RemoveCb k) + (if u = t then (if cb = RemoveCb k then 1 else 0) else 0)" for u
    using assms by (cases "u = t") (auto simp: takes_def)
  have "t \<in> {0..n_workers s}" "n_workers s0 = n_workers s" using assms by (simp_all add: takes_def)
  then show ?thesis unfolding removals_def c by (simp add: sum.distrib sum.delta)
qed

lemma removing_run:
  assumes r: "removing k s" and t: "takes t cb s s0" and run: "run_tl_cb init t cb s0 = Some s'"
  shows "removing k s'"
proof -
  have n: "n_workers s0 = n_workers s" "ops s0 = ops s" using t by (simp_all add: takes_def)
  have sub: "set (pending u s0) \<subseteq> set (pending u s)" for u using t by (cases "u = t") (auto simp: takes_def)
  have here: "CompleteCb k \<notin> set (pending u s) \<and> GuardCb k \<notin> set (pending u s)" if "u \<le> n_workers s" for u
    using r that by (simp add: removing_def)
  have none: "CompleteCb k \<notin> set (pending u s0)" "GuardCb k \<notin> set (pending u s0)" if "u \<le> n_workers s" for u
    using sub [of u] here [OF that] by auto
  have k: "k < length (ops s)" "removals k s = (if ctx_alive (ops s ! k) then Suc (n_workers s) else n_workers s)"
    using r by (simp_all add: removing_def)
  have "t \<le> n_workers s" "cb \<in> set (pending t s)" using t by (simp_all add: takes_def)
  then have cb: "cb \<noteq> CompleteCb k" "cb \<noteq> GuardCb k" using here by auto
  have todo0: "\<forall>u c. PostTo u c \<in> set (todo s0) \<longrightarrow> 1 \<le> u \<and> u \<le> n_workers s"
    using r t unfolding removing_def takes_def by blast
  show ?thesis
  proof (cases "cb = RemoveCb k")
    case True
    then have alive: "ctx_alive (ops s ! k)" "k < length (ops s)" using run n by (auto simp: remove_cb_def split: if_splits)
    have e: "ops s' = (ops s)[k := (ops s ! k)\<lparr> ctx_alive := False \<rparr>]" "todo s' = todo s0" "n_workers s' = n_workers s"
      "\<And>u. pending u s' = pending u s0"
      using run True n by (auto simp: remove_cb_def Let_def set_op_def pending_def split: if_splits)
    have "removals k s' = n_workers s"
      using takes_removals [OF t, of k] r alive True by (simp add: removing_def) (simp add: removals_def e n)
    then show ?thesis using k alive e todo0 none by (simp add: removing_def)
  next
    case False
    note o = run_other_removing [OF run False cb]
    obtain cs where cs: "\<forall>c \<in> set cs. \<exists>j. c = CompleteCb j \<and> j \<noteq> k" "\<forall>u. pending u s' = pending u s0 @ (if u = 0 then cs else [])"
      using o(5) by blast
    then have "count_list cs (RemoveCb k) = 0" by (auto simp: count_zero)
    then have "removals k s' = removals k s0" using cs(2) o(4) by (auto simp: removals_def intro!: sum.cong)
    then have "removals k s' = (if ctx_alive (ops s' ! k) then Suc (n_workers s') else n_workers s')"
      using takes_removals [OF t, of k] False k(2) o(2,4) n by (simp split: if_splits)
    moreover have "CompleteCb k \<notin> set (pending u s')" "GuardCb k \<notin> set (pending u s')" if "u \<le> n_workers s" for u
      using none [OF that] cs by auto
    ultimately show ?thesis using k(1) o(1,3,4) n todo0 by (simp add: removing_def)
  qed
qed

lemma removing_step:
  assumes r: "removing k s" and en: "tl_enabled st s" and st: "\<forall>c. st \<noteq> Api c" and ex: "tl_exec init st s = Some s'"
  shows "removing k s'"
proof (cases st)
  case Continue
  then obtain m rest where m: "todo s = m # rest" using en by (cases "todo s") auto
  show ?thesis
  proof (cases m)
    case (PostTo t cb)
    then have s': "s' = s\<lparr> todo := rest, queue := (queue s)(t := queue s t @ [cb]) \<rparr>" using ex Continue m by simp
    have "1 \<le> t" using r m PostTo by (auto simp: removing_def)
    then have p: "pending u s' = pending u s" for u using m PostTo by (auto simp: pending_def s')
    then have "removals k s' = removals k s" by (simp add: removals_def s')
    then show ?thesis using r m PostTo p by (simp add: removing_def s')
  next
    case (Do cb)
    have "takes 0 cb s (s\<lparr> todo := rest \<rparr>)" using m Do by (auto simp: takes_def pending_def)
    then show ?thesis using removing_run [OF r] ex Continue m Do by simp
  qed
next
  case (Turn t)
  then obtain cb rest where q: "queue s t = cb # rest" using en by (cases "queue s t") auto
  have "takes t cb s (s\<lparr> queue := (queue s)(t := rest) \<rparr>)" using en q Turn by (auto simp: takes_def pending_def)
  then show ?thesis using removing_run [OF r] ex Turn q by simp
qed (use st in simp)

lemma removing_runs:
  assumes "removing k s" "accepted tl_enabled (tl_exec init) steps s" "\<forall>c. Api c \<notin> set steps" "run_calls (tl_exec init) steps s = Some s'"
  shows "removing k s'"
  using assms
proof (induction steps arbitrary: s)
  case (Cons st steps)
  then obtain s1 where s1: "tl_exec init st s = Some s1" by (auto simp: bind_eq_Some_conv)
  then show ?case using Cons removing_step [of k s st init s1] by auto
qed simp

lemma removing_start:
  assumes inv: "tl_inv init s" and idle: "todo s = []" and rm: "remove_slot i s = Some s'" and up: "\<not> m_shutdown s"
  shows "removing (length (ops s)) s'"
proof -
  let ?k = "length (ops s)"
  have s': "n_workers s' = n_workers s" "length (ops s') = Suc ?k" "ctx_alive (ops s' ! ?k)" "todo s' = map (\<lambda>t. PostTo t (RemoveCb ?k)) (registered_threads s) @ [Do (RemoveCb ?k)]"
    "queue s' = queue s"
    using rm up by (auto simp: remove_slot_def run_on_all_threads_def new_op_def registered_threads_def split: if_splits)
  have p: "pending u s' = (if u = 0 then RemoveCb ?k # pending 0 s else if u \<le> n_workers s then pending u s @ [RemoveCb ?k] else pending u s)" for u
    using idle s' by (simp add: pending_def posts_map dos_map registered_count)
  have none: "RemoveCb ?k \<notin> set (pending u s)" if "u \<le> n_workers s" for u
    using inv that ready_no_remove [of s "loaded init u s" "pending u s"] by (simp add: tl_inv_def)
  have "count_list (pending u s') (RemoveCb ?k) = 1" if "u \<le> n_workers s" for u using none [OF that] that by (auto simp: p)
  then have "removals ?k s' = (\<Sum>u = 0..n_workers s. 1)" unfolding removals_def s' by (intro sum.cong) simp_all
  moreover have "c \<notin> set (pending u s)" if "c = CompleteCb ?k \<or> c = GuardCb ?k" "u \<le> n_workers s" for u c
    using fresh_op(1) [OF inv refl that(2), of c] that(1) by (auto simp: count_zero)
  ultimately show ?thesis using s' by (auto simp: removing_def p registered_threads_def)
qed

text \<open>C31. Removing a slot brings the proxy down as soon as there is a worker: in every state that is reached,
  between two calls, after a slot is removed there is no way in which the threads can run everything that was
  posted to them; whichever thread comes second uses the copy of the index that the first one freed.\<close>

theorem remove_slot_crashes:
  assumes "accepted tl_accepts (tl_exec init) steps (tl_init n)" "run_calls (tl_exec init) steps (tl_init n) = Some s"
    and "1 \<le> n" "todo s = []" "\<not> m_shutdown s" "remove_slot i s = Some s1"
  shows "\<not> (\<exists>more s2. accepted tl_enabled (tl_exec init) more s1 \<and> (\<forall>c. Api c \<notin> set more) \<and>
    run_calls (tl_exec init) more s1 = Some s2 \<and> todo s2 = [] \<and> (\<forall>t \<le> n. queue s2 t = []))"
proof clarify
  fix more s2
  assume m: "accepted tl_enabled (tl_exec init) more s1" "\<forall>c. Api c \<notin> set more" "run_calls (tl_exec init) more s1 = Some s2"
    "todo s2 = []" "\<forall>t \<le> n. queue s2 t = []"
  have s: "tl_inv init s" "n_workers s = n"
    using tls.run_inv [of init "tl_init n" n steps] assms(1,2) tl_inv_init by (auto simp: tl_init_def)
  from removing_runs [OF removing_start [OF s(1) assms(4,6,5)] m(1,2,3)] have r: "removing (length (ops s)) s2" .
  have n: "n_workers s2 = n"
    using run_workers [OF m(3)] assms(6) s(2) by (auto simp: remove_slot_def run_on_all_threads_def new_op_def split: if_splits)
  then have "pending t s2 = []" if "t \<le> n" for t using m(4,5) that by (simp add: pending_def)
  then have "removals (length (ops s)) s2 = 0" by (simp add: removals_def n)
  then show False using r n assms(3) by (simp add: removing_def split: if_splits)
qed

section \<open>Examples\<close>

text \<open>Two workers; the object of a thread is its number. A worker runs its callback before the main thread has posted to
  the other one.\<close>

definition example_tl_steps :: "tl_step list" where
  "example_tl_steps = [Api AllocateSlot, Api (SetSlot 0 0), Continue, Turn 1, Continue, Continue, Turn 2,
     Api (RunOnAllCompleted 0 7), Continue, Turn 1, Continue, Turn 2, Turn 0]"

theorem runs_on_all_threads_witness:
  "\<exists>s l1 l2. run_calls (tl_exec (\<lambda>f t. Some t)) example_tl_steps (tl_init 2) = Some s \<and> tl_log s = l1 @ Completed 0 # l2 \<and>
     (\<exists>obj. Updated 0 0 obj \<in> set l1) \<and> (\<exists>obj. Updated 1 0 obj \<in> set l1) \<and> (\<exists>obj. Updated 2 0 obj \<in> set l1)"
proof -
  have "accepted tl_accepts (tl_exec (\<lambda>f t. Some t)) example_tl_steps (tl_init 2)" by code_simp
  from runs_on_all_threads [OF this] obtain s where s: "run_calls (tl_exec (\<lambda>f t. Some t)) example_tl_steps (tl_init 2) = Some s"
    and log: "\<forall>k l1 l2. tl_log s = l1 @ Completed k # l2 \<longrightarrow> (\<forall>t \<le> 2. \<exists>obj. Updated t k obj \<in> set l1)" by (elim exE conjE)
  have all: "\<exists>obj. Updated t k obj \<in> set l1" if "tl_log s = l1 @ Completed k # l2" "t \<le> 2" for k l1 l2 t using log that by blast
  have "map_option tl_log (run_calls (tl_exec (\<lambda>f t. Some t)) example_tl_steps (tl_init 2)) \<noteq> None \<and>
      Completed 0 \<in> set (tl_log (the (run_calls (tl_exec (\<lambda>f t. Some t)) example_tl_steps (tl_init 2))))" by code_simp
  then obtain l1 l2 where l: "tl_log s = l1 @ Completed 0 # l2" using s by (auto simp: in_set_conv_decomp)
  show ?thesis using s l all [OF l, of 0] all [OF l, of 1] all [OF l, of 2] by auto
qed

theorem remove_slot_crashes_witness:
  "\<not> (\<exists>more s2. accepted tl_enabled (tl_exec (\<lambda>f t. Some t)) more
        (the (remove_slot 0 (the (run_calls (tl_exec (\<lambda>f t. Some t)) [Api AllocateSlot] (tl_init 1))))) \<and> (\<forall>c. Api c \<notin> set more) \<and>
      run_calls (tl_exec (\<lambda>f t. Some t)) more
        (the (remove_slot 0 (the (run_calls (tl_exec (\<lambda>f t. Some t)) [Api AllocateSlot] (tl_init 1))))) = Some s2 \<and>
      todo s2 = [] \<and> queue s2 0 = [] \<and> queue s2 1 = [])"
proof -
  have two: "(\<forall>t \<le> 1. queue s t = []) = (queue s 0 = [] \<and> queue s 1 = [])" for s :: tl by (auto simp: le_Suc_eq)
  show ?thesis
  proof (rule remove_slot_crashes [where steps = "[Api AllocateSlot]" and n = 1 and i = 0, unfolded two])
  show "run_calls (tl_exec (\<lambda>f t. Some t)) [Api AllocateSlot] (tl_init 1) =
      Some (the (run_calls (tl_exec (\<lambda>f t. Some t)) [Api AllocateSlot] (tl_init 1)))"
    by (simp add: allocate_slot_i_def tl_init_def)
  qed (simp_all add: allocate_slot_i_def tl_init_def remove_slot_def)
qed

end
