(* ===== verification/Address.thy ===== *)
theory Address
  imports RP_Prelude
begin

text \<open>
  Network addresses: \<^verbatim>\<open>src/src/network/rp-ipv4-instance.c\<close>, \<^verbatim>\<open>rp-ipv6-instance.c\<close>, \<^verbatim>\<open>rp-address-impl.c\<close> and
  \<^verbatim>\<open>rp-address-instance-factory.c\<close>. An address is the socket address with the two names that are kept beside it. The
  fields that the C structures have in network byte order are their values. \<open>inet_pton\<close> and \<open>inet_ntop\<close> are
  parameters.
\<close>

unbundle bit_operations_syntax

section \<open>Printing an IPv4 address\<close>

text \<open>The buffer of 16 bytes is filled from its end; \<open>push_front\<close> is \<open>*--start = c\<close>, which is undefined at the start
  of the buffer.\<close>

definition push_front :: "char \<Rightarrow> string \<Rightarrow> string option" where
  "push_front c s = (if length s < 16 then Some (c # s) else None)"

definition digit_char :: "guint32 \<Rightarrow> char" where
  "digit_char d = char_of (48 + unat d)"

function write_octet :: "guint32 \<Rightarrow> string \<Rightarrow> string option" where
  "write_octet octet s =
     do { s1 \<leftarrow> push_front (digit_char (octet mod 10)) s;
          if octet div 10 \<noteq> 0 then write_octet (octet div 10) s1 else Some s1 }"
  by auto
termination
proof (relation "measure (\<lambda>(octet, s). unat octet)")
  fix octet :: guint32 and s s1
  assume "octet div 10 \<noteq> 0"
  then have "unat (octet div 10) \<noteq> 0" by (simp add: unat_eq_0)
  then show "((octet div 10, s1), (octet, s)) \<in> measure (\<lambda>(octet, s). unat octet)"
    by (simp add: unat_div_distrib)
qed simp

fun write_octets :: "nat \<Rightarrow> guint32 \<Rightarrow> string \<Rightarrow> string option" where
  "write_octets 0 ipv4_addr s = Some s"
| "write_octets (Suc i) ipv4_addr s =
     (let octet = ipv4_addr AND 0xff
      in do { s1 \<leftarrow> (if octet = 0 then push_front (CHR ''0'') s else write_octet octet s);
              s2 \<leftarrow> (if Suc i \<noteq> 1 then push_front (CHR ''.'') s1 else Some s1);
              write_octets i (drop_bit 8 ipv4_addr) s2 })"

definition rp_network_address_ipv4_sockaddr_to_string :: "guint32 \<Rightarrow> string option" where
  "rp_network_address_ipv4_sockaddr_to_string addr = write_octets 4 addr []"

section \<open>Instances\<close>

text \<open>\<open>g_ascii_dtostr\<close> of a port prints the number with 17 significant digits, that is all of it.\<close>

fun dec_string :: "nat \<Rightarrow> string" where
  "dec_string n = (if n < 10 then [char_of (48 + n)] else dec_string (n div 10) @ [char_of (48 + n mod 10)])"

declare dec_string.simps [simp del]

record ipv4_instance =
  sin_addr :: guint32
  sin_port :: guint16
  v4_friendly_address :: string
  v4_friendly_name :: string

record ipv6_instance =
  sin6_addr :: "128 word"
  sin6_port :: guint16
  sin6_scope_id :: guint32
  m_v6only :: bool
  v6_friendly_address :: string
  v6_friendly_name :: string

definition rp_network_address_ipv4_instance_new :: "guint32 \<Rightarrow> guint16 \<Rightarrow> ipv4_instance option" where
  "rp_network_address_ipv4_instance_new addr port =
     do { friendly_address \<leftarrow> rp_network_address_ipv4_sockaddr_to_string addr;
          Some \<lparr> sin_addr = addr, sin_port = port, v4_friendly_address = friendly_address,
                 v4_friendly_name = friendly_address @ '':'' @ dec_string (unat port) \<rparr> }"

text \<open>From the text: the port is put into 16 bits, the name has all of it. An invalid address is NULL.\<close>

definition rp_network_address_ipv4_instance_new_3 :: "(string \<Rightarrow> guint32 option) \<Rightarrow> string \<Rightarrow> guint32 \<Rightarrow> ipv4_instance option" where
  "rp_network_address_ipv4_instance_new_3 inet_pton address port =
     do { addr \<leftarrow> inet_pton address;
          Some \<lparr> sin_addr = addr, sin_port = ucast port, v4_friendly_address = address,
                 v4_friendly_name = address @ '':'' @ dec_string (unat port) \<rparr> }"

definition v4_port_i :: "ipv4_instance \<Rightarrow> guint32" where
  "v4_port_i self = ucast (sin_port self)"

definition v4_is_any_address_i :: "ipv4_instance \<Rightarrow> bool" where
  "v4_is_any_address_i self = (sin_addr self = 0)"

definition v4_is_unicast_address_i :: "ipv4_instance \<Rightarrow> bool" where
  "v4_is_unicast_address_i self =
     (\<not> v4_is_any_address_i self \<and> sin_addr self \<noteq> 0xffffffff \<and> sin_addr self AND 0xf0000000 \<noteq> 0xf0000000)"

text \<open>\<open>make_friendly_address\<close> copies \<open>INET6_ADDRSTRLEN\<close> bytes of the buffer, whatever follows the terminating NUL of
  the address in it, and appends the scope; a reader of the string stops at the NUL.\<close>

definition c_str :: "string \<Rightarrow> string" where
  "c_str s = takeWhile (\<lambda>c. c \<noteq> char_of (0 :: nat)) s"

definition INET6_ADDRSTRLEN :: nat where
  "INET6_ADDRSTRLEN = 46"

definition make_friendly_address :: "(128 word \<Rightarrow> string) \<Rightarrow> string \<Rightarrow> 128 word \<Rightarrow> guint32 \<Rightarrow> string" where
  "make_friendly_address inet_ntop garbage addr scope_id =
     (let str = take INET6_ADDRSTRLEN (inet_ntop addr @ [char_of (0 :: nat)] @ garbage);
          s = (if scope_id \<noteq> 0 then str @ dec_string (unat (ucast scope_id :: guint16)) else str)
      in c_str s)"

definition rp_network_address_ipv6_instance_new ::
  "(128 word \<Rightarrow> string) \<Rightarrow> string \<Rightarrow> 128 word \<Rightarrow> guint16 \<Rightarrow> guint32 \<Rightarrow> bool \<Rightarrow> ipv6_instance" where
  "rp_network_address_ipv6_instance_new inet_ntop garbage addr port scope_id v6only =
     (let friendly_address = make_friendly_address inet_ntop garbage addr scope_id
      in \<lparr> sin6_addr = addr, sin6_port = port, sin6_scope_id = scope_id, m_v6only = v6only,
           v6_friendly_address = friendly_address,
           v6_friendly_name = ''['' @ friendly_address @ '']:'' @ dec_string (unat port) \<rparr>)"

definition rp_network_address_ipv6_instance_new_3 ::
  "(string \<Rightarrow> 128 word option) \<Rightarrow> (128 word \<Rightarrow> string) \<Rightarrow> string \<Rightarrow> string \<Rightarrow> guint32 \<Rightarrow> bool \<Rightarrow> ipv6_instance option" where
  "rp_network_address_ipv6_instance_new_3 inet_pton inet_ntop garbage address port v6only =
     do { addr \<leftarrow> (if address \<noteq> [] then inet_pton address else Some 0);
          Some (rp_network_address_ipv6_instance_new inet_ntop garbage addr (ucast port) 0 v6only) }"

definition v6_is_any_address_i :: "ipv6_instance \<Rightarrow> bool" where
  "v6_is_any_address_i self = (sin6_addr self = 0)"

definition v6_is_unicast_address_i :: "ipv6_instance \<Rightarrow> bool" where
  "v6_is_unicast_address_i self = (\<not> v6_is_any_address_i self \<and> drop_bit 120 (sin6_addr self) \<noteq> 0xff)"

definition IN6_IS_ADDR_V4MAPPED :: "128 word \<Rightarrow> bool" where
  "IN6_IS_ADDR_V4MAPPED a = (drop_bit 32 a = 0xffff)"

definition rp_network_address_ipv6_to_ipv4_compatible_address :: "128 word \<Rightarrow> guint16 \<Rightarrow> guint32 \<times> guint16" where
  "rp_network_address_ipv6_to_ipv4_compatible_address addr port = (ucast addr, port)"

definition rp_ipv6_helper_v4_compatible_address :: "ipv6_instance \<Rightarrow> ipv4_instance option" where
  "rp_ipv6_helper_v4_compatible_address self =
     (if \<not> m_v6only self \<and> IN6_IS_ADDR_V4MAPPED (sin6_addr self)
      then (case rp_network_address_ipv6_to_ipv4_compatible_address (sin6_addr self) (sin6_port self) of
              (a, p) \<Rightarrow> rp_network_address_ipv4_instance_new a p)
      else None)"

text \<open>Socket addresses of the system, and the instance that is made of one. The instance is NULL for families other
  than the first two.\<close>

datatype sockaddr_storage = AF_INET guint32 guint16 | AF_INET6 "128 word" guint16 guint32 | AF_UNIX string | AF_OTHER

datatype address_instance = Ipv4 ipv4_instance | Ipv6 ipv6_instance

definition rp_network_address_force_v6 :: bool where
  "rp_network_address_force_v6 = False"

definition rp_network_address_address_from_sock_addr ::
  "(128 word \<Rightarrow> string) \<Rightarrow> string \<Rightarrow> sockaddr_storage \<Rightarrow> bool \<Rightarrow> address_instance option" where
  "rp_network_address_address_from_sock_addr inet_ntop garbage ss v6only =
     (let v6 = (if rp_network_address_force_v6 then False else v6only)
      in case ss of
           AF_INET a p \<Rightarrow> map_option Ipv4 (rp_network_address_ipv4_instance_new a p)
         | AF_INET6 a p scope \<Rightarrow>
             if \<not> v6 \<and> IN6_IS_ADDR_V4MAPPED a
             then (case rp_network_address_ipv6_to_ipv4_compatible_address a p of
                     (a4, p4) \<Rightarrow> map_option Ipv4 (rp_network_address_ipv4_instance_new a4 p4))
             else Some (Ipv6 (rp_network_address_ipv6_instance_new inet_ntop garbage a p scope v6))
         | AF_UNIX _ \<Rightarrow> None
         | AF_OTHER \<Rightarrow> None)"

fun as_string :: "address_instance \<Rightarrow> string" where
  "as_string (Ipv4 a) = v4_friendly_name a"
| "as_string (Ipv6 a) = v6_friendly_name a"

fun address_as_string :: "address_instance \<Rightarrow> string" where
  "address_as_string (Ipv4 a) = v4_friendly_address a"
| "address_as_string (Ipv6 a) = v6_friendly_address a"

fun ip_port :: "address_instance \<Rightarrow> guint32" where
  "ip_port (Ipv4 a) = v4_port_i a"
| "ip_port (Ipv6 a) = ucast (sin6_port a)"

text \<open>\<open>rp_network_utiliy_get_address_with_port\<close> of \<^verbatim>\<open>rp-strict-dns-cluster.c\<close>: the same address with another
  port, by way of its text. The system's functions are a record of parameters.\<close>

record inet_env =
  inet_pton4 :: "string \<Rightarrow> guint32 option"
  inet_pton6 :: "string \<Rightarrow> 128 word option"
  inet_ntop6 :: "128 word \<Rightarrow> string"
  stack_garbage :: string

definition rp_network_utiliy_get_address_with_port :: "inet_env \<Rightarrow> address_instance \<Rightarrow> guint32 \<Rightarrow> address_instance option" where
  "rp_network_utiliy_get_address_with_port env address port =
     (case address of
        Ipv4 a \<Rightarrow> map_option Ipv4 (rp_network_address_ipv4_instance_new_3 (inet_pton4 env) (v4_friendly_address a) port)
      | Ipv6 a \<Rightarrow> map_option Ipv6 (rp_network_address_ipv6_instance_new_3 (inet_pton6 env) (inet_ntop6 env) (stack_garbage env)
                     (v6_friendly_address a) port True))"

section \<open>Printing is exact\<close>

lemma digit_char_mod: "digit_char (octet mod 10) = char_of (48 + unat octet mod 10)"
  by (simp add: digit_char_def unat_mod_distrib)

lemma write_octet_dec:
  "write_octet octet s =
     (if length (dec_string (unat octet)) + length s \<le> 16 then Some (dec_string (unat octet) @ s) else None)"
proof (induction octet s rule: write_octet.induct)
  case (1 octet s)
  have d: "unat (octet div 10) = unat octet div 10" by (simp add: unat_div_distrib)
  show ?case
  proof (cases "octet div 10 = 0")
    case True
    then have small: "unat octet < 10" using d by (simp add: div_eq_0_iff)
    then have "dec_string (unat octet) = [char_of (48 + unat octet)]" by (simp add: dec_string.simps)
    then show ?thesis using True small
      by (subst write_octet.simps) (simp add: push_front_def digit_char_mod del: write_octet.simps)
  next
    case False
    then have big: "\<not> unat octet < 10" using d by (metis div_less unsigned_0 unat_eq_zero)
    have dec: "dec_string (unat octet) = dec_string (unat octet div 10) @ [char_of (48 + unat octet mod 10)]"
      by (subst dec_string.simps) (simp add: big)
    have pos: "dec_string m \<noteq> []" for m by (simp add: dec_string.simps)
    show ?thesis
      using False 1 pos [of "unat octet div 10"]
      by (subst write_octet.simps) (auto simp: push_front_def digit_char_mod dec d simp del: write_octet.simps)
  qed
qed

declare write_octet.simps [simp del]

lemma dec_string_length: "n < 10 ^ Suc k \<Longrightarrow> length (dec_string n) \<le> Suc k"
proof (induction k arbitrary: n)
  case 0
  then show ?case by (simp add: dec_string.simps)
next
  case (Suc k)
  then have "n div 10 < 10 ^ Suc k" by (simp add: less_mult_imp_div_less)
  then show ?case using Suc.IH [of "n div 10"] by (subst dec_string.simps) simp
qed

definition octet_of :: "nat \<Rightarrow> guint32 \<Rightarrow> nat" where
  "octet_of k addr = unat addr div 256 ^ k mod 256"

definition dotted :: "guint32 \<Rightarrow> string" where
  "dotted addr = dec_string (octet_of 3 addr) @ ''.'' @ dec_string (octet_of 2 addr) @ ''.'' @
     dec_string (octet_of 1 addr) @ ''.'' @ dec_string (octet_of 0 addr)"

lemma octet_and: "unat (drop_bit (8 * k) addr AND 0xff) = octet_of k (addr :: guint32)"
proof -
  have m: "(0xff :: guint32) = mask 8" by (simp add: mask_eq_exp_minus_1)
  have w: "unat addr mod 4294967296 = unat addr" using unsigned_less [of addr, where ?'a = nat] by simp
  have "unat (drop_bit (8 * k) addr AND 0xff) = drop_bit (8 * k) (unat addr) mod 256"
    unfolding m by (simp add: take_bit_eq_mask [symmetric] unsigned_take_bit_eq unsigned_drop_bit_eq take_bit_eq_mod
        unat_mod_distrib w)
  then show ?thesis by (simp add: octet_of_def drop_bit_eq_div power_mult)
qed

lemma octet_less: "octet_of k addr < 256"
  by (simp add: octet_of_def)

lemma octet_length: "length (dec_string (octet_of k addr)) \<le> 3"
proof -
  have "octet_of k addr < 10 ^ Suc 2" using octet_less [of k addr] by simp
  from dec_string_length [OF this] show ?thesis by simp
qed

lemma char_0: "char_of (48 :: nat) = CHR ''0''"
  by code_simp

lemma write_one:
  assumes "length s + 3 \<le> 16"
  shows "(let octet = drop_bit (8 * k) addr AND 0xff
          in if octet = 0 then push_front (CHR ''0'') s else write_octet octet s) = Some (dec_string (octet_of k addr) @ s)"
proof (cases "drop_bit (8 * k) addr AND 0xff = (0 :: guint32)")
  case True
  then have "octet_of k addr = 0" using octet_and [of k addr] by simp
  then show ?thesis using True assms by (simp add: push_front_def dec_string.simps [of 0] Let_def char_0)
next
  case False
  then show ?thesis using assms octet_length [of k addr] by (simp add: write_octet_dec octet_and Let_def)
qed

lemma write_octets_step:
  assumes "length s \<le> 12"
  shows "write_octets (Suc i) (drop_bit (8 * k) addr) s =
    (if i = 0 then Some (dec_string (octet_of k addr) @ s)
     else write_octets i (drop_bit (8 * Suc k) addr) (CHR ''.'' # dec_string (octet_of k addr) @ s))"
  using write_one [of s k addr] octet_length [of k addr] assms by (simp add: Let_def push_front_def)

text \<open>The buffer is never left, and the text is the dotted notation.\<close>

lemma sockaddr_to_string_dotted: "rp_network_address_ipv4_sockaddr_to_string addr = Some (dotted addr)"
proof -
  let ?d = "\<lambda>k. dec_string (octet_of k addr)"
  have four: "write_octets 4 addr [] = write_octets (Suc 3) (drop_bit (8 * 0) addr) []" by simp
  note len = octet_length [of 0 addr] octet_length [of 1 addr] octet_length [of 2 addr]
  have "write_octets (Suc 3) (drop_bit (8 * 0) addr) [] = write_octets (Suc 2) (drop_bit (8 * 1) addr) (CHR ''.'' # ?d 0)"
    by (subst write_octets_step) (simp_all del: write_octets.simps add: numeral_3_eq_3)
  also have "\<dots> = write_octets (Suc 1) (drop_bit (8 * 2) addr) (CHR ''.'' # ?d 1 @ CHR ''.'' # ?d 0)"
    using len by (subst write_octets_step) (simp_all del: write_octets.simps add: numeral_2_eq_2)
  also have "\<dots> = write_octets (Suc 0) (drop_bit (8 * 3) addr) (CHR ''.'' # ?d 2 @ CHR ''.'' # ?d 1 @ CHR ''.'' # ?d 0)"
    using len by (subst write_octets_step) (simp_all del: write_octets.simps add: numeral_3_eq_3 numeral_2_eq_2)
  also have "\<dots> = Some (dotted addr)"
    using len by (subst write_octets_step) (simp_all add: dotted_def)
  finally show ?thesis unfolding rp_network_address_ipv4_sockaddr_to_string_def four .
qed

section \<open>Reading it back\<close>

text \<open>A reader of the dotted notation, as \<open>inet_pton\<close> is documented.\<close>

fun split_dots :: "string \<Rightarrow> string list" where
  "split_dots [] = [[]]"
| "split_dots (c # cs) = (if c = CHR ''.'' then [] # split_dots cs else (c # hd (split_dots cs)) # tl (split_dots cs))"

definition dec_value :: "string \<Rightarrow> nat" where
  "dec_value s = foldl (\<lambda>n c. 10 * n + digit_value c) 0 s"

definition octet_text :: "string \<Rightarrow> bool" where
  "octet_text s = (s \<noteq> [] \<and> length s \<le> 3 \<and> list_all g_ascii_isdigit s \<and> dec_value s < 256)"

definition read_dotted :: "string \<Rightarrow> guint32 option" where
  "read_dotted s =
     (case split_dots s of
        [a, b, c, d] \<Rightarrow>
          if list_all octet_text [a, b, c, d]
          then Some (of_nat (((dec_value a * 256 + dec_value b) * 256 + dec_value c) * 256 + dec_value d)) else None
      | _ \<Rightarrow> None)"

lemma dec_string_digits: "list_all g_ascii_isdigit (dec_string n)"
proof (induction n rule: dec_string.induct)
  case (1 n)
  then show ?case by (subst dec_string.simps) (simp add: g_ascii_isdigit_def [of "char_of _"] less_Suc_eq_le [symmetric])
qed

lemma digit_value_char: "n < 10 \<Longrightarrow> digit_value (char_of (48 + n)) = n"
  by (simp add: digit_value_def)

lemma dec_value_string: "dec_value (dec_string n) = n"
proof (induction n rule: dec_string.induct)
  case (1 n)
  show ?case
  proof (cases "n < 10")
    case True
    then show ?thesis by (simp add: dec_string.simps [of n] dec_value_def digit_value_char)
  next
    case False
    then have "dec_value (dec_string n) = 10 * dec_value (dec_string (n div 10)) + digit_value (char_of (48 + n mod 10))"
      by (subst dec_string.simps) (simp add: dec_value_def)
    then show ?thesis using 1 False digit_value_char [of "n mod 10"] by simp
  qed
qed

lemma split_dots_ne: "split_dots s \<noteq> []"
  by (induction s) auto

lemma split_dots_append: "list_all g_ascii_isdigit a \<Longrightarrow> split_dots (a @ CHR ''.'' # b) = a # split_dots b"
  by (induction a) (auto simp: g_ascii_isdigit_def)

lemma split_dots_last: "list_all g_ascii_isdigit a \<Longrightarrow> split_dots a = [a]"
  by (induction a) (auto simp: g_ascii_isdigit_def)

lemma octets_join: "((octet_of 3 addr * 256 + octet_of 2 addr) * 256 + octet_of 1 addr) * 256 + octet_of 0 addr = unat addr"
proof -
  let ?n = "unat addr"
  have "?n < 256 ^ 4" using unsigned_less [of addr, where ?'a = nat] by simp
  then have o3: "octet_of 3 addr = ?n div 256 div 256 div 256"
    by (simp add: octet_of_def less_mult_imp_div_less div_mult2_eq [symmetric])
  have o: "octet_of 2 addr = ?n div 256 div 256 mod 256" "octet_of 1 addr = ?n div 256 mod 256" "octet_of 0 addr = ?n mod 256"
    by (simp_all add: octet_of_def div_mult2_eq [symmetric])
  show ?thesis unfolding o3 o div_mult_mod_eq ..
qed

lemma octet_text_dec: "octet_text (dec_string (octet_of k addr))"
  using octet_length [of k addr] octet_less [of k addr] dec_string_digits
  by (simp add: octet_text_def dec_value_string) (simp add: dec_string.simps)

lemma read_dotted_dotted: "read_dotted (dotted addr) = Some addr"
proof -
  have "split_dots (dotted addr) = map (\<lambda>k. dec_string (octet_of k addr)) [3, 2, 1, 0]"
    by (simp add: dotted_def split_dots_append split_dots_last dec_string_digits)
  then show ?thesis using octets_join [of addr] by (simp add: read_dotted_def octet_text_dec dec_value_string)
qed

text \<open>C26. An address that is printed and read again is the same: the printer never leaves its buffer of 16 bytes, and a
  reader of the dotted notation gets the address back, for all of them; so two addresses never share a text.\<close>

theorem ipv4_text_roundtrip:
  "\<exists>text. rp_network_address_ipv4_sockaddr_to_string addr = Some text \<and> length text < 16 \<and> read_dotted text = Some addr"
proof -
  have "length (dotted addr) < 16"
    using octet_length [of 0 addr] octet_length [of 1 addr] octet_length [of 2 addr] octet_length [of 3 addr] by (simp add: dotted_def)
  then show ?thesis using sockaddr_to_string_dotted read_dotted_dotted by blast
qed

section \<open>Addresses with a port\<close>

lemma dec_string_inj: "dec_string a = dec_string b \<Longrightarrow> a = b"
  by (metis dec_value_string)

lemma dotted_inj: "dotted a = dotted b \<Longrightarrow> a = b"
  by (metis option.inject read_dotted_dotted)

lemma colon_free: "list_all g_ascii_isdigit s \<Longrightarrow> CHR '':'' \<notin> set s"
  by (auto simp: list_all_iff g_ascii_isdigit_def)

text \<open>The name tells addresses apart.\<close>

lemma append_colon_eq:
  assumes "a @ CHR '':'' # b = c @ CHR '':'' # d" "CHR '':'' \<notin> set b" "CHR '':'' \<notin> set d"
  shows "a = c \<and> b = d"
proof -
  have "rev b @ CHR '':'' # rev a = rev d @ CHR '':'' # rev c" using arg_cong [OF assms(1), of rev] by simp
  moreover have "takeWhile (\<lambda>c. c \<noteq> CHR '':'') (rev b @ CHR '':'' # rev a) = rev b"
    "takeWhile (\<lambda>c. c \<noteq> CHR '':'') (rev d @ CHR '':'' # rev c) = rev d"
    using assms(2,3) by (auto simp: takeWhile_append)
  ultimately have "rev b = rev d" by metis
  then show ?thesis using assms(1) by simp
qed

lemma ipv4_name_inj:
  assumes "rp_network_address_ipv4_instance_new a p = Some x" "rp_network_address_ipv4_instance_new b q = Some y"
    and "v4_friendly_name x = v4_friendly_name y"
  shows "a = b \<and> p = q"
proof -
  have "dotted a @ CHR '':'' # dec_string (unat p) = dotted b @ CHR '':'' # dec_string (unat q)"
    using assms by (simp add: rp_network_address_ipv4_instance_new_def sockaddr_to_string_dotted)
      (metis append_Cons append_Nil ipv4_instance.select_convs(4))
  from append_colon_eq [OF this] have "dotted a = dotted b" "dec_string (unat p) = dec_string (unat q)"
    using colon_free [OF dec_string_digits] by blast+
  then show ?thesis using dotted_inj dec_string_inj by (metis unsigned_word_eqI)
qed

lemma port_cut: "(ucast (ucast (port :: guint32) :: guint16) :: guint32) = take_bit 16 port"
  by (rule bit_word_eqI) (auto simp: bit_simps)

text \<open>The address of a DNS answer keeps its value when the port is put into it, provided that \<open>inet_pton\<close> reads the
  dotted notation. The port is cut to 16 bits, the name is not.\<close>

lemma with_port_ipv4:
  assumes "rp_network_address_ipv4_instance_new addr p = Some a" "\<And>x. inet_pton4 env (dotted x) = Some x"
  shows "\<exists>b. rp_network_utiliy_get_address_with_port env (Ipv4 a) port = Some (Ipv4 b) \<and> sin_addr b = addr \<and>
    v4_friendly_address b = v4_friendly_address a \<and> ip_port (Ipv4 b) = take_bit 16 port \<and>
    as_string (Ipv4 b) = dotted addr @ '':'' @ dec_string (unat port)"
  using assms
  by (auto simp: rp_network_utiliy_get_address_with_port_def rp_network_address_ipv4_instance_new_3_def v4_port_i_def
      rp_network_address_ipv4_instance_new_def sockaddr_to_string_dotted port_cut)

section \<open>Kinds of addresses\<close>

text \<open>The test of the range 224.0.0.0/4 compares with the wrong constant: multicast addresses count as unicast, the
  reserved range above them does not.\<close>

lemma multicast_is_unicast:
  assumes "sin_addr a AND 0xf0000000 = 0xe0000000"
  shows "v4_is_unicast_address_i a"
proof -
  have "sin_addr a \<noteq> 0" "sin_addr a \<noteq> 0xffffffff" using assms by auto
  then show ?thesis using assms by (simp add: v4_is_unicast_address_i_def v4_is_any_address_i_def)
qed

text \<open>The scope of an IPv6 address is not part of its name.\<close>

lemma scope_not_in_name:
  assumes "length (inet_ntop addr) < INET6_ADDRSTRLEN" "char_of (0 :: nat) \<notin> set (inet_ntop addr)"
  shows "make_friendly_address inet_ntop garbage addr scope_id = inet_ntop addr"
proof -
  have "take INET6_ADDRSTRLEN (inet_ntop addr @ [char_of (0 :: nat)] @ garbage) =
      inet_ntop addr @ char_of (0 :: nat) # take (INET6_ADDRSTRLEN - length (inet_ntop addr) - 1) garbage"
    using assms(1) by (simp add: take_Cons' Suc_diff_Suc)
  moreover have "takeWhile (\<lambda>c. c \<noteq> char_of (0 :: nat)) (inet_ntop addr @ char_of (0 :: nat) # r) = inet_ntop addr" for r
    using assms(2) by (auto simp: takeWhile_append)
  ultimately show ?thesis by (simp add: make_friendly_address_def c_str_def Let_def)
qed

text \<open>Two IPv6 addresses that differ only in their scope have the same name, so a cluster takes the second of
  two link-local servers for a repetition of the first.\<close>

theorem scopes_share_name:
  assumes "\<And>a. length (inet_ntop a) < INET6_ADDRSTRLEN \<and> char_of (0 :: nat) \<notin> set (inet_ntop a)"
  shows "v6_friendly_name (rp_network_address_ipv6_instance_new inet_ntop garbage addr port scope1 v6only) =
    v6_friendly_name (rp_network_address_ipv6_instance_new inet_ntop garbage' addr port scope2 v6only)"
  using assms by (simp add: rp_network_address_ipv6_instance_new_def scope_not_in_name Let_def)

theorem scopes_share_name_witness:
  "v6_friendly_name (rp_network_address_ipv6_instance_new (\<lambda>_. ''fe80::1'') [] 1 80 2 True) =
   v6_friendly_name (rp_network_address_ipv6_instance_new (\<lambda>_. ''fe80::1'') [] 1 80 3 True) \<and>
   sin6_scope_id (rp_network_address_ipv6_instance_new (\<lambda>_. ''fe80::1'') [] 1 80 2 True) \<noteq>
   sin6_scope_id (rp_network_address_ipv6_instance_new (\<lambda>_. ''fe80::1'') [] 1 80 3 True)"
proof -
  have "length ''fe80::1'' < INET6_ADDRSTRLEN \<and> char_of (0 :: nat) \<notin> set ''fe80::1''" by code_simp
  from scopes_share_name [of "\<lambda>_. ''fe80::1''", OF this] show ?thesis
    by (simp add: rp_network_address_ipv6_instance_new_def Let_def)
qed

end
