(* ===== verification/Host_Set.thy ===== *)
theory Host_Set
  imports Address "HOL-Library.AList"
begin

text \<open>
  Hosts and priorities: \<^verbatim>\<open>src/src/rp-host-vector.c\<close>, \<^verbatim>\<open>rp-host-map.c\<close>, \<^verbatim>\<open>rp-host-map-snap.c\<close>, \<^verbatim>\<open>rp-priority-state.c\<close>, and in
  \<^verbatim>\<open>src/src/upstream/\<close> \<^verbatim>\<open>rp-host-impl.c\<close>, \<^verbatim>\<open>rp-host-set-impl.c\<close>, \<^verbatim>\<open>rp-priority-set-impl.c\<close>, \<^verbatim>\<open>rp-main-priority-set-impl.c\<close>,
  \<^verbatim>\<open>rp-priority-state-manager.c\<close> and the partition of \<^verbatim>\<open>rp-cluster-impl-base.c\<close>. Vectors of hosts and snapshots of host maps
  are objects in a store, with reference counts, since several owners hold the same one; a pointer is the number of
  an object, or \<open>None\<close> for NULL. Using an object whose count is zero and a failed assertion are \<open>None\<close>. A hash table
  is an association list. Whether a registered callback succeeds is a parameter.
\<close>

unbundle bit_operations_syntax

section \<open>Hosts\<close>

text \<open>\<open>h_id\<close> is the identity of the object, \<open>h_address\<close> the text of its address, \<open>h_metadata\<close> its upstream. Nothing
  in the program changes a host once it is made.\<close>

record host =
  h_id :: nat
  h_address :: string
  h_metadata :: nat
  h_priority :: guint32
  m_health_flags :: guint32

datatype RpHostHealth = UNHEALTHY | DEGRADED | HEALTHY

definition coarse_health_i :: "host \<Rightarrow> RpHostHealth option" where
  "coarse_health_i me =
     (if m_health_flags me AND (0x1 OR 0x2 OR 0x4 OR 0x200) \<noteq> 0 then Some UNHEALTHY
      else if m_health_flags me AND (0x8 OR 0x10) \<noteq> 0 then Some DEGRADED
      else if m_health_flags me = 0 \<or> m_health_flags me AND 0x20 \<noteq> 0 then Some HEALTHY
      else None)"

section \<open>The store\<close>

text \<open>\<open>notified\<close> is the calls of registered callbacks.\<close>

datatype notification = MemberUpdate nat "host list" "host list" | PriorityUpdate nat guint32 "host list" "host list"

record world =
  vec :: "nat \<Rightarrow> host list"
  vrefs :: "nat \<Rightarrow> nat"
  next_vec :: nat
  snap :: "nat \<Rightarrow> (string \<times> host) list"
  srefs :: "nat \<Rightarrow> nat"
  next_snap :: nat
  next_host :: nat
  notified :: "notification list"

definition world_init :: world where
  "world_init = \<lparr> vec = (\<lambda>_. []), vrefs = (\<lambda>_. 0), next_vec = 0, snap = (\<lambda>_. []), srefs = (\<lambda>_. 0), next_snap = 0,
     next_host = 0, notified = [] \<rparr>"

subsection \<open>Vectors\<close>

definition rp_host_vector_new :: "world \<Rightarrow> nat \<times> world" where
  "rp_host_vector_new w =
     (next_vec w, w\<lparr> vec := (vec w)(next_vec w := []), vrefs := (vrefs w)(next_vec w := 1), next_vec := Suc (next_vec w) \<rparr>)"

definition rp_host_vector_ref :: "nat \<Rightarrow> world \<Rightarrow> world option" where
  "rp_host_vector_ref v w =
     (if vrefs w v = 0 then None else Some (w\<lparr> vrefs := (vrefs w)(v := vrefs w v + 1) \<rparr>))"

definition rp_host_vector_unref :: "nat \<Rightarrow> world \<Rightarrow> world option" where
  "rp_host_vector_unref v w =
     (if vrefs w v = 0 then None else Some (w\<lparr> vrefs := (vrefs w)(v := vrefs w v - 1) \<rparr>))"

definition clear_vector :: "nat option \<Rightarrow> world \<Rightarrow> world option" where
  "clear_vector p w = (case p of None \<Rightarrow> Some w | Some v \<Rightarrow> rp_host_vector_unref v w)"

definition rp_host_vector_add :: "nat \<Rightarrow> host \<Rightarrow> world \<Rightarrow> world option" where
  "rp_host_vector_add v h w =
     (if vrefs w v = 0 then None else Some (w\<lparr> vec := (vec w)(v := vec w v @ [h]) \<rparr>))"

text \<open>What a loop over a vector sees; NULL counts as empty.\<close>

definition hosts_of :: "nat option \<Rightarrow> world \<Rightarrow> host list option" where
  "hosts_of p w =
     (case p of None \<Rightarrow> Some [] | Some v \<Rightarrow> if vrefs w v = 0 then None else Some (vec w v))"

fun add_all :: "nat \<Rightarrow> host list \<Rightarrow> world \<Rightarrow> world option" where
  "add_all v [] w = Some w"
| "add_all v (h # hs) w = Option.bind (rp_host_vector_add v h w) (add_all v hs)"

subsection \<open>Host maps and their snapshots\<close>

type_synonym host_map = "(string \<times> host) list"

definition rp_host_map_add :: "host \<Rightarrow> host_map \<Rightarrow> host_map" where
  "rp_host_map_add h m = AList.update (h_address h) h m"

definition rp_host_map_find :: "host_map \<Rightarrow> host \<Rightarrow> host option" where
  "rp_host_map_find m h = map_of m (h_address h)"

definition rp_host_map_remove :: "host \<Rightarrow> host_map \<Rightarrow> host_map" where
  "rp_host_map_remove h m = AList.delete (h_address h) m"

definition rp_host_map_snap_new_empty_frozen :: "world \<Rightarrow> nat \<times> world" where
  "rp_host_map_snap_new_empty_frozen w =
     (next_snap w, w\<lparr> snap := (snap w)(next_snap w := []), srefs := (srefs w)(next_snap w := 1), next_snap := Suc (next_snap w) \<rparr>)"

definition rp_host_map_snap_ref :: "nat \<Rightarrow> world \<Rightarrow> world option" where
  "rp_host_map_snap_ref i w =
     (if srefs w i = 0 then None else Some (w\<lparr> srefs := (srefs w)(i := srefs w i + 1) \<rparr>))"

definition rp_host_map_snap_unref :: "nat \<Rightarrow> world \<Rightarrow> world option" where
  "rp_host_map_snap_unref i w =
     (if srefs w i = 0 then None else Some (w\<lparr> srefs := (srefs w)(i := srefs w i - 1) \<rparr>))"

definition rp_host_map_snap_from_mutable_and_freeze :: "host_map \<Rightarrow> world \<Rightarrow> nat \<times> world" where
  "rp_host_map_snap_from_mutable_and_freeze src w =
     (let (dst, w1) = rp_host_map_snap_new_empty_frozen w
      in (dst, w1\<lparr> snap := (snap w1)(dst := foldl (\<lambda>m (k, v). rp_host_map_add v m) [] src) \<rparr>))"

definition rp_host_map_clone_from_snapshot :: "nat \<Rightarrow> world \<Rightarrow> host_map option" where
  "rp_host_map_clone_from_snapshot i w =
     (if srefs w i = 0 then None else Some (foldl (\<lambda>m (k, v). AList.update k v m) [] (snap w i)))"

text \<open>The assertion of both is that the pointer changes. The result is the new value of the pointer.\<close>

definition rp_host_map_snap_atomic_set_ref :: "nat \<Rightarrow> nat \<Rightarrow> world \<Rightarrow> (nat \<times> world) option" where
  "rp_host_map_snap_atomic_set_ref prev src w =
     do { w1 \<leftarrow> rp_host_map_snap_ref src w;
          if prev = src then None
          else do { w2 \<leftarrow> rp_host_map_snap_unref prev w1; Some (src, w2) } }"

definition rp_host_map_snap_atomic_publish_steal :: "nat \<Rightarrow> nat \<Rightarrow> world \<Rightarrow> (nat \<times> world) option" where
  "rp_host_map_snap_atomic_publish_steal prev incoming w =
     (if prev = incoming then None
      else do { w1 \<leftarrow> rp_host_map_snap_unref prev w; Some (incoming, w1) })"

section \<open>Host sets\<close>

datatype ref_cb = RunReferenceUpdateCallbacks

record host_set =
  m_priority :: guint32
  m_hosts :: "nat option"
  m_healthy_hosts :: "nat option"
  m_degraded_hosts :: "nat option"
  m_excluded_hosts :: "nat option"
  m_member_update_cb_helper :: "ref_cb list"

text \<open>\<open>RpPrioritySetUpdateHostsParams\<close>.\<close>

record update_params =
  up_hosts :: "nat option"
  up_healthy_hosts :: "nat option"
  up_degraded_hosts :: "nat option"
  up_excluded_hosts :: "nat option"

definition no_params :: update_params where
  "no_params = \<lparr> up_hosts = None, up_healthy_hosts = None, up_degraded_hosts = None, up_excluded_hosts = None \<rparr>"

definition rp_priority_set_update_hosts_params_clear :: "update_params \<Rightarrow> world \<Rightarrow> world option" where
  "rp_priority_set_update_hosts_params_clear p w =
     do { w1 \<leftarrow> clear_vector (up_hosts p) w;
          w2 \<leftarrow> clear_vector (up_healthy_hosts p) w1;
          w3 \<leftarrow> clear_vector (up_degraded_hosts p) w2;
          clear_vector (up_excluded_hosts p) w3 }"

text \<open>\<open>g_object_new\<close> with a priority; the property admits 0 and 1 only, another value is not set.\<close>

definition create_host_set :: "guint32 \<Rightarrow> world \<Rightarrow> host_set \<times> world" where
  "create_host_set priority w =
     (let (a, w1) = rp_host_vector_new w;
          (b, w2) = rp_host_vector_new w1;
          (c, w3) = rp_host_vector_new w2;
          (d, w4) = rp_host_vector_new w3
      in (\<lparr> m_priority = (if priority \<le> 1 then priority else 0), m_hosts = Some a, m_healthy_hosts = Some b,
            m_degraded_hosts = Some c, m_excluded_hosts = Some d, m_member_update_cb_helper = [] \<rparr>, w4))"

definition rp_host_set_impl_add_priority_update_cb :: "ref_cb \<Rightarrow> host_set \<Rightarrow> host_set" where
  "rp_host_set_impl_add_priority_update_cb cb hs =
     hs\<lparr> m_member_update_cb_helper := m_member_update_cb_helper hs @ [cb] \<rparr>"

text \<open>The old vector loses a reference, the new one gains one although the parameters gave theirs up.\<close>

definition steal_and_ref_hosts :: "nat option \<Rightarrow> nat option \<Rightarrow> world \<Rightarrow> world option" where
  "steal_and_ref_hosts dst src w =
     do { w1 \<leftarrow> clear_vector dst w;
          (case src of None \<Rightarrow> Some w1 | Some v \<Rightarrow> rp_host_vector_ref v w1) }"

definition take_params :: "update_params \<Rightarrow> host_set \<Rightarrow> world \<Rightarrow> (host_set \<times> world) option" where
  "take_params p hs w =
     do { w1 \<leftarrow> steal_and_ref_hosts (m_hosts hs) (up_hosts p) w;
          w2 \<leftarrow> steal_and_ref_hosts (m_healthy_hosts hs) (up_healthy_hosts p) w1;
          w3 \<leftarrow> steal_and_ref_hosts (m_degraded_hosts hs) (up_degraded_hosts p) w2;
          w4 \<leftarrow> steal_and_ref_hosts (m_excluded_hosts hs) (up_excluded_hosts p) w3;
          Some (hs\<lparr> m_hosts := up_hosts p, m_healthy_hosts := up_healthy_hosts p, m_degraded_hosts := up_degraded_hosts p,
                    m_excluded_hosts := up_excluded_hosts p \<rparr>, w4) }"

definition rp_host_set_impl_update_hosts_params_2 :: "host_set \<Rightarrow> world \<Rightarrow> (update_params \<times> world) option" where
  "rp_host_set_impl_update_hosts_params_2 hs w =
     do { w1 \<leftarrow> (case m_hosts hs of None \<Rightarrow> Some w | Some v \<Rightarrow> rp_host_vector_ref v w);
          Some (\<lparr> up_hosts = m_hosts hs, up_healthy_hosts = m_healthy_hosts hs, up_degraded_hosts = m_degraded_hosts hs,
                  up_excluded_hosts = m_excluded_hosts hs \<rparr>, w1) }"

section \<open>Partition\<close>

text \<open>Only healthy hosts are sorted out; the other two lists stay empty.\<close>

fun partition_loop :: "nat \<Rightarrow> host list \<Rightarrow> world \<Rightarrow> world option" where
  "partition_loop healthy_list [] w = Some w"
| "partition_loop healthy_list (h # hs) w =
     do { health_status \<leftarrow> coarse_health_i h;
          w1 \<leftarrow> (if health_status = HEALTHY then rp_host_vector_add healthy_list h w else Some w);
          partition_loop healthy_list hs w1 }"

definition rp_cluster_impl_base_partition_host_list :: "nat option \<Rightarrow> world \<Rightarrow> (nat \<times> nat \<times> nat \<times> world) option" where
  "rp_cluster_impl_base_partition_host_list hosts w =
     (let (healthy_list, w1) = rp_host_vector_new w;
          (degraded_list, w2) = rp_host_vector_new w1;
          (excluded_list, w3) = rp_host_vector_new w2
      in do { hs \<leftarrow> hosts_of hosts w3;
              w4 \<leftarrow> partition_loop healthy_list hs w3;
              Some (healthy_list, degraded_list, excluded_list, w4) })"

definition rp_host_set_impl_partition_hosts_take :: "nat option \<Rightarrow> world \<Rightarrow> (update_params \<times> world) option" where
  "rp_host_set_impl_partition_hosts_take hosts w =
     (if hosts = None then Some (no_params, w)
      else
        do { (h, d, e, w1) \<leftarrow> rp_cluster_impl_base_partition_host_list hosts w;
             Some (\<lparr> up_hosts = hosts, up_healthy_hosts = Some h, up_degraded_hosts = Some d, up_excluded_hosts = Some e \<rparr>, w1) })"

section \<open>Priority sets\<close>

text \<open>\<open>m_mutable_cross_priority_host_map\<close> is the field of the main priority set.\<close>

record priority_set =
  m_host_sets :: "host_set list"
  m_const_cross_priority_host_map :: nat
  m_mutable_cross_priority_host_map :: "host_map option"
  m_member_update_cbs :: "nat list"
  m_priority_update_cbs :: "nat list"
  m_batch_update :: bool

definition rp_priority_set_impl_new :: "world \<Rightarrow> priority_set \<times> world" where
  "rp_priority_set_impl_new w =
     (let (i, w1) = rp_host_map_snap_new_empty_frozen w
      in (\<lparr> m_host_sets = [], m_const_cross_priority_host_map = i, m_mutable_cross_priority_host_map = None,
            m_member_update_cbs = [], m_priority_update_cbs = [], m_batch_update = False \<rparr>, w1))"

definition add_member_update_cb_i :: "nat \<Rightarrow> priority_set \<Rightarrow> priority_set" where
  "add_member_update_cb_i cb ps = ps\<lparr> m_member_update_cbs := m_member_update_cbs ps @ [cb] \<rparr>"

definition add_priority_update_cb_i :: "nat \<Rightarrow> priority_set \<Rightarrow> priority_set" where
  "add_priority_update_cb_i cb ps = ps\<lparr> m_priority_update_cbs := m_priority_update_cbs ps @ [cb] \<rparr>"

text \<open>A callback looks at the vectors it is given. The first that fails ends the loop.\<close>

definition notify :: "(host list \<Rightarrow> host list \<Rightarrow> notification) \<Rightarrow> nat option \<Rightarrow> nat option \<Rightarrow> world \<Rightarrow> world option" where
  "notify n hosts_added hosts_removed w =
     do { a \<leftarrow> hosts_of hosts_added w; r \<leftarrow> hosts_of hosts_removed w; Some (w\<lparr> notified := notified w @ [n a r] \<rparr>) }"

fun run_update_callbacks :: "(nat \<Rightarrow> bool) \<Rightarrow> nat list \<Rightarrow> nat option \<Rightarrow> nat option \<Rightarrow> world \<Rightarrow> (bool \<times> world) option" where
  "run_update_callbacks ok [] a r w = Some (True, w)"
| "run_update_callbacks ok (c # cs) a r w =
     do { w1 \<leftarrow> notify (MemberUpdate c) a r w;
          if ok c then run_update_callbacks ok cs a r w1 else Some (False, w1) }"

fun run_reference_update_callbacks ::
  "(nat \<Rightarrow> bool) \<Rightarrow> nat list \<Rightarrow> guint32 \<Rightarrow> nat option \<Rightarrow> nat option \<Rightarrow> world \<Rightarrow> (bool \<times> world) option" where
  "run_reference_update_callbacks ok [] p a r w = Some (True, w)"
| "run_reference_update_callbacks ok (c # cs) p a r w =
     do { w1 \<leftarrow> notify (PriorityUpdate c p) a r w;
          if ok c then run_reference_update_callbacks ok cs p a r w1 else Some (False, w1) }"

text \<open>\<open>run_update_callbacks\<close> of a host set: every entry calls back into the priority set.\<close>

fun host_set_run_update_callbacks ::
  "(nat \<Rightarrow> bool) \<Rightarrow> priority_set \<Rightarrow> ref_cb list \<Rightarrow> guint32 \<Rightarrow> nat option \<Rightarrow> nat option \<Rightarrow> world \<Rightarrow> (bool \<times> world) option" where
  "host_set_run_update_callbacks ok ps [] p a r w = Some (True, w)"
| "host_set_run_update_callbacks ok ps (RunReferenceUpdateCallbacks # cs) p a r w =
     do { (s, w1) \<leftarrow> run_reference_update_callbacks ok (m_priority_update_cbs ps) p a r w;
          if s then host_set_run_update_callbacks ok ps cs p a r w1 else Some (False, w1) }"

definition rp_host_set_impl_update_hosts ::
  "(nat \<Rightarrow> bool) \<Rightarrow> priority_set \<Rightarrow> update_params \<Rightarrow> nat option \<Rightarrow> nat option \<Rightarrow> host_set \<Rightarrow> world \<Rightarrow> (host_set \<times> world) option" where
  "rp_host_set_impl_update_hosts ok ps params hosts_added hosts_removed hs w =
     do { (hs1, w1) \<leftarrow> take_params params hs w;
          (status, w2) \<leftarrow> host_set_run_update_callbacks ok ps (m_member_update_cb_helper hs1) (m_priority hs1) hosts_added hosts_removed w1;
          Some (hs1, w2) }"

fun create_host_sets :: "nat \<Rightarrow> priority_set \<Rightarrow> world \<Rightarrow> priority_set \<times> world" where
  "create_host_sets 0 ps w = (ps, w)"
| "create_host_sets (Suc n) ps w =
     (let (hs, w1) = create_host_set (of_nat (length (m_host_sets ps))) w;
          hs1 = rp_host_set_impl_add_priority_update_cb RunReferenceUpdateCallbacks hs
      in create_host_sets n (ps\<lparr> m_host_sets := m_host_sets ps @ [hs1] \<rparr>) w1)"

definition rp_priority_set_impl_get_or_create_host_set :: "guint32 \<Rightarrow> priority_set \<Rightarrow> world \<Rightarrow> priority_set \<times> world" where
  "rp_priority_set_impl_get_or_create_host_set priority ps w =
     (if of_nat (length (m_host_sets ps)) < priority + 1
      then create_host_sets (Suc (unat priority) - length (m_host_sets ps)) ps w else (ps, w))"

text \<open>\<open>update_hosts_i\<close> of the base. A host set that is not there is a warning and no more.\<close>

definition update_hosts_i ::
  "(nat \<Rightarrow> bool) \<Rightarrow> guint32 \<Rightarrow> update_params \<Rightarrow> nat option \<Rightarrow> nat option \<Rightarrow> nat option \<Rightarrow> priority_set \<Rightarrow> world \<Rightarrow>
    (update_params \<times> priority_set \<times> world) option" where
  "update_hosts_i ok priority params hosts_added hosts_removed cross_priority_host_map ps w =
     do { (i, w1) \<leftarrow> (case cross_priority_host_map of
                         None \<Rightarrow> Some (m_const_cross_priority_host_map ps, w)
                       | Some m \<Rightarrow> rp_host_map_snap_atomic_set_ref (m_const_cross_priority_host_map ps) m w);
          let (ps1, w2) = rp_priority_set_impl_get_or_create_host_set priority (ps\<lparr> m_const_cross_priority_host_map := i \<rparr>) w1;
          (params1, ps2, w3) \<leftarrow>
            (if unat priority < length (m_host_sets ps1)
             then do { (hs, w') \<leftarrow> rp_host_set_impl_update_hosts ok ps1 params hosts_added hosts_removed
                                     (m_host_sets ps1 ! unat priority) w2;
                       Some (no_params, ps1\<lparr> m_host_sets := (m_host_sets ps1)[unat priority := hs] \<rparr>, w') }
             else Some (params, ps1, w2));
          if m_batch_update ps2 then Some (params1, ps2, w3)
          else do { (status, w4) \<leftarrow> run_update_callbacks ok (m_member_update_cbs ps2) hosts_added hosts_removed w3;
                    Some (params1, ps2, w4) } }"

section \<open>The main priority set\<close>

fun remove_hosts :: "guint32 \<Rightarrow> host list \<Rightarrow> host_map \<Rightarrow> host_map" where
  "remove_hosts priority [] m = m"
| "remove_hosts priority (h # hs) m =
     remove_hosts priority hs
       (case rp_host_map_find m h of
          None \<Rightarrow> m
        | Some existing \<Rightarrow> if h_priority existing = priority then rp_host_map_remove existing m else m)"

fun add_hosts :: "host list \<Rightarrow> host_map \<Rightarrow> host_map" where
  "add_hosts [] m = m"
| "add_hosts (h # hs) m = add_hosts hs (if rp_host_map_find m h = None then rp_host_map_add h m else m)"

definition update_cross_priority_host_map ::
  "guint32 \<Rightarrow> nat option \<Rightarrow> nat option \<Rightarrow> priority_set \<Rightarrow> world \<Rightarrow> priority_set option" where
  "update_cross_priority_host_map priority hosts_added hosts_removed ps w =
     do { added \<leftarrow> hosts_of hosts_added w;
          removed \<leftarrow> hosts_of hosts_removed w;
          if added = [] \<and> removed = [] then Some ps
          else
            do { m \<leftarrow> (case m_mutable_cross_priority_host_map ps of
                          Some m \<Rightarrow> Some m
                        | None \<Rightarrow> rp_host_map_clone_from_snapshot (m_const_cross_priority_host_map ps) w);
                 Some (ps\<lparr> m_mutable_cross_priority_host_map := Some (add_hosts added (remove_hosts priority removed m)) \<rparr>) } }"

definition main_update_hosts_i ::
  "(nat \<Rightarrow> bool) \<Rightarrow> guint32 \<Rightarrow> update_params \<Rightarrow> nat option \<Rightarrow> nat option \<Rightarrow> priority_set \<Rightarrow> world \<Rightarrow>
    (update_params \<times> priority_set \<times> world) option" where
  "main_update_hosts_i ok priority params hosts_added hosts_removed ps w =
     do { ps1 \<leftarrow> update_cross_priority_host_map priority hosts_added hosts_removed ps w;
          update_hosts_i ok priority params hosts_added hosts_removed None ps1 w }"

text \<open>Publishes what is pending and returns a snapshot with a reference for the caller.\<close>

definition cross_priority_host_map_i :: "priority_set \<Rightarrow> world \<Rightarrow> (nat \<times> priority_set \<times> world) option" where
  "cross_priority_host_map_i ps w =
     do { (ps1, w1) \<leftarrow>
            (case m_mutable_cross_priority_host_map ps of
               None \<Rightarrow> Some (ps, w)
             | Some m \<Rightarrow>
                 (let (new_snap, w') = rp_host_map_snap_from_mutable_and_freeze m w
                  in do { (i, w'') \<leftarrow> rp_host_map_snap_atomic_publish_steal (m_const_cross_priority_host_map ps) new_snap w';
                          Some (ps\<lparr> m_mutable_cross_priority_host_map := None, m_const_cross_priority_host_map := i \<rparr>, w'') }));
          w2 \<leftarrow> rp_host_map_snap_ref (m_const_cross_priority_host_map ps1) w1;
          Some (m_const_cross_priority_host_map ps1, ps1, w2) }"

section \<open>The priority state and its manager\<close>

text \<open>\<open>psm_host_vector\<close> is a second pointer to the vector that the priority state owns.\<close>

record state_manager =
  m_priority_state :: "nat option list"
  m_params :: update_params
  psm_host_vector :: "nat option"

definition rp_priority_state_manager_new :: state_manager where
  "rp_priority_state_manager_new = \<lparr> m_priority_state = [], m_params = no_params, psm_host_vector = None \<rparr>"

definition rp_priority_state_ensure :: "guint32 \<Rightarrow> nat option list \<Rightarrow> nat option list" where
  "rp_priority_state_ensure priority s = s @ replicate (Suc (unat priority) - length s) None"

definition rp_priority_state_peek_host_list :: "guint32 \<Rightarrow> nat option list \<Rightarrow> nat option" where
  "rp_priority_state_peek_host_list priority s = (if unat priority < length s then s ! unat priority else None)"

definition rp_priority_state_steal_host_list :: "guint32 \<Rightarrow> nat option list \<Rightarrow> nat option \<times> nat option list" where
  "rp_priority_state_steal_host_list priority s =
     (if unat priority < length s then (s ! unat priority, s[unat priority := None]) else (None, s))"

definition rp_priority_state_set_host_list :: "guint32 \<Rightarrow> nat \<Rightarrow> nat option list \<Rightarrow> world \<Rightarrow> (nat option list \<times> world) option" where
  "rp_priority_state_set_host_list priority host_list s w =
     (let s1 = rp_priority_state_ensure priority s
      in do { w1 \<leftarrow> clear_vector (s1 ! unat priority) w; Some (s1[unat priority := Some host_list], w1) })"

definition rp_priority_state_manager_initialize_priority_for :: "guint32 \<Rightarrow> state_manager \<Rightarrow> world \<Rightarrow> (state_manager \<times> world) option" where
  "rp_priority_state_manager_initialize_priority_for priority self w =
     (let self1 = self\<lparr> m_priority_state := rp_priority_state_ensure priority (m_priority_state self) \<rparr>
      in if rp_priority_state_peek_host_list priority (m_priority_state self1) = None
         then
           (if psm_host_vector self1 \<noteq> None then None
            else
              (let (v, w1) = rp_host_vector_new w
               in do { (s, w2) \<leftarrow> rp_priority_state_set_host_list priority v (m_priority_state self1) w1;
                       Some (self1\<lparr> m_priority_state := s, psm_host_vector := Some v \<rparr>, w2) }))
         else Some (self1, w))"

definition rp_priority_state_manager_register_host_for_priority_2 :: "host \<Rightarrow> guint32 \<Rightarrow> state_manager \<Rightarrow> world \<Rightarrow> world option" where
  "rp_priority_state_manager_register_host_for_priority_2 h priority self w =
     do { v \<leftarrow> rp_priority_state_peek_host_list priority (m_priority_state self); rp_host_vector_add v h w }"

text \<open>\<open>m_update_cb\<close> is NULL for both kinds of clusters, which leaves the second branch.\<close>

definition rp_priority_state_manager_update_cluster_priority_set ::
  "(nat \<Rightarrow> bool) \<Rightarrow> guint32 \<Rightarrow> nat option \<Rightarrow> nat option \<Rightarrow> nat option \<Rightarrow> state_manager \<Rightarrow> priority_set \<Rightarrow> world \<Rightarrow>
    (state_manager \<times> priority_set \<times> world) option" where
  "rp_priority_state_manager_update_cluster_priority_set ok priority current_hosts hosts_added hosts_removed self ps w =
     do { w1 \<leftarrow> rp_priority_set_update_hosts_params_clear (m_params self) w;
          (params, w2) \<leftarrow> rp_host_set_impl_partition_hosts_take current_hosts w1;
          (params1, ps1, w3) \<leftarrow> main_update_hosts_i ok priority params hosts_added hosts_removed ps w2;
          Some (self\<lparr> m_params := params1 \<rparr>, ps1, w3) }"

fun clear_vectors :: "nat option list \<Rightarrow> world \<Rightarrow> world option" where
  "clear_vectors [] w = Some w"
| "clear_vectors (p # ps) w = Option.bind (clear_vector p w) (clear_vectors ps)"

definition psm_dispose :: "state_manager \<Rightarrow> world \<Rightarrow> world option" where
  "psm_dispose self w =
     do { w1 \<leftarrow> clear_vectors (m_priority_state self) w;
          w2 \<leftarrow> clear_vector (psm_host_vector self) w1;
          rp_priority_set_update_hosts_params_clear (m_params self) w2 }"

end
