(* ===== verification/Dns_Cluster.thy ===== *)
theory Dns_Cluster
  imports Host_Set
begin

text \<open>
  The strict DNS cluster, \<^verbatim>\<open>src/src/clusters/strict_dns/rp-strict-dns-cluster.c\<close>, with the comparison of host lists of
  \<^verbatim>\<open>upstream/rp-base-dynamic-cluster-impl.c\<close> and the initialisation of \<^verbatim>\<open>upstream/rp-cluster-impl-base.c\<close>. A cluster has a target
  for each configured name. The resolver answers a target by a call of \<open>network_dns_resolve_cb\<close>, which makes hosts
  of the addresses and hands the hosts of all targets to the cluster's priority set. The refresh rate is computed by
  the source but never used, and is left out. \<open>init_calls\<close> counts the calls of the callback that waits for the
  cluster.
\<close>

section \<open>State\<close>

text \<open>\<open>RpResolveTarget\<close>; \<open>rt_name\<close> is the name of the configured upstream.\<close>

record resolve_target =
  rt_dns_address :: string
  rt_port :: guint32
  rt_priority :: guint32
  rt_name :: string
  rt_active_query :: bool
  rt_hosts :: "nat option"
  rt_all_hosts :: host_map

text \<open>An upstream that was made for an address: name, host and port.\<close>

type_synonym made_upstream = "string \<times> string \<times> guint32"

record dns_cluster =
  dc_world :: world
  dc_priority_set :: priority_set
  m_resolve_targets :: "resolve_target list"
  m_last_used_element :: guint32
  rproxy_upstreams :: "made_upstream list"
  dc_callback :: bool
  dc_initialization_started :: bool
  init_calls :: nat
  dc_freed :: bool
  chosen :: "host option list"

text \<open>The constructor: a main priority set with the host set of priority 0, and a target with an empty vector for each
  endpoint, given by name, port, priority and upstream.\<close>

fun rp_resolve_target_new :: "string \<times> guint32 \<times> guint32 \<times> string \<Rightarrow> world \<Rightarrow> resolve_target \<times> world" where
  "rp_resolve_target_new (dns_address, port, priority, name) w =
     (let (v, w1) = rp_host_vector_new w
      in (\<lparr> rt_dns_address = dns_address, rt_port = port, rt_priority = priority, rt_name = name, rt_active_query = False,
            rt_hosts = Some v, rt_all_hosts = [] \<rparr>, w1))"

fun make_targets :: "(string \<times> guint32 \<times> guint32 \<times> string) list \<Rightarrow> world \<Rightarrow> resolve_target list \<times> world" where
  "make_targets [] w = ([], w)"
| "make_targets (e # es) w =
     (let (t, w1) = rp_resolve_target_new e w; (ts, w2) = make_targets es w1 in (t # ts, w2))"

definition rp_strict_dns_cluster_impl_new :: "(string \<times> guint32 \<times> guint32 \<times> string) list \<Rightarrow> dns_cluster" where
  "rp_strict_dns_cluster_impl_new endpoints =
     (let (ps, w1) = rp_priority_set_impl_new world_init;
          (ps1, w2) = rp_priority_set_impl_get_or_create_host_set 0 ps w1;
          (targets, w3) = make_targets endpoints w2
      in \<lparr> dc_world = w3, dc_priority_set = ps1, m_resolve_targets = targets, m_last_used_element = 0xffffffff,
           rproxy_upstreams = [], dc_callback = False, dc_initialization_started = False, init_calls = 0,
           dc_freed = False, chosen = [] \<rparr>)"

section \<open>Initialisation\<close>

definition dns_finish_initialization :: "dns_cluster \<Rightarrow> dns_cluster option" where
  "dns_finish_initialization c =
     (if dc_callback c \<and> dc_initialization_started c
      then Some (c\<lparr> dc_callback := False, init_calls := init_calls c + 1 \<rparr>) else None)"

definition dns_on_pre_init_complete :: "dns_cluster \<Rightarrow> dns_cluster option" where
  "dns_on_pre_init_complete c =
     (if dc_initialization_started c then Some c
      else dns_finish_initialization (c\<lparr> dc_initialization_started := True \<rparr>))"

text \<open>\<open>initialize_i\<close> and \<open>start_pre_init\<close>. The cluster always waits for its first answer.\<close>

definition dns_initialize :: "dns_cluster \<Rightarrow> dns_cluster option" where
  "dns_initialize c =
     (let c1 = c\<lparr> dc_callback := True, m_resolve_targets := map (\<lambda>t. t\<lparr> rt_active_query := True \<rparr>) (m_resolve_targets c) \<rparr>
      in if m_resolve_targets c1 = [] then dns_on_pre_init_complete c1 else Some c1)"

section \<open>An answer\<close>

text \<open>\<open>add_upstream\<close> and the loop over the addresses. An address that cannot be given the port is NULL, of which the
  name is looked up in a hash table.\<close>

definition add_upstream :: "string \<Rightarrow> nat \<Rightarrow> address_instance \<Rightarrow> made_upstream list \<Rightarrow> made_upstream list" where
  "add_upstream name count addr us = us @ [(name @ ''-'' @ dec_string count, address_as_string addr, ip_port addr)]"

fun answer_loop ::
  "inet_env \<Rightarrow> resolve_target \<Rightarrow> nat \<Rightarrow> address_instance list \<Rightarrow> string list \<Rightarrow> nat \<Rightarrow> made_upstream list \<Rightarrow> world \<Rightarrow>
    (made_upstream list \<times> world) option" where
  "answer_loop env t new_hosts [] all_new_hosts count us w = Some (us, w)"
| "answer_loop env t new_hosts (a # as) all_new_hosts count us w =
     do { address \<leftarrow> rp_network_utiliy_get_address_with_port env a (rt_port t);
          if as_string address \<in> set all_new_hosts then answer_loop env t new_hosts as all_new_hosts count us w
          else
            (let us1 = add_upstream (rt_name t) count address us;
                 h = \<lparr> h_id = next_host w, h_address = as_string address, h_metadata = length us, h_priority = rt_priority t,
                       m_health_flags = 0 \<rparr>
             in do { w1 \<leftarrow> rp_host_vector_add new_hosts h (w\<lparr> next_host := Suc (next_host w) \<rparr>);
                     answer_loop env t new_hosts as (as_string address # all_new_hosts) (Suc count) us1 w1 }) }"

text \<open>\<open>rp_base_dynamic_cluster_impl_update_dynamic_host_list\<close>: every new host is added and every old one removed. The
  result is whether hosts changed, the new current list, and the lists of added and removed hosts.\<close>

fun dynamic_loop :: "nat \<Rightarrow> host list \<Rightarrow> nat option \<Rightarrow> world \<Rightarrow> (nat option \<times> world) option" where
  "dynamic_loop final_hosts [] added w = Some (added, w)"
| "dynamic_loop final_hosts (h # hs) added w =
     do { w1 \<leftarrow> rp_host_vector_add final_hosts h w;
          let (v, w2) = (case added of Some v \<Rightarrow> (v, w1) | None \<Rightarrow> rp_host_vector_new w1);
          w3 \<leftarrow> rp_host_vector_add v h w2;
          dynamic_loop final_hosts hs (Some v) w3 }"

definition update_dynamic_host_list ::
  "nat \<Rightarrow> nat option \<Rightarrow> world \<Rightarrow> (bool \<times> nat option \<times> nat option \<times> nat option \<times> world) option" where
  "update_dynamic_host_list new_hosts current_priority_hosts w =
     (let (final_hosts, w1) = rp_host_vector_new w
      in do { hs \<leftarrow> hosts_of (Some new_hosts) w1;
              (added, w2) \<leftarrow> dynamic_loop final_hosts hs None w1;
              a \<leftarrow> hosts_of added w2;
              cur \<leftarrow> hosts_of current_priority_hosts w2;
              if a \<noteq> [] \<or> cur \<noteq> [] then Some (True, Some final_hosts, added, current_priority_hosts, w2)
              else Some (False, Some final_hosts, added, None, w2) })"

text \<open>\<open>update_all_hosts\<close>: the hosts of the targets of one priority.\<close>

fun register_hosts :: "host list \<Rightarrow> guint32 \<Rightarrow> guint32 \<Rightarrow> state_manager \<Rightarrow> world \<Rightarrow> world option" where
  "register_hosts [] priority current_priority m w = Some w"
| "register_hosts (h # hs) priority current_priority m w =
     do { w1 \<leftarrow> (if priority = current_priority
                   then rp_priority_state_manager_register_host_for_priority_2 h priority m w else Some w);
          register_hosts hs priority current_priority m w1 }"

fun register_targets :: "resolve_target list \<Rightarrow> guint32 \<Rightarrow> state_manager \<Rightarrow> world \<Rightarrow> (state_manager \<times> world) option" where
  "register_targets [] current_priority m w = Some (m, w)"
| "register_targets (t # ts) current_priority m w =
     do { (m1, w1) \<leftarrow> rp_priority_state_manager_initialize_priority_for (rt_priority t) m w;
          hs \<leftarrow> hosts_of (rt_hosts t) w1;
          w2 \<leftarrow> register_hosts hs (rt_priority t) current_priority m1 w1;
          register_targets ts current_priority m1 w2 }"

definition update_all_hosts ::
  "(nat \<Rightarrow> bool) \<Rightarrow> nat option \<Rightarrow> nat option \<Rightarrow> guint32 \<Rightarrow> resolve_target list \<Rightarrow> priority_set \<Rightarrow> world \<Rightarrow> (priority_set \<times> world) option" where
  "update_all_hosts ok hosts_added hosts_removed current_priority targets ps w =
     do { (m, w1) \<leftarrow> register_targets targets current_priority rp_priority_state_manager_new w;
          let (host_list, s) = rp_priority_state_steal_host_list current_priority (m_priority_state m);
          (m1, ps1, w2) \<leftarrow> rp_priority_state_manager_update_cluster_priority_set ok current_priority host_list hosts_added
                             hosts_removed (m\<lparr> m_priority_state := s \<rparr>) ps w1;
          w3 \<leftarrow> psm_dispose m1 w2;
          Some (ps1, w3) }"

datatype dns_answer = DnsCompleted "address_instance list" | DnsFailure

definition upd_target :: "nat \<Rightarrow> (resolve_target \<Rightarrow> resolve_target) \<Rightarrow> dns_cluster \<Rightarrow> dns_cluster" where
  "upd_target k f c = c\<lparr> m_resolve_targets := (m_resolve_targets c)[k := f (m_resolve_targets c ! k)] \<rparr>"

text \<open>The part of \<open>network_dns_resolve_cb\<close> for a completed resolution. Both lists are dropped, and their pointers
  NULL, before they are handed on.\<close>

definition answer_completed :: "inet_env \<Rightarrow> (nat \<Rightarrow> bool) \<Rightarrow> nat \<Rightarrow> address_instance list \<Rightarrow> dns_cluster \<Rightarrow> dns_cluster option" where
  "answer_completed env ok k response c =
     (let t = m_resolve_targets c ! k;
          (new_hosts, w1) = rp_host_vector_new (dc_world c)
      in do { (us, w2) \<leftarrow> answer_loop env t new_hosts response [] 0 (rproxy_upstreams c) w1;
              (changed, current, hosts_added, hosts_removed, w3) \<leftarrow> update_dynamic_host_list new_hosts (rt_hosts t) w2;
              let c1 = (upd_target k (\<lambda>t. t\<lparr> rt_hosts := current \<rparr>) c)\<lparr> rproxy_upstreams := us, dc_world := w3 \<rparr>;
              if \<not> changed then Some c1
              else
                do { removed \<leftarrow> hosts_of hosts_removed w3;
                     w4 \<leftarrow> clear_vector hosts_removed w3;
                     added \<leftarrow> hosts_of hosts_added w4;
                     w5 \<leftarrow> clear_vector hosts_added w4;
                     let all = foldl (\<lambda>m h. rp_host_map_add h m) (foldl (\<lambda>m h. rp_host_map_remove h m) (rt_all_hosts t) removed) added;
                     let c2 = upd_target k (\<lambda>t. t\<lparr> rt_all_hosts := all \<rparr>) c1;
                     (ps, w6) \<leftarrow> update_all_hosts ok None None (rt_priority t) (m_resolve_targets c2) (dc_priority_set c2) w5;
                     Some (c2\<lparr> dc_priority_set := ps, dc_world := w6 \<rparr>) } })"

text \<open>A target that was freed is used.\<close>

definition network_dns_resolve_cb :: "inet_env \<Rightarrow> (nat \<Rightarrow> bool) \<Rightarrow> nat \<Rightarrow> dns_answer \<Rightarrow> dns_cluster \<Rightarrow> dns_cluster option" where
  "network_dns_resolve_cb env ok k answer c =
     (if dc_freed c \<or> \<not> k < length (m_resolve_targets c) then None
      else
        (let c1 = upd_target k (\<lambda>t. t\<lparr> rt_active_query := False \<rparr>) c
         in do { c2 \<leftarrow> (case answer of DnsCompleted response \<Rightarrow> answer_completed env ok k response c1 | DnsFailure \<Rightarrow> Some c1);
                 dns_on_pre_init_complete c2 }))"

section \<open>Choosing a host\<close>

text \<open>\<open>get_round_robin\<close>. \<open>rp_host_vector_get\<close> out of range is NULL.\<close>

definition rp_host_vector_get :: "host list \<Rightarrow> guint32 \<Rightarrow> host option" where
  "rp_host_vector_get hosts i = (if unat i < length hosts then Some (hosts ! unat i) else None)"

definition get_round_robin :: "dns_cluster \<Rightarrow> (host option \<times> dns_cluster) option" where
  "get_round_robin me =
     do { hosts \<leftarrow> (case m_host_sets (dc_priority_set me) of
                      [] \<Rightarrow> Some []
                    | hs # _ \<Rightarrow> hosts_of (m_healthy_hosts hs) (dc_world me));
          if (of_nat (length hosts) :: guint32) < 2 then Some (rp_host_vector_get hosts 0, me)
          else if m_last_used_element me = 0xffffffff
          then Some (rp_host_vector_get hosts 0, me\<lparr> m_last_used_element := 0 \<rparr>)
          else
            (let i = m_last_used_element me + 1;
                 last_used_element = (if i \<ge> of_nat (length hosts) then 0 else i)
             in Some (rp_host_vector_get hosts last_used_element, me\<lparr> m_last_used_element := last_used_element \<rparr>)) }"

text \<open>\<open>dispose\<close>: the targets are freed; a query that is under way is not cancelled.\<close>

fun free_targets :: "resolve_target list \<Rightarrow> world \<Rightarrow> world option" where
  "free_targets [] w = Some w"
| "free_targets (t # ts) w = Option.bind (clear_vector (rt_hosts t) w) (free_targets ts)"

definition dns_dispose :: "dns_cluster \<Rightarrow> dns_cluster option" where
  "dns_dispose c = map_option (\<lambda>w. c\<lparr> dc_world := w, dc_freed := True \<rparr>) (free_targets (m_resolve_targets c) (dc_world c))"

section \<open>Runs\<close>

text \<open>The cluster is initialised once. The resolver answers a query that is under way once.\<close>

datatype dns_step = Initialize | Answered nat dns_answer | ChooseHost

fun dns_exec :: "inet_env \<Rightarrow> (nat \<Rightarrow> bool) \<Rightarrow> dns_step \<Rightarrow> dns_cluster \<Rightarrow> dns_cluster option" where
  "dns_exec env ok Initialize c = dns_initialize c"
| "dns_exec env ok (Answered k answer) c = network_dns_resolve_cb env ok k answer c"
| "dns_exec env ok ChooseHost c = map_option (\<lambda>(h, c1). c1\<lparr> chosen := chosen c1 @ [h] \<rparr>) (get_round_robin c)"

end
