(* ===== verification/Dns_Cluster_Props.thy ===== *)
theory Dns_Cluster_Props
  imports Dns_Cluster
begin

text \<open>
  What the strict DNS cluster serves: after any answers, in any order, its host set holds the addresses of the last
  answer to each target, each once for its target, and the callback that waits for the cluster is called once.
\<close>

section \<open>Loops in closed form\<close>

lemma add_loop:
  assumes "vrefs w v \<noteq> 0"
  shows "rp_host_vector_add v h w = Some (w\<lparr> vec := (vec w)(v := vec w v @ [h]) \<rparr>)"
  using assms by (simp add: rp_host_vector_add_def)

fun fresh :: "string list \<Rightarrow> string list \<Rightarrow> string list" where
  "fresh seen [] = []"
| "fresh seen (x # xs) = (if x \<in> set seen then fresh seen xs else x # fresh (x # seen) xs)"

lemma fresh_set: "set (fresh seen xs) = set xs - set seen"
  by (induction seen xs rule: fresh.induct) auto

lemma fresh_distinct: "distinct (fresh seen xs)"
  by (induction seen xs rule: fresh.induct) (auto simp: fresh_set)

definition ported :: "inet_env \<Rightarrow> guint32 \<Rightarrow> address_instance \<Rightarrow> string" where
  "ported env port a = as_string (the (rp_network_utiliy_get_address_with_port env a port))"

definition portable :: "inet_env \<Rightarrow> guint32 \<Rightarrow> address_instance list \<Rightarrow> bool" where
  "portable env port as = list_all (\<lambda>a. rp_network_utiliy_get_address_with_port env a port \<noteq> None) as"

definition plain :: "host \<Rightarrow> bool" where
  "plain h = (m_health_flags h = 0)"

lemma answer_loop_ok:
  assumes "vrefs w v \<noteq> 0" "portable env (rt_port t) as"
  shows "\<exists>us' hs. answer_loop env t v as seen count us w =
      Some (us', w\<lparr> vec := (vec w)(v := vec w v @ hs), next_host := next_host w + length hs \<rparr>) \<and>
    map h_address hs = fresh seen (map (ported env (rt_port t)) as) \<and> list_all plain hs"
  using assms
proof (induction as arbitrary: seen count us w)
  case Nil
  then show ?case by (intro exI [of _ us] exI [of _ "[]"]) simp
next
  case (Cons a as)
  then obtain b where b: "rp_network_utiliy_get_address_with_port env a (rt_port t) = Some b" by (auto simp: portable_def)
  then have p: "ported env (rt_port t) a = as_string b" by (simp add: ported_def)
  have rest: "portable env (rt_port t) as" using Cons.prems(2) by (simp add: portable_def)
  show ?case
  proof (cases "as_string b \<in> set seen")
    case True
    then show ?thesis using Cons.IH [OF Cons.prems(1) rest, of seen count us] b p by simp
  next
    case False
    let ?h = "\<lparr> h_id = next_host w, h_address = as_string b, h_metadata = length us, h_priority = rt_priority t, m_health_flags = 0 \<rparr>"
    let ?w = "w\<lparr> vec := (vec w)(v := vec w v @ [?h]), next_host := Suc (next_host w) \<rparr>"
    have r: "vrefs ?w v \<noteq> 0" using Cons.prems(1) by simp
    from Cons.IH [OF r rest] obtain us' hs where ih: "answer_loop env t v as (as_string b # seen) (Suc count) (add_upstream (rt_name t) count b us) ?w =
        Some (us', ?w\<lparr> vec := (vec ?w)(v := vec ?w v @ hs), next_host := next_host ?w + length hs \<rparr>)"
      "map h_address hs = fresh (as_string b # seen) (map (ported env (rt_port t)) as)" "list_all plain hs"
      by blast
    have add: "rp_host_vector_add v ?h (w\<lparr> next_host := Suc (next_host w) \<rparr>) = Some ?w"
      using Cons.prems(1) by (simp add: rp_host_vector_add_def)
    show ?thesis
    proof (intro exI conjI)
      show "answer_loop env t v (a # as) seen count us w =
          Some (us', w\<lparr> vec := (vec w)(v := vec w v @ ?h # hs), next_host := next_host w + length (?h # hs) \<rparr>)"
        using ih(1) False b by (simp add: add del: fun_upd_apply) simp
      show "map h_address (?h # hs) = fresh seen (map (ported env (rt_port t)) (a # as))" using ih(2) False p by simp
      show "list_all plain (?h # hs)" using ih(3) by (simp add: plain_def [of ?h])
    qed
  qed
qed

lemma dynamic_loop_some:
  assumes "vrefs w f \<noteq> 0" "vrefs w v \<noteq> 0" "f \<noteq> v"
  shows "dynamic_loop f hs (Some v) w = Some (Some v, w\<lparr> vec := (vec w)(f := vec w f @ hs, v := vec w v @ hs) \<rparr>)"
  using assms by (induction hs arbitrary: w) (auto simp: rp_host_vector_add_def fun_upd_twist)

lemma dynamic_loop_none:
  assumes "vrefs w f \<noteq> 0" "f < next_vec w"
  shows "dynamic_loop f hs None w =
    (if hs = [] then Some (None, w)
     else Some (Some (next_vec w), w\<lparr> vec := (vec w)(f := vec w f @ hs, next_vec w := hs), vrefs := (vrefs w)(next_vec w := 1),
                   next_vec := Suc (next_vec w) \<rparr>))"
proof (cases hs)
  case (Cons h hs')
  then show ?thesis using assms
    by (simp add: rp_host_vector_add_def rp_host_vector_new_def dynamic_loop_some fun_upd_twist)
qed simp

lemma register_hosts_ok:
  assumes "rp_priority_state_peek_host_list p (m_priority_state m) = Some v" "vrefs w v \<noteq> 0"
  shows "register_hosts hs p p m w = Some (w\<lparr> vec := (vec w)(v := vec w v @ hs) \<rparr>)"
  using assms
  by (induction hs arbitrary: w) (auto simp: rp_priority_state_manager_register_host_for_priority_2_def rp_host_vector_add_def)

definition target_hosts :: "world \<Rightarrow> resolve_target \<Rightarrow> host list" where
  "target_hosts w t = (case rt_hosts t of None \<Rightarrow> [] | Some v \<Rightarrow> vec w v)"

definition target_ok :: "world \<Rightarrow> resolve_target \<Rightarrow> bool" where
  "target_ok w t = (rt_priority t = 0 \<and> (\<exists>v. rt_hosts t = Some v \<and> v < next_vec w \<and> vrefs w v \<noteq> 0))"

lemma initialize_again:
  assumes "m_priority_state m = [Some v]"
  shows "rp_priority_state_manager_initialize_priority_for 0 m w = Some (m, w)"
  using assms by (simp add: rp_priority_state_manager_initialize_priority_for_def rp_priority_state_ensure_def
      rp_priority_state_peek_host_list_def Let_def)

lemma register_targets_more:
  assumes "m_priority_state m = [Some v]" "vrefs w v \<noteq> 0" "list_all (target_ok w) ts" "\<forall>t \<in> set ts. rt_hosts t \<noteq> Some v"
  shows "register_targets ts 0 m w = Some (m, w\<lparr> vec := (vec w)(v := vec w v @ concat (map (target_hosts w) ts)) \<rparr>)"
  using assms
proof (induction ts arbitrary: w)
  case (Cons t ts)
  from Cons.prems(3) obtain u where u: "rt_hosts t = Some u" "vrefs w u \<noteq> 0" "rt_priority t = 0" by (auto simp: target_ok_def)
  let ?w = "w\<lparr> vec := (vec w)(v := vec w v @ vec w u) \<rparr>"
  have p: "rp_priority_state_peek_host_list 0 (m_priority_state m) = Some v"
    using Cons.prems(1) by (simp add: rp_priority_state_peek_host_list_def)
  have same: "map (target_hosts ?w) ts = map (target_hosts w) ts"
    using Cons.prems(4) by (auto simp: target_hosts_def split: option.splits)
  have ih: "register_targets ts 0 m ?w = Some (m, ?w\<lparr> vec := (vec ?w)(v := vec ?w v @ concat (map (target_hosts ?w) ts)) \<rparr>)"
  proof (rule Cons.IH [OF Cons.prems(1)])
    show "list_all (target_ok ?w) ts" using Cons.prems(3) by (simp add: target_ok_def [abs_def])
  qed (use Cons.prems in simp_all)
  have r: "register_hosts (vec w u) 0 0 m w = Some ?w" by (rule register_hosts_ok [OF p Cons.prems(2)])
  show ?case using ih u unfolding same
    by (simp add: initialize_again [OF Cons.prems(1)] hosts_of_def r target_hosts_def [of w t]) (simp add: fun_upd_def)
qed simp

lemma register_targets_first:
  assumes "ts \<noteq> []" "list_all (target_ok w) ts"
  shows "register_targets ts 0 rp_priority_state_manager_new w =
    Some (\<lparr> m_priority_state = [Some (next_vec w)], m_params = no_params, psm_host_vector = Some (next_vec w) \<rparr>,
      w\<lparr> vec := (vec w)(next_vec w := concat (map (target_hosts w) ts)), vrefs := (vrefs w)(next_vec w := 1), next_vec := Suc (next_vec w) \<rparr>)"
proof -
  let ?n = "next_vec w"
  let ?m = "\<lparr> m_priority_state = [Some ?n], m_params = no_params, psm_host_vector = Some ?n \<rparr>"
  let ?w = "w\<lparr> vec := (vec w)(?n := []), vrefs := (vrefs w)(?n := 1), next_vec := Suc ?n \<rparr>"
  obtain t ts' where ts: "ts = t # ts'" using assms(1) by (cases ts) auto
  have prio: "rt_priority t = 0" using assms(2) ts by (simp add: target_ok_def)
  have first: "rp_priority_state_manager_initialize_priority_for 0 rp_priority_state_manager_new w = Some (?m, ?w)"
    by (simp add: rp_priority_state_manager_initialize_priority_for_def rp_priority_state_manager_new_def
        rp_priority_state_ensure_def rp_priority_state_peek_host_list_def rp_host_vector_new_def
        rp_priority_state_set_host_list_def clear_vector_def)
  have again: "rp_priority_state_manager_initialize_priority_for 0 ?m ?w = Some (?m, ?w)" by (rule initialize_again) simp
  have "register_targets ts 0 rp_priority_state_manager_new w = register_targets ts 0 ?m ?w"
    using first again by (simp add: ts prio)
  also have "\<dots> = Some (?m, ?w\<lparr> vec := (vec ?w)(?n := vec ?w ?n @ concat (map (target_hosts ?w) ts)) \<rparr>)"
  proof (rule register_targets_more)
    have "target_ok ?w t" if "target_ok w t" for t using that unfolding target_ok_def by (elim conjE exE, intro conjI exI) auto
    then show "list_all (target_ok ?w) ts" using assms(2) by (simp add: list_all_iff)
    show "\<forall>t \<in> set ts. rt_hosts t \<noteq> Some ?n" using assms(2) by (fastforce simp: target_ok_def list_all_iff)
  qed simp_all
  also have "map (target_hosts ?w) ts = map (target_hosts w) ts"
    using assms(2) by (auto simp: target_hosts_def target_ok_def list_all_iff split: option.splits)
  finally show ?thesis by (simp add: fun_upd_def cong: if_cong)
qed


section \<open>The host set is replaced\<close>

lemma partition_plain:
  assumes "list_all plain hs" "vrefs w v \<noteq> 0"
  shows "partition_loop v hs w = Some (w\<lparr> vec := (vec w)(v := vec w v @ hs) \<rparr>)"
  using assms
proof (induction hs arbitrary: w)
  case (Cons h hs)
  have "coarse_health_i h = Some HEALTHY" using Cons.prems(1) by (simp add: coarse_health_i_def plain_def)
  then show ?case
    using Cons.prems Cons.IH [of "w\<lparr> vec := (vec w)(v := vec w v @ [h]) \<rparr>"]
    by (simp add: rp_host_vector_add_def cong: if_cong)
qed simp

text \<open>A priority set as the cluster has it: one host set, no callbacks, nothing pending.\<close>

definition quiet :: "host_set \<Rightarrow> priority_set \<Rightarrow> bool" where
  "quiet hs ps = (m_host_sets ps = [hs] \<and> m_mutable_cross_priority_host_map ps = None \<and> m_member_update_cbs ps = [] \<and>
     m_priority_update_cbs ps = [] \<and> m_member_update_cb_helper hs = [RunReferenceUpdateCallbacks])"

definition owns :: "host_set \<Rightarrow> nat \<Rightarrow> nat \<Rightarrow> nat \<Rightarrow> nat \<Rightarrow> bool" where
  "owns hs a b d e = (m_hosts hs = Some a \<and> m_healthy_hosts hs = Some b \<and> m_degraded_hosts hs = Some d \<and> m_excluded_hosts hs = Some e)"

text \<open>One reference goes from \<open>a\<close> to \<open>p\<close>.\<close>

definition moved :: "nat \<Rightarrow> nat \<Rightarrow> world \<Rightarrow> world" where
  "moved a p w = w\<lparr> vrefs := (vrefs w)(a := vrefs w a - 1, p := vrefs w p + 1) \<rparr>"

lemma moved_sel [simp]:
  "vec (moved a p w) = vec w" "next_vec (moved a p w) = next_vec w" "snap (moved a p w) = snap w" "srefs (moved a p w) = srefs w"
  "next_snap (moved a p w) = next_snap w" "next_host (moved a p w) = next_host w" "notified (moved a p w) = notified w"
  by (simp_all add: moved_def)

lemma moved_refs: "a \<noteq> p \<Longrightarrow> vrefs (moved a p w) v = (if v = p then vrefs w v + 1 else if v = a then vrefs w v - 1 else vrefs w v)"
  by (simp add: moved_def)

lemma steal_moves:
  assumes "vrefs w a \<noteq> 0" "vrefs w p \<noteq> 0" "a \<noteq> p"
  shows "steal_and_ref_hosts (Some a) (Some p) w = Some (moved a p w)"
  using assms by (simp add: steal_and_ref_hosts_def clear_vector_def rp_host_vector_unref_def rp_host_vector_ref_def moved_def)

definition with_vectors :: "nat \<Rightarrow> nat \<Rightarrow> nat \<Rightarrow> nat \<Rightarrow> host_set \<Rightarrow> host_set" where
  "with_vectors p q r s hs =
     hs\<lparr> m_hosts := Some p, m_healthy_hosts := Some q, m_degraded_hosts := Some r, m_excluded_hosts := Some s \<rparr>"

lemma take_params_moves:
  assumes o: "owns hs a b d e" and live: "\<forall>v \<in> {a, b, d, e, p, q, r, s}. vrefs w v \<noteq> 0" and dist: "distinct [a, b, d, e, p, q, r, s]"
  shows "take_params \<lparr> up_hosts = Some p, up_healthy_hosts = Some q, up_degraded_hosts = Some r, up_excluded_hosts = Some s \<rparr> hs w =
    Some (with_vectors p q r s hs, moved e s (moved d r (moved b q (moved a p w))))"
proof -
  let ?w1 = "moved a p w" and ?w2 = "moved b q (moved a p w)" and ?w3 = "moved d r (moved b q (moved a p w))"
  have "steal_and_ref_hosts (Some a) (Some p) w = Some ?w1" using live dist by (intro steal_moves) auto
  moreover have "steal_and_ref_hosts (Some b) (Some q) ?w1 = Some ?w2" using live dist by (intro steal_moves) (auto simp: moved_refs)
  moreover have "steal_and_ref_hosts (Some d) (Some r) ?w2 = Some ?w3" using live dist by (intro steal_moves) (auto simp: moved_refs)
  moreover have "steal_and_ref_hosts (Some e) (Some s) ?w3 = Some (moved e s ?w3)"
    using live dist by (intro steal_moves) (auto simp: moved_refs)
  ultimately show ?thesis using o by (simp add: take_params_def owns_def with_vectors_def)
qed

lemma main_update_quiet:
  assumes q: "quiet hs ps" and o: "owns hs a b d e" and live: "\<forall>v \<in> {a, b, d, e, p, q', r, s}. vrefs w v \<noteq> 0"
    and dist: "distinct [a, b, d, e, p, q', r, s]"
  shows "main_update_hosts_i ok 0 \<lparr> up_hosts = Some p, up_healthy_hosts = Some q', up_degraded_hosts = Some r, up_excluded_hosts = Some s \<rparr>
      None None ps w =
    Some (no_params, ps\<lparr> m_host_sets := [with_vectors p q' r s hs] \<rparr>, moved e s (moved d r (moved b q' (moved a p w))))"
proof -
  have cross: "update_cross_priority_host_map 0 None None ps w = Some ps"
    by (simp add: update_cross_priority_host_map_def hosts_of_def)
  have goc: "rp_priority_set_impl_get_or_create_host_set 0 ps w = (ps, w)"
    using q by (simp add: rp_priority_set_impl_get_or_create_host_set_def quiet_def)
  have cbs: "m_member_update_cb_helper (with_vectors p q' r s hs) = [RunReferenceUpdateCallbacks]"
    using q by (simp add: quiet_def with_vectors_def)
  show ?thesis
    using q by (simp add: main_update_hosts_i_def cross update_hosts_i_def goc rp_host_set_impl_update_hosts_def quiet_def
        take_params_moves [OF o live dist] cbs)
qed

text \<open>The hosts of all targets become the host set, in a new vector with one reference; the vector of healthy hosts and the
  two empty ones keep a reference that nobody owns.\<close>

lemma partition_take_plain:
  assumes "vrefs w v \<noteq> 0" "v < next_vec w" "list_all plain (vec w v)"
  defines "n \<equiv> next_vec w"
  shows "rp_host_set_impl_partition_hosts_take (Some v) w =
    Some (\<lparr> up_hosts = Some v, up_healthy_hosts = Some n, up_degraded_hosts = Some (Suc n), up_excluded_hosts = Some (Suc (Suc n)) \<rparr>,
      w\<lparr> vec := (vec w)(n := vec w v, Suc n := [], Suc (Suc n) := []), vrefs := (vrefs w)(n := 1, Suc n := 1, Suc (Suc n) := 1),
         next_vec := Suc (Suc (Suc n)) \<rparr>)"
proof -
  let ?w = "w\<lparr> vec := (vec w)(n := [], Suc n := [], Suc (Suc n) := []), vrefs := (vrefs w)(n := 1, Suc n := 1, Suc (Suc n) := 1),
         next_vec := Suc (Suc (Suc n)) \<rparr>"
  have "partition_loop n (vec w v) ?w = Some (?w\<lparr> vec := (vec ?w)(n := vec ?w n @ vec w v) \<rparr>)"
    using assms(3) by (intro partition_plain) simp_all
  then have "partition_loop n (vec w v) ?w =
      Some (w\<lparr> vec := (vec w)(n := vec w v, Suc n := [], Suc (Suc n) := []), vrefs := (vrefs w)(n := 1, Suc n := 1, Suc (Suc n) := 1),
         next_vec := Suc (Suc (Suc n)) \<rparr>)"
    by (simp add: fun_upd_twist)
  moreover have "v \<noteq> n" "v \<noteq> Suc n" "v \<noteq> Suc (Suc n)" using assms(2) by (auto simp: n_def)
  ultimately show ?thesis
    using assms(1) by (simp add: rp_host_set_impl_partition_hosts_take_def rp_cluster_impl_base_partition_host_list_def
        rp_host_vector_new_def hosts_of_def n_def)
qed

definition replaced :: "nat list \<Rightarrow> host list \<Rightarrow> world \<Rightarrow> world \<Rightarrow> bool" where
  "replaced old hosts w w' =
     (let n = next_vec w in
      next_vec w' = n + 4 \<and> snap w' = snap w \<and> srefs w' = srefs w \<and> notified w' = notified w \<and>
      (\<forall>v < n. vec w' v = vec w v \<and> vrefs w' v = (if v \<in> set old then vrefs w v - 1 else vrefs w v)) \<and>
      vec w' n = hosts \<and> vec w' (n + 1) = hosts \<and> vec w' (n + 2) = [] \<and> vec w' (n + 3) = [] \<and>
      vrefs w' n = 1 \<and> vrefs w' (n + 1) = 2 \<and> vrefs w' (n + 2) = 2 \<and> vrefs w' (n + 3) = 2)"

lemma params_clear_none: "rp_priority_set_update_hosts_params_clear no_params w = Some w"
  by (simp add: rp_priority_set_update_hosts_params_clear_def no_params_def clear_vector_def)

lemma psm_dispose_one:
  assumes "vrefs w n \<noteq> 0"
  shows "psm_dispose \<lparr> m_priority_state = [None], m_params = no_params, psm_host_vector = Some n \<rparr> w =
    Some (w\<lparr> vrefs := (vrefs w)(n := vrefs w n - 1) \<rparr>)"
  using assms by (simp add: psm_dispose_def clear_vector_def params_clear_none rp_host_vector_unref_def)

lemma update_all_hosts_ok:
  assumes ts: "ts \<noteq> []" "list_all (target_ok w) ts" and pl: "list_all plain (concat (map (target_hosts w) ts))"
    and q: "quiet hs ps" and o: "owns hs a b d e"
    and live: "\<forall>v \<in> {a, b, d, e}. vrefs w v \<noteq> 0 \<and> v < next_vec w" and dist: "distinct [a, b, d, e]"
  defines "n \<equiv> next_vec w"
  shows "\<exists>w'. update_all_hosts ok None None 0 ts ps w =
      Some (ps\<lparr> m_host_sets := [with_vectors n (n + 1) (n + 2) (n + 3) hs] \<rparr>, w') \<and>
    replaced [a, b, d, e] (concat (map (target_hosts w) ts)) w w'"
proof -
  let ?H = "concat (map (target_hosts w) ts)"
  let ?m = "\<lparr> m_priority_state = [Some n], m_params = no_params, psm_host_vector = Some n \<rparr>"
  let ?w1 = "w\<lparr> vec := (vec w)(n := ?H), vrefs := (vrefs w)(n := 1), next_vec := Suc n \<rparr>"
  let ?w2 = "?w1\<lparr> vec := (vec ?w1)(Suc n := ?H, Suc (Suc n) := [], Suc (Suc (Suc n)) := []),
    vrefs := (vrefs ?w1)(Suc n := 1, Suc (Suc n) := 1, Suc (Suc (Suc n)) := 1), next_vec := Suc (Suc (Suc (Suc n))) \<rparr>"
  let ?p = "\<lparr> up_hosts = Some n, up_healthy_hosts = Some (Suc n), up_degraded_hosts = Some (Suc (Suc n)),
    up_excluded_hosts = Some (Suc (Suc (Suc n))) \<rparr>"
  define w2 where "w2 = ?w2"
  define w3 where "w3 = moved e (Suc (Suc (Suc n))) (moved d (Suc (Suc n)) (moved b (Suc n) (moved a n w2)))"
  let ?w4 = "w3\<lparr> vrefs := (vrefs w3)(n := vrefs w3 n - 1) \<rparr>"
  have lt: "a < n" "b < n" "d < n" "e < n" using live by (auto simp: n_def)
  have reg: "register_targets ts 0 rp_priority_state_manager_new w = Some (?m, ?w1)"
    unfolding n_def by (rule register_targets_first [OF ts])
  have part: "rp_host_set_impl_partition_hosts_take (Some n) ?w1 = Some (?p, w2)"
    unfolding w2_def using partition_take_plain [of ?w1 n] pl by simp
  have upd: "main_update_hosts_i ok 0 ?p None None ps w2 =
      Some (no_params, ps\<lparr> m_host_sets := [with_vectors n (Suc n) (Suc (Suc n)) (Suc (Suc (Suc n))) hs] \<rparr>, w3)"
    unfolding w3_def using live dist lt by (intro main_update_quiet [OF q o]) (auto simp: w2_def)
  have refs: "vrefs w3 v = (if v = n then 2 else if v \<in> {Suc n, Suc (Suc n), Suc (Suc (Suc n))} then 2
      else if v \<in> {a, b, d, e} then vrefs w v - 1 else vrefs w v)" for v
    using dist lt by (auto simp: moved_refs w3_def w2_def)
  have "psm_dispose \<lparr> m_priority_state = [None], m_params = no_params, psm_host_vector = Some n \<rparr> w3 = Some ?w4"
    using refs [of n] by (intro psm_dispose_one) simp
  then have "update_all_hosts ok None None 0 ts ps w =
      Some (ps\<lparr> m_host_sets := [with_vectors n (Suc n) (Suc (Suc n)) (Suc (Suc (Suc n))) hs] \<rparr>, ?w4)"
    by (simp add: update_all_hosts_def reg rp_priority_state_steal_host_list_def upd part params_clear_none
        rp_priority_state_manager_update_cluster_priority_set_def del: fun_upd_apply One_nat_def)
  moreover have "replaced [a, b, d, e] ?H w ?w4"
    using refs lt by (simp add: replaced_def Let_def n_def [symmetric] w3_def w2_def)
  ultimately show ?thesis by (simp add: eval_nat_numeral)
qed

section \<open>The store of a cluster\<close>

definition store_ok :: "world \<Rightarrow> resolve_target list \<Rightarrow> host_set \<Rightarrow> bool" where
  "store_ok w ts hs =
     (list_all (target_ok w) ts \<and> distinct (map rt_hosts ts) \<and> list_all plain (concat (map (target_hosts w) ts)) \<and>
      (\<exists>a b d e. owns hs a b d e \<and> distinct [a, b, d, e] \<and> (\<forall>v \<in> {a, b, d, e}. vrefs w v \<noteq> 0 \<and> v < next_vec w) \<and>
         (\<forall>t \<in> set ts. rt_hosts t \<notin> Some ` {a, b, d, e})))"

text \<open>The host set and its healthy part hold the given hosts.\<close>

definition serves :: "world \<Rightarrow> host_set \<Rightarrow> host list \<Rightarrow> bool" where
  "serves w hs hosts = (hosts_of (m_hosts hs) w = Some hosts \<and> hosts_of (m_healthy_hosts hs) w = Some hosts)"

lemma publish_ok:
  assumes s: "store_ok w ts hs" and q: "quiet hs ps" and ts: "ts \<noteq> []"
  shows "\<exists>hs' w'. update_all_hosts ok None None 0 ts ps w = Some (ps\<lparr> m_host_sets := [hs'] \<rparr>, w') \<and>
    store_ok w' ts hs' \<and> quiet hs' (ps\<lparr> m_host_sets := [hs'] \<rparr>) \<and> map (target_hosts w') ts = map (target_hosts w) ts \<and>
    serves w' hs' (concat (map (target_hosts w) ts)) \<and> snap w' = snap w"
proof -
  let ?n = "next_vec w" and ?H = "concat (map (target_hosts w) ts)"
  from s obtain a b d e where o: "owns hs a b d e" and dist: "distinct [a, b, d, e]"
    and live: "\<forall>v \<in> {a, b, d, e}. vrefs w v \<noteq> 0 \<and> v < next_vec w" and out: "\<forall>t \<in> set ts. rt_hosts t \<notin> Some ` {a, b, d, e}"
    unfolding store_ok_def by blast
  have t: "list_all (target_ok w) ts" "distinct (map rt_hosts ts)" "list_all plain ?H" using s by (simp_all add: store_ok_def)
  define hs' where "hs' = with_vectors ?n (?n + 1) (?n + 2) (?n + 3) hs"
  from update_all_hosts_ok [OF ts t(1) t(3) q o live dist, of ok]
  obtain w' where upd: "update_all_hosts ok None None 0 ts ps w = Some (ps\<lparr> m_host_sets := [hs'] \<rparr>, w')"
    and r: "replaced [a, b, d, e] ?H w w'" unfolding hs'_def by blast
  have same: "target_ok w' t \<and> target_hosts w' t = target_hosts w t \<and> (\<exists>v < ?n. rt_hosts t = Some v)" if "t \<in> set ts" for t
  proof -
    from t(1) that obtain v where v: "rt_priority t = 0" "rt_hosts t = Some v" "v < ?n" "vrefs w v \<noteq> 0"
      by (auto simp: target_ok_def list_all_iff)
    moreover have "v \<notin> {a, b, d, e}" using out that v(2) by auto
    ultimately show ?thesis using r by (auto simp: replaced_def Let_def target_ok_def target_hosts_def)
  qed
  then have th: "map (target_hosts w') ts = map (target_hosts w) ts" by simp
  have refs: "vrefs w' ?n = 1" "vrefs w' (?n + 1) = 2" "vrefs w' (?n + 2) = 2" "vrefs w' (?n + 3) = 2" "next_vec w' = ?n + 4"
    "vec w' ?n = ?H" "vec w' (?n + 1) = ?H" "snap w' = snap w"
    using r by (simp_all add: replaced_def Let_def)
  have own: "owns hs' ?n (?n + 1) (?n + 2) (?n + 3)" by (simp add: owns_def hs'_def with_vectors_def)
  have "store_ok w' ts hs'"
    unfolding store_ok_def th
  proof (intro conjI exI)
    show "list_all (target_ok w') ts" using same by (simp add: list_all_iff)
    show "\<forall>v \<in> {?n, ?n + 1, ?n + 2, ?n + 3}. vrefs w' v \<noteq> 0 \<and> v < next_vec w'" using refs by simp
    show "\<forall>t \<in> set ts. rt_hosts t \<notin> Some ` {?n, ?n + 1, ?n + 2, ?n + 3}" using same by fastforce
  qed (use t own in simp_all)
  moreover have "quiet hs' (ps\<lparr> m_host_sets := [hs'] \<rparr>)" using q by (simp add: quiet_def hs'_def with_vectors_def)
  moreover have "serves w' hs' ?H" using own refs by (simp add: serves_def owns_def hosts_of_def)
  ultimately show ?thesis using upd th refs(8) by blast
qed

lemma list_all_concat_update: "list_all P (concat xs) \<Longrightarrow> list_all P y \<Longrightarrow> list_all P (concat (xs[k := y]))"
  by (induction xs arbitrary: k) (auto split: nat.splits)

text \<open>A target gets a new vector; its old one may lose its reference.\<close>

lemma receive_ok:
  assumes s: "store_ok w ts hs" and k: "k < length ts" "rt_hosts (ts ! k) = Some u"
    and old: "\<forall>v < next_vec w. v \<noteq> u \<longrightarrow> vec w' v = vec w v \<and> vrefs w' v = vrefs w v"
    and p: "next_vec w \<le> p" "p < next_vec w'" "vrefs w' p \<noteq> 0" "list_all plain (vec w' p)"
    and t: "rt_hosts t = Some p" "rt_priority t = 0"
  shows "store_ok w' (ts[k := t]) hs \<and> map (target_hosts w') (ts[k := t]) = (map (target_hosts w) ts)[k := vec w' p]"
proof -
  have dst: "distinct (map rt_hosts ts)" using s by (simp add: store_ok_def)
  have same: "target_ok w' (ts ! i) \<and> target_hosts w' (ts ! i) = target_hosts w (ts ! i)"
    if "i < length ts" "i \<noteq> k" for i
  proof -
    from s that(1) obtain v where v: "rt_priority (ts ! i) = 0" "rt_hosts (ts ! i) = Some v" "v < next_vec w" "vrefs w v \<noteq> 0"
      by (auto simp: store_ok_def target_ok_def list_all_length)
    moreover have "v \<noteq> u" using nth_eq_iff_index_eq [of "map rt_hosts ts" i k] dst that k v(2) by auto
    ultimately show ?thesis using old p by (auto simp: target_ok_def target_hosts_def)
  qed
  have th: "map (target_hosts w') (ts[k := t]) = (map (target_hosts w) ts)[k := vec w' p]"
  proof (rule nth_equalityI)
    have "target_hosts w' t = vec w' p" using t by (simp add: target_hosts_def)
    then show "map (target_hosts w') (ts[k := t]) ! i = (map (target_hosts w) ts)[k := vec w' p] ! i"
      if "i < length (map (target_hosts w') (ts[k := t]))" for i
      using same that k(1) by (cases "i = k") simp_all
  qed simp
  from s obtain a b d e where o: "owns hs a b d e" "distinct [a, b, d, e]"
    and live: "\<forall>v \<in> {a, b, d, e}. vrefs w v \<noteq> 0 \<and> v < next_vec w" and out: "\<forall>t \<in> set ts. rt_hosts t \<notin> Some ` {a, b, d, e}"
    unfolding store_ok_def by blast
  have "rt_hosts (ts ! k) \<notin> Some ` {a, b, d, e}" using out nth_mem [OF k(1)] by blast
  then have u: "u \<notin> {a, b, d, e}" using k(2) by auto
  have "store_ok w' (ts[k := t]) hs"
    unfolding store_ok_def th
  proof (intro conjI exI)
    have "target_ok w' t" using t p by (simp add: target_ok_def)
    then show "list_all (target_ok w') (ts[k := t])"
      using same k(1) by (auto simp: list_all_length nth_list_update)
    have "\<forall>t \<in> set ts. \<exists>v. rt_hosts t = Some v \<and> v < next_vec w" using s by (auto simp: store_ok_def target_ok_def list_all_iff)
    then have "Some p \<notin> set (map rt_hosts ts)" using p(1) by fastforce
    then show "distinct (map rt_hosts (ts[k := t]))" using dst t by (simp add: map_update distinct_list_update)
    show "list_all plain (concat ((map (target_hosts w) ts)[k := vec w' p]))"
      using s p(4) by (simp add: store_ok_def list_all_concat_update)
    show "\<forall>v \<in> {a, b, d, e}. vrefs w' v \<noteq> 0 \<and> v < next_vec w'"
    proof
      fix v
      assume v: "v \<in> {a, b, d, e}"
      then have "vrefs w v \<noteq> 0" "v < next_vec w" "v \<noteq> u" using live u by blast+
      then show "vrefs w' v \<noteq> 0 \<and> v < next_vec w'" using old p by simp
    qed
    have "p \<notin> {a, b, d, e}" using live p(1) by auto
    then show "\<forall>t \<in> set (ts[k := t]). rt_hosts t \<notin> Some ` {a, b, d, e}"
      using out t(1) set_update_subset_insert [of ts k t] by (metis (no_types, lifting) image_iff insertE option.inject subsetD)
  qed (use o in simp_all)
  then show ?thesis using th by simp
qed

lemma update_dynamic_ok:
  assumes "vrefs w v \<noteq> 0" "v < next_vec w" "vrefs w u \<noteq> 0" "u < next_vec w"
  defines "n \<equiv> next_vec w"
  shows "\<exists>w'. update_dynamic_host_list v (Some u) w =
      Some (vec w v \<noteq> [] \<or> vec w u \<noteq> [], Some n, if vec w v = [] then None else Some (Suc n),
        if vec w v = [] \<and> vec w u = [] then None else Some u, w') \<and>
    (\<forall>x < n. vec w' x = vec w x \<and> vrefs w' x = vrefs w x) \<and> vec w' n = vec w v \<and> vrefs w' n = 1 \<and>
    (vec w v \<noteq> [] \<longrightarrow> vec w' (Suc n) = vec w v \<and> vrefs w' (Suc n) = 1) \<and> n < next_vec w' \<and> snap w' = snap w"
  using assms by (auto simp: update_dynamic_host_list_def rp_host_vector_new_def hosts_of_def dynamic_loop_none)

lemma serves_keep:
  assumes "store_ok w ts hs" "serves w hs hosts" "\<forall>v < next_vec w. vec w' v = vec w v \<and> vrefs w' v = vrefs w v"
  shows "serves w' hs hosts"
proof -
  from assms(1) obtain a b d e where "owns hs a b d e" "a < next_vec w" "b < next_vec w" unfolding store_ok_def by blast
  then show ?thesis using assms(2,3) by (simp add: serves_def owns_def hosts_of_def split: if_splits)
qed

text \<open>What a target's vector holds, and the state between two events.\<close>

definition addresses :: "dns_cluster \<Rightarrow> string list list" where
  "addresses c = map (\<lambda>t. map h_address (target_hosts (dc_world c) t)) (m_resolve_targets c)"

definition dns_ok :: "dns_cluster \<Rightarrow> bool" where
  "dns_ok c = (\<exists>hs. store_ok (dc_world c) (m_resolve_targets c) hs \<and> quiet hs (dc_priority_set c) \<and>
     serves (dc_world c) hs (concat (map (target_hosts (dc_world c)) (m_resolve_targets c))))"

definition kept :: "dns_cluster \<Rightarrow> dns_cluster \<Rightarrow> bool" where
  "kept c c' = (map rt_port (m_resolve_targets c') = map rt_port (m_resolve_targets c) \<and> snap (dc_world c') = snap (dc_world c) \<and>
     m_const_cross_priority_host_map (dc_priority_set c') = m_const_cross_priority_host_map (dc_priority_set c) \<and>
     m_last_used_element c' = m_last_used_element c \<and> dc_callback c' = dc_callback c \<and>
     dc_initialization_started c' = dc_initialization_started c \<and> init_calls c' = init_calls c \<and> dc_freed c' = dc_freed c \<and>
     chosen c' = chosen c)"

text \<open>The answer up to the point where hosts are handed on: the target has a new vector with the hosts of the answer.\<close>

lemma answer_read:
  assumes u: "vrefs w u \<noteq> 0" "u < next_vec w" and port: "portable env (rt_port t) response"
  defines "n \<equiv> next_vec w"
  shows "\<exists>us w2 w3 hs. answer_loop env t n response [] 0 us0 (snd (rp_host_vector_new w)) = Some (us, w2) \<and>
    update_dynamic_host_list n (Some u) w2 =
      Some (hs \<noteq> [] \<or> vec w u \<noteq> [], Some (Suc n), if hs = [] then None else Some (Suc (Suc n)),
        if hs = [] \<and> vec w u = [] then None else Some u, w3) \<and>
    (\<forall>v < n. vec w3 v = vec w v \<and> vrefs w3 v = vrefs w v) \<and> vec w3 (Suc n) = hs \<and> vrefs w3 (Suc n) = 1 \<and>
    (hs \<noteq> [] \<longrightarrow> vec w3 (Suc (Suc n)) = hs \<and> vrefs w3 (Suc (Suc n)) = 1) \<and> Suc n < next_vec w3 \<and> snap w3 = snap w \<and>
    map h_address hs = fresh [] (map (ported env (rt_port t)) response) \<and> list_all plain hs"
proof -
  let ?w1 = "snd (rp_host_vector_new w)"
  have "vrefs ?w1 n \<noteq> 0" by (simp add: rp_host_vector_new_def n_def)
  from answer_loop_ok [OF this port, of "[]" 0 us0] obtain us hs where
    loop: "answer_loop env t n response [] 0 us0 ?w1 =
      Some (us, ?w1\<lparr> vec := (vec ?w1)(n := vec ?w1 n @ hs), next_host := next_host ?w1 + length hs \<rparr>)"
    and hs: "map h_address hs = fresh [] (map (ported env (rt_port t)) response)" "list_all plain hs" by blast
  define w2 where "w2 = ?w1\<lparr> vec := (vec ?w1)(n := vec ?w1 n @ hs), next_host := next_host ?w1 + length hs \<rparr>"
  have w2: "vec w2 n = hs" "vrefs w2 n = 1" "next_vec w2 = Suc n" "\<forall>v < n. vec w2 v = vec w v \<and> vrefs w2 v = vrefs w v" "snap w2 = snap w"
    by (simp_all add: w2_def rp_host_vector_new_def n_def)
  have "vec w2 u = vec w u" "vrefs w2 u = vrefs w u" "u < Suc n" using w2(4) u(2) by (simp_all add: n_def)
  with update_dynamic_ok [of w2 n u] u(1) w2(1,2,3) obtain w3 where
    "update_dynamic_host_list n (Some u) w2 =
      Some (hs \<noteq> [] \<or> vec w u \<noteq> [], Some (Suc n), if hs = [] then None else Some (Suc (Suc n)),
        if hs = [] \<and> vec w u = [] then None else Some u, w3)"
    "\<forall>x < Suc n. vec w3 x = vec w2 x \<and> vrefs w3 x = vrefs w2 x" "vec w3 (Suc n) = hs" "vrefs w3 (Suc n) = 1"
    "hs \<noteq> [] \<longrightarrow> vec w3 (Suc (Suc n)) = hs \<and> vrefs w3 (Suc (Suc n)) = 1" "Suc n < next_vec w3" "snap w3 = snap w2"
    by auto
  with loop [folded w2_def] hs w2 show ?thesis by (intro exI [of _ us] exI [of _ w2] exI [of _ w3] exI [of _ hs]) simp
qed

text \<open>The lists of added and removed hosts are dropped.\<close>

lemma answer_drop:
  assumes "vrefs w u \<noteq> 0" "hs \<noteq> [] \<longrightarrow> vrefs w x = 1 \<and> vec w x = hs" "u < p" "p < x" "vrefs w p = 1"
  shows "\<exists>w4 w5. hosts_of (Some u) w = Some (vec w u) \<and> clear_vector (Some u) w = Some w4 \<and>
    hosts_of (if hs = [] then None else Some x) w4 = Some hs \<and> clear_vector (if hs = [] then None else Some x) w4 = Some w5 \<and>
    vec w5 = vec w \<and> (\<forall>v < p. v \<noteq> u \<longrightarrow> vrefs w5 v = vrefs w v) \<and> vrefs w5 p = 1 \<and> next_vec w5 = next_vec w \<and> snap w5 = snap w"
  using assms by (auto simp: hosts_of_def clear_vector_def rp_host_vector_unref_def)

lemma answer_completed_ok:
  assumes inv: "dns_ok c" and k: "k < length (m_resolve_targets c)" and port: "portable env (rt_port (m_resolve_targets c ! k)) response"
  shows "\<exists>c'. answer_completed env ok k response c = Some c' \<and> dns_ok c' \<and> kept c c' \<and>
    addresses c' = (addresses c)[k := fresh [] (map (ported env (rt_port (m_resolve_targets c ! k))) response)]"
proof -
  let ?w = "dc_world c" and ?ts = "m_resolve_targets c" let ?t = "?ts ! k" and ?n = "next_vec ?w"
  from inv obtain hset where s: "store_ok ?w ?ts hset" and q: "quiet hset (dc_priority_set c)"
    and sv: "serves ?w hset (concat (map (target_hosts ?w) ?ts))" by (auto simp: dns_ok_def)
  have "target_ok ?w ?t" using s k by (simp add: store_ok_def list_all_length)
  then obtain u where u: "rt_hosts ?t = Some u" "u < ?n" "vrefs ?w u \<noteq> 0" "rt_priority ?t = 0" by (auto simp: target_ok_def)
  from answer_read [OF u(3) u(2) port, of "rproxy_upstreams c"] obtain us w2 w3 hs where
    loop: "answer_loop env ?t ?n response [] 0 (rproxy_upstreams c) (snd (rp_host_vector_new ?w)) = Some (us, w2)"
    and dyn: "update_dynamic_host_list ?n (Some u) w2 =
      Some (hs \<noteq> [] \<or> vec ?w u \<noteq> [], Some (Suc ?n), if hs = [] then None else Some (Suc (Suc ?n)),
        if hs = [] \<and> vec ?w u = [] then None else Some u, w3)"
    and w3: "\<forall>v < ?n. vec w3 v = vec ?w v \<and> vrefs w3 v = vrefs ?w v" "vec w3 (Suc ?n) = hs" "vrefs w3 (Suc ?n) = 1"
      "hs \<noteq> [] \<longrightarrow> vec w3 (Suc (Suc ?n)) = hs \<and> vrefs w3 (Suc (Suc ?n)) = 1" "Suc ?n < next_vec w3" "snap w3 = snap ?w"
    and hs: "map h_address hs = fresh [] (map (ported env (rt_port ?t)) response)" "list_all plain hs" by blast
  define w1 where "w1 = snd (rp_host_vector_new ?w)"
  have new: "rp_host_vector_new ?w = (?n, w1)" by (simp add: rp_host_vector_new_def w1_def)
  have addr: "map (\<lambda>t. map h_address (target_hosts w' t)) ts = (addresses c)[k := map h_address hs]"
    if "map (target_hosts w') ts = (map (target_hosts ?w) ?ts)[k := hs]" for w' ts
  proof -
    have "map (map h_address) (map (target_hosts w') ts) = map (map h_address) ((map (target_hosts ?w) ?ts)[k := hs])" using that by simp
    then show ?thesis by (simp add: map_update addresses_def comp_def)
  qed
  have ports: "(map rt_port ?ts)[k := rt_port ?t] = map rt_port ?ts" using k by (simp add: list_update_same_conv)
  show ?thesis
  proof (cases "hs = [] \<and> vec ?w u = []")
    case True
    let ?t' = "?t\<lparr> rt_hosts := Some (Suc ?n) \<rparr>"
    let ?c = "c\<lparr> m_resolve_targets := ?ts[k := ?t'], rproxy_upstreams := us, dc_world := w3 \<rparr>"
    have "answer_completed env ok k response c = Some ?c"
      using True u by (simp add: answer_completed_def new loop [folded w1_def] dyn upd_target_def)
    moreover have r: "store_ok w3 (?ts[k := ?t']) hset \<and> map (target_hosts w3) (?ts[k := ?t']) = (map (target_hosts ?w) ?ts)[k := vec w3 (Suc ?n)]"
      using w3 hs u by (intro receive_ok [OF s k u(1)]) simp_all
    moreover have "(map (target_hosts ?w) ?ts)[k := []] = map (target_hosts ?w) ?ts"
      using True u k by (intro list_update_same_conv [THEN iffD2]) (simp_all add: target_hosts_def)
    ultimately show ?thesis
      using q serves_keep [OF s sv w3(1)] True w3 k hs addr [of w3 "?ts[k := ?t']"]
      by (intro exI [of _ ?c]) (auto simp: dns_ok_def kept_def addresses_def [of ?c] map_update ports)
  next
    case False
    from answer_drop [of w3 u hs "Suc (Suc ?n)" "Suc ?n"] w3 u obtain w4 w5 where
      drop: "hosts_of (Some u) w3 = Some (vec w3 u)" "clear_vector (Some u) w3 = Some w4"
        "hosts_of (if hs = [] then None else Some (Suc (Suc ?n))) w4 = Some hs"
        "clear_vector (if hs = [] then None else Some (Suc (Suc ?n))) w4 = Some w5"
      and w5: "vec w5 = vec w3" "\<forall>v < Suc ?n. v \<noteq> u \<longrightarrow> vrefs w5 v = vrefs w3 v" "vrefs w5 (Suc ?n) = 1" "next_vec w5 = next_vec w3"
        "snap w5 = snap w3" by auto
    define all where "all = foldl (\<lambda>m h. rp_host_map_add h m) (foldl (\<lambda>m h. rp_host_map_remove h m) (rt_all_hosts ?t) (vec w3 u)) hs"
    let ?t' = "?t\<lparr> rt_hosts := Some (Suc ?n), rt_all_hosts := all \<rparr>"
    have r: "store_ok w5 (?ts[k := ?t']) hset" "map (target_hosts w5) (?ts[k := ?t']) = (map (target_hosts ?w) ?ts)[k := hs]"
      using receive_ok [OF s k u(1), of w5 "Suc ?n" ?t'] w3 w5 hs u by simp_all
    have "?ts[k := ?t'] \<noteq> []" using k by auto
    from publish_ok [OF r(1) q this, of ok] obtain hset' w6 where
      pub: "update_all_hosts ok None None 0 (?ts[k := ?t']) (dc_priority_set c) w5 = Some ((dc_priority_set c)\<lparr> m_host_sets := [hset'] \<rparr>, w6)"
      and w6: "store_ok w6 (?ts[k := ?t']) hset'" "quiet hset' ((dc_priority_set c)\<lparr> m_host_sets := [hset'] \<rparr>)"
        "map (target_hosts w6) (?ts[k := ?t']) = map (target_hosts w5) (?ts[k := ?t'])"
        "serves w6 hset' (concat (map (target_hosts w5) (?ts[k := ?t'])))" "snap w6 = snap w5" by blast
    let ?c = "c\<lparr> dc_world := w6, dc_priority_set := (dc_priority_set c)\<lparr> m_host_sets := [hset'] \<rparr>, m_resolve_targets := ?ts[k := ?t'],
      rproxy_upstreams := us \<rparr>"
    have dyn': "update_dynamic_host_list ?n (Some u) w2 = Some (True, Some (Suc ?n), if hs = [] then None else Some (Suc (Suc ?n)), Some u, w3)"
      using dyn False by auto
    have "answer_completed env ok k response c = Some ?c"
      using u k pub by (simp add: answer_completed_def new loop [folded w1_def] dyn' upd_target_def drop all_def [symmetric])
    moreover have "dns_ok ?c" unfolding dns_ok_def using w6(1,2) w6(4) [folded w6(3)] by (intro exI [of _ hset']) simp
    moreover have "kept c ?c" using w6 w5 w3 ports by (simp add: kept_def map_update)
    moreover have "addresses ?c = (addresses c)[k := map h_address hs]"
      using addr [of w6 "?ts[k := ?t']"] w6(3) r(2) by (simp add: addresses_def [of ?c])
    ultimately show ?thesis using hs by auto
  qed
qed

section \<open>Runs\<close>

text \<open>The port and the priority of a configured endpoint.\<close>

fun endpoint_port :: "string \<times> guint32 \<times> guint32 \<times> string \<Rightarrow> guint32" where
  "endpoint_port (dns_address, port, priority, name) = port"

fun endpoint_priority :: "string \<times> guint32 \<times> guint32 \<times> string \<Rightarrow> guint32" where
  "endpoint_priority (dns_address, port, priority, name) = priority"

type_synonym endpoint = "string \<times> guint32 \<times> guint32 \<times> string"

text \<open>The events a cluster sees once it is initialised, with answers for its targets whose addresses can be given a
  port.\<close>

fun answerable :: "inet_env \<Rightarrow> endpoint list \<Rightarrow> dns_step \<Rightarrow> bool" where
  "answerable env es Initialize = False"
| "answerable env es (Answered k (DnsCompleted response)) = (k < length es \<and> portable env (endpoint_port (es ! k)) response)"
| "answerable env es (Answered k DnsFailure) = (k < length es)"
| "answerable env es ChooseHost = True"

text \<open>The addresses of each target after an event: those of the last completed answer, each once.\<close>

fun latest_step :: "inet_env \<Rightarrow> endpoint list \<Rightarrow> string list list \<Rightarrow> dns_step \<Rightarrow> string list list" where
  "latest_step env es m (Answered k (DnsCompleted response)) = m[k := fresh [] (map (ported env (endpoint_port (es ! k))) response)]"
| "latest_step env es m _ = m"

definition latest :: "inet_env \<Rightarrow> endpoint list \<Rightarrow> dns_step list \<Rightarrow> string list list" where
  "latest env es steps = foldl (latest_step env es) (replicate (length es) []) steps"

fun is_answer :: "dns_step \<Rightarrow> bool" where
  "is_answer (Answered k a) = True"
| "is_answer _ = False"

subsection \<open>The new cluster\<close>

lemma make_targets_ok:
  "make_targets es w = (ts, w') \<Longrightarrow>
     map rt_hosts ts = map Some [next_vec w ..< next_vec w + length es] \<and> map rt_port ts = map endpoint_port es \<and>
     map rt_priority ts = map endpoint_priority es \<and> next_vec w' = next_vec w + length es \<and> snap w' = snap w \<and>
     (\<forall>v < next_vec w. vec w' v = vec w v \<and> vrefs w' v = vrefs w v) \<and>
     (\<forall>v. next_vec w \<le> v \<and> v < next_vec w' \<longrightarrow> vec w' v = [] \<and> vrefs w' v = 1)"
proof (induction es arbitrary: w ts w')
  case (Cons e es)
  obtain d p q n where e: "e = (d, p, q, n)" by (cases e)
  let ?w = "w\<lparr> vec := (vec w)(next_vec w := []), vrefs := (vrefs w)(next_vec w := 1), next_vec := Suc (next_vec w) \<rparr>"
  let ?t = "\<lparr> rt_dns_address = d, rt_port = p, rt_priority = q, rt_name = n, rt_active_query = False, rt_hosts = Some (next_vec w), rt_all_hosts = [] \<rparr>"
  obtain ts1 w1 where m1: "make_targets es ?w = (ts1, w1)" by (cases "make_targets es ?w")
  then have ts: "ts = ?t # ts1" and m: "make_targets es ?w = (ts1, w')" using Cons.prems by (simp_all add: e rp_host_vector_new_def)
  note ih = Cons.IH [OF m]
  have "vec w' (next_vec w) = [] \<and> vrefs w' (next_vec w) = 1" using ih by simp
  moreover have "\<forall>v. Suc (next_vec w) \<le> v \<and> v < next_vec w' \<longrightarrow> vec w' v = [] \<and> vrefs w' v = 1" using ih by simp
  ultimately have new: "\<forall>v. next_vec w \<le> v \<and> v < next_vec w' \<longrightarrow> vec w' v = [] \<and> vrefs w' v = 1"
    by (metis Suc_leI le_neq_implies_less)
  have "[next_vec w ..< next_vec w + length (e # es)] = next_vec w # [Suc (next_vec w) ..< Suc (next_vec w) + length es]"
    by (simp add: upt_conv_Cons del: upt_Suc)
  then show ?case using ih new by (simp add: ts e less_Suc_eq del: upt_Suc)
qed auto

definition ready :: "endpoint list \<Rightarrow> string list list \<Rightarrow> dns_cluster \<Rightarrow> bool" where
  "ready es m c =
     (dns_ok c \<and> addresses c = m \<and> \<not> dc_freed c \<and> map rt_port (m_resolve_targets c) = map endpoint_port es \<and>
      snap (dc_world c) (m_const_cross_priority_host_map (dc_priority_set c)) = [] \<and>
      (dc_initialization_started c \<or> dc_callback c) \<and> init_calls c = of_bool (dc_initialization_started c))"

lemma new_priority_set:
  assumes "rp_priority_set_impl_new world_init = (ps0, w1)" "rp_priority_set_impl_get_or_create_host_set 0 ps0 w1 = (ps, w)"
  shows "quiet \<lparr> m_priority = 0, m_hosts = Some 0, m_healthy_hosts = Some 1, m_degraded_hosts = Some 2, m_excluded_hosts = Some 3,
      m_member_update_cb_helper = [RunReferenceUpdateCallbacks] \<rparr> ps"
    "m_const_cross_priority_host_map ps = 0" "next_vec w = 4" "snap w 0 = []" "v < 4 \<Longrightarrow> vec w v = [] \<and> vrefs w v = 1"
  using assms by (auto simp: rp_priority_set_impl_new_def rp_priority_set_impl_get_or_create_host_set_def world_init_def
      rp_host_map_snap_new_empty_frozen_def create_host_set_def rp_host_vector_new_def rp_host_set_impl_add_priority_update_cb_def
      quiet_def eval_nat_numeral less_Suc_eq)

lemma new_cluster_ok:
  assumes "list_all (\<lambda>e. endpoint_priority e = 0) es"
  defines "c \<equiv> rp_strict_dns_cluster_impl_new es"
  shows "dns_ok c \<and> addresses c = replicate (length es) [] \<and> map rt_port (m_resolve_targets c) = map endpoint_port es \<and>
    snap (dc_world c) (m_const_cross_priority_host_map (dc_priority_set c)) = []"
proof -
  obtain ps0 w1 where w1: "rp_priority_set_impl_new world_init = (ps0, w1)" by fastforce
  obtain ps w2 where w2: "rp_priority_set_impl_get_or_create_host_set 0 ps0 w1 = (ps, w2)" by fastforce
  obtain ts w3 where w3: "make_targets es w2 = (ts, w3)" by fastforce
  have c: "dc_world c = w3" "dc_priority_set c = ps" "m_resolve_targets c = ts"
    by (simp_all add: c_def rp_strict_dns_cluster_impl_new_def w1 w2 w3)
  note ok = make_targets_ok [OF w3] and new = new_priority_set [OF w1 w2]
  let ?hs = "\<lparr> m_priority = 0, m_hosts = Some 0, m_healthy_hosts = Some 1, m_degraded_hosts = Some 2, m_excluded_hosts = Some 3,
    m_member_update_cb_helper = [RunReferenceUpdateCallbacks] \<rparr>"
  have len: "length ts = length es" using ok by (metis length_map)
  have prio: "rt_priority t = 0" if "t \<in> set ts" for t
  proof -
    have "rt_priority t \<in> set (map endpoint_priority es)" using ok that by (metis image_eqI list.set_map)
    then show ?thesis using assms(1) by (auto simp: list_all_iff)
  qed
  have t: "\<exists>v. rt_hosts t = Some v \<and> 4 \<le> v \<and> v < next_vec w3 \<and> vec w3 v = [] \<and> vrefs w3 v = 1" if "t \<in> set ts" for t
  proof -
    have "rt_hosts t \<in> set (map Some [next_vec w2 ..< next_vec w2 + length es])" using ok that by (metis image_eqI list.set_map)
    then show ?thesis using ok new(3) by auto
  qed
  have none: "map (target_hosts w3) ts = replicate (length ts) []"
    by (intro replicate_eqI) (auto dest!: t simp: target_hosts_def)
  have four: "vec w3 v = [] \<and> vrefs w3 v = 1 \<and> v < next_vec w3" if "v < 4" for v using ok new that by auto
  have "store_ok w3 ts ?hs" unfolding store_ok_def none
  proof (intro conjI exI)
    show "list_all (target_ok w3) ts" using t prio by (fastforce simp: list_all_iff target_ok_def)
    show "distinct (map rt_hosts ts)" using ok by (metis distinct_map distinct_upt inj_Some)
    show "owns ?hs 0 1 2 3" by (simp add: owns_def)
    show "\<forall>v \<in> {0, 1, 2, 3}. vrefs w3 v \<noteq> 0 \<and> v < next_vec w3" using four by simp
    show "\<forall>t \<in> set ts. rt_hosts t \<notin> Some ` {0, 1, 2, 3}" using t by fastforce
  qed (auto simp: list_all_iff)
  moreover have "serves w3 ?hs (concat (map (target_hosts w3) ts))"
    using four [of 0] four [of 1] by (simp add: none serves_def hosts_of_def)
  moreover have "map (\<lambda>t. map h_address (target_hosts w3 t)) ts = map (map h_address) (map (target_hosts w3) ts)" by simp
  ultimately show ?thesis
    using new(1,2,4) ok len none by (auto simp: dns_ok_def c addresses_def)
qed

text \<open>The flag of a query plays no part.\<close>

definition target_key :: "resolve_target \<Rightarrow> guint32 \<times> nat option" where
  "target_key t = (rt_priority t, rt_hosts t)"

lemma by_keys:
  "list_all (target_ok w) ts = list_all (\<lambda>(p, h). p = 0 \<and> (\<exists>v. h = Some v \<and> v < next_vec w \<and> vrefs w v \<noteq> 0)) (map target_key ts)"
  "map rt_hosts ts = map snd (map target_key ts)"
  "map (target_hosts w) ts = map (\<lambda>(p, h). case h of None \<Rightarrow> [] | Some v \<Rightarrow> vec w v) (map target_key ts)"
  "(\<forall>t \<in> set ts. rt_hosts t \<notin> S) = (\<forall>h \<in> set (map target_key ts). snd h \<notin> S)"
  by (simp_all add: target_ok_def [abs_def] target_key_def target_hosts_def list_all_iff)

lemma same_keys:
  assumes "map target_key (m_resolve_targets c') = map target_key (m_resolve_targets c)"
    "dc_world c' = dc_world c" "dc_priority_set c' = dc_priority_set c"
  shows "dns_ok c' = dns_ok c \<and> addresses c' = addresses c"
proof -
  have "map (target_hosts w) (m_resolve_targets c') = map (target_hosts w) (m_resolve_targets c)" for w
    unfolding by_keys(3) assms(1) ..
  moreover have "addresses x = map (map h_address) (map (target_hosts (dc_world x)) (m_resolve_targets x))" for x
    by (simp add: addresses_def)
  moreover have "store_ok w (m_resolve_targets c') hs = store_ok w (m_resolve_targets c) hs" for w hs
    unfolding store_ok_def by_keys assms(1) ..
  ultimately show ?thesis using assms(2,3) by (simp add: dns_ok_def del: map_map map_eq_conv)
qed

lemma new_cluster_ready:
  assumes "list_all (\<lambda>e. endpoint_priority e = 0) es"
  shows "\<exists>c. dns_initialize (rp_strict_dns_cluster_impl_new es) = Some c \<and> ready es (replicate (length es) []) c \<and>
    dc_initialization_started c = (es = []) \<and> chosen c = []"
proof -
  let ?c = "rp_strict_dns_cluster_impl_new es"
  let ?q = "map (\<lambda>t. t\<lparr> rt_active_query := True \<rparr>) (m_resolve_targets ?c)"
  note ok = new_cluster_ok [OF assms]
  have len: "length (m_resolve_targets ?c) = length es" using ok by (metis length_map)
  then have emp: "(m_resolve_targets ?c = []) = (es = [])" by (metis length_0_conv)
  have flags: "\<not> dc_freed ?c" "\<not> dc_initialization_started ?c" "init_calls ?c = 0" "chosen ?c = []"
    by (simp_all add: rp_strict_dns_cluster_impl_new_def split: prod.splits)
  let ?c1 = "if es = [] then ?c\<lparr> m_resolve_targets := ?q, dc_callback := False, dc_initialization_started := True, init_calls := 1 \<rparr>
    else ?c\<lparr> m_resolve_targets := ?q, dc_callback := True \<rparr>"
  have "dns_initialize ?c = Some ?c1"
    using emp flags by (auto simp: Let_def dns_initialize_def dns_on_pre_init_complete_def dns_finish_initialization_def)
  moreover have "dns_ok ?c1 = dns_ok ?c \<and> addresses ?c1 = addresses ?c" by (rule same_keys) (simp_all add: target_key_def)
  ultimately show ?thesis using ok flags by (intro exI [of _ ?c1]) (auto simp: ready_def comp_def)
qed

lemma started:
  assumes "dc_initialization_started c \<or> dc_callback c"
  shows "dns_on_pre_init_complete c =
    Some (if dc_initialization_started c then c else c\<lparr> dc_callback := False, dc_initialization_started := True, init_calls := init_calls c + 1 \<rparr>)"
  using assms by (auto simp: dns_on_pre_init_complete_def dns_finish_initialization_def)

lemma ready_started:
  assumes "ready es m c"
  shows "\<exists>c'. dns_on_pre_init_complete c = Some c' \<and> ready es m c' \<and> dc_initialization_started c' \<and> chosen c' = chosen c"
proof -
  let ?c = "if dc_initialization_started c then c else c\<lparr> dc_callback := False, dc_initialization_started := True, init_calls := init_calls c + 1 \<rparr>"
  have "dns_ok ?c = dns_ok c \<and> addresses ?c = addresses c" by (rule same_keys) simp_all
  then show ?thesis using assms started [of c] by (intro exI [of _ ?c]) (auto simp: ready_def)
qed

lemma ready_answered:
  assumes r: "ready es m c" and a: "answerable env es (Answered k a)"
  shows "\<exists>c'. network_dns_resolve_cb env ok k a c = Some c' \<and> ready es (latest_step env es m (Answered k a)) c' \<and>
    dc_initialization_started c' \<and> chosen c' = chosen c"
proof -
  let ?c1 = "upd_target k (\<lambda>t. t\<lparr> rt_active_query := False \<rparr>) c" and ?ts = "m_resolve_targets c"
  have ports: "map rt_port ?ts = map endpoint_port es" using r by (simp add: ready_def)
  then have len: "length ?ts = length es" by (metis length_map)
  have k: "k < length ?ts" using a len by (cases a) simp_all
  have up: "(map target_key ?ts)[k := target_key (?ts ! k)] = map target_key ?ts" "(map rt_port ?ts)[k := rt_port (?ts ! k)] = map rt_port ?ts"
    using k by (simp_all add: list_update_same_conv)
  have port: "rt_port (?ts ! k) = endpoint_port (es ! k)" using ports k len by (metis nth_map)
  have "dns_ok ?c1 = dns_ok c \<and> addresses ?c1 = addresses c"
    using up(1) by (intro same_keys) (simp_all add: upd_target_def map_update target_key_def)
  then have r1: "ready es m ?c1"
    using r up(2) by (simp add: ready_def upd_target_def map_update)
  have "\<exists>c2. (case a of DnsCompleted response \<Rightarrow> answer_completed env ok k response ?c1 | DnsFailure \<Rightarrow> Some ?c1) = Some c2 \<and>
      ready es (latest_step env es m (Answered k a)) c2 \<and> chosen c2 = chosen c"
  proof (cases a)
    case (DnsCompleted response)
    have "k < length (m_resolve_targets ?c1)" "rt_port (m_resolve_targets ?c1 ! k) = endpoint_port (es ! k)" "chosen ?c1 = chosen c"
      using k port by (simp_all add: upd_target_def)
    with answer_completed_ok [of ?c1 k env response ok] r1 a DnsCompleted obtain c2 where
      "answer_completed env ok k response ?c1 = Some c2" "dns_ok c2" "kept ?c1 c2" "chosen ?c1 = chosen c"
      "addresses c2 = (addresses ?c1)[k := fresh [] (map (ported env (endpoint_port (es ! k))) response)]"
      by (auto simp: ready_def)
    then show ?thesis using r1 DnsCompleted by (intro exI [of _ c2]) (simp add: ready_def kept_def)
  next
    case DnsFailure
    then show ?thesis using r1 by (simp add: upd_target_def)
  qed
  then obtain c2 where c2: "(case a of DnsCompleted response \<Rightarrow> answer_completed env ok k response ?c1 | DnsFailure \<Rightarrow> Some ?c1) = Some c2"
    "ready es (latest_step env es m (Answered k a)) c2" "chosen c2 = chosen c" by blast
  have "\<not> dc_freed c" using r by (simp add: ready_def)
  then show ?thesis using c2(1,3) k ready_started [OF c2(2)] by (auto simp: network_dns_resolve_cb_def)
qed

subsection \<open>Choices\<close>

text \<open>The index of the next choice among \<open>n\<close> hosts.\<close>

definition next_choice :: "nat \<Rightarrow> guint32 \<Rightarrow> nat" where
  "next_choice n l = (if l = 0xffffffff \<or> n \<le> unat (l + 1) then 0 else unat (l + 1))"

lemma served_hosts:
  assumes "dns_ok c"
  shows "\<exists>hs H. m_host_sets (dc_priority_set c) = [hs] \<and> hosts_of (m_hosts hs) (dc_world c) = Some H \<and>
    hosts_of (m_healthy_hosts hs) (dc_world c) = Some H \<and> map h_address H = concat (addresses c)"
  using assms by (auto simp: dns_ok_def serves_def quiet_def addresses_def map_concat comp_def)

lemma choose_kept:
  assumes "ready es m c"
  shows "\<exists>c'. dns_exec env ok ChooseHost c = Some c' \<and> ready es m c' \<and>
    dc_initialization_started c' = dc_initialization_started c \<and> length (chosen c') = Suc (length (chosen c))"
proof -
  have "dns_ok c" using assms by (simp add: ready_def)
  then obtain hs H where h: "m_host_sets (dc_priority_set c) = [hs]" "hosts_of (m_healthy_hosts hs) (dc_world c) = Some H"
    using served_hosts by blast
  have keep: "dns_ok (c\<lparr> m_last_used_element := l, chosen := x \<rparr>) = dns_ok c \<and> addresses (c\<lparr> m_last_used_element := l, chosen := x \<rparr>) = addresses c"
    "dns_ok (c\<lparr> chosen := x \<rparr>) = dns_ok c \<and> addresses (c\<lparr> chosen := x \<rparr>) = addresses c" for l x
    by (rule same_keys; simp)+
  show ?thesis using assms h by (simp add: get_round_robin_def ready_def keep Let_def)
qed

lemma word_index: "n < 2 ^ 32 \<Longrightarrow> unat (of_nat n :: guint32) = n"
  by (simp add: unat_of_nat take_bit_nat_eq_self)

lemma next_choice_nat:
  assumes "i < n" "n < 2 ^ 32"
  shows "next_choice n (of_nat i) = Suc i mod n"
proof -
  have suc: "unat (of_nat i + 1 :: guint32) = Suc i" using word_index [of "Suc i"] assms by (simp add: add.commute)
  have "of_nat i \<noteq> (0xffffffff :: guint32)"
  proof
    assume "of_nat i = (0xffffffff :: guint32)"
    then have "unat (of_nat i + 1 :: guint32) = 0" by simp
    then show False using suc by simp
  qed
  then show ?thesis using suc assms(1) by (cases "Suc i = n") (simp_all add: next_choice_def)
qed

lemma choose_next:
  assumes hs: "m_host_sets (dc_priority_set c) = [hs]" "hosts_of (m_healthy_hosts hs) (dc_world c) = Some H"
    and H: "H \<noteq> []" "length H < 2 ^ 32"
  shows "\<exists>l. dns_exec env ok ChooseHost c =
      Some (c\<lparr> m_last_used_element := l, chosen := chosen c @ [Some (H ! next_choice (length H) (m_last_used_element c))] \<rparr>) \<and>
    next_choice (length H) l = Suc (next_choice (length H) (m_last_used_element c)) mod length H"
proof -
  let ?n = "length H" and ?l = "m_last_used_element c"
  have n: "unat (of_nat ?n :: guint32) = ?n" by (rule word_index [OF H(2)])
  have pos: "0 < ?n" using H(1) by simp
  consider (one) "?n < 2" | (first) "\<not> ?n < 2" "?l = 0xffffffff" | (more) "\<not> ?n < 2" "?l \<noteq> 0xffffffff" by blast
  then show ?thesis
  proof cases
    case one
    then have o: "?n = 1" using pos by linarith
    then have z: "next_choice ?n l = 0" for l by (cases "unat (l + 1)") (simp_all add: next_choice_def)
    show ?thesis
      by (intro exI [of _ ?l]) (use hs one n o z in \<open>simp add: get_round_robin_def rp_host_vector_get_def word_less_nat_alt\<close>)
  next
    case first
    have "next_choice ?n 0 = 1" "next_choice ?n ?l = 0" using first by (auto simp: next_choice_def)
    then show ?thesis
      by (intro exI [of _ 0]) (use hs first n pos in \<open>simp add: get_round_robin_def rp_host_vector_get_def word_less_nat_alt\<close>)
  next
    case more
    let ?i = "next_choice ?n ?l"
    have i: "?i < ?n" using pos by (auto simp: next_choice_def)
    then have u: "unat (of_nat ?i :: guint32) = ?i" using H(2) by (intro word_index) simp
    have step: "(if of_nat ?n \<le> ?l + 1 then 0 else ?l + 1) = (of_nat ?i :: guint32)"
      using more n by (auto simp: next_choice_def word_le_nat_alt)
    have "next_choice ?n (of_nat ?i) = Suc ?i mod ?n" by (rule next_choice_nat [OF i H(2)])
    then show ?thesis
      by (intro exI [of _ "of_nat ?i"]) (use hs more n i u step in \<open>simp add: get_round_robin_def rp_host_vector_get_def word_less_nat_alt Let_def\<close>)
  qed
qed

lemma choose_many:
  assumes "m_host_sets (dc_priority_set c) = [hs]" "hosts_of (m_healthy_hosts hs) (dc_world c) = Some H" "H \<noteq> []" "length H < 2 ^ 32"
  shows "\<exists>c'. run_calls (dns_exec env ok) (replicate n ChooseHost) c = Some c' \<and>
    chosen c' = chosen c @ map (\<lambda>i. Some (H ! ((next_choice (length H) (m_last_used_element c) + i) mod length H))) [0 ..< n]"
  using assms
proof (induction n arbitrary: c)
  case (Suc n)
  let ?k = "next_choice (length H) (m_last_used_element c)"
  from choose_next [OF Suc.prems, of env ok] obtain l where
    l: "dns_exec env ok ChooseHost c = Some (c\<lparr> m_last_used_element := l, chosen := chosen c @ [Some (H ! ?k)] \<rparr>)"
      "next_choice (length H) l = Suc ?k mod length H" by blast
  let ?c = "c\<lparr> m_last_used_element := l, chosen := chosen c @ [Some (H ! ?k)] \<rparr>"
  have "?k < length H" using Suc.prems(3) by (auto simp: next_choice_def)
  then have k: "?k mod length H = ?k" by simp
  from Suc.IH [of ?c] Suc.prems obtain c' where c': "run_calls (dns_exec env ok) (replicate n ChooseHost) ?c = Some c'"
    "chosen c' = chosen ?c @ map (\<lambda>i. Some (H ! ((next_choice (length H) l + i) mod length H))) [0 ..< n]" by auto
  have "(Suc ?k mod length H + i) mod length H = (?k + Suc i) mod length H" for i by (metis add_Suc add_Suc_right mod_add_left_eq)
  then have "chosen c' = chosen c @ map (\<lambda>i. Some (H ! ((?k + i) mod length H))) [0 ..< Suc n]"
    using c'(2) k by (simp add: l(2) upt_conv_Cons map_Suc_upt [symmetric] comp_def del: upt_Suc)
  then show ?case using c'(1) l(1) by (simp del: dns_exec.simps upt_Suc)
qed simp

lemma run_ready:
  assumes "ready es m c" "list_all (answerable env es) steps"
  shows "\<exists>c'. run_calls (dns_exec env ok) steps c = Some c' \<and> ready es (foldl (latest_step env es) m steps) c' \<and>
    dc_initialization_started c' = (dc_initialization_started c \<or> list_ex is_answer steps) \<and>
    length (chosen c') = length (chosen c) + length (filter (\<lambda>s. s = ChooseHost) steps)"
  using assms
proof (induction steps arbitrary: m c)
  case (Cons s steps)
  have rest: "list_all (answerable env es) steps" using Cons.prems(2) by simp
  show ?case
  proof (cases s)
    case Initialize
    then show ?thesis using Cons.prems(2) by simp
  next
    case (Answered k a)
    then have "answerable env es (Answered k a)" using Cons.prems(2) by simp
    from ready_answered [OF Cons.prems(1) this, of ok] obtain c1 where c1: "network_dns_resolve_cb env ok k a c = Some c1"
      "ready es (latest_step env es m (Answered k a)) c1" "dc_initialization_started c1" "chosen c1 = chosen c" by blast
    from Cons.IH [OF c1(2) rest] show ?thesis using c1 Answered by auto
  next
    case ChooseHost
    from choose_kept [OF Cons.prems(1), of env ok] obtain c1 where c1: "dns_exec env ok ChooseHost c = Some c1" "ready es m c1"
      "dc_initialization_started c1 = dc_initialization_started c" "length (chosen c1) = Suc (length (chosen c))" by blast
    from Cons.IH [OF c1(2) rest] show ?thesis using c1 ChooseHost by auto
  qed
qed simp

lemma run_calls_append: "run_calls exec (xs @ ys) s = Option.bind (run_calls exec xs s) (run_calls exec ys)"
  by (induction xs arbitrary: s) (auto split: bind_splits)

lemma run_cluster:
  assumes "list_all (\<lambda>e. endpoint_priority e = 0) es" "list_all (answerable env es) steps"
  shows "\<exists>c. run_calls (dns_exec env ok) (Initialize # steps) (rp_strict_dns_cluster_impl_new es) = Some c \<and> ready es (latest env es steps) c \<and>
    dc_initialization_started c = (es = [] \<or> list_ex is_answer steps) \<and> length (chosen c) = length (filter (\<lambda>s. s = ChooseHost) steps)"
proof -
  from new_cluster_ready [OF assms(1)] obtain c where c: "dns_initialize (rp_strict_dns_cluster_impl_new es) = Some c"
    "ready es (replicate (length es) []) c" "dc_initialization_started c = (es = [])" "chosen c = []" by blast
  from run_ready [OF c(2) assms(2), of ok] show ?thesis using c by (auto simp: latest_def)
qed


section \<open>Two priorities\<close>

lemma peek_ensure: "rp_priority_state_peek_host_list p (rp_priority_state_ensure q s) = rp_priority_state_peek_host_list p s"
  by (auto simp: rp_priority_state_peek_host_list_def rp_priority_state_ensure_def nth_append)

lemma register_cons_none:
  assumes "rp_priority_state_manager_initialize_priority_for (rt_priority t) m w = Some (m1, w1)" "\<And>w'. register_targets ts cp m1 w' = None"
  shows "register_targets (t # ts) cp m w = None"
  using assms by (cases "hosts_of (rt_hosts t) w1") (auto split: bind_splits)

lemma register_second:
  assumes "psm_host_vector m \<noteq> None" "\<exists>t \<in> set ts. rp_priority_state_peek_host_list (rt_priority t) (m_priority_state m) = None"
  shows "register_targets ts cp m w = None"
  using assms
proof (induction ts arbitrary: m w)
  case (Cons t ts)
  let ?m = "m\<lparr> m_priority_state := rp_priority_state_ensure (rt_priority t) (m_priority_state m) \<rparr>"
  show ?case
  proof (cases "rp_priority_state_peek_host_list (rt_priority t) (m_priority_state m)")
    case None
    then show ?thesis
      using Cons.prems(1) by (simp add: rp_priority_state_manager_initialize_priority_for_def peek_ensure Let_def)
  next
    case (Some v)
    then have i: "rp_priority_state_manager_initialize_priority_for (rt_priority t) m w = Some (?m, w)"
      by (simp add: rp_priority_state_manager_initialize_priority_for_def peek_ensure Let_def)
    have "register_targets ts cp ?m w' = None" for w'
      using Cons.prems Some by (intro Cons.IH) (auto simp: peek_ensure)
    then show ?thesis by (rule register_cons_none [OF i])
  qed
qed simp

lemma ensure_new:
  "rp_priority_state_ensure p [] = replicate (Suc (unat p)) None"
  "rp_priority_state_ensure p (replicate (Suc (unat p)) None) = replicate (Suc (unat p)) None"
  by (simp_all add: rp_priority_state_ensure_def)

lemma register_two:
  assumes "p1 \<in> set (map rt_priority ts)" "p2 \<in> set (map rt_priority ts)" "p1 \<noteq> p2"
  shows "register_targets ts cp rp_priority_state_manager_new w = None"
proof (cases ts)
  case (Cons t ts')
  obtain t' where t': "t' \<in> set ts'" "rt_priority t' \<noteq> rt_priority t" using assms Cons by (cases "p1 = rt_priority t") auto
  let ?p = "rt_priority t" and ?v = "next_vec w"
  let ?s = "(replicate (Suc (unat ?p)) None)[unat ?p := Some ?v]"
  have peek: "rp_priority_state_peek_host_list q ?s = None" if "q \<noteq> ?p" for q
  proof -
    have "unat q \<noteq> unat ?p" using that by (simp add: word_unat_eq_iff)
    then show ?thesis by (simp add: rp_priority_state_peek_host_list_def del: replicate_Suc)
  qed
  have "rp_priority_state_manager_initialize_priority_for ?p rp_priority_state_manager_new w =
      Some (\<lparr> m_priority_state = ?s, m_params = no_params, psm_host_vector = Some ?v \<rparr>, snd (rp_host_vector_new w))"
    by (simp add: rp_priority_state_manager_initialize_priority_for_def rp_priority_state_manager_new_def
        ensure_new rp_priority_state_peek_host_list_def rp_host_vector_new_def
        rp_priority_state_set_host_list_def clear_vector_def Let_def del: replicate_Suc)
  moreover have "register_targets ts' cp \<lparr> m_priority_state = ?s, m_params = no_params, psm_host_vector = Some ?v \<rparr> w1 = None" for w1
    using t' peek by (intro register_second) auto
  ultimately show ?thesis unfolding Cons by (rule register_cons_none)
qed (use assms in simp)

lemma answer_loop_grows:
  assumes "answer_loop env t v as seen count us w = Some (us', w')"
  shows "length (vec w v) \<le> length (vec w' v) \<and> next_vec w' = next_vec w \<and> (as \<noteq> [] \<and> seen = [] \<longrightarrow> vec w' v \<noteq> [])"
  using assms
proof (induction as arbitrary: seen count us w)
  case (Cons a as)
  then show ?case
    by (fastforce simp: bind_eq_Some_conv rp_host_vector_add_def split: if_splits)
qed simp

lemma update_dynamic_changed:
  assumes "update_dynamic_host_list v cur w = Some (changed, r)" "vec w v \<noteq> []" "v \<noteq> next_vec w"
  shows changed
  using assms by (auto simp: update_dynamic_host_list_def rp_host_vector_new_def hosts_of_def bind_eq_Some_conv dynamic_loop_none
      split: if_splits)

lemma answer_two:
  assumes "p1 \<in> set (map rt_priority (m_resolve_targets c))" "p2 \<in> set (map rt_priority (m_resolve_targets c))" "p1 \<noteq> p2"
    "response \<noteq> []" "k < length (m_resolve_targets c)"
  shows "answer_completed env ok k response c = None"
proof -
  let ?ts = "m_resolve_targets c" and ?n = "next_vec (dc_world c)"
  have same: "map rt_priority (?ts[k := (?ts ! k)\<lparr> rt_hosts := h, rt_all_hosts := a \<rparr>]) = map rt_priority ?ts" for h a
    using assms(5) by (simp add: map_update list_update_same_conv)
  have none: "update_all_hosts ok x y p (?ts[k := (?ts ! k)\<lparr> rt_hosts := h, rt_all_hosts := a \<rparr>]) ps w = None" for x y p ps w h a
    using assms(1-3) register_two [of p1 "?ts[k := (?ts ! k)\<lparr> rt_hosts := h, rt_all_hosts := a \<rparr>]" p2 p w] unfolding same
    by (simp add: update_all_hosts_def)
  have changed: "ch" if "answer_loop env t ?n response [] 0 us (snd (rp_host_vector_new (dc_world c))) = Some (us', w2)"
    "update_dynamic_host_list ?n cur w2 = Some (ch, r)" for t us us' w2 cur ch r
    using answer_loop_grows [OF that(1)] assms(4) by (intro update_dynamic_changed [OF that(2)]) (auto simp: rp_host_vector_new_def)
  obtain w1 where new: "rp_host_vector_new (dc_world c) = (?n, w1)" by (simp add: rp_host_vector_new_def)
  show ?thesis
    using changed assms(5) by (auto simp: answer_completed_def new upd_target_def none Let_def split: bind_splits)
qed

section \<open>Theorems\<close>

text \<open>A cluster of two targets and a system that knows three addresses.\<close>

definition sample_env :: inet_env where
  "sample_env = \<lparr> inet_pton4 = map_of [(''10.0.0.1'', 0x0a000001), (''10.0.0.2'', 0x0a000002), (''10.0.0.3'', 0x0a000003)],
     inet_pton6 = (\<lambda>_. None), inet_ntop6 = (\<lambda>_. ''::''), stack_garbage = [] \<rparr>"

definition sample_address :: "guint32 \<Rightarrow> string \<Rightarrow> address_instance" where
  "sample_address a s = Ipv4 \<lparr> sin_addr = a, sin_port = 0, v4_friendly_address = s, v4_friendly_name = s @ '':0'' \<rparr>"

definition sample_endpoints :: "endpoint list" where
  "sample_endpoints = [(''a.local'', 80, 0, ''a''), (''b.local'', 81, 0, ''b'')]"

definition sample_steps :: "dns_step list" where
  "sample_steps =
     [Answered 1 (DnsCompleted [sample_address 0x0a000003 ''10.0.0.3'']), ChooseHost,
      Answered 0 (DnsCompleted [sample_address 0x0a000001 ''10.0.0.1'', sample_address 0x0a000002 ''10.0.0.2'', sample_address 0x0a000001 ''10.0.0.1'']),
      Answered 1 DnsFailure]"

lemma sample_ported:
  "rp_network_utiliy_get_address_with_port sample_env (sample_address a s) port =
     map_option (\<lambda>x. Ipv4 \<lparr> sin_addr = x, sin_port = ucast port, v4_friendly_address = s, v4_friendly_name = s @ '':'' @ dec_string (unat port) \<rparr>)
       (inet_pton4 sample_env s)"
  by (cases "inet_pton4 sample_env s")
    (simp_all add: rp_network_utiliy_get_address_with_port_def sample_address_def rp_network_address_ipv4_instance_new_3_def)

lemma sample_pton:
  "inet_pton4 sample_env ''10.0.0.1'' = Some 0x0a000001" "inet_pton4 sample_env ''10.0.0.2'' = Some 0x0a000002"
  "inet_pton4 sample_env ''10.0.0.3'' = Some 0x0a000003"
  by (simp_all add: sample_env_def)

lemmas sample_simps = sample_endpoints_def sample_steps_def sample_ported sample_pton

lemma sample_answerable: "list_all (answerable sample_env sample_endpoints) sample_steps"
  by (simp add: sample_simps portable_def)

lemma sample_ports: "dec_string 80 = ''80''" "dec_string 81 = ''81''"
  by code_simp+

lemma sample_latest: "concat (latest sample_env sample_endpoints sample_steps) = [''10.0.0.1:80'', ''10.0.0.2:80'', ''10.0.0.3:81'']"
  by (simp add: sample_simps latest_def ported_def sample_ports)

lemma sample_priorities: "list_all (\<lambda>e. endpoint_priority e = 0) sample_endpoints"
  by (simp add: sample_endpoints_def)

lemma sample_counts: "list_ex is_answer sample_steps" "length (filter (\<lambda>s. s = ChooseHost) sample_steps) = 1"
  by (simp_all add: sample_steps_def)



text \<open>C15. The cluster gives its hosts out in turn: after any sequence of answers and choices, further choices go through
  the served addresses in order, from some place on and around, so that each of n addresses is given out once in any n
  choices.\<close>

theorem strict_dns_rotates:
  assumes "list_all (\<lambda>e. endpoint_priority e = 0) es" "list_all (answerable env es) steps"
    "concat (latest env es steps) = as" "as \<noteq> []" "length as < 2 ^ 32"
  shows "\<exists>c start. run_calls (dns_exec env ok) (Initialize # steps @ replicate n ChooseHost) (rp_strict_dns_cluster_impl_new es) = Some c \<and>
    map (map_option h_address) (drop (length (filter (\<lambda>s. s = ChooseHost) steps)) (chosen c)) =
      map (\<lambda>i. Some (as ! ((start + i) mod length as))) [0 ..< n]"
proof -
  from run_cluster [OF assms(1,2), of ok] obtain c where
    c: "run_calls (dns_exec env ok) (Initialize # steps) (rp_strict_dns_cluster_impl_new es) = Some c"
    "ready es (latest env es steps) c" "length (chosen c) = length (filter (\<lambda>s. s = ChooseHost) steps)" by blast
  have r: "dns_ok c" "addresses c = latest env es steps" using c(2) by (simp_all add: ready_def)
  from served_hosts [OF r(1)] obtain hs H where h: "m_host_sets (dc_priority_set c) = [hs]" "hosts_of (m_healthy_hosts hs) (dc_world c) = Some H"
    "map h_address H = as" using r(2) assms(3) by auto
  have H: "H \<noteq> []" "length H < 2 ^ 32" "length as = length H" using h(3) assms(4,5) by auto
  let ?k = "next_choice (length H) (m_last_used_element c)"
  from choose_many [OF h(1,2) H(1,2), of env ok n] obtain c' where c': "run_calls (dns_exec env ok) (replicate n ChooseHost) c = Some c'"
    "chosen c' = chosen c @ map (\<lambda>i. Some (H ! ((?k + i) mod length H))) [0 ..< n]" by blast
  have "run_calls (dns_exec env ok) ((Initialize # steps) @ replicate n ChooseHost) (rp_strict_dns_cluster_impl_new es) = Some c'"
    using c(1) c'(1) by (simp add: run_calls_append del: append_Cons run_calls.simps)
  moreover have "h_address (H ! (j mod length H)) = as ! (j mod length as)" for j
    using h(3) H(1,3) by (metis length_greater_0_conv mod_less_divisor nth_map)
  ultimately show ?thesis using c(3) c'(2) by (intro exI [of _ c'] exI [of _ ?k]) (simp add: comp_def del: run_calls.simps)
qed

theorem strict_dns_rotates_witness:
  "\<exists>c start. run_calls (dns_exec sample_env (\<lambda>_. True)) (Initialize # sample_steps @ replicate 7 ChooseHost)
      (rp_strict_dns_cluster_impl_new sample_endpoints) = Some c \<and>
    map (map_option h_address) (drop 1 (chosen c)) =
      map (\<lambda>i. Some ([''10.0.0.1:80'', ''10.0.0.2:80'', ''10.0.0.3:81''] ! ((start + i) mod 3))) [0 ..< 7]"
  using strict_dns_rotates [OF sample_priorities sample_answerable sample_latest, of "\<lambda>_. True" 7]
  unfolding sample_counts(2) by (simp del: run_calls.simps upt_rec_numeral)

text \<open>C39. A strict DNS cluster whose targets have two different priorities does not survive its first answer with an
  address: to register a host of a second priority is an assertion failure.\<close>

theorem strict_dns_two_priorities_abort:
  assumes "p \<in> set es" "q \<in> set es" "endpoint_priority p \<noteq> endpoint_priority q" "response \<noteq> []"
  shows "run_calls (dns_exec env ok) [Initialize, Answered k (DnsCompleted response)] (rp_strict_dns_cluster_impl_new es) = None"
proof -
  let ?c = "rp_strict_dns_cluster_impl_new es"
  let ?c1 = "?c\<lparr> dc_callback := True, m_resolve_targets := map (\<lambda>t. t\<lparr> rt_active_query := True \<rparr>) (m_resolve_targets ?c) \<rparr>"
  let ?c2 = "upd_target k (\<lambda>t. t\<lparr> rt_active_query := False \<rparr>) ?c1"
  have pr: "map rt_priority (m_resolve_targets ?c) = map endpoint_priority es"
    using make_targets_ok by (auto simp: rp_strict_dns_cluster_impl_new_def split: prod.splits)
  have "m_resolve_targets ?c \<noteq> []" using pr assms(1) by auto
  then have init: "dns_initialize ?c = Some ?c1" by (simp add: dns_initialize_def Let_def)
  have "answer_completed env ok k response ?c2 = None" if k: "k < length (m_resolve_targets ?c1)"
  proof (rule answer_two)
    have m: "map rt_priority (m_resolve_targets ?c2) = map endpoint_priority es"
      using k by (simp add: upd_target_def map_update comp_def pr [symmetric] list_update_same_conv)
    show "endpoint_priority p \<in> set (map rt_priority (m_resolve_targets ?c2))"
      "endpoint_priority q \<in> set (map rt_priority (m_resolve_targets ?c2))" unfolding m using assms(1,2) by simp_all
    show "k < length (m_resolve_targets ?c2)" using k by (simp add: upd_target_def)
  qed (use assms in simp_all)
  then show ?thesis by (simp add: init network_dns_resolve_cb_def Let_def)
qed

theorem strict_dns_two_priorities_abort_witness:
  "run_calls (dns_exec sample_env (\<lambda>_. True)) [Initialize, Answered 0 (DnsCompleted [sample_address 0x0a000001 ''10.0.0.1''])]
     (rp_strict_dns_cluster_impl_new [(''a.local'', 80, 0, ''a''), (''b.local'', 80, 1, ''b'')]) = None"
  by (rule strict_dns_two_priorities_abort [of "(''a.local'', 80, 0, ''a'')" _ "(''b.local'', 80, 1, ''b'')"]) simp_all

end
