(* ===== verification/Load_Balance.thy ===== *)
theory Load_Balance
  imports Complex_Main RP_Prelude
begin

text \<open>
  Choice of the upstream for a request, \<^verbatim>\<open>src/src/upstream.c\<close>, with the reading of the method
  from the configuration, \<^verbatim>\<open>src/src/cfg.c\<close>. Every method is an instance of the locale of
  choosers, which carries the facts that hold of a run of requests whatever the method is.
\<close>

section \<open>Data\<close>

datatype lb_method = lb_method_rtt | lb_method_rr | lb_method_rand | lb_method_most_idle | lb_method_none

text \<open>\<open>struct upstream\<close>. The round trip time is a \<open>double\<close> that is only compared; it is never
  NaN, so its order is that of the rationals.\<close>

record upstream =
  u_name :: string
  num_idle :: guint16
  m_rtt :: rat

text \<open>\<open>struct rule\<close> with its configured method. \<open>last_upstream_used\<close> points to a node of the
  list \<open>upstreams\<close>, here its position.\<close>

record rule =
  lb :: lb_method
  upstreams :: "upstream list"
  last_upstream_used :: "nat option"

text \<open>\<open>lbstr_to_lbtype\<close>\<close>

definition lbstr_to_lbtype :: "string option \<Rightarrow> lb_method" where
  "lbstr_to_lbtype lbstr =
     (case lbstr of None \<Rightarrow> lb_method_rr
      | Some s \<Rightarrow>
          if g_ascii_strcaseeq s ''rtt'' then lb_method_rtt
          else if g_ascii_strcaseeq s ''roundrobin'' \<or> g_ascii_strcaseeq s ''rr'' then lb_method_rr
          else if g_ascii_strcaseeq s ''random'' then lb_method_rand
          else if g_ascii_strcaseeq s ''most-idle'' then lb_method_most_idle
          else if g_ascii_strcaseeq s ''none'' then lb_method_none
          else lb_method_rr)"

datatype discovery_type = discovery_type_static | discovery_type_strict_dns | discovery_type_local_dns
  | discovery_type_eds | discovery_type_original_dst

definition discovery_type_str_to_discovery_type :: "string option \<Rightarrow> discovery_type" where
  "discovery_type_str_to_discovery_type str =
     (case str of None \<Rightarrow> discovery_type_static
      | Some s \<Rightarrow>
          if g_ascii_strcaseeq s ''STATIC'' then discovery_type_static
          else if g_ascii_strcaseeq s ''STRICT_DNS'' then discovery_type_strict_dns
          else if g_ascii_strcaseeq s ''LOCAL_DNS'' then discovery_type_local_dns
          else if g_ascii_strcaseeq s ''EDS'' then discovery_type_eds
          else if g_ascii_strcaseeq s ''ORIGINAL_DST'' then discovery_type_original_dst
          else discovery_type_static)"

section \<open>Operations\<close>

text \<open>Each returns the updated rule and the chosen upstream; \<open>None\<close> is a failed assertion.\<close>

definition upstream_find_by_name :: "upstream list \<Rightarrow> string option \<Rightarrow> upstream option" where
  "upstream_find_by_name us name =
     (if us = [] then None
      else case name of None \<Rightarrow> None | Some n \<Rightarrow> List.find (\<lambda>u. u_name u = n) us)"

fun most_idle_loop :: "upstream option \<Rightarrow> upstream list \<Rightarrow> upstream option" where
  "most_idle_loop most_idle [] = most_idle"
| "most_idle_loop most_idle (u # itr) =
     (case most_idle of
        None \<Rightarrow> most_idle_loop (Some u) itr
      | Some m \<Rightarrow> if num_idle u > num_idle m then most_idle_loop (Some u) itr
                   else most_idle_loop (Some m) itr)"

definition upstream_get_most_idle :: "rule \<Rightarrow> (rule \<times> upstream option) option" where
  "upstream_get_most_idle r =
     (if upstreams r = [] then None else Some (r, most_idle_loop None (upstreams r)))"

fun lowest_rtt_loop :: "upstream option \<Rightarrow> upstream list \<Rightarrow> upstream option" where
  "lowest_rtt_loop save [] = save"
| "lowest_rtt_loop save (u # itr) =
     (case save of
        None \<Rightarrow> lowest_rtt_loop (Some u) itr
      | Some s \<Rightarrow> if m_rtt u < m_rtt s then lowest_rtt_loop (Some u) itr
                   else lowest_rtt_loop (Some s) itr)"

definition upstream_get_lowest_rtt :: "rule \<Rightarrow> (rule \<times> upstream option) option" where
  "upstream_get_lowest_rtt r =
     (if upstreams r = [] then None else Some (r, lowest_rtt_loop None (upstreams r)))"

fun first_idle_loop :: "upstream list \<Rightarrow> upstream option" where
  "first_idle_loop [] = None"
| "first_idle_loop (u # itr) = (if num_idle u = 0 then first_idle_loop itr else Some u)"

definition upstream_get_none :: "rule \<Rightarrow> (rule \<times> upstream option) option" where
  "upstream_get_none r =
     (if upstreams r = [] then None
      else case first_idle_loop (upstreams r) of
             Some u \<Rightarrow> Some (r, Some u)
           | None \<Rightarrow> Some (r, Some (hd (upstreams r))))"

definition upstream_get_rr :: "rule \<Rightarrow> (rule \<times> upstream option) option" where
  "upstream_get_rr r =
     (if upstreams r = [] then None
      else if length (upstreams r) < 2 then Some (r, Some (hd (upstreams r)))
      else
        (let upstream_elem = (case last_upstream_used r of None \<Rightarrow> 0 | Some i \<Rightarrow> i + 1);
             upstream_elem' = (if upstream_elem \<ge> length (upstreams r) then 0 else upstream_elem)
         in Some (r\<lparr> last_upstream_used := Some upstream_elem' \<rparr>, Some (upstreams r ! upstream_elem'))))"

definition upstream_get :: "rule \<Rightarrow> (rule \<times> upstream option) option" where
  "upstream_get r =
     (case lb r of
        lb_method_rtt \<Rightarrow> upstream_get_lowest_rtt r
      | lb_method_most_idle \<Rightarrow> upstream_get_most_idle r
      | lb_method_rr \<Rightarrow> upstream_get_rr r
      | lb_method_none \<Rightarrow> upstream_get_none r
      | lb_method_rand \<Rightarrow> Some (r, None))"

text \<open>A run of requests against one rule, and the upstreams it is served from.\<close>

fun serve :: "(rule \<Rightarrow> (rule \<times> upstream option) option) \<Rightarrow> nat \<Rightarrow> rule \<Rightarrow> (rule \<times> upstream option list) option" where
  "serve get 0 r = Some (r, [])"
| "serve get (Suc n) r =
     do { (r', u) \<leftarrow> get r; (r'', us) \<leftarrow> serve get n r'; Some (r'', u # us) }"

section \<open>The contract of a load-balancing method\<close>

text \<open>The saved node is a node of the list.\<close>

definition rule_ok :: "rule \<Rightarrow> bool" where
  "rule_ok r = (upstreams r \<noteq> [] \<and>
     (case last_upstream_used r of None \<Rightarrow> True | Some i \<Rightarrow> i < length (upstreams r)))"

locale chooser =
  fixes ok :: "rule \<Rightarrow> bool" and get :: "rule \<Rightarrow> (rule \<times> upstream option) option"
  assumes chooses: "ok r \<Longrightarrow> \<exists>r' u. get r = Some (r', Some u) \<and> u \<in> set (upstreams r)"
    and keeps: "ok r \<Longrightarrow> get r = Some (r', u) \<Longrightarrow> ok r' \<and> upstreams r' = upstreams r \<and> lb r' = lb r"
begin

lemma serves:
  "ok r \<Longrightarrow> \<exists>r' us. serve get n r = Some (r', map Some us) \<and> length us = n \<and>
     set us \<subseteq> set (upstreams r) \<and> ok r' \<and> upstreams r' = upstreams r"
proof (induction n arbitrary: r)
  case 0
  then show ?case by (intro exI [of _ r] exI [of _ "[]"]) simp
next
  case (Suc n)
  obtain r1 u where g: "get r = Some (r1, Some u)" "u \<in> set (upstreams r)"
    using chooses [OF Suc.prems] by blast
  note k = keeps [OF Suc.prems g(1)]
  obtain r2 us where "serve get n r1 = Some (r2, map Some us)" "length us = n"
    "set us \<subseteq> set (upstreams r)" "ok r2" "upstreams r2 = upstreams r"
    using Suc.IH [of r1] k by auto
  with g show ?case by (intro exI [of _ r2] exI [of _ "u # us"]) simp
qed

end

text \<open>Both searches are one scan for the first element of least key.\<close>

fun scan :: "('a \<Rightarrow> 'k :: linorder) \<Rightarrow> 'a \<Rightarrow> 'a list \<Rightarrow> 'a" where
  "scan f s [] = s"
| "scan f s (u # us) = scan f (if f u < f s then u else s) us"

lemma scan_find:
  "List.find (\<lambda>u. \<forall>v \<in> set (m # us). f u \<le> f v) (m # us) = Some (scan f m us)"
proof (induction us arbitrary: m)
  case (Cons v us)
  show ?case
  proof (cases "f v < f m")
    case True
    then have eq: "(\<lambda>u. \<forall>w \<in> set (m # v # us). f u \<le> f w) = (\<lambda>u. \<forall>w \<in> set (v # us). f u \<le> f w)"
      by (intro ext) auto
    have "\<not> (\<forall>w \<in> set (v # us). f m \<le> f w)" using True by auto
    then show ?thesis unfolding eq using True Cons.IH [of v]
      by (simp only: find.simps(2) scan.simps if_False if_True)
  next
    case False
    then have eq: "(\<lambda>u. \<forall>w \<in> set (m # v # us). f u \<le> f w) = (\<lambda>u. \<forall>w \<in> set (m # us). f u \<le> f w)"
      by (intro ext) auto
    define P where "P = (\<lambda>u. \<forall>w \<in> set (m # us). f u \<le> f w)"
    have "P v \<Longrightarrow> P m" using False unfolding P_def by auto
    moreover have "List.find P (m # us) = Some (scan f m us)" unfolding P_def by (rule Cons.IH)
    ultimately show ?thesis unfolding eq P_def [symmetric] using False
      by (auto split: if_splits)
  qed
qed simp

lemma scan_in: "scan f m us \<in> set (m # us)"
  by (induction us arbitrary: m) auto

lemma most_idle_loop_scan:
  "most_idle_loop (Some m) us = Some (scan (\<lambda>u. - uint (num_idle u)) m us)"
  by (induction us arbitrary: m) (auto simp: word_less_alt)

lemma lowest_rtt_loop_scan: "lowest_rtt_loop (Some m) us = Some (scan m_rtt m us)"
  by (induction us arbitrary: m) auto

lemma most_idle_loop_find:
  "us \<noteq> [] \<Longrightarrow> most_idle_loop None us = List.find (\<lambda>u. \<forall>v \<in> set us. num_idle v \<le> num_idle u) us"
  using scan_find [of "hd us" "tl us" "\<lambda>u. - uint (num_idle u)"]
  by (cases us) (simp_all add: most_idle_loop_scan word_le_def)

lemma lowest_rtt_loop_find:
  "us \<noteq> [] \<Longrightarrow> lowest_rtt_loop None us = List.find (\<lambda>u. \<forall>v \<in> set us. m_rtt u \<le> m_rtt v) us"
  using scan_find [of "hd us" "tl us" m_rtt] by (cases us) (simp_all add: lowest_rtt_loop_scan)

lemma most_idle_loop_in: "us \<noteq> [] \<Longrightarrow> \<exists>u \<in> set us. most_idle_loop None us = Some u"
  using scan_in [of _ "hd us" "tl us"] by (cases us) (auto simp: most_idle_loop_scan)

lemma lowest_rtt_loop_in: "us \<noteq> [] \<Longrightarrow> \<exists>u \<in> set us. lowest_rtt_loop None us = Some u"
  using scan_in [of _ "hd us" "tl us"] by (cases us) (auto simp: lowest_rtt_loop_scan)

lemma first_idle_loop_eq: "first_idle_loop us = List.find (\<lambda>u. num_idle u \<noteq> 0) us"
  by (induction us) auto

interpretation most_idle: chooser rule_ok upstream_get_most_idle
  using most_idle_loop_in
  by unfold_locales (fastforce simp: upstream_get_most_idle_def rule_ok_def split: if_splits)+

interpretation lowest_rtt: chooser rule_ok upstream_get_lowest_rtt
  using lowest_rtt_loop_in
  by unfold_locales (fastforce simp: upstream_get_lowest_rtt_def rule_ok_def split: if_splits)+

interpretation first_idle: chooser rule_ok upstream_get_none
  by unfold_locales
    (auto simp: upstream_get_none_def rule_ok_def first_idle_loop_eq find_Some_iff
      split: option.splits if_splits)

interpretation round_robin: chooser rule_ok upstream_get_rr
  by unfold_locales
    (auto simp: upstream_get_rr_def rule_ok_def Let_def split: option.splits if_splits)

text \<open>The dispatch on the configured method is a chooser as long as the method is implemented.\<close>

interpretation dispatch: chooser "\<lambda>r. rule_ok r \<and> lb r \<noteq> lb_method_rand" upstream_get
proof
  fix r assume ok: "rule_ok r \<and> lb r \<noteq> lb_method_rand"
  then have r: "rule_ok r" ..
  show "\<exists>r' u. upstream_get r = Some (r', Some u) \<and> u \<in> set (upstreams r)"
    using most_idle.chooses [OF r] lowest_rtt.chooses [OF r] first_idle.chooses [OF r]
      round_robin.chooses [OF r] ok
    by (cases "lb r") (simp_all add: upstream_get_def)
  fix r' u assume "upstream_get r = Some (r', u)"
  then show "(rule_ok r' \<and> lb r' \<noteq> lb_method_rand) \<and> upstreams r' = upstreams r \<and> lb r' = lb r"
    using ok
    by (cases "lb r")
      (auto simp: upstream_get_def dest: most_idle.keeps [OF r] lowest_rtt.keeps [OF r]
        first_idle.keeps [OF r] round_robin.keeps [OF r])
qed

subsection \<open>Round robin\<close>

definition rr_position :: "rule \<Rightarrow> nat" where
  "rr_position r =
     (case last_upstream_used r of None \<Rightarrow> 0 | Some i \<Rightarrow> (i + 1) mod length (upstreams r))"

lemma upstream_get_rr_step:
  assumes "rule_ok r" "2 \<le> length (upstreams r)"
  shows "upstream_get_rr r =
     Some (r\<lparr> last_upstream_used := Some (rr_position r) \<rparr>, Some (upstreams r ! rr_position r))"
proof (cases "last_upstream_used r")
  case (Some i)
  with assms have "i + 1 = length (upstreams r) \<or> i + 1 < length (upstreams r)"
    by (auto simp: rule_ok_def)
  with assms Some show ?thesis by (auto simp: upstream_get_rr_def rr_position_def)
qed (use assms in \<open>auto simp: upstream_get_rr_def rr_position_def\<close>)

lemma rr_position_less: "rule_ok r \<Longrightarrow> rr_position r < length (upstreams r)"
  by (auto simp: rr_position_def rule_ok_def split: option.split)

lemma serve_rr:
  assumes "rule_ok r" "2 \<le> length (upstreams r)"
  shows "\<exists>r'. serve upstream_get_rr n r =
     Some (r', map (\<lambda>k. Some (upstreams r ! ((rr_position r + k) mod length (upstreams r)))) [0..<n])"
  using assms
proof (induction n arbitrary: r)
  case (Suc n)
  let ?r1 = "r\<lparr> last_upstream_used := Some (rr_position r) \<rparr>" and ?n = "length (upstreams r)"
  have "rule_ok ?r1" using Suc.prems rr_position_less [of r] by (auto simp: rule_ok_def)
  moreover have "rr_position ?r1 = (rr_position r + 1) mod ?n" by (simp add: rr_position_def)
  ultimately obtain r2 where
    "serve upstream_get_rr n ?r1 =
       Some (r2, map (\<lambda>k. Some (upstreams r ! (((rr_position r + 1) mod ?n + k) mod ?n))) [0..<n])"
    using Suc.IH [of ?r1] Suc.prems by auto
  moreover have "((rr_position r + 1) mod ?n + k) mod ?n = (rr_position r + Suc k) mod ?n" for k
    by (simp add: mod_simps)
  ultimately show ?case
    using upstream_get_rr_step [OF Suc.prems] rr_position_less [OF Suc.prems(1)]
    by (simp add: map_upt_Suc del: upt_Suc)
qed simp

section \<open>Properties\<close>

text \<open>C23. Round robin is fair: whatever upstream was used last, as many requests as there are
  upstreams are served by each upstream in turn, starting behind the last one used and
  wrapping around.\<close>

theorem round_robin_rotates:
  assumes "rule_ok r" "2 \<le> length (upstreams r)"
  shows "map_option snd (serve upstream_get_rr (length (upstreams r)) r) =
     Some (map Some (rotate (rr_position r) (upstreams r)))"
proof -
  have "rotate (rr_position r) (upstreams r) =
      map (\<lambda>k. upstreams r ! ((rr_position r + k) mod length (upstreams r))) [0..<length (upstreams r)]"
    by (rule nth_equalityI) (simp_all add: nth_rotate)
  with serve_rr [OF assms, of "length (upstreams r)"] show ?thesis by (auto simp: comp_def)
qed

theorem round_robin_rotates_witness:
  "map_option snd (serve upstream_get_rr (length [\<lparr> u_name = ''a'', num_idle = 0, m_rtt = 1 \<rparr>, \<lparr> u_name = ''b'', num_idle = 0, m_rtt = 1 \<rparr>])
       \<lparr> lb = lb_method_rr, upstreams = [\<lparr> u_name = ''a'', num_idle = 0, m_rtt = 1 \<rparr>, \<lparr> u_name = ''b'', num_idle = 0, m_rtt = 1 \<rparr>],
          last_upstream_used = Some 0 \<rparr>) =
   Some [Some \<lparr> u_name = ''b'', num_idle = 0, m_rtt = 1 \<rparr>, Some \<lparr> u_name = ''a'', num_idle = 0, m_rtt = 1 \<rparr>]"
  using round_robin_rotates [of "\<lparr> lb = lb_method_rr,
      upstreams = [\<lparr> u_name = ''a'', num_idle = 0, m_rtt = 1 \<rparr>, \<lparr> u_name = ''b'', num_idle = 0, m_rtt = 1 \<rparr>],
      last_upstream_used = Some 0 \<rparr>"]
  by (simp add: rule_ok_def rr_position_def)



text \<open>The random method is accepted by the configuration but never chooses an upstream.\<close>

theorem random_never_chooses:
  "lbstr_to_lbtype (Some ''random'') = lb_method_rand \<and>
   upstream_get (r\<lparr> lb := lbstr_to_lbtype (Some ''random'') \<rparr>) = Some (r\<lparr> lb := lb_method_rand \<rparr>, None)"
proof -
  have "lbstr_to_lbtype (Some ''random'') = lb_method_rand" by code_simp
  then show ?thesis by (simp add: upstream_get_def)
qed

text \<open>The round-trip-time method picks the first upstream whose time no other undercuts, the
  most-idle method the first that no other exceeds in idle connections.\<close>

theorem best_upstream_is_first:
  assumes "upstreams r \<noteq> []"
  shows "upstream_get_lowest_rtt r =
       Some (r, List.find (\<lambda>u. \<forall>v \<in> set (upstreams r). m_rtt u \<le> m_rtt v) (upstreams r)) \<and>
     upstream_get_most_idle r =
       Some (r, List.find (\<lambda>u. \<forall>v \<in> set (upstreams r). num_idle v \<le> num_idle u) (upstreams r))"
  using assms
  by (simp add: upstream_get_lowest_rtt_def upstream_get_most_idle_def lowest_rtt_loop_find
      most_idle_loop_find)

theorem best_upstream_is_first_witness:
  "\<exists>r. upstreams r \<noteq> [] \<and> upstream_get_lowest_rtt r =
       Some (r, List.find (\<lambda>u. \<forall>v \<in> set (upstreams r). m_rtt u \<le> m_rtt v) (upstreams r))"
  using best_upstream_is_first [of "\<lparr> lb = lb_method_rtt,
      upstreams = [\<lparr> u_name = ''a'', num_idle = 0, m_rtt = 1 \<rparr>], last_upstream_used = None \<rparr>"]
  by (intro exI [of _ "\<lparr> lb = lb_method_rtt,
      upstreams = [\<lparr> u_name = ''a'', num_idle = 0, m_rtt = 1 \<rparr>], last_upstream_used = None \<rparr>"]) simp

end
