(* ===== verification/Glob.thy ===== *)
theory Glob
  imports RP_Prelude
begin

text \<open>
  Wildcard matching, \<^verbatim>\<open>src/src/util.c\<close>: \<open>util_glob_match\<close>,
  \<open>_glob_match_compare\<close> and \<open>util_glob_match_list\<close>. The matcher is proved equal to
  a reference semantics of patterns in which a star stands for any sequence of bytes.
\<close>

section \<open>The matcher\<close>

text \<open>
  \<open>util_glob_match\<close> walks both strings. The main loop is \<open>util_glob_match\<close> below
  (one turn per pattern byte), and the inner \<open>while (str_len)\<close> loop of the star case is
  \<open>glob_star_loop\<close>: it tries the rest of the pattern at every non-empty suffix.
  Reading \<open>string[0]\<close> at the end of the string reads the NUL, which differs from
  every pattern byte, so that read is the mismatch branch.
\<close>

fun util_glob_match :: "string \<Rightarrow> string \<Rightarrow> bool"
  and glob_star_loop :: "string \<Rightarrow> string \<Rightarrow> bool" where
  "util_glob_match [] s = (s = [])"
| "util_glob_match (p # pattern) s =
     (if p = CHR ''*'' then
        (let rest = dropWhile (\<lambda>c. c = CHR ''*'') pattern in
         if rest = [] then True else glob_star_loop rest s)
      else
        (case s of
           [] \<Rightarrow> False
         | c # s' \<Rightarrow>
             if p \<noteq> c then False
             else if s' = [] then dropWhile (\<lambda>c. c = CHR ''*'') pattern = []
             else util_glob_match pattern s'))"
| "glob_star_loop rest [] = False"
| "glob_star_loop rest (c # s) =
     (if util_glob_match rest (c # s) then True else glob_star_loop rest s)"

text \<open>Null arguments: the C function logs and returns false.\<close>

definition util_glob_match_ptr :: "string option \<Rightarrow> string option \<Rightarrow> bool" where
  "util_glob_match_ptr pattern str =
     (case pattern of None \<Rightarrow> False
      | Some p \<Rightarrow> (case str of None \<Rightarrow> False | Some s \<Rightarrow> util_glob_match p s))"

text \<open>The comparison handed to \<open>g_slist_find_custom\<close>: zero means found.\<close>

definition glob_match_compare :: "string option \<Rightarrow> string option \<Rightarrow> int" where
  "glob_match_compare a b =
     (case b of None \<Rightarrow> -1
      | Some needle \<Rightarrow>
          (case a of None \<Rightarrow> 1
           | Some haystack \<Rightarrow> if util_glob_match haystack needle then 0 else -1))"

definition util_glob_match_list :: "string option list \<Rightarrow> string option \<Rightarrow> bool" where
  "util_glob_match_list lst str =
     (if lst = [] then True
      else List.find (\<lambda>a. glob_match_compare a str = 0) lst \<noteq> None)"

section \<open>Reference semantics of patterns\<close>

text \<open>A star matches any sequence, every other byte matches itself.\<close>

fun glob_spec :: "string \<Rightarrow> string \<Rightarrow> bool" where
  "glob_spec [] s = (s = [])"
| "glob_spec (p # pattern) s =
     (if p = CHR ''*'' then (\<exists>k \<le> length s. glob_spec pattern (drop k s))
      else (case s of [] \<Rightarrow> False | c # s' \<Rightarrow> p = c \<and> glob_spec pattern s'))"

lemma glob_spec_star_nil: "glob_spec (CHR ''*'' # p) s = (glob_spec p s \<or> (\<exists>c s'. s = c # s' \<and> glob_spec (CHR ''*'' # p) s'))"
proof (cases s)
  case (Cons c s')
  have "(\<exists>k \<le> Suc (length s'). glob_spec p (drop k (c # s'))) \<longleftrightarrow>
        glob_spec p (c # s') \<or> (\<exists>k \<le> length s'. glob_spec p (drop k s'))"
    by (metis Suc_le_mono drop0 drop_Suc_Cons not0_implies_Suc zero_le)
  with Cons show ?thesis by simp
qed simp

lemma glob_spec_star_star: "glob_spec (CHR ''*'' # CHR ''*'' # p) s = glob_spec (CHR ''*'' # p) s"
proof (induction s)
  case (Cons c s)
  show ?case
    using glob_spec_star_nil [of "CHR ''*'' # p" "c # s"] glob_spec_star_nil [of p "c # s"] Cons
    by blast
qed simp

lemma glob_spec_skip_stars:
  "glob_spec (CHR ''*'' # p) s = glob_spec (CHR ''*'' # dropWhile (\<lambda>c. c = CHR ''*'') p) s"
proof (induction p)
  case (Cons x p)
  show ?case
  proof (cases "x = CHR ''*''")
    case True
    then show ?thesis
      by (simp only: glob_spec_star_star Cons.IH) simp
  qed simp
qed simp

lemma glob_spec_star_only [simp]: "glob_spec ''*'' s"
  by (simp, rule exI [of _ "length s"]) simp

lemma glob_spec_nil_string: "glob_spec p [] = (dropWhile (\<lambda>c. c = CHR ''*'') p = [])"
  by (induction p) auto

section \<open>The matcher implements the reference\<close>

lemma util_glob_match_glob_spec:
  shows "util_glob_match p s = glob_spec p s"
    and "rest \<noteq> [] \<Longrightarrow> hd rest \<noteq> CHR ''*'' \<Longrightarrow>
         glob_star_loop rest t = glob_spec (CHR ''*'' # rest) t"
proof (induction p s and rest t rule: util_glob_match_glob_star_loop.induct)
  case (2 p pattern s)
  show ?case
  proof (cases "p = CHR ''*''")
    case True
    let ?rest = "dropWhile (\<lambda>c. c = CHR ''*'') pattern"
    show ?thesis
    proof (cases "?rest = []")
      case False
      then have "hd ?rest \<noteq> CHR ''*''" by (rule hd_dropWhile)
      with True False 2(1) have "util_glob_match (p # pattern) s = glob_spec (CHR ''*'' # ?rest) s"
        by (auto simp del: glob_spec.simps)
      with True show ?thesis by (simp only: glob_spec_skip_stars [symmetric])
    next
      case rest: True
      then have "glob_spec (CHR ''*'' # pattern) s"
        by (subst glob_spec_skip_stars) (simp only: glob_spec_star_only)
      with True rest show ?thesis by simp
    qed
  next
    case False
    with 2(2) show ?thesis
      by (auto split: list.split simp: glob_spec_nil_string)
  qed
next
  case (3 rest)
  then show ?case by (cases rest) auto
next
  case (4 rest c s)
  then show ?case
    using glob_spec_star_nil [of rest "c # s"] by (auto simp del: glob_spec.simps)
qed simp

section \<open>Properties\<close>

text \<open>C22. \<open>util_glob_match\<close> decides exactly whether the string is an instance of the pattern, a
  star standing for any sequence of bytes.\<close>

theorem util_glob_match_correct: "util_glob_match_ptr (Some p) (Some s) = glob_spec p s"
  by (simp add: util_glob_match_ptr_def util_glob_match_glob_spec(1))

text \<open>An empty list allows every string; otherwise a string is allowed exactly when some
  pattern of the list matches it.\<close>

theorem util_glob_match_list_iff:
  "util_glob_match_list lst (Some s) = (lst = [] \<or> (\<exists>p. Some p \<in> set lst \<and> glob_spec p s))"
  by (auto simp: util_glob_match_list_def find_None_iff glob_match_compare_def
      util_glob_match_glob_spec(1) split: option.splits if_splits)

end
