(* ===== verification/Util.thy ===== *)
theory Util
  imports Glob Header_Utility
begin

text \<open>
  The rest of \<^verbatim>\<open>src/src/util.c\<close>: writing messages and URIs, content types and encodings,
  and the process set-up (permissions, daemon, file limits). Results of system calls and of
  the resolver are arguments; the calls made are recorded in a trace.
\<close>

section \<open>Messages and URIs\<close>

definition CRLF :: string where "CRLF = [CR, LF]"

definition util_write_header_to_evbuffer :: "string \<times> string \<Rightarrow> string \<Rightarrow> string" where
  "util_write_header_to_evbuffer hdr buf = buf @ fst hdr @ '': '' @ snd hdr @ CRLF"

text \<open>Decimal output of \<open>printf\<close>.\<close>

fun dec_string :: "nat \<Rightarrow> string" where
  "dec_string n = (if n < 10 then [char_of (48 + n)] else dec_string (n div 10) @ [char_of (48 + n mod 10)])"

declare dec_string.simps [simp del]

text \<open>The parts of a parsed request that the code reads.\<close>

record http_request =
  r_method :: string
  r_path :: string
  r_query :: "string option"
  r_major :: nat
  r_minor :: nat
  r_headers :: "(string \<times> string) list"

text \<open>\<open>obuf\<close> is the caller's buffer or NULL, \<open>fresh\<close> what the allocation gives.\<close>

definition util_request_to_evbuffer :: "string option \<Rightarrow> http_request \<Rightarrow> string option \<Rightarrow> string option" where
  "util_request_to_evbuffer fresh r obuf =
     (case (case obuf of Some b \<Rightarrow> Some b | None \<Rightarrow> fresh) of
        None \<Rightarrow> None
      | Some buf \<Rightarrow>
          (let q = (case r_query r of None \<Rightarrow> [] | Some q \<Rightarrow> q);
               query_args = (if q \<noteq> [] \<and> hd q = CHR ''?'' then tl q else q);
               line = r_method r @ '' '' @ r_path r @ (if query_args \<noteq> [] then ''?'' else []) @ query_args @
                      '' HTTP/'' @ dec_string (r_major r) @ ''.'' @ dec_string (r_minor r) @ CRLF
           in Some (fold util_write_header_to_evbuffer (r_headers r) (buf @ line) @ CRLF)))"

datatype htp_scheme = htp_scheme_none | htp_scheme_ftp | htp_scheme_https | htp_scheme_http
  | htp_scheme_nfs | htp_scheme_unknown

definition util_htp_scheme_tostr :: "htp_scheme \<Rightarrow> string option" where
  "util_htp_scheme_tostr scheme =
     (case scheme of htp_scheme_ftp \<Rightarrow> Some ''ftp'' | htp_scheme_http \<Rightarrow> Some ''http''
      | htp_scheme_https \<Rightarrow> Some ''https'' | htp_scheme_nfs \<Rightarrow> Some ''nfs''
      | _ \<Rightarrow> None)"

record uri_request =
  uri_scheme :: htp_scheme
  uri_hostname :: "string option"
  uri_path :: string
  uri_query :: "string option"
  uri_fragment :: "string option"
  conn_ssl :: bool
  host_header :: "string option"

definition get_hostname :: "uri_request \<Rightarrow> string option \<Rightarrow> string" where
  "get_hostname req hostname =
     (case (case hostname of None \<Rightarrow> None | Some h \<Rightarrow> if h = [] then None else Some h) of
        Some h \<Rightarrow> h
      | None \<Rightarrow>
          (case uri_hostname req of Some h \<Rightarrow> h
           | None \<Rightarrow> (case host_header req of Some h \<Rightarrow> h | None \<Rightarrow> ''localhost'')))"

definition util_uri_to_evbuffer :: "uri_request \<Rightarrow> string option \<Rightarrow> string \<Rightarrow> string" where
  "util_uri_to_evbuffer req hostname obuf =
     (let host = get_hostname req hostname;
          scheme = (if uri_scheme req \<noteq> htp_scheme_none then util_htp_scheme_tostr (uri_scheme req)
                    else if conn_ssl req then Some ''https'' else Some ''http'');
          query_args = (case uri_query req of None \<Rightarrow> [] | Some q \<Rightarrow> q);
          fragment_args = (case uri_fragment req of None \<Rightarrow> [] | Some f \<Rightarrow> f)
      in obuf @ (case scheme of None \<Rightarrow> ''(null)'' | Some s \<Rightarrow> s) @ ''://'' @ host @ uri_path req @
         (if query_args \<noteq> [] then ''?'' else []) @ query_args @
         (if fragment_args \<noteq> [] then ''#'' else []) @ fragment_args)"

section \<open>Addresses, content types and encodings\<close>

datatype sockaddr = AF_INET string nat | AF_INET6 string nat | AF_OTHER

definition UTIL_IS_DEFAULT_PORT :: "nat \<Rightarrow> bool" where
  "UTIL_IS_DEFAULT_PORT p = (p = 80 \<or> p = 443)"

text \<open>\<open>ntop\<close> is \<open>evutil_inet_ntop\<close>; the output is cut to the buffer of \<open>outlen\<close> bytes.\<close>

definition util_format_sockaddr_port :: "(string \<Rightarrow> string option) \<Rightarrow> sockaddr \<Rightarrow> nat \<Rightarrow> string" where
  "util_format_sockaddr_port ntop sa outlen =
     (case sa of
        AF_INET addr port \<Rightarrow>
          (case ntop addr of
             Some buf \<Rightarrow> take (outlen - 1)
               (if UTIL_IS_DEFAULT_PORT port then buf else buf @ '':'' @ dec_string port)
           | None \<Rightarrow> '':'')
      | AF_INET6 addr port \<Rightarrow>
          (case ntop addr of
             Some buf \<Rightarrow> take (outlen - 1)
               (if UTIL_IS_DEFAULT_PORT port then buf else ''['' @ buf @ '']:'' @ dec_string port)
           | None \<Rightarrow> '':'')
      | AF_OTHER \<Rightarrow> '':'')"

text \<open>The type is the name of the header's first element; \<open>None\<close> where the parser does not end.\<close>

definition util_is_text_content_type :: "header_value_parser \<Rightarrow> string option \<Rightarrow> bool option" where
  "util_is_text_content_type hvp value =
     (case value of
        None \<Rightarrow> Some False
      | Some v \<Rightarrow>
          if v = [] then Some False
          else do { (c, he) \<leftarrow> parse_header_element hvp v (tokenizer_cursor_ctor 0 (length v));
                    Some (case he_name he of None \<Rightarrow> False
                          | Some type \<Rightarrow> g_str_has_prefix type ''text/'' \<or> g_str_has_suffix type ''json'' \<or>
                              g_str_has_suffix type ''javascript'' \<or> g_str_has_suffix type ''ecmascript'' \<or>
                              g_str_has_suffix type ''xml'') })"

datatype enc_type = enc_type_none | enc_type_deflate | enc_type_gzip | enc_type_br

definition util_get_enc_type :: "string option \<Rightarrow> enc_type" where
  "util_get_enc_type enc_value =
     (case enc_value of
        None \<Rightarrow> enc_type_none
      | Some v \<Rightarrow>
          if v = [] then enc_type_none
          else if g_ascii_strcaseeq v ''gzip'' then enc_type_gzip
          else if g_ascii_strcaseeq v ''br'' then enc_type_br
          else if g_ascii_strcaseeq v ''deflate'' then enc_type_deflate
          else if g_ascii_strcaseeq v ''x-gzip'' then enc_type_gzip
          else enc_type_none)"

section \<open>Process set-up\<close>

datatype syscall = Setgid nat | Seteuid nat | Setsid | Chdir "string option" | OpenNull | Dup2 int int
  | Close int | Setrlimit guint64 guint64

datatype 'a outcome = Returned 'a | Exited nat | Aborted

text \<open>\<open>gr\<close>, \<open>pw\<close> look names up, \<open>setgid_ok\<close> and \<open>seteuid_ok\<close> are the answers of the kernel.\<close>

definition util_dropperms ::
  "(string \<Rightarrow> nat option) \<Rightarrow> (string \<Rightarrow> nat option) \<Rightarrow> (nat \<Rightarrow> bool) \<Rightarrow> (nat \<Rightarrow> bool) \<Rightarrow>
   string option \<Rightarrow> string option \<Rightarrow> unit outcome \<times> syscall list" where
  "util_dropperms gr pw setgid_ok seteuid_ok user grp =
     (let after_group =
        (case grp of None \<Rightarrow> (Returned (), [])
         | Some g \<Rightarrow>
             (case gr g of None \<Rightarrow> (Exited 1, [])
              | Some gid \<Rightarrow> if setgid_ok gid then (Returned (), [Setgid gid]) else (Exited 1, [Setgid gid])))
      in case after_group of
           (Returned _, tr) \<Rightarrow>
             (case user of None \<Rightarrow> (Returned (), tr)
              | Some u \<Rightarrow>
                  (case pw u of None \<Rightarrow> (Exited 1, tr)
                   | Some uid \<Rightarrow> if seteuid_ok uid then (Returned (), tr @ [Seteuid uid])
                                  else (Exited 1, tr @ [Seteuid uid])))
         | (Exited c, tr) \<Rightarrow> (Exited c, tr)
         | (Aborted, tr) \<Rightarrow> (Aborted, tr))"

datatype fork_result = ForkFailed | ForkChild | ForkParent

fun dup_all :: "(int \<Rightarrow> bool) \<Rightarrow> int \<Rightarrow> int list \<Rightarrow> bool \<times> syscall list" where
  "dup_all dup_ok fd [] = (True, [])"
| "dup_all dup_ok fd (n # ns) =
     (if dup_ok n then (let (ok, tr) = dup_all dup_ok fd ns in (ok, Dup2 fd n # tr))
      else (False, [Dup2 fd n]))"

definition util_daemonize ::
  "fork_result \<Rightarrow> bool \<Rightarrow> (string option \<Rightarrow> bool) \<Rightarrow> int option \<Rightarrow> (int \<Rightarrow> bool) \<Rightarrow> (int \<Rightarrow> bool) \<Rightarrow>
   string option \<Rightarrow> bool \<Rightarrow> int outcome \<times> syscall list" where
  "util_daemonize fork setsid_ok chdir_ok null_fd dup_ok close_ok root noclose =
     (case fork of
        ForkFailed \<Rightarrow> (Returned (-1), [])
      | ForkParent \<Rightarrow> (Exited 0, [])
      | ForkChild \<Rightarrow>
          if \<not> setsid_ok then (Returned (-1), [Setsid])
          else if root = None \<and> \<not> chdir_ok root then (Returned (-1), [Setsid, Chdir root])
          else
            (let tr = Setsid # (if root = None then [Chdir root] else []) in
             if noclose then (Returned 0, tr)
             else case null_fd of
                    None \<Rightarrow> (Returned 0, tr @ [OpenNull])
                  | Some fd \<Rightarrow>
                      (let (ok, dups) = dup_all dup_ok fd [0, 1, 2]; tr' = tr @ [OpenNull] @ dups in
                       if \<not> ok then (Returned (-1), tr')
                       else if fd > 2 then
                         (if close_ok fd then (Returned 0, tr' @ [Close fd]) else (Returned (-1), tr' @ [Close fd]))
                       else (Returned 0, tr'))))"

text \<open>\<open>limit\<close> is the hard limit, \<open>None\<close> when \<open>getrlimit\<close> fails; \<open>g_error\<close> aborts. Both casts
  between \<open>int\<close> and \<open>rlim_t\<close> are written out.\<close>

definition util_set_rlimits :: "guint64 option \<Rightarrow> bool \<Rightarrow> guint32 \<Rightarrow> int outcome \<times> syscall list" where
  "util_set_rlimits rlim_max set_ok nofiles =
     (if sint nofiles \<le> 0 then (Returned (-1), [])
      else case rlim_max of
             None \<Rightarrow> (Aborted, [])
           | Some m \<Rightarrow>
               if (scast nofiles :: guint64) > m then (Aborted, [])
               else
                 (let nofiles' = (if sint nofiles < 10000 \<and> sint (ucast m :: guint32) \<ge> 10000
                                  then ucast m else nofiles)
                  in if set_ok then (Returned 0, [Setrlimit (scast nofiles') m])
                     else (Aborted, [Setrlimit (scast nofiles') m])))"

section \<open>Lemmas\<close>

lemma sint_nonneg_uint: "0 \<le> sint (w :: guint32) \<Longrightarrow> sint w = uint w"
proof -
  assume "0 \<le> sint w"
  then have "\<not> bit w 31" using bit_last_iff [of w] by simp
  moreover have "take_bit (Suc 31) (uint w) = uint w"
    using take_bit_length_eq [of w] uint_lt2p [of w] by (simp add: take_bit_int_eq_self_iff)
  ultimately have "take_bit 31 (uint w) = uint w"
    by (simp only: take_bit_Suc_from_most bit_uint_iff) simp
  with \<open>\<not> bit w 31\<close> show ?thesis
    by (simp add: sint_uint signed_take_bit_eq_if_positive bit_uint_iff)
qed

lemma uint_scast_nonneg:
  assumes "0 \<le> sint (w :: guint32)"
  shows "uint (scast w :: guint64) = sint w"
proof -
  have "sint w < 2 ^ 31" using sint_lt [of w] by simp
  with assms have t: "take_bit 64 (sint w) = sint w" by (simp add: take_bit_int_eq_self_iff)
  have "(scast w :: guint64) = word_of_int (sint w)" by simp
  then have "uint (scast w :: guint64) = take_bit 64 (sint w)"
    by (simp only: uint_word_of_int_eq len_of_numeral_defs) simp
  with t show ?thesis by simp
qed

lemma uint_ucast_le: "uint (ucast (m :: guint64) :: guint32) \<le> uint m"
  by (simp add: unsigned_ucast_eq take_bit_int_less_eq_self_iff)

section \<open>Properties\<close>

text \<open>For an ASCII value without quotes the content type test always answers, from the type
  named by the first element of the header, without its parameters.\<close>

theorem is_text_content_type_iff:
  assumes "ascii v" "unquoted v" "v \<noteq> []"
  shows "util_is_text_content_type (header_value_parser_ctor bt bv) (Some v) =
     Some (g_str_has_prefix (first_name v) ''text/'' \<or>
       (\<exists>suffix \<in> {''json'', ''javascript'', ''ecmascript'', ''xml''}. g_str_has_suffix (first_name v) suffix))"
proof -
  let ?c = "tokenizer_cursor_ctor 0 (length v)"
  have "window v ?c = v" "cursor_ok v ?c"
    by (simp_all add: window_def tokenizer_cursor_ctor_def cursor_ok_def)
  with parse_header_element_plain [of v ?c bt bv] assms show ?thesis
    by (auto simp: util_is_text_content_type_def first_name_def element_name_takeWhile)
qed

theorem is_text_content_type_iff_witness:
  "util_is_text_content_type (header_value_parser_ctor [] []) (Some ''text/html; charset=UTF-8'') =
     Some (g_str_has_prefix (first_name ''text/html; charset=UTF-8'') ''text/'' \<or>
       (\<exists>suffix \<in> {''json'', ''javascript'', ''ecmascript'', ''xml''}.
          g_str_has_suffix (first_name ''text/html; charset=UTF-8'') suffix))"
  by (rule is_text_content_type_iff) (simp_all add: ascii_def unquoted_def DQUOTE_def)

text \<open>When setting the file limit succeeds, the new limit is at least the one asked for and
  at most the hard limit, in spite of the casts between 32 and 64 bits.\<close>

theorem util_set_rlimits_bounds:
  assumes "util_set_rlimits (Some m) set_ok nofiles = (Returned 0, calls)"
  shows "\<exists>cur. calls = [Setrlimit cur m] \<and> cur \<le> m \<and> sint nofiles \<le> uint cur \<and> 0 < uint cur"
proof -
  let ?n = "if sint nofiles < 10000 \<and> sint (ucast m :: guint32) \<ge> 10000 then ucast m else nofiles"
  have pos: "0 < sint nofiles" "\<not> (scast nofiles :: guint64) > m" "calls = [Setrlimit (scast ?n) m]"
    using assms by (auto simp: util_set_rlimits_def Let_def split: if_splits)
  have "uint (scast ?n :: guint64) = sint ?n" "sint nofiles \<le> sint ?n"
    using pos(1) uint_scast_nonneg [of ?n] by auto
  moreover have "(scast ?n :: guint64) \<le> m"
    using pos(2) [unfolded not_less] uint_ucast_le [of m] sint_nonneg_uint [of "ucast m"] uint_scast_nonneg [of "ucast m"]
    by (auto simp: word_le_def)
  ultimately show ?thesis using pos by (intro exI [of _ "scast ?n"]) auto
qed

theorem util_set_rlimits_bounds_witness:
  "\<exists>cur calls. util_set_rlimits (Some 20000) True 1024 = (Returned 0, calls) \<and>
     calls = [Setrlimit cur 20000] \<and> cur \<le> 20000"
proof -
  obtain calls where "util_set_rlimits (Some 20000) True 1024 = (Returned 0, calls)"
    by (simp add: util_set_rlimits_def)
  with util_set_rlimits_bounds [OF this] show ?thesis by blast
qed

text \<open>The daemon never changes to the directory it is given; and where \<open>chdir(NULL)\<close> fails,
  as it does in every POSIX system, a child without a directory is never a daemon.\<close>

theorem util_daemonize_chdir:
  "Chdir (Some root) \<notin> set (snd (util_daemonize fork setsid_ok chdir_ok null_fd dup_ok close_ok r noclose)) \<and>
   (chdir_ok None \<or> fst (util_daemonize ForkChild setsid_ok chdir_ok null_fd dup_ok close_ok None noclose) = Returned (-1))"
proof -
  have "Chdir (Some root) \<notin> set (snd (dup_all dup_ok fd ns))" for fd ns
    by (induction ns) (auto split: prod.split)
  then have "Chdir (Some root) \<notin> set (snd (util_daemonize fork setsid_ok chdir_ok null_fd dup_ok close_ok r noclose))"
    by (cases fork; cases null_fd) (auto simp: util_daemonize_def Let_def split_def simp del: dup_all.simps)
  then show ?thesis by (simp add: util_daemonize_def)
qed

end
