(* ===== verification/Spec2Isabelle.thy ===== *)
theory Spec2Isabelle
  imports Conn_Pool_Props Filter_Manager_Props Cluster_Manager_Props Http1_Codec_Props Dispatcher_Props Post_Queue Thread_Local_Props
    Dns_Cluster_Props Load_Balance Util
begin

text \<open>
  A model of RProxy, an HTTP/1 reverse proxy in C on libevent, libevhtp and GLib, and of what its parts promise.

  \<^bold>\<open>The program.\<close> A client's bytes arrive at a network connection (\<^verbatim>\<open>src/src/rp-net-conn-impl.c\<close>), which reads a
  bufferevent through a transport socket (\<^verbatim>\<open>src/src/network/\<close>) and hands them to its chain of network filters
  (\<^verbatim>\<open>rp-net-filter-mgr-impl.c\<close>). The last of these is the HTTP connection manager (\<^verbatim>\<open>rp-http-conn-manager-impl.c\<close>). It
  feeds the HTTP/1 codec (\<^verbatim>\<open>src/src/http1/\<close>), which runs libevhtp's parser and turns its callbacks into calls of a
  stream's decoder. A stream sends them through a chain of HTTP filters (\<^verbatim>\<open>rp-filter-manager.c\<close>). The last of them,
  the router, takes a connection to an upstream server from a pool (\<^verbatim>\<open>src/src/common/conn_pool/\<close>) of the cluster that
  the cluster manager (\<^verbatim>\<open>src/src/upstream/rp-cluster-manager-impl.c\<close>) keeps under the rule's name. The response comes back
  the same way, through the client side of the codec, the filters in the other direction, and the encoders.
  Beside this path stands the older one of \<^verbatim>\<open>src/src/upstream.c\<close> with its own choice of an upstream, and the
  helpers for headers and strings.

  \<^bold>\<open>The style of the model.\<close> A structure is a record with the fields of the source, an enumeration a datatype, a
  function of the source a function of the same name that takes and returns the state it changes. Numbers that can
  wrap are words. \<open>None\<close> is what the C code does not survive or does not return from: a failed assertion, a call through
  a slot of a class that is not set, the use of memory that was freed, an endless loop. Loops are structural or
  well-founded recursion where they end by themselves, and \<open>partial_function (option)\<close> where that is a theorem. Where
  functions call each other through a function pointer the pointer is an argument. Code outside of \<^verbatim>\<open>src/\<close> (libevent,
  libevhtp, GLib's URL parser, the system) and the handlers of the next component are fields of an environment record,
  and what the theorems ask of them is a predicate on that record, shown to hold of an example beside each theorem.

  \<^bold>\<open>The theories.\<close>
  \<^item> \<^verbatim>\<open>RP_Prelude\<close>: words, ASCII and list functions of GLib, runs of calls (\<open>run_calls\<close>, \<open>accepted\<close>) and the locale
    \<open>invariant_system\<close>: an invariant that every accepted call keeps holds after every run, and no call of a run fails.
    It is interpreted on the connection pool (twice), the filter chain, the cluster manager, the dispatcher and
    the thread-local storage.
  \<^item> \<^verbatim>\<open>Scheduler\<close>: schedulable callbacks and timers of \<^verbatim>\<open>src/src/event/\<close>, with the eventfd between them and the loop. A
    callback that counts as scheduled runs, until it is cancelled; a timer is exact below a second.
  \<^item> \<^verbatim>\<open>Dispatcher\<close>, \<^verbatim>\<open>Dispatcher_Props\<close>: the dispatcher of \<^verbatim>\<open>rp-dispatcher-impl.c\<close> with its lists of objects to release,
    objects to destroy and callbacks to run. What is released may hand over more while the list is worked off, and
    such calls nest one deep. Nothing that is handed over is lost or handled twice, and a turn works its list off.
  \<^item> \<^verbatim>\<open>Post_Queue\<close>: posting from other threads, as steps that interleave with the loop. No callback is lost and the
    steps come to rest, with a weight that every step lowers.
  \<^item> \<^verbatim>\<open>Thread_Local\<close>, \<^verbatim>\<open>Thread_Local_Props\<close>: the slots of \<^verbatim>\<open>src/src/thread_local/\<close>, the threads in any interleaving. A callback
    runs once on each thread and the completion after all of them; removing a slot crashes.
  \<^item> \<^verbatim>\<open>Address\<close>: IPv4 and IPv6 addresses of \<^verbatim>\<open>src/src/network/\<close> and their texts; an IPv4 address reads back.
  \<^item> \<^verbatim>\<open>Host_Set\<close>: vectors and maps of hosts, host sets and priority sets with their reference counts, in a store.
  \<^item> \<^verbatim>\<open>Net_Conn\<close>, \<^verbatim>\<open>Net_Conn_Props\<close>: the network connection with its transport socket, its bufferevent handle and both
    filter chains. What libevent reports is a list of inputs. Bytes reach the peer in the order they were written, for
    every order of writes, events and closing; and ways in which a connection goes wrong.
  \<^item> \<^verbatim>\<open>Http1_Encoder\<close>, \<^verbatim>\<open>Http1_Encoder_Props\<close>: the encoders of requests and responses. A streamed response parses back,
    by a reader written against the format, into its headers and body.
  \<^item> \<^verbatim>\<open>Http1_Codec\<close>, \<^verbatim>\<open>Http1_Server\<close>, \<^verbatim>\<open>Http1_Client\<close>, \<^verbatim>\<open>Http1_Codec_Props\<close>: the hooks of the parser, the dispatch loop, the two
    classes of connections, and the loop of the connection manager. The parser itself is a function from what it was fed
    to the hooks it calls. A request is decoded whole and in order, into whatever pieces it is cut; errors are fatal.
  \<^item> \<^verbatim>\<open>Filter_Manager\<close>, \<^verbatim>\<open>Filter_Manager_Inv\<close>, \<^verbatim>\<open>Filter_Manager_Props\<close>: the HTTP filter chain, both directions. The locale
    \<open>passive_filters\<close> states what filters promise; for them no assertion fails and every filter is called in order. The
    recursion between continuing and iterating is tied with fuel; twice the length of the chain, and two, are enough.
  \<^item> \<^verbatim>\<open>Active_Client\<close>, \<^verbatim>\<open>Conn_Pool\<close>, \<^verbatim>\<open>Conn_Pool_Inv\<close>, \<^verbatim>\<open>Conn_Pool_Count\<close>, \<^verbatim>\<open>Conn_Pool_Props\<close>: the connection pool. Its lists and counters
    describe its clients after every run, nothing crashes, shutting down ends; its capacity is tracked wrongly.
  \<^item> \<^verbatim>\<open>Resources\<close>: the circuit breakers, with the locale \<open>limit\<close>.
  \<^item> \<^verbatim>\<open>Cluster_Manager\<close>, \<^verbatim>\<open>Cluster_Manager_Props\<close>: loading, warming and updating clusters with the reference counts of their
    data. The manager refines a map from names to a serving and a prepared configuration.
  \<^item> \<^verbatim>\<open>Tokenizer\<close>, \<^verbatim>\<open>Header_Value\<close>, \<^verbatim>\<open>Header_Utility\<close>: the parser of header values and what is decided from headers. Where the
    C code reads freed memory or indexes with a signed character, the model does.
  \<^item> \<^verbatim>\<open>Load_Balance\<close>: the choice of an upstream, with the locale \<open>chooser\<close> for the balancing methods.
  \<^item> \<^verbatim>\<open>Glob\<close>, \<^verbatim>\<open>Util\<close>: wildcards and the rest of \<^verbatim>\<open>src/src/util.c\<close>, system calls as a trace.

  \<^bold>\<open>Not modelled.\<close> The router and the streams of the connection manager (parameters of the filter chain's and the
  codec's models), the maps of pools, the workers' copies of clusters, DNS, TLS, the polling of libevent, the reading of
  the configuration file, compression and logging. The lists of callbacks of a stream and
  the stream wrappers of the codec are left out, and so is what the decoders do while they are called, which theorems
  on the codec assume to leave the connection alone.
\<close>

end
